(* ===== verification/Prelude.thy ===== *)
theory Prelude
  imports Main "HOL-Library.Word" "HOL-Library.Char_ord" "HOL-Library.List_Lexorder"
begin

text \<open>
  What every component of the model shares: Go errors as values (sentinel errors, wrapped
  errors, \<^verbatim>\<open>errors.Is\<close>, the text of an error), the result type of a Go function
  that may fail, the functions of the Go package \<^verbatim>\<open>strings\<close> that the program uses
  (a Go string is its bytes, a \<^typ>\<open>char list\<close>), 64-bit durations, and the generic
  lemmas and collections the component proofs use.
\<close>

named_theorems go_simps "unfolding of results, errors and the small string functions"

section \<open>Errors\<close>

text \<open>The package-level error variables the code compares against with \<^verbatim>\<open>errors.Is\<close>.\<close>

datatype sentinel =
    ErrProjectNotFound | ErrInvalidName | ErrAlreadyExists
  | ErrKeyNotFound | ErrKeyRevoked | ErrKeyExpired | ErrMismatch
  | ErrTokenNotFound | ErrTokenRevoked | ErrTokenInvalid
  | ErrNoBearer | ErrNeonNotFound
  | ErrCanceled | ErrDeadlineExceeded
  | ErrDocNotFound | ErrRestDisabled | ErrNoRows

text \<open>
  An error value: a sentinel, an error made by a library or by the database (known by its
  text), an error made by \<^verbatim>\<open>errors.New\<close> or \<^verbatim>\<open>fmt.Errorf\<close>, or an error wrapped
  with \<^verbatim>\<open>fmt.Errorf("...: %w", err)\<close>.
\<close>

datatype goerr = Sentinel sentinel | Ext string | Msg string | Wrap string goerr

fun errors_is :: "goerr \<Rightarrow> sentinel \<Rightarrow> bool" where
  "errors_is (Sentinel s) t = (s = t)"
| "errors_is (Ext _) t = False"
| "errors_is (Msg _) t = False"
| "errors_is (Wrap _ e) t = errors_is e t"

fun sentinel_text :: "sentinel \<Rightarrow> string" where
  "sentinel_text ErrProjectNotFound = ''project not found''"
| "sentinel_text ErrInvalidName = ''invalid project name''"
| "sentinel_text ErrAlreadyExists = ''project already exists''"
| "sentinel_text ErrKeyNotFound = ''key not found''"
| "sentinel_text ErrKeyRevoked = ''key revoked''"
| "sentinel_text ErrKeyExpired = ''key expired''"
| "sentinel_text ErrMismatch = ''argon2id: hash mismatch''"
| "sentinel_text ErrTokenNotFound = ''admin token not found''"
| "sentinel_text ErrTokenRevoked = ''admin token revoked or expired''"
| "sentinel_text ErrTokenInvalid = ''invalid admin token''"
| "sentinel_text ErrNoBearer = ''missing bearer token''"
| "sentinel_text ErrNeonNotFound = ''neon: not found''"
| "sentinel_text ErrCanceled = ''context canceled''"
| "sentinel_text ErrDeadlineExceeded = ''context deadline exceeded''"
| "sentinel_text ErrDocNotFound = ''pwrap: not found''"
| "sentinel_text ErrRestDisabled = ''pwrap: REST integration not enabled on this pwrapd''"
| "sentinel_text ErrNoRows = ''no rows in result set''"

text \<open>\<^verbatim>\<open>err.Error()\<close>.\<close>

fun err_text :: "goerr \<Rightarrow> string" where
  "err_text (Sentinel s) = sentinel_text s"
| "err_text (Ext s) = s"
| "err_text (Msg s) = s"
| "err_text (Wrap s e) = s @ err_text e"

text \<open>A pure Go function returning \<^verbatim>\<open>(T, error)\<close>.\<close>

type_synonym 'a result = "goerr + 'a"

definition bind_r :: "'a result \<Rightarrow> ('a \<Rightarrow> 'b result) \<Rightarrow> 'b result" where
  "bind_r r f = (case r of Inl e \<Rightarrow> Inl e | Inr x \<Rightarrow> f x)"

lemma bind_r_simps [simp]:
  "bind_r (Inl e) f = Inl e" "bind_r (Inr x) f = f x"
  by (simp_all add: bind_r_def)

lemma bind_r_Inr: "bind_r r f = Inr y \<longleftrightarrow> (\<exists>x. r = Inr x \<and> f x = Inr y)"
  by (cases r) auto

section \<open>Durations\<close>

text \<open>
  \<^verbatim>\<open>time.Duration\<close> is an \<^verbatim>\<open>int64\<close> number of nanoseconds: products wrap around.
  An instant (\<^verbatim>\<open>time.Time\<close>, \<^verbatim>\<open>timestamptz\<close>) is an unbounded integer, in
  nanoseconds since the epoch.
\<close>

type_synonym duration = "64 word"
type_synonym instant = int

abbreviation second :: duration where "second \<equiv> 1000000000"
abbreviation minute :: duration where "minute \<equiv> 60 * second"
abbreviation hour :: duration where "hour \<equiv> 3600 * second"

text \<open>\<^verbatim>\<open>time.Duration(n) * unit\<close> for an \<^verbatim>\<open>int\<close> \<open>n\<close>.\<close>

definition dur_mul :: "int \<Rightarrow> duration \<Rightarrow> duration" where
  "dur_mul n unit = word_of_int n * unit"

definition time_add :: "instant \<Rightarrow> duration \<Rightarrow> instant" where
  "time_add t d = t + sint d"

lemma sint_word_of_int_small:
  "- (2 ^ 63) \<le> n \<Longrightarrow> n < 2 ^ 63 \<Longrightarrow> sint (word_of_int n :: 64 word) = n"
  by (simp add: sint_sbintrunc' signed_take_bit_int_eq_self)

lemma sint_dur_mul:
  assumes "- (2 ^ 63) \<le> n * k" "n * k < 2 ^ 63"
  shows "sint (dur_mul n (word_of_int k)) = n * k"
proof -
  have "dur_mul n (word_of_int k) = word_of_int (n * k)"
    by (simp add: dur_mul_def)
  with assms sint_word_of_int_small [of "n * k"] show ?thesis by simp
qed

end
