(* ===== verification/Go_Strings.thy ===== *)
theory Go_Strings
  imports Prelude
begin

text \<open>
  The functions of Go's standard packages \<^verbatim>\<open>strings\<close> and \<^verbatim>\<open>fmt\<close> that the
  program calls, on byte strings: prefixes, trimming, lower case, replacement, splitting,
  joining, searching, and the decimal numbers of \<^verbatim>\<open>Sprintf\<close> and \<^verbatim>\<open>Sscanf\<close>.
\<close>

section \<open>Prefixes and search\<close>

definition has_prefix :: "string \<Rightarrow> string \<Rightarrow> bool" where
  "has_prefix p s \<longleftrightarrow> take (length p) s = p"

lemma has_prefix_append [simp]: "has_prefix p (p @ s)"
  by (simp add: has_prefix_def)

lemma has_prefix_iff: "has_prefix p s \<longleftrightarrow> (\<exists>r. s = p @ r)"
  by (metis append_eq_conv_conj has_prefix_def)

fun str_contains :: "string \<Rightarrow> string \<Rightarrow> bool" where
  "str_contains sub [] \<longleftrightarrow> sub = []"
| "str_contains sub (c # s) \<longleftrightarrow> has_prefix sub (c # s) \<or> str_contains sub s"

lemma str_contains_prefix: "has_prefix sub s \<Longrightarrow> str_contains sub s"
  by (cases s) (auto simp: has_prefix_def)

lemma str_contains_append [simp]: "str_contains sub (a @ sub @ b)"
proof (induction a)
  case Nil
  then show ?case by (simp add: str_contains_prefix)
qed simp

section \<open>White space\<close>

definition ascii :: "char \<Rightarrow> bool" where
  "ascii c \<longleftrightarrow> of_char c < (128::nat)"

text \<open>
  The UTF-8 encodings of the runes \<^verbatim>\<open>unicode.IsSpace\<close> accepts: one byte, two bytes
  (U+0085, U+00A0), three bytes (U+1680, U+2000 to U+200A, U+2028, U+2029, U+202F, U+205F,
  U+3000).
\<close>

definition ws1 :: "char list" where
  "ws1 = [CHR 0x09, CHR 0x0A, CHR 0x0B, CHR 0x0C, CHR 0x0D, CHR 0x20]"

definition ws2 :: "char list list" where
  "ws2 = [[CHR 0xC2, CHR 0x85], [CHR 0xC2, CHR 0xA0]]"

definition ws3 :: "char list list" where
  "ws3 = [[CHR 0xE1, CHR 0x9A, CHR 0x80], [CHR 0xE2, CHR 0x80, CHR 0x80],
    [CHR 0xE2, CHR 0x80, CHR 0x81], [CHR 0xE2, CHR 0x80, CHR 0x82], [CHR 0xE2, CHR 0x80, CHR 0x83],
    [CHR 0xE2, CHR 0x80, CHR 0x84], [CHR 0xE2, CHR 0x80, CHR 0x85], [CHR 0xE2, CHR 0x80, CHR 0x86],
    [CHR 0xE2, CHR 0x80, CHR 0x87], [CHR 0xE2, CHR 0x80, CHR 0x88], [CHR 0xE2, CHR 0x80, CHR 0x89],
    [CHR 0xE2, CHR 0x80, CHR 0x8A], [CHR 0xE2, CHR 0x80, CHR 0xA8], [CHR 0xE2, CHR 0x80, CHR 0xA9],
    [CHR 0xE2, CHR 0x80, CHR 0xAF], [CHR 0xE2, CHR 0x81, CHR 0x9F], [CHR 0xE3, CHR 0x80, CHR 0x80]]"

text \<open>
  One white-space rune taken from the front of \<open>s\<close>; \<open>f\<close> is \<open>id\<close>, or \<open>rev\<close> when
  \<open>s\<close> is a reversed string and the rune stands at its end.
\<close>

fun drop_ws :: "(string \<Rightarrow> string) \<Rightarrow> string \<Rightarrow> string option" where
  "drop_ws f [] = None"
| "drop_ws f [a] = (if a \<in> set ws1 then Some [] else None)"
| "drop_ws f [a, b] = (if a \<in> set ws1 then Some [b]
     else if f [a, b] \<in> set ws2 then Some [] else None)"
| "drop_ws f (a # b # c # s) = (if a \<in> set ws1 then Some (b # c # s)
     else if f [a, b] \<in> set ws2 then Some (c # s)
     else if f [a, b, c] \<in> set ws3 then Some s else None)"

lemma drop_ws_shorter: "drop_ws f s = Some r \<Longrightarrow> length r < length s"
  by (induction f s rule: drop_ws.induct) (auto split: if_splits)

function trim_front :: "(string \<Rightarrow> string) \<Rightarrow> string \<Rightarrow> string" where
  "trim_front f s = (case drop_ws f s of None \<Rightarrow> s | Some r \<Rightarrow> trim_front f r)"
  by pat_completeness auto
termination
  by (relation "measure (\<lambda>(f, s). length s)") (auto dest: drop_ws_shorter)

declare trim_front.simps [simp del]

text \<open>\<^verbatim>\<open>strings.TrimSpace\<close>.\<close>

definition trim_space :: "string \<Rightarrow> string" where
  "trim_space s = rev (trim_front rev (rev (trim_front id s)))"

lemma trim_front_stop: "drop_ws f s = None \<Longrightarrow> trim_front f s = s"
  by (simp add: trim_front.simps)

lemma trim_front_suffix: "\<exists>p. s = p @ trim_front f s"
proof (induction f s rule: trim_front.induct)
  case (1 f s)
  have drop: "\<exists>p. s = p @ r" if "drop_ws f s = Some r" for r
    using that by (induction f s rule: drop_ws.induct) (auto split: if_splits)
  show ?case
  proof (cases "drop_ws f s")
    case None
    then show ?thesis by (auto simp: trim_front_stop)
  next
    case (Some r)
    from drop [OF Some] 1 [OF Some] show ?thesis
      by (metis Some append.assoc option.simps(5) trim_front.simps)
  qed
qed

lemma trim_space_infix: "\<exists>p q. s = p @ trim_space s @ q"
proof -
  obtain p where p: "s = p @ trim_front id s" using trim_front_suffix by metis
  obtain q where "rev (trim_front id s) = q @ trim_front rev (rev (trim_front id s))"
    using trim_front_suffix by metis
  then have "trim_front id s = trim_space s @ rev q"
    unfolding trim_space_def by (metis rev_append rev_rev_ident)
  with p have "s = p @ trim_space s @ rev q" by simp
  then show ?thesis by blast
qed

lemma length_trim_space: "length (trim_space s) \<le> length s"
proof -
  obtain p q where "s = p @ trim_space s @ q" using trim_space_infix by blast
  then have "length s = length p + length (trim_space s) + length q"
    by (metis add.assoc length_append)
  then show ?thesis by simp
qed

lemma set_trim_space: "set (trim_space s) \<subseteq> set s"
proof -
  obtain p q where "s = p @ trim_space s @ q" using trim_space_infix by blast
  then show ?thesis by (metis Un_upper1 Un_upper2 order.trans set_append)
qed

text \<open>A string whose bytes are printable ASCII is left alone.\<close>

definition graphic :: "char \<Rightarrow> bool" where
  "graphic c \<longleftrightarrow> 32 < (of_char c :: nat) \<and> of_char c < (127::nat)"

lemma graphic_not_ws: "graphic c \<Longrightarrow> c \<notin> set ws1"
  by (auto simp: graphic_def ws1_def)

lemma ws_not_graphic: "w \<in> set ws2 \<union> set ws3 \<Longrightarrow> c \<in> set w \<Longrightarrow> \<not> graphic c"
  unfolding ws2_def ws3_def graphic_def by (auto simp del: of_char_def)

lemma drop_ws_graphic:
  assumes "\<forall>c \<in> set s. graphic c" "f = id \<or> f = rev"
  shows "drop_ws f s = None"
  using assms
proof (induction f s rule: drop_ws.induct)
  case (3 f a b)
  then have "f [a, b] \<notin> set ws2"
    using ws_not_graphic [of "f [a, b]" a] by auto
  with 3 show ?case by (auto dest: graphic_not_ws)
next
  case (4 f a b c s)
  then have "f [a, b] \<notin> set ws2" "f [a, b, c] \<notin> set ws3"
    using ws_not_graphic [of "f [a, b]" a] ws_not_graphic [of "f [a, b, c]" a] by auto
  with 4 show ?case by (auto dest: graphic_not_ws)
qed (auto dest: graphic_not_ws)

lemma trim_space_graphic: "\<forall>c \<in> set s. graphic c \<Longrightarrow> trim_space s = s"
  by (simp add: trim_space_def trim_front_stop drop_ws_graphic)

section \<open>Lower case\<close>

definition ascii_lower :: "char \<Rightarrow> char" where
  "ascii_lower c = (if 65 \<le> (of_char c :: nat) \<and> of_char c \<le> (90::nat)
     then char_of (of_char c + (32::nat)) else c)"

text \<open>
  \<^verbatim>\<open>strings.ToLower\<close>: byte by byte on an ASCII string; any other string takes the slow
  path through the Unicode tables, \<open>ulower\<close>, which is a parameter of the model.
\<close>

definition to_lower :: "(string \<Rightarrow> string) \<Rightarrow> string \<Rightarrow> string" where
  "to_lower ulower s = (if \<forall>c \<in> set s. ascii c then map ascii_lower s else ulower s)"

section \<open>Replacing, trimming a cut set, splitting, joining\<close>

text \<open>\<^verbatim>\<open>strings.ReplaceAll(s, c, r)\<close> for a one-byte \<open>c\<close>.\<close>

definition replace_all :: "char \<Rightarrow> string \<Rightarrow> string \<Rightarrow> string" where
  "replace_all c r s = concat (map (\<lambda>x. if x = c then r else [x]) s)"

lemma replace_all_simps [simp]:
  "replace_all c r [] = []"
  "replace_all c r (x # s) = (if x = c then r else [x]) @ replace_all c r s"
  by (simp_all add: replace_all_def)

lemma replace_all_id: "c \<notin> set s \<Longrightarrow> replace_all c r s = s"
  by (induction s) auto

text \<open>\<^verbatim>\<open>strings.TrimRight(s, c)\<close> and \<^verbatim>\<open>strings.Trim(s, c)\<close>.\<close>

definition trim_right :: "char \<Rightarrow> string \<Rightarrow> string" where
  "trim_right c s = rev (dropWhile (\<lambda>x. x = c) (rev s))"

definition trim_both :: "char \<Rightarrow> string \<Rightarrow> string" where
  "trim_both c s = trim_right c (dropWhile (\<lambda>x. x = c) s)"

lemma set_trim_right: "set (trim_right c s) \<subseteq> set s"
  by (auto simp: trim_right_def dest: set_dropWhileD)

lemma set_trim_both: "set (trim_both c s) \<subseteq> set s"
  using set_trim_right [of c "dropWhile (\<lambda>x. x = c) s"]
  by (auto simp: trim_both_def dest: set_dropWhileD)

lemma length_trim_right: "length (trim_right c s) \<le> length s"
  unfolding trim_right_def by (metis length_dropWhile_le length_rev)

lemma length_trim_both: "length (trim_both c s) \<le> length s"
  unfolding trim_both_def using length_trim_right length_dropWhile_le order.trans by blast

lemma trim_right_last: "trim_right c s \<noteq> [] \<Longrightarrow> last (trim_right c s) \<noteq> c"
  using hd_dropWhile [of "\<lambda>x. x = c" "rev s"] by (auto simp: trim_right_def last_rev)

lemma trim_right_hd: "trim_right c s \<noteq> [] \<Longrightarrow> hd (trim_right c s) = hd s"
proof -
  assume ne: "trim_right c s \<noteq> []"
  have "s = trim_right c s @ rev (takeWhile (\<lambda>x. x = c) (rev s))"
    by (simp add: trim_right_def flip: rev_append)
  with ne show ?thesis by (metis hd_append2)
qed

lemma trim_both_ends:
  assumes "trim_both c s \<noteq> []"
  shows "hd (trim_both c s) \<noteq> c" "last (trim_both c s) \<noteq> c"
proof -
  have ne: "dropWhile (\<lambda>x. x = c) s \<noteq> []"
    using assms by (metis dropWhile.simps(1) rev.simps(1) trim_both_def trim_right_def)
  then have "hd (dropWhile (\<lambda>x. x = c) s) \<noteq> c" by (rule hd_dropWhile)
  with assms show "hd (trim_both c s) \<noteq> c"
    by (simp add: trim_both_def trim_right_hd)
  from assms show "last (trim_both c s) \<noteq> c"
    by (simp add: trim_both_def trim_right_last)
qed

text \<open>\<^verbatim>\<open>strings.Split(s, c)\<close> for a one-byte separator, and \<^verbatim>\<open>strings.Join\<close>.\<close>

fun split_on :: "char \<Rightarrow> string \<Rightarrow> string list" where
  "split_on c [] = [[]]"
| "split_on c (x # s) = (if x = c then [] # split_on c s
     else (x # hd (split_on c s)) # tl (split_on c s))"

fun join :: "string \<Rightarrow> string list \<Rightarrow> string" where
  "join sep [] = []"
| "join sep [s] = s"
| "join sep (s # t # r) = s @ sep @ join sep (t # r)"

lemma split_on_ne [simp]: "split_on c s \<noteq> []"
  by (cases s) auto

lemma split_on_plain: "c \<notin> set s \<Longrightarrow> split_on c s = [s]"
  by (induction s) auto

lemma split_on_append: "c \<notin> set s \<Longrightarrow> split_on c (s @ c # t) = s # split_on c t"
  by (induction s) auto

lemma split_join:
  "\<forall>s \<in> set xs. c \<notin> set s \<Longrightarrow> xs \<noteq> [] \<Longrightarrow> split_on c (join [c] xs) = xs"
  by (induction "[c]" xs rule: join.induct) (auto simp: split_on_plain split_on_append)

section \<open>Decimal numbers\<close>

definition digit_char :: "nat \<Rightarrow> char" where
  "digit_char d = char_of (48 + d)"

definition is_digit :: "char \<Rightarrow> bool" where
  "is_digit c \<longleftrightarrow> 48 \<le> (of_char c :: nat) \<and> of_char c \<le> (57::nat)"

definition digit_val :: "char \<Rightarrow> nat" where
  "digit_val c = of_char c - 48"

lemma digit_char_simps:
  "d < 10 \<Longrightarrow> is_digit (digit_char d)" "d < 10 \<Longrightarrow> digit_val (digit_char d) = d"
  by (simp_all add: digit_char_def is_digit_def digit_val_def of_char_of)

text \<open>\<^verbatim>\<open>%d\<close> of a natural number.\<close>

fun show_nat :: "nat \<Rightarrow> string" where
  "show_nat n = (if n < 10 then [digit_char n] else show_nat (n div 10) @ [digit_char (n mod 10)])"

declare show_nat.simps [simp del]

text \<open>\<^verbatim>\<open>%d\<close> of a signed integer.\<close>

definition show_int :: "int \<Rightarrow> string" where
  "show_int n = (if n < 0 then CHR ''-'' # show_nat (nat (- n)) else show_nat (nat n))"

definition read_digits :: "string \<Rightarrow> nat" where
  "read_digits = foldl (\<lambda>n c. 10 * n + digit_val c) 0"

lemma show_nat_digits: "c \<in> set (show_nat n) \<Longrightarrow> is_digit c"
  by (induction n rule: show_nat.induct)
    (subst (asm) show_nat.simps, auto simp: digit_char_simps split: if_splits)

lemma show_nat_ne [simp]: "show_nat n \<noteq> []"
  by (subst show_nat.simps) simp

lemma read_show_nat [simp]: "read_digits (show_nat n) = n"
proof (induction n rule: show_nat.induct)
  case (1 n)
  then show ?case
    by (subst show_nat.simps) (auto simp: read_digits_def digit_char_simps)
qed

text \<open>
  The verb \<^verbatim>\<open>%d\<close> of \<^verbatim>\<open>Sscanf\<close> into an unsigned variable of \<open>bits\<close> bits: white
  space (but no newline) is skipped, then the longest run of digits is read; an empty run, or
  a value of more than \<open>bits\<close> bits, is an error. Gives the value and the rest of the input.
\<close>

function skip_blank :: "string \<Rightarrow> string option" where
  "skip_blank s = (case s of [] \<Rightarrow> Some []
     | c # r \<Rightarrow> if c = CHR 0x0A then None
         else case drop_ws id s of None \<Rightarrow> Some s | Some r' \<Rightarrow> skip_blank r')"
  by pat_completeness auto
termination
  by (relation "measure length") (auto dest: drop_ws_shorter)

declare skip_blank.simps [simp del]

definition scan_uint :: "nat \<Rightarrow> string \<Rightarrow> (nat \<times> string) option" where
  "scan_uint bits s = (case skip_blank s of None \<Rightarrow> None
     | Some t \<Rightarrow>
        let ds = takeWhile is_digit t; n = read_digits ds
        in if ds = [] \<or> 2 ^ bits \<le> n then None else Some (n, dropWhile is_digit t))"

lemma is_digit_graphic: "is_digit c \<Longrightarrow> graphic c"
  by (auto simp: is_digit_def graphic_def)

lemma skip_blank_digit: "is_digit c \<Longrightarrow> skip_blank (c # s) = Some (c # s)"
proof -
  assume d: "is_digit c"
  then have a: "c \<notin> set ws1" "ascii c" "c \<noteq> CHR 0x0A"
    by (auto simp: is_digit_def ascii_def ws1_def)
  have "w \<in> set ws2 \<union> set ws3 \<Longrightarrow> hd w \<noteq> c" for w
    using a(2) unfolding ws2_def ws3_def ascii_def by auto
  then have "[c, x] \<notin> set ws2" "[c, x, y] \<notin> set ws3" for x y
    by (metis Un_iff list.sel(1))+
  with a have "drop_ws id (c # s) = None"
    by (cases "(id :: string \<Rightarrow> string, c # s)" rule: drop_ws.cases) auto
  with a show ?thesis by (subst skip_blank.simps) simp
qed

lemma scan_show:
  assumes "n < 2 ^ bits" "r = [] \<or> \<not> is_digit (hd r)"
  shows "scan_uint bits (show_nat n @ r) = Some (n, r)"
proof -
  have ds: "\<forall>c \<in> set (show_nat n). is_digit c" using show_nat_digits by blast
  obtain c s where c: "show_nat n = c # s" by (cases "show_nat n") auto
  with ds have "skip_blank (show_nat n @ r) = Some (show_nat n @ r)"
    by (simp add: skip_blank_digit)
  moreover have "takeWhile is_digit (show_nat n @ r) = show_nat n"
    using ds assms(2) by (cases r) (auto simp: takeWhile_append2)
  moreover have "dropWhile is_digit (show_nat n @ r) = r"
    using ds assms(2) by (cases r) (auto simp: dropWhile_append2)
  ultimately show ?thesis using assms(1) by (simp add: scan_uint_def)
qed

text \<open>The same into an \<^verbatim>\<open>int\<close>, with an optional sign.\<close>

definition scan_int :: "string \<Rightarrow> (int \<times> string) option" where
  "scan_int s = (case skip_blank s of None \<Rightarrow> None
     | Some t \<Rightarrow>
        let neg = (t \<noteq> [] \<and> hd t = CHR ''-'');
            u = (if t \<noteq> [] \<and> (hd t = CHR ''-'' \<or> hd t = CHR ''+'') then tl t else t);
            ds = takeWhile is_digit u;
            n = (if neg then - int (read_digits ds) else int (read_digits ds))
        in if ds = [] \<or> n < - (2 ^ 63) \<or> 2 ^ 63 \<le> n then None else Some (n, dropWhile is_digit u))"

lemma scan_int_show:
  assumes "n < 2 ^ 63" "r = [] \<or> \<not> is_digit (hd r)"
  shows "scan_int (show_nat n @ r) = Some (int n, r)"
proof -
  have u: "scan_uint 63 (show_nat n @ r) = Some (n, r)" using assms by (rule scan_show)
  have ds: "\<forall>c \<in> set (show_nat n). is_digit c" using show_nat_digits by blast
  obtain c s where c: "show_nat n = c # s" by (cases "show_nat n") auto
  with ds have d: "is_digit c" by simp
  then have nc: "c \<noteq> CHR ''-''" "c \<noteq> CHR ''+''" by (auto simp: is_digit_def)
  have b: "skip_blank (show_nat n @ r) = Some (show_nat n @ r)" using c d by (simp add: skip_blank_digit)
  have "read_digits (takeWhile is_digit (show_nat n @ r)) = n" "dropWhile is_digit (show_nat n @ r) = r"
    "takeWhile is_digit (show_nat n @ r) \<noteq> []"
    using u b by (auto simp: scan_uint_def Let_def split: if_splits)
  moreover have "int n < 2 ^ 63" using assms(1) by (metis of_nat_less_iff of_nat_numeral of_nat_power)
  ultimately show ?thesis using c nc b by (simp add: scan_int_def Let_def)
qed

section \<open>Quoting for messages\<close>

text \<open>
  \<^verbatim>\<open>strconv.Quote\<close>, the verb \<^verbatim>\<open>%q\<close>: the delimiter and the backslash get a
  backslash, the control characters their escapes; the bytes of a printable UTF-8 text stay.
\<close>

definition hex_digit :: "nat \<Rightarrow> char" where
  "hex_digit n = ''0123456789abcdef'' ! n"

definition quote_char :: "char \<Rightarrow> string" where
  "quote_char c = (let n = (of_char c :: nat) in
     if n = 0x22 \<or> n = 0x5C then [CHR 0x5C, c]
     else if n = 7 then [CHR 0x5C, CHR ''a''] else if n = 8 then [CHR 0x5C, CHR ''b'']
     else if n = 12 then [CHR 0x5C, CHR ''f''] else if n = 10 then [CHR 0x5C, CHR ''n'']
     else if n = 13 then [CHR 0x5C, CHR ''r''] else if n = 9 then [CHR 0x5C, CHR ''t'']
     else if n = 11 then [CHR 0x5C, CHR ''v'']
     else if n < 32 \<or> n = 127 then [CHR 0x5C, CHR ''x'', hex_digit (n div 16), hex_digit (n mod 16)]
     else [c])"

definition go_quote :: "string \<Rightarrow> string" where
  "go_quote s = [CHR 0x22] @ concat (map quote_char s) @ [CHR 0x22]"

section \<open>UTF-8\<close>

text \<open>\<^verbatim>\<open>utf8.ValidString\<close>: what \<^verbatim>\<open>encoding/json\<close> renders without replacing bytes.\<close>

definition between :: "nat \<Rightarrow> nat \<Rightarrow> char \<Rightarrow> bool" where
  "between a b c \<longleftrightarrow> a \<le> of_char c \<and> of_char c \<le> b"

abbreviation cont :: "char \<Rightarrow> bool" where "cont \<equiv> between 128 191"

fun utf8_valid :: "string \<Rightarrow> bool" where
  "utf8_valid [] = True"
| "utf8_valid (a # s) =
    (if between 0 127 a then utf8_valid s
     else if between 194 223 a then (case s of b # t \<Rightarrow> cont b \<and> utf8_valid t | _ \<Rightarrow> False)
     else if between 224 239 a then (case s of b # c # t \<Rightarrow>
       between (if of_char a = (224 :: nat) then 160 else 128) (if of_char a = (237 :: nat) then 159 else 191) b \<and>
       cont c \<and> utf8_valid t | _ \<Rightarrow> False)
     else if between 240 244 a then (case s of b # c # d # t \<Rightarrow>
       between (if of_char a = (240 :: nat) then 144 else 128) (if of_char a = (244 :: nat) then 143 else 191) b \<and>
       cont c \<and> cont d \<and> utf8_valid t | _ \<Rightarrow> False)
     else False)"

text \<open>\<^verbatim>\<open>encoding/json\<close> replaces every byte that belongs to no rune by U+FFFD.\<close>

definition rune_error :: string where
  "rune_error = [CHR 0xEF, CHR 0xBF, CHR 0xBD]"

fun utf8_clean :: "string \<Rightarrow> string" where
  "utf8_clean [] = []"
| "utf8_clean (a # s) =
    (if between 0 127 a then a # utf8_clean s
     else case s of
       b # t \<Rightarrow>
         if between 194 223 a \<and> cont b then a # b # utf8_clean t
         else (case t of
           c # u \<Rightarrow>
             if between 224 239 a \<and> between (if of_char a = (224 :: nat) then 160 else 128)
                  (if of_char a = (237 :: nat) then 159 else 191) b \<and> cont c
             then a # b # c # utf8_clean u
             else (case u of
               d # v \<Rightarrow>
                 if between 240 244 a \<and> between (if of_char a = (240 :: nat) then 144 else 128)
                      (if of_char a = (244 :: nat) then 143 else 191) b \<and> cont c \<and> cont d
                 then a # b # c # d # utf8_clean v
                 else rune_error @ utf8_clean s
             | [] \<Rightarrow> rune_error @ utf8_clean s)
         | [] \<Rightarrow> rune_error @ utf8_clean s)
     | [] \<Rightarrow> rune_error @ utf8_clean s)"

lemma between_below: "between a b c \<Longrightarrow> b' < a \<Longrightarrow> \<not> between a' b' c"
  by (simp add: between_def)

lemma utf8_clean_valid: "utf8_valid s \<Longrightarrow> utf8_clean s = s"
proof (induction s rule: utf8_valid.induct)
  case (2 a s)
  note v = 2(5) [unfolded utf8_valid.simps(2)]
  note [simp del] = utf8_clean.simps(2) utf8_valid.simps(2) if_split
  consider (one) "between 0 127 a" | (two) "between 194 223 a" | (three) "between 224 239 a" | (four) "between 240 244 a"
    using v by (auto split: if_splits)
  then show ?case
  proof cases
    case one
    with 2(1) v show ?thesis by (simp add: utf8_clean.simps(2))
  next
    case two
    note n = between_below [OF two]
    obtain b t where s: "s = b # t" using v two n by (cases s) simp_all
    show ?thesis using 2(2) v two n unfolding s by (simp add: utf8_clean.simps(2) [of a])
  next
    case three
    note n = between_below [OF three]
    obtain b c t where s: "s = b # c # t" using v three n by (simp split: list.splits)
    show ?thesis using 2(3) v three n unfolding s by (simp add: utf8_clean.simps(2) [of a])
  next
    case four
    note n = between_below [OF four]
    obtain b c d t where s: "s = b # c # d # t" using v four n by (simp split: list.splits)
    show ?thesis using 2(4) v four n unfolding s by (simp add: utf8_clean.simps(2) [of a])
  qed
qed simp

end
