(* ===== verification/Base64.thy ===== *)
theory Base64
  imports Go_Strings
begin

text \<open>
  The three codecs of Go's standard package \<^verbatim>\<open>encoding/base64\<close> the program uses:
  \<^verbatim>\<open>StdEncoding\<close> (padded; the at-rest envelope and the encryption key),
  \<^verbatim>\<open>RawStdEncoding\<close> (argon2id hashes) and \<^verbatim>\<open>RawURLEncoding\<close> (generated secrets).
  Bytes are \<^typ>\<open>char\<close>s. The lemmas: decoding inverts encoding, the length of an encoding,
  and the alphabet of its output.
\<close>

section \<open>Alphabets\<close>

definition alnum :: string where
  "alnum = ''ABCDEFGHIJKLMNOPQRSTUVWXYZabcdefghijklmnopqrstuvwxyz0123456789''"

definition std_alphabet :: string where "std_alphabet = alnum @ ''+/''"

definition url_alphabet :: string where "url_alphabet = alnum @ ''-_''"

text \<open>An alphabet the codec can use: 64 different graphic characters, none of them the padding.\<close>

definition alphabet_ok :: "string \<Rightarrow> bool" where
  "alphabet_ok al \<longleftrightarrow> length al = 64 \<and> distinct al \<and> CHR ''='' \<notin> set al
     \<and> (\<forall>c \<in> set al. graphic c)"

lemma std_alphabet_ok: "alphabet_ok std_alphabet"
  by code_simp

lemma url_alphabet_ok: "alphabet_ok url_alphabet"
  by code_simp

definition b64_index :: "string \<Rightarrow> char \<Rightarrow> nat option" where
  "b64_index al c = find (\<lambda>i. al ! i = c) [0..<64]"

lemma b64_index_nth: "alphabet_ok al \<Longrightarrow> i < 64 \<Longrightarrow> b64_index al (al ! i) = Some i"
  unfolding b64_index_def find_Some_iff
  by (rule exI [of _ i]) (auto simp: alphabet_ok_def nth_eq_iff_index_eq)

lemma b64_index_pad: "alphabet_ok al \<Longrightarrow> b64_index al CHR ''='' = None"
  unfolding b64_index_def find_None_iff by (auto simp: alphabet_ok_def in_set_conv_nth)

lemma nth_alphabet_ne_pad: "alphabet_ok al \<Longrightarrow> i < 64 \<Longrightarrow> al ! i \<noteq> CHR ''=''"
  unfolding alphabet_ok_def by (metis nth_mem)

section \<open>Encoding\<close>

fun b64_encode :: "bool \<Rightarrow> string \<Rightarrow> string \<Rightarrow> string" where
  "b64_encode pad al (a # b # c # r) =
     (let n = of_char a * 65536 + of_char b * 256 + of_char c
      in [al ! (n div 262144), al ! (n div 4096 mod 64), al ! (n div 64 mod 64), al ! (n mod 64)])
     @ b64_encode pad al r"
| "b64_encode pad al [a, b] =
     (let n = of_char a * 1024 + of_char b * 4
      in [al ! (n div 4096), al ! (n div 64 mod 64), al ! (n mod 64)] @ (if pad then ''='' else []))"
| "b64_encode pad al [a] =
     (let n = of_char a * 16
      in [al ! (n div 64), al ! (n mod 64)] @ (if pad then ''=='' else []))"
| "b64_encode pad al [] = []"

section \<open>Decoding\<close>

text \<open>
  \<^verbatim>\<open>DecodeString\<close> skips carriage returns and newlines anywhere, refuses characters
  outside the alphabet, and does not look at the unused bits of the last character (the
  codecs are not \<^verbatim>\<open>Strict\<close>). \<open>None\<close> is a \<^verbatim>\<open>CorruptInputError\<close>.
\<close>

definition quad :: "string \<Rightarrow> char \<Rightarrow> char \<Rightarrow> char \<Rightarrow> char \<Rightarrow> nat option" where
  "quad al a b c d = (case (b64_index al a, b64_index al b, b64_index al c, b64_index al d) of
     (Some i, Some j, Some k, Some l) \<Rightarrow> Some (((i * 64 + j) * 64 + k) * 64 + l) | _ \<Rightarrow> None)"

definition dec3 :: "string \<Rightarrow> char \<Rightarrow> char \<Rightarrow> char \<Rightarrow> string option" where
  "dec3 al a b c = (case (b64_index al a, b64_index al b, b64_index al c) of
     (Some i, Some j, Some k) \<Rightarrow> let n = ((i * 64 + j) * 64 + k) div 4
       in Some [char_of (n div 256), char_of (n mod 256)] | _ \<Rightarrow> None)"

definition dec2 :: "string \<Rightarrow> char \<Rightarrow> char \<Rightarrow> string option" where
  "dec2 al a b = (case (b64_index al a, b64_index al b) of
     (Some i, Some j) \<Rightarrow> Some [char_of ((i * 64 + j) div 16)] | _ \<Rightarrow> None)"

fun b64_quads :: "bool \<Rightarrow> string \<Rightarrow> string \<Rightarrow> string option" where
  "b64_quads pad al (a # b # c # d # r) =
     (if pad \<and> d = CHR ''='' \<and> r = [] then
        (if c = CHR ''='' then dec2 al a b else dec3 al a b c)
      else case quad al a b c d of None \<Rightarrow> None
        | Some n \<Rightarrow> (case b64_quads pad al r of None \<Rightarrow> None
           | Some s \<Rightarrow> Some (char_of (n div 65536) # char_of (n div 256 mod 256) # char_of (n mod 256) # s)))"
| "b64_quads pad al [a, b, c] = (if pad then None else dec3 al a b c)"
| "b64_quads pad al [a, b] = (if pad then None else dec2 al a b)"
| "b64_quads pad al [a] = None"
| "b64_quads pad al [] = Some []"

definition b64_decode :: "bool \<Rightarrow> string \<Rightarrow> string \<Rightarrow> string option" where
  "b64_decode pad al s = b64_quads pad al (filter (\<lambda>c. c \<noteq> CHR 0x0A \<and> c \<noteq> CHR 0x0D) s)"

section \<open>The codecs\<close>

definition std_encode :: "string \<Rightarrow> string" where "std_encode = b64_encode True std_alphabet"
definition std_decode :: "string \<Rightarrow> string option" where "std_decode = b64_decode True std_alphabet"
definition raw_std_encode :: "string \<Rightarrow> string" where "raw_std_encode = b64_encode False std_alphabet"
definition raw_std_decode :: "string \<Rightarrow> string option" where "raw_std_decode = b64_decode False std_alphabet"
definition raw_url_encode :: "string \<Rightarrow> string" where "raw_url_encode = b64_encode False url_alphabet"
definition raw_url_decode :: "string \<Rightarrow> string option" where "raw_url_decode = b64_decode False url_alphabet"

section \<open>Round trip\<close>

lemma of_char_less: "of_char c < (256::nat)"
  using of_char_mod_256 [of c] by (metis mod_less_divisor zero_less_numeral)

lemma char_of_of_char_sum:
  "char_of ((of_char c :: nat)) = c"
  by simp

lemma div_steps:
  fixes n :: nat
  shows "n div 262144 = n div 64 div 64 div 64" "n div 4096 = n div 64 div 64"
    "n div 65536 = n div 256 div 256"
  by (simp_all flip: div_mult2_eq)

lemma radix64:
  fixes n :: nat
  shows "((n div 262144 * 64 + n div 4096 mod 64) * 64 + n div 64 mod 64) * 64 + n mod 64 = n"
    "(n div 4096 * 64 + n div 64 mod 64) * 64 + n mod 64 = n"
    "n div 64 * 64 + n mod 64 = n"
  by (simp_all only: div_steps div_mult_mod_eq)

lemma horner256:
  fixes q z :: nat
  assumes "z < 256"
  shows "(q * 256 + z) div 256 = q" "(q * 256 + z) mod 256 = z"
  using assms by simp_all

lemma sextet2:
  fixes x y :: nat
  assumes "x < 256" "y < 256"
  shows "(x * 1024 + y * 4) div 4096 < 64"
  by (rule less_mult_imp_div_less) (use assms in simp)

lemma sextets3:
  fixes x y z :: nat
  assumes "x < 256" "y < 256" "z < 256" "n = x * 65536 + y * 256 + z"
  shows "n div 262144 < 64" "n div 4096 mod 64 < 64" "n div 64 mod 64 < 64" "n mod 64 < 64"
    "((n div 262144 * 64 + n div 4096 mod 64) * 64 + n div 64 mod 64) * 64 + n mod 64 = n"
    "n div 65536 = x" "n div 256 mod 256 = y" "n mod 256 = z"
proof -
  have n: "n = (x * 256 + y) * 256 + z" using assms(4) by simp
  have "n < 16777216" using assms by simp
  then show "n div 262144 < 64" by (simp add: less_mult_imp_div_less)
  show "n mod 256 = z" unfolding n by (rule horner256 [OF assms(3)])
  have "n div 256 = x * 256 + y" unfolding n by (rule horner256 [OF assms(3)])
  then show "n div 65536 = x" "n div 256 mod 256 = y"
    using horner256 [OF assms(2)] by (simp_all only: div_steps)
qed (rule radix64 | simp)+

lemma quads_full:
  assumes "alphabet_ok al" "b64_quads pad al r = Some s"
  shows "b64_quads pad al (b64_encode pad al [a, b, c] @ r) = Some (a # b # c # s)"
proof -
  let ?n = "of_char a * 65536 + of_char b * 256 + of_char c :: nat"
  note S = sextets3 [OF of_char_less [of a] of_char_less [of b] of_char_less [of c] refl]
  have "quad al (al ! (?n div 262144)) (al ! (?n div 4096 mod 64)) (al ! (?n div 64 mod 64)) (al ! (?n mod 64))
     = Some ?n"
    unfolding quad_def b64_index_nth [OF assms(1) S(1)] b64_index_nth [OF assms(1) S(2)]
      b64_index_nth [OF assms(1) S(3)] b64_index_nth [OF assms(1) S(4)]
    by (simp only: option.case prod.case S(5))
  with assms(2) nth_alphabet_ne_pad [OF assms(1) S(4)] show ?thesis
    by (simp add: Let_def S(6-8))
qed

lemma quads_two: "alphabet_ok al \<Longrightarrow> b64_quads pad al (b64_encode pad al [a, b]) = Some [a, b]"
proof -
  assume al: "alphabet_ok al"
  let ?n = "of_char a * 1024 + of_char b * 4 :: nat"
  have lt: "of_char a < (256::nat)" "of_char b < (256::nat)" by (rule of_char_less)+
  have S: "?n div 4096 < 64" "?n div 64 mod 64 < 64" "?n mod 64 < 64"
    using sextet2 [OF lt] by simp_all
  have "?n = (of_char a * 256 + of_char b) * 4" by simp
  then have n: "?n div 4 = of_char a * 256 + of_char b"
    by (metis nonzero_mult_div_cancel_right zero_neq_numeral)
  have "dec3 al (al ! (?n div 4096)) (al ! (?n div 64 mod 64)) (al ! (?n mod 64)) = Some [a, b]"
    unfolding dec3_def b64_index_nth [OF al S(1)] b64_index_nth [OF al S(2)] b64_index_nth [OF al S(3)]
    by (simp only: option.case prod.case radix64 n Let_def horner256 [OF lt(2)] char_of_of_char_sum)
  with nth_alphabet_ne_pad [OF al S(3)] show ?thesis by (simp add: Let_def)
qed

lemma quads_one: "alphabet_ok al \<Longrightarrow> b64_quads pad al (b64_encode pad al [a]) = Some [a]"
proof -
  assume al: "alphabet_ok al"
  let ?n = "of_char a * 16 :: nat"
  have lt: "of_char a < (256::nat)" by (rule of_char_less)
  have S: "?n div 64 < 64" "?n mod 64 < 64" "?n div 16 = of_char a"
    using lt by (simp_all add: less_mult_imp_div_less)
  have "dec2 al (al ! (?n div 64)) (al ! (?n mod 64)) = Some [a]"
    unfolding dec2_def b64_index_nth [OF al S(1)] b64_index_nth [OF al S(2)]
    by (simp only: option.case prod.case radix64 S(3) char_of_of_char_sum)
  then show ?thesis by (simp add: Let_def)
qed

lemma quads_encode: "alphabet_ok al \<Longrightarrow> b64_quads pad al (b64_encode pad al s) = Some s"
proof (induction pad al s rule: b64_encode.induct)
  case (1 pad al a b c r)
  then show ?case using quads_full [of al pad "b64_encode pad al r" r a b c] by (simp add: Let_def)
next
  case (2 pad al a b)
  then show ?case by (rule quads_two)
next
  case (3 pad al a)
  then show ?case by (rule quads_one)
qed simp

lemma set_b64_encode:
  "alphabet_ok al \<Longrightarrow> set (b64_encode pad al s) \<subseteq> set al \<union> (if pad then {CHR ''=''} else {})"
proof (induction pad al s rule: b64_encode.induct)
  case (1 pad al a b c r)
  have "length al = 64" using 1 by (simp add: alphabet_ok_def)
  with 1 sextets3 [OF of_char_less [of a] of_char_less [of b] of_char_less [of c] refl]
  show ?case by (auto simp: Let_def)
next
  case (2 pad al a b)
  have al: "length al = 64" using 2 by (simp add: alphabet_ok_def)
  with sextet2 [OF of_char_less [of a] of_char_less [of b]] show ?case by (auto simp: Let_def)
next
  case (3 pad al a)
  have al: "length al = 64" using 3 by (simp add: alphabet_ok_def)
  have "of_char a < (256::nat)" by (rule of_char_less)
  then have "of_char a * 16 div 64 < (64::nat)" by (simp add: less_mult_imp_div_less)
  with al show ?case by (auto simp: Let_def)
qed simp

lemma b64_encode_graphic: "alphabet_ok al \<Longrightarrow> c \<in> set (b64_encode pad al s) \<Longrightarrow> graphic c"
  using set_b64_encode [of al pad s]
  by (auto simp: alphabet_ok_def graphic_def split: if_splits)

theorem b64_decode_encode: "alphabet_ok al \<Longrightarrow> b64_decode pad al (b64_encode pad al s) = Some s"
proof -
  assume al: "alphabet_ok al"
  have "\<not> graphic CHR 0x0A" "\<not> graphic CHR 0x0D" by (simp_all add: graphic_def)
  then have "filter (\<lambda>c. c \<noteq> CHR 0x0A \<and> c \<noteq> CHR 0x0D) (b64_encode pad al s) = b64_encode pad al s"
    using b64_encode_graphic [OF al] by (intro filter_True) blast
  then show ?thesis by (simp add: b64_decode_def quads_encode [OF al])
qed

lemma std_roundtrip [simp]: "std_decode (std_encode s) = Some s"
  by (simp add: std_decode_def std_encode_def b64_decode_encode std_alphabet_ok)

lemma raw_std_roundtrip [simp]: "raw_std_decode (raw_std_encode s) = Some s"
  by (simp add: raw_std_decode_def raw_std_encode_def b64_decode_encode std_alphabet_ok)

lemma raw_url_roundtrip [simp]: "raw_url_decode (raw_url_encode s) = Some s"
  by (simp add: raw_url_decode_def raw_url_encode_def b64_decode_encode url_alphabet_ok)

section \<open>Length and alphabet of an encoding\<close>

lemma length_raw_encode: "length (b64_encode False al s) = (4 * length s + 2) div 3"
proof (induction False al s rule: b64_encode.induct)
  case (1 al a b c r)
  then have "length (b64_encode False al (a # b # c # r)) = 4 + (4 * length r + 2) div 3"
    by (simp add: Let_def)
  then show ?case by simp
qed (simp_all add: Let_def)

lemma length_raw_url: "length (raw_url_encode s) = (4 * length s + 2) div 3"
  by (simp add: raw_url_encode_def length_raw_encode)

lemma set_raw_url: "set (raw_url_encode s) \<subseteq> set url_alphabet"
  using set_b64_encode [OF url_alphabet_ok, of False s] by (simp add: raw_url_encode_def)

lemma set_raw_std: "set (raw_std_encode s) \<subseteq> set std_alphabet"
  using set_b64_encode [OF std_alphabet_ok, of False s] by (simp add: raw_std_encode_def)

lemma url_alphabet_graphic: "c \<in> set url_alphabet \<Longrightarrow> graphic c"
  using url_alphabet_ok by (simp add: alphabet_ok_def)

end
