(* ===== verification/Database.thy ===== *)
theory Database
  imports Base64
begin

text \<open>
  The control-plane database as the services see it: the tables of
  \<^verbatim>\<open>migrations/controlplane/0001_init.up.sql\<close>, the roles, schemas and tenant tables
  of the Postgres server, and one round trip to the server. The services' SQL texts are
  translated where they stand (\<^verbatim>\<open>WHERE\<close> as a filter, \<^verbatim>\<open>UPDATE\<close> as a map over
  the rows, \<^verbatim>\<open>RETURNING\<close> as the row returned). What the program cannot control is the
  environment \<open>env\<close>: which round trips fail, the clocks, the random bytes, and the
  third-party functions.
\<close>

type_synonym uuid = "128 word"

section \<open>Rows and tables\<close>

record project_row =
  p_id :: uuid
  p_name :: string
  p_slug :: string
  p_role :: string
  p_schema :: string
  p_password :: string
  p_parent :: "uuid option"
  p_created :: instant
  p_updated :: instant
  p_deleted :: "instant option"

record key_row =
  k_id :: uuid
  k_project :: uuid
  k_prefix :: string
  k_hash :: string
  k_name :: string
  k_last_used :: "instant option"
  k_expires :: "instant option"
  k_created :: instant
  k_revoked :: "instant option"

record mig_row =
  m_id :: nat
  m_project :: uuid
  m_version :: string
  m_source :: string
  m_checksum :: string
  m_state :: string
  m_error :: "string option"
  m_started :: instant
  m_completed :: "instant option"

record eph_row =
  e_role :: string
  e_project :: uuid
  e_expires :: instant
  e_created :: instant

record token_row =
  t_id :: uuid
  t_prefix :: string
  t_hash :: string
  t_name :: string
  t_scopes :: "string list"
  t_last_used :: "instant option"
  t_expires :: "instant option"
  t_revoked :: "instant option"
  t_created :: instant

record audit_row =
  a_prefix :: "string option"
  a_name :: "string option"
  a_action :: string
  a_method :: string
  a_path :: string
  a_project :: "uuid option"
  a_status :: nat
  a_created :: instant

text \<open>
  A tenant table: its columns with the values their defaults have, its unique constraints (lists of
  column names, the primary key too), its rows (one value per column, in the order of the columns,
  \<open>None\<close> for NULL) and the tables its foreign keys refer to.
\<close>

type_synonym trow = "string option list"

record ttable =
  tt_cols :: "(string \<times> string option) list"
  tt_uniq :: "string list list"
  tt_rows :: "trow list"
  tt_refs :: "(string \<times> string) list"

record role_info =
  ri_login :: bool
  ri_password :: "string option"
  ri_valid_until :: "instant option"
  ri_member_of :: "string list"
  ri_settings :: "(string \<times> string) list"

text \<open>
  The server's catalogue: roles, schemas with their owner (in the order of creation, newest
  first), tables by schema and name, and the roles whose privileges pwrapd's own login has (\<^verbatim>\<open>pg_has_role(current_user, r, 'USAGE')\<close>).
\<close>

record pg =
  pg_roles :: "string \<Rightarrow> role_info option"
  pg_schemas :: "(string \<times> string) list"
  pg_tables :: "string \<Rightarrow> string \<Rightarrow> ttable option"
  pg_usage :: "string \<Rightarrow> bool"

record db =
  projects :: "project_row list"
  api_keys :: "key_row list"
  migration_log :: "mig_row list"
  mig_seq :: nat
  ephemeral_roles :: "eph_row list"
  admin_tokens :: "token_row list"
  audit_log :: "audit_row list"
  pg :: pg

section \<open>Environment, world, results\<close>

text \<open>
  \<open>flt n\<close> is the error of the \<open>n\<close>-th round trip to the database, if it fails: the
  connection is lost, the context is cancelled, or the server refuses the statement. A failed
  round trip has no effect. \<open>rnd k n\<close> is the \<open>k\<close>-th read of \<open>n\<close> bytes from
  \<^verbatim>\<open>crypto/rand\<close>, \<open>new_uuid n\<close> the value of \<^verbatim>\<open>gen_random_uuid()\<close> in the
  \<open>n\<close>-th round trip, \<open>go_now\<close> and \<open>db_now\<close> the two clocks (\<^verbatim>\<open>time.Now()\<close> in
  pwrapd and \<^verbatim>\<open>now()\<close> in Postgres) during the operation. \<open>idkey\<close> is
  \<^verbatim>\<open>argon2.IDKey\<close>, \<open>uuid_parse\<close> is \<^verbatim>\<open>uuid.Parse\<close>, \<open>ulower\<close> the Unicode
  path of \<^verbatim>\<open>strings.ToLower\<close>. \<open>pool_new\<close> is the error of
  \<^verbatim>\<open>pgxpool.New\<close> on a DSN, if any; \<open>tenant_exec\<close> is a text of SQL run on a connection with a
  tenant's DSN, \<open>river\<close> the River migrator's run on one: each gives its error, if any, and the catalogue
  it leaves, on an error too. \<open>on_insert\<close> is the work of a table's row triggers (by schema and table) on the
  rows a statement has inserted. \<open>sha256_hex\<close> is the hex digest of a text. The \<open>json_\<close> fields are \<^verbatim>\<open>json.Decoder.Decode\<close> into the request
  structs of the handlers: whether it succeeds, and the fields of the struct after it (a
  failed decoding may have filled some).
\<close>

record env =
  flt :: "nat \<Rightarrow> string option"
  rnd :: "nat \<Rightarrow> nat \<Rightarrow> string + string"
  new_uuid :: "nat \<Rightarrow> uuid"
  go_now :: instant
  db_now :: instant
  idkey :: "string \<Rightarrow> string \<Rightarrow> nat \<Rightarrow> nat \<Rightarrow> nat \<Rightarrow> nat \<Rightarrow> string"
  uuid_parse :: "string \<Rightarrow> uuid option"
  ulower :: "string \<Rightarrow> string"
  sha256_hex :: "string \<Rightarrow> string"
  pool_new :: "string \<Rightarrow> string option"
  tenant_exec :: "string \<Rightarrow> string \<Rightarrow> pg \<Rightarrow> string option \<times> pg"
  river :: "string \<Rightarrow> pg \<Rightarrow> string option \<times> pg"
  on_insert :: "string \<Rightarrow> string \<Rightarrow> trow list \<Rightarrow> pg \<Rightarrow> string + pg"
  json_name :: "string \<Rightarrow> bool \<times> string"
  json_token :: "string \<Rightarrow> bool \<times> string \<times> string list \<times> int"
  json_branch :: "string \<Rightarrow> bool \<times> string \<times> bool \<times> string list"
  json_sync :: "string \<Rightarrow> bool \<times> string list \<times> bool"
  json_rest :: "string \<Rightarrow> bool \<times> string \<times> int"

record world =
  wdb :: db
  tick :: nat
  rtick :: nat

type_synonym 'a res = "(goerr + 'a) \<times> world"

definition and_then :: "'a res \<Rightarrow> ('a \<Rightarrow> world \<Rightarrow> 'b res) \<Rightarrow> 'b res" where
  "and_then r f = (case r of (Inl e, w) \<Rightarrow> (Inl e, w) | (Inr x, w) \<Rightarrow> f x w)"

text \<open>\<^verbatim>\<open>fmt.Errorf("s: %w", err)\<close> on the error of a step.\<close>

definition wrap_err :: "string \<Rightarrow> 'a res \<Rightarrow> 'a res" where
  "wrap_err s r = (case r of (Inl e, w) \<Rightarrow> (Inl (Wrap s e), w) | (Inr x, w) \<Rightarrow> (Inr x, w))"

text \<open>One round trip: a query or a statement outside a transaction commits by itself.\<close>

definition sql :: "env \<Rightarrow> (db \<Rightarrow> string + ('a \<times> db)) \<Rightarrow> world \<Rightarrow> 'a res" where
  "sql E q w = (case flt E (tick w) of
      Some e \<Rightarrow> (Inl (Ext e), w\<lparr>tick := Suc (tick w)\<rparr>)
    | None \<Rightarrow> (case q (wdb w) of
        Inl e \<Rightarrow> (Inl (Ext e), w\<lparr>tick := Suc (tick w)\<rparr>)
      | Inr (x, d) \<Rightarrow> (Inr x, w\<lparr>tick := Suc (tick w), wdb := d\<rparr>)))"

text \<open>A query that changes nothing.\<close>

definition query :: "env \<Rightarrow> (db \<Rightarrow> 'a) \<Rightarrow> world \<Rightarrow> 'a res" where
  "query E q = sql E (\<lambda>d. Inr (q d, d))"

text \<open>
  \<^verbatim>\<open>Begin\<close>, the body, \<^verbatim>\<open>Commit\<close>. When the body or the commit fails, the deferred
  \<^verbatim>\<open>Rollback\<close> runs: the server discards what the transaction did.
\<close>

definition in_tx :: "env \<Rightarrow> (world \<Rightarrow> 'a res) \<Rightarrow> world \<Rightarrow> 'a res" where
  "in_tx E body w = and_then (query E (\<lambda>_. ()) w) (\<lambda>_ w1. case body w1 of
      (Inl e, w2) \<Rightarrow> (Inl e, w2\<lparr>wdb := wdb w1, tick := Suc (tick w2)\<rparr>)
    | (Inr x, w2) \<Rightarrow> (case query E (\<lambda>_. ()) w2 of
        (Inl e, w3) \<Rightarrow> (Inl e, w3\<lparr>wdb := wdb w1, tick := Suc (tick w3)\<rparr>)
      | (Inr _, w3) \<Rightarrow> (Inr x, w3)))"

text \<open>
  One round trip on a connection of a tenant: the text of several statements may fail after some of
  them have committed.
\<close>

definition tenant_sql :: "env \<Rightarrow> (pg \<Rightarrow> string option \<times> pg) \<Rightarrow> world \<Rightarrow> unit res" where
  "tenant_sql E f w = (case flt E (tick w) of
      Some e \<Rightarrow> (Inl (Ext e), w\<lparr>tick := Suc (tick w)\<rparr>)
    | None \<Rightarrow> (let (r, c) = f (pg (wdb w)); w = w\<lparr>tick := Suc (tick w), wdb := (wdb w)\<lparr>pg := c\<rparr>\<rparr> in
        case r of None \<Rightarrow> (Inr (), w) | Some e \<Rightarrow> (Inl (Ext e), w)))"

text \<open>\<^verbatim>\<open>rand.Read\<close> of \<open>n\<close> bytes.\<close>

definition rand_read :: "env \<Rightarrow> nat \<Rightarrow> world \<Rightarrow> string res" where
  "rand_read E n w = (case rnd E (rtick w) n of
      Inl e \<Rightarrow> (Inl (Ext e), w\<lparr>rtick := Suc (rtick w)\<rparr>)
    | Inr b \<Rightarrow> (Inr b, w\<lparr>rtick := Suc (rtick w)\<rparr>))"

text \<open>
  A Go instant stored in a \<^verbatim>\<open>timestamptz\<close> column: the driver drops what is below a microsecond.
\<close>

definition pg_time :: "instant \<Rightarrow> instant" where
  "pg_time t = t div 1000 * 1000"

text \<open>What a successful \<^verbatim>\<open>rand.Read\<close> does: it fills the buffer.\<close>

definition rand_length :: "env \<Rightarrow> bool" where
  "rand_length E \<longleftrightarrow> (\<forall>k n b. rnd E k n = Inr b \<longrightarrow> length b = n)"

text \<open>The text of a Postgres error: pgx renders the SQLSTATE at its end.\<close>

definition pg_error :: "string \<Rightarrow> string \<Rightarrow> string" where
  "pg_error msg code = ''ERROR: '' @ msg @ '' (SQLSTATE '' @ code @ '')''"

text \<open>\<^verbatim>\<open>UPDATE ... SET f WHERE P\<close>, and the number of rows it affects.\<close>

definition update_where :: "('r \<Rightarrow> bool) \<Rightarrow> ('r \<Rightarrow> 'r) \<Rightarrow> 'r list \<Rightarrow> 'r list" where
  "update_where P f rs = map (\<lambda>r. if P r then f r else r) rs"

definition affected :: "('r \<Rightarrow> bool) \<Rightarrow> 'r list \<Rightarrow> nat" where
  "affected P rs = length (filter P rs)"

text \<open>
  \<^verbatim>\<open>QueryRow\<close>: the first of the rows that match, in the physical order of the table (the
  order is a part of the state, so a statement over all states covers every order), or
  \<^verbatim>\<open>pgx.ErrNoRows\<close>.
\<close>

definition select_one :: "('r \<Rightarrow> bool) \<Rightarrow> 'r list \<Rightarrow> 'r option" where
  "select_one P rs = find P rs"

text \<open>\<^verbatim>\<open>ORDER BY f DESC\<close>; rows with equal keys stay in the order of the table.\<close>

definition order_desc :: "('r \<Rightarrow> int) \<Rightarrow> 'r list \<Rightarrow> 'r list" where
  "order_desc f rs = sort_key (\<lambda>r. - f r) rs"

lemma pg_time_bounds: "pg_time t \<le> t" "t < pg_time t + 1000"
  by (simp_all add: pg_time_def)

lemma affected_0: "affected P rs = 0 \<longleftrightarrow> (\<forall>r \<in> set rs. \<not> P r)"
  by (simp add: affected_def filter_empty_conv)

lemma set_update_where: "set (update_where P f rs) = f ` {r \<in> set rs. P r} \<union> {r \<in> set rs. \<not> P r}"
  by (auto simp: update_where_def)

lemma update_where_none: "\<forall>r \<in> set rs. \<not> P r \<Longrightarrow> update_where P f rs = rs"
  by (simp add: update_where_def map_idI)

lemma length_update_where [simp]: "length (update_where P f rs) = length rs"
  by (simp add: update_where_def)

lemma update_where_append [simp]:
  "update_where P f (xs @ ys) = update_where P f xs @ update_where P f ys"
  by (simp add: update_where_def)

lemma map_update_where: "(\<And>r. g (f r) = g r) \<Longrightarrow> map g (update_where P f rs) = map g rs"
  by (simp add: update_where_def)

lemma select_one_Some: "select_one P rs = Some r \<Longrightarrow> r \<in> set rs \<and> P r"
  by (auto simp: select_one_def find_Some_iff)

lemma select_one_None: "select_one P rs = None \<longleftrightarrow> (\<forall>r \<in> set rs. \<not> P r)"
  by (auto simp: select_one_def find_None_iff)

lemma select_one_unique:
  "r \<in> set rs \<Longrightarrow> P r \<Longrightarrow> \<forall>r' \<in> set rs. P r' \<longrightarrow> r' = r \<Longrightarrow> select_one P rs = Some r"
  using select_one_None [of P rs] select_one_Some [of P rs] by (cases "select_one P rs") blast+

lemma set_order_desc [simp]: "set (order_desc f rs) = set rs"
  by (simp add: order_desc_def)

lemma length_order_desc [simp]: "length (order_desc f rs) = length rs"
  by (simp add: order_desc_def)

section \<open>Lemmas on results\<close>

lemma and_then_simps [simp]:
  "and_then (Inl e, w) f = (Inl e, w)" "and_then (Inr x, w) f = f x w"
  by (simp_all add: and_then_def)

lemma wrap_err_simps [simp]:
  "wrap_err s (Inl e, w) = (Inl (Wrap s e), w)" "wrap_err s (Inr x, w) = (Inr x, w)"
  by (simp_all add: wrap_err_def)

lemma and_then_Inr:
  "and_then r f = (Inr y, w') \<longleftrightarrow> (\<exists>x w. r = (Inr x, w) \<and> f x w = (Inr y, w'))"
  by (cases r; cases "fst r") (auto simp: and_then_def)

lemma and_then_Inl:
  "and_then r f = (Inl e, w') \<longleftrightarrow>
     r = (Inl e, w') \<or> (\<exists>x w. r = (Inr x, w) \<and> f x w = (Inl e, w'))"
  by (cases r; cases "fst r") (auto simp: and_then_def)

lemma wrap_err_Inr: "wrap_err s r = (Inr y, w') \<longleftrightarrow> r = (Inr y, w')"
  by (cases r; cases "fst r") (auto simp: wrap_err_def)

lemma wrap_err_Inl: "wrap_err s r = (Inl e, w') \<longleftrightarrow> (\<exists>e0. r = (Inl e0, w') \<and> e = Wrap s e0)"
  by (cases r; cases "fst r") (auto simp: wrap_err_def)

lemmas res_elims = and_then_Inr and_then_Inl wrap_err_Inr wrap_err_Inl

lemma sql_Inr:
  "sql E q w = (Inr x, w') \<longleftrightarrow> flt E (tick w) = None \<and>
     (\<exists>d. q (wdb w) = Inr (x, d) \<and> w' = w\<lparr>tick := Suc (tick w), wdb := d\<rparr>)"
  by (auto simp: sql_def split: option.splits sum.splits)

lemma sql_Inl:
  "sql E q w = (Inl e, w') \<longleftrightarrow> w' = w\<lparr>tick := Suc (tick w)\<rparr> \<and>
     ((\<exists>s. flt E (tick w) = Some s \<and> e = Ext s) \<or>
      (flt E (tick w) = None \<and> (\<exists>s. q (wdb w) = Inl s \<and> e = Ext s)))"
  by (auto simp: sql_def split: option.splits sum.splits)

lemma query_Inr:
  "query E q w = (Inr x, w') \<longleftrightarrow>
     flt E (tick w) = None \<and> x = q (wdb w) \<and> w' = w\<lparr>tick := Suc (tick w)\<rparr>"
  by (auto simp: query_def sql_Inr)

lemma query_Inl:
  "query E q w = (Inl e, w') \<longleftrightarrow>
     w' = w\<lparr>tick := Suc (tick w)\<rparr> \<and> (\<exists>s. flt E (tick w) = Some s \<and> e = Ext s)"
  by (auto simp: query_def sql_Inl)

lemma tenant_sql_frame: "tenant_sql E f w = (r, w') \<Longrightarrow> \<exists>c. wdb w' = (wdb w)\<lparr>pg := c\<rparr>"
  by (auto simp: tenant_sql_def Let_def split: option.splits prod.splits intro: exI [of _ "pg (wdb w)"])

lemma query_wdb: "query E q w = (r, w') \<Longrightarrow> wdb w' = wdb w"
  by (cases r) (auto simp: query_Inr query_Inl)

lemma sql_Inl_wdb: "sql E q w = (Inl e, w') \<Longrightarrow> wdb w' = wdb w"
  by (auto simp: sql_Inl)

lemma rand_read_wdb: "rand_read E n w = (r, w') \<Longrightarrow> wdb w' = wdb w \<and> tick w' = tick w"
  by (auto simp: rand_read_def split: sum.splits)

lemma rand_read_Inr:
  "rand_read E n w = (Inr b, w') \<longleftrightarrow> rnd E (rtick w) n = Inr b \<and> w' = w\<lparr>rtick := Suc (rtick w)\<rparr>"
  by (auto simp: rand_read_def split: sum.splits)

text \<open>A failed transaction leaves the database as it was.\<close>

lemma in_tx_Inl_wdb: "in_tx E body w = (Inl e, w') \<Longrightarrow> wdb w' = wdb w"
  by (auto simp: in_tx_def res_elims query_Inr query_Inl split: prod.splits sum.splits)

lemma in_tx_Inr:
  "in_tx E body w = (Inr x, w') \<longleftrightarrow> flt E (tick w) = None \<and>
     (\<exists>w2. body (w\<lparr>tick := Suc (tick w)\<rparr>) = (Inr x, w2) \<and> flt E (tick w2) = None \<and>
       w' = w2\<lparr>tick := Suc (tick w2)\<rparr>)"
  by (auto simp: in_tx_def res_elims query_Inr query_Inl split: prod.splits sum.splits)

lemma in_tx_Inl:
  "in_tx E body w = (Inl e, w') \<Longrightarrow>
     (\<exists>s. e = Ext s) \<or> (\<exists>w2. body (w\<lparr>tick := Suc (tick w)\<rparr>) = (Inl e, w2))"
  by (auto simp: in_tx_def res_elims query_Inr query_Inl split: prod.splits sum.splits)

section \<open>A concrete environment\<close>

text \<open>
  An environment in which every round trip works, and an empty database: the concrete inputs
  the hypotheses of the properties are met at.
\<close>

definition demo_env :: env where
  "demo_env = \<lparr>flt = (\<lambda>_. None), rnd = (\<lambda>k n. Inr (replicate n (char_of (k + 7)))),
     new_uuid = (\<lambda>n. of_nat (n + 1)), go_now = 1000000000, db_now = 1000000000,
     idkey = (\<lambda>pw salt t m p n. take n (pw @ salt @ replicate n CHR ''x'')),
     uuid_parse = (\<lambda>s. if s = [] then None else Some (of_nat (length s))),
     ulower = id, sha256_hex = (\<lambda>s. s), pool_new = (\<lambda>_. None),
     tenant_exec = (\<lambda>_ _ c. (None, c)), river = (\<lambda>_ c. (None, c)),
     on_insert = (\<lambda>_ _ _ c. Inr c),
     json_name = (\<lambda>s. (True, s)), json_token = (\<lambda>s. (True, s, [s], 0)),
     json_branch = (\<lambda>s. (True, s, False, [])), json_sync = (\<lambda>s. (True, [], False)),
     json_rest = (\<lambda>s. (True, [], int (length s)))\<rparr>"

definition empty_pg :: pg where
  "empty_pg = \<lparr>pg_roles = (\<lambda>_. None), pg_schemas = [], pg_tables = (\<lambda>_ _. None),
     pg_usage = (\<lambda>_. False)\<rparr>"

definition empty_db :: db where
  "empty_db = \<lparr>projects = [], api_keys = [], migration_log = [], mig_seq = 0, ephemeral_roles = [],
     admin_tokens = [], audit_log = [], pg = empty_pg\<rparr>"

definition world_of :: "db \<Rightarrow> world" where
  "world_of d = \<lparr>wdb = d, tick = 0, rtick = 0\<rparr>"

lemma demo_flt [simp]: "flt demo_env n = None"
  by (simp add: demo_env_def)

lemma demo_rand_length: "rand_length demo_env"
  by (simp add: demo_env_def rand_length_def)

lemmas demo_defs = demo_env_def empty_pg_def empty_db_def world_of_def

end
