(* ===== verification/Quoting.thy ===== *)
theory Quoting
  imports Database
begin

text \<open>
  The identifiers and literals the program writes into SQL text: \<^verbatim>\<open>quoteIdent\<close> and
  \<^verbatim>\<open>quoteLiteral\<close> (the same code in projects, tenancy, branches, authsetup and the SDK),
  \<^verbatim>\<open>validateIdent\<close> of branches, and \<^verbatim>\<open>slugify\<close>, which makes role and schema names.
  The locale \<open>quoting\<close> states what a quoting function owes the SQL lexer; both functions
  are interpretations of it.
\<close>

section \<open>Quoting\<close>

definition quoteIdent :: "string \<Rightarrow> string" where
  "quoteIdent s = [CHR 0x22] @ replace_all CHR 0x22 [CHR 0x22, CHR 0x22] s @ [CHR 0x22]"

definition quoteLiteral :: "string \<Rightarrow> string" where
  "quoteLiteral s = [CHR 0x27] @ replace_all CHR 0x27 [CHR 0x27, CHR 0x27] s @ [CHR 0x27]"

text \<open>
  How the SQL lexer reads a quoted token with delimiter \<open>q\<close>: a doubled delimiter stands for
  one, a single one ends the token. Gives the value and the rest of the input.
\<close>

fun lex_body :: "char \<Rightarrow> string \<Rightarrow> (string \<times> string) option" where
  "lex_body q [] = None"
| "lex_body q [c] = (if c = q then Some ([], []) else None)"
| "lex_body q (c # d # s) =
     (if c = q then (if d = q then map_option (\<lambda>(t, r). (q # t, r)) (lex_body q s)
                     else Some ([], d # s))
      else map_option (\<lambda>(t, r). (c # t, r)) (lex_body q (d # s)))"

fun lex_quoted :: "char \<Rightarrow> string \<Rightarrow> (string \<times> string) option" where
  "lex_quoted q [] = None"
| "lex_quoted q (c # s) = (if c = q then lex_body q s else None)"

lemma lex_body_quote:
  "r = [] \<or> hd r \<noteq> q \<Longrightarrow> lex_body q (replace_all q [q, q] s @ q # r) = Some (s, r)"
proof (induction s)
  case Nil
  then show ?case by (cases r) auto
next
  case (Cons c s)
  have "\<exists>x y. replace_all q [q, q] s @ q # r = x # y"
    by (cases "replace_all q [q, q] s") auto
  with Cons show ?case by (auto split: if_splits)
qed

locale quoting =
  fixes quote :: "string \<Rightarrow> string"
    and lex :: "string \<Rightarrow> (string \<times> string) option"
    and delim :: char
  assumes lex_quote: "r = [] \<or> hd r \<noteq> delim \<Longrightarrow> lex (quote s @ r) = Some (s, r)"
begin

lemma quote_inj: "quote s = quote t \<Longrightarrow> s = t"
  using lex_quote [of "[]" s] lex_quote [of "[]" t] by simp

text \<open>
  Whatever follows, a quoted value cannot be read as another one: no value closes its own
  quotes and goes on as SQL.
\<close>

lemma no_escape:
  assumes "quote s @ r = quote t @ u" "r = [] \<or> hd r \<noteq> delim" "u = [] \<or> hd u \<noteq> delim"
  shows "s = t \<and> r = u"
proof -
  have "Some (s, r) = Some (t, u)"
    using lex_quote [OF assms(2), of s] lex_quote [OF assms(3), of t] unfolding assms(1) by (rule trans [OF sym])
  then show ?thesis by simp
qed

end

interpretation ident: quoting quoteIdent "lex_quoted CHR 0x22" "CHR 0x22"
  by unfold_locales (simp add: quoteIdent_def lex_body_quote)

interpretation literal: quoting quoteLiteral "lex_quoted CHR 0x27" "CHR 0x27"
  by unfold_locales (simp add: quoteLiteral_def lex_body_quote)

section \<open>Identifiers\<close>

definition ident_char :: "char \<Rightarrow> bool" where
  "ident_char r \<longleftrightarrow> (CHR ''a'' \<le> r \<and> r \<le> CHR ''z'') \<or> (CHR ''A'' \<le> r \<and> r \<le> CHR ''Z'')
     \<or> (CHR ''0'' \<le> r \<and> r \<le> CHR ''9'') \<or> r = CHR ''_''"

text \<open>
  \<^verbatim>\<open>validateIdent\<close> of branches. The loop is over runes; a rune outside ASCII is made of
  bytes outside the ranges, so the loop over bytes accepts the same strings. The message is
  given without the rune it quotes.
\<close>

fun validate_chars :: "string \<Rightarrow> unit result" where
  "validate_chars [] = Inr ()"
| "validate_chars (r # s) = (if \<not> ident_char r then Inl (Msg ''invalid char'') else validate_chars s)"

definition validateIdent :: "string \<Rightarrow> unit result" where
  "validateIdent s = (if s = [] \<or> 63 < length s
     then Inl (Msg ''identifier must be 1..63 chars'') else validate_chars s)"

lemma validate_chars_ok: "validate_chars s = Inr () \<longleftrightarrow> (\<forall>c \<in> set s. ident_char c)"
  by (induction s) auto

lemma validateIdent_ok:
  "validateIdent s = Inr () \<longleftrightarrow> s \<noteq> [] \<and> length s \<le> 63 \<and> (\<forall>c \<in> set s. ident_char c)"
  by (auto simp: validateIdent_def validate_chars_ok)

lemma quote_valid_ident: "validateIdent s = Inr () \<Longrightarrow> quoteIdent s = [CHR 0x22] @ s @ [CHR 0x22]"
proof -
  assume "validateIdent s = Inr ()"
  then have "CHR 0x22 \<notin> set s" by (auto simp: validateIdent_ok ident_char_def)
  then show ?thesis by (simp add: quoteIdent_def replace_all_id)
qed

section \<open>Slugs\<close>

definition slug_char :: "char \<Rightarrow> bool" where
  "slug_char c \<longleftrightarrow> (CHR ''a'' \<le> c \<and> c \<le> CHR ''z'') \<or> (CHR ''0'' \<le> c \<and> c \<le> CHR ''9'')"

text \<open>\<^verbatim>\<open>slugRe.ReplaceAllString(s, "_")\<close> for \<^verbatim>\<open>[^a-z0-9]+\<close>: every longest run of other characters
  becomes one underscore.\<close>

function slug_runs :: "string \<Rightarrow> string" where
  "slug_runs [] = []"
| "slug_runs (c # s) = (if slug_char c then c # slug_runs s
     else CHR ''_'' # slug_runs (dropWhile (\<lambda>x. \<not> slug_char x) s))"
  by pat_completeness auto
termination
  by (relation "measure length") (auto simp: le_imp_less_Suc length_dropWhile_le)

definition slugify :: "env \<Rightarrow> string \<Rightarrow> string" where
  "slugify E s = trim_both CHR ''_'' (slug_runs (to_lower (ulower E) s))"

lemma slug_runs_set: "c \<in> set (slug_runs s) \<Longrightarrow> slug_char c \<or> c = CHR ''_''"
  by (induction s rule: slug_runs.induct) (auto split: if_splits)

lemma slug_runs_length: "length (slug_runs s) \<le> length s"
proof (induction s rule: slug_runs.induct)
  case (2 c s)
  have "length (dropWhile (\<lambda>x. \<not> slug_char x) s) \<le> length s" by (rule length_dropWhile_le)
  with 2 show ?case by auto
qed simp

lemma slugify_chars: "c \<in> set (slugify E s) \<Longrightarrow> slug_char c \<or> c = CHR ''_''"
  unfolding slugify_def using slug_runs_set set_trim_both by blast

lemma slugify_ident_chars: "c \<in> set (slugify E s) \<Longrightarrow> ident_char c"
  using slugify_chars [of c E s] by (auto simp: slug_char_def ident_char_def)

lemma slugify_ends:
  "slugify E s \<noteq> [] \<Longrightarrow> hd (slugify E s) \<noteq> CHR ''_'' \<and> last (slugify E s) \<noteq> CHR ''_''"
  unfolding slugify_def using trim_both_ends by blast

lemma slugify_length: "length (slugify E s) \<le> length (to_lower (ulower E) s)"
  unfolding slugify_def using length_trim_both slug_runs_length order.trans by blast

lemma slugify_length_ascii: "\<forall>c \<in> set s. ascii c \<Longrightarrow> length (slugify E s) \<le> length s"
  using slugify_length [of E s] by (simp add: to_lower_def)

end
