(* ===== verification/Postgres.thy ===== *)
theory Postgres
  imports Quoting "HOL-Library.AList"
begin

text \<open>
  The utility statements the program sends to Postgres, as data: the text the code builds for
  each with \<^verbatim>\<open>fmt.Sprintf\<close> (\<open>render\<close>), and its effect on the catalogue when the
  server accepts it (\<open>exec_stmt\<close>). A refusal for a reason the catalogue of the model does not
  hold (a privilege, an object of another kind that depends on a role) is a failed round
  trip, \<open>flt\<close> of the environment.
\<close>

section \<open>Statements and their text\<close>

datatype stmt =
    CreateTenantRole string string              \<comment> \<open>role, password\<close>
  | CreateEphemeralRole string string instant string  \<comment> \<open>role, password, valid until, tenant role\<close>
  | CreateServiceRole string bool string        \<comment> \<open>role, login, password (empty: no clause)\<close>
  | AlterPassword string string
  | CreateSchema string string                  \<comment> \<open>schema, owner\<close>
  | SetSearchPath string string                 \<comment> \<open>role, schema\<close>
  | SetSetting string string string             \<comment> \<open>role, parameter, value\<close>
  | GrantRole string string                     \<comment> \<open>role, member\<close>
  | RevokeRole string string
  | GrantSelf string                            \<comment> \<open>to \<^verbatim>\<open>CURRENT_USER\<close>\<close>
  | DropSchemaCascade string
  | ReassignOwned string string
  | DropOwned string
  | DropRole string
  | Notify string
  | CreateExtension string
  | GrantGraphql nat                            \<comment> \<open>the two fixed grants on schema graphql\<close>

text \<open>\<open>ft\<close> renders an instant (\<^verbatim>\<open>Format(time.RFC3339)\<close>).\<close>

fun render :: "(instant \<Rightarrow> string) \<Rightarrow> stmt \<Rightarrow> string" where
  "render ft (CreateTenantRole r pw) =
     ''CREATE ROLE '' @ quoteIdent r @ '' WITH LOGIN PASSWORD '' @ quoteLiteral pw"
| "render ft (CreateEphemeralRole r pw t tn) =
     ''CREATE ROLE '' @ quoteIdent r @ '' WITH LOGIN INHERIT PASSWORD '' @ quoteLiteral pw @
     '' VALID UNTIL '' @ quoteLiteral (ft t) @ '' IN ROLE '' @ quoteIdent tn"
| "render ft (CreateServiceRole r login pw) =
     ''CREATE ROLE '' @ quoteIdent r @ '' WITH '' @
     (if login then ''LOGIN NOINHERIT'' else ''NOLOGIN NOINHERIT'') @
     (if pw \<noteq> [] then '' PASSWORD '' @ quoteLiteral pw else [])"
| "render ft (AlterPassword r pw) = ''ALTER ROLE '' @ quoteIdent r @ '' WITH PASSWORD '' @ quoteLiteral pw"
| "render ft (CreateSchema s r) = ''CREATE SCHEMA '' @ quoteIdent s @ '' AUTHORIZATION '' @ quoteIdent r"
| "render ft (SetSearchPath r s) =
     ''ALTER ROLE '' @ quoteIdent r @ '' SET search_path TO '' @ quoteIdent s @ '', '' @ quoteIdent ''public''"
| "render ft (SetSetting r p v) = ''ALTER ROLE '' @ quoteIdent r @ '' SET '' @ p @ '' = '' @ quoteLiteral v"
| "render ft (GrantRole r m) = ''GRANT '' @ quoteIdent r @ '' TO '' @ quoteIdent m"
| "render ft (RevokeRole r m) = ''REVOKE '' @ quoteIdent r @ '' FROM '' @ quoteIdent m"
| "render ft (GrantSelf r) = ''GRANT '' @ quoteIdent r @ '' TO CURRENT_USER''"
| "render ft (DropSchemaCascade s) = ''DROP SCHEMA IF EXISTS '' @ quoteIdent s @ '' CASCADE''"
| "render ft (ReassignOwned r t) = ''REASSIGN OWNED BY '' @ quoteIdent r @ '' TO '' @ quoteIdent t"
| "render ft (DropOwned r) = ''DROP OWNED BY '' @ quoteIdent r"
| "render ft (DropRole r) = ''DROP ROLE IF EXISTS '' @ quoteIdent r"
| "render ft (Notify p) = ''NOTIFY pgrst, '' @ quoteLiteral p"
| "render ft (CreateExtension x) = ''CREATE EXTENSION IF NOT EXISTS '' @ x"
| "render ft (GrantGraphql n) = (if n = 0 then ''GRANT USAGE ON SCHEMA graphql TO PUBLIC''
     else ''GRANT ALL ON ALL FUNCTIONS IN SCHEMA graphql TO PUBLIC'')"

section \<open>Effect on the catalogue\<close>

text \<open>Postgres cuts an identifier to 63 bytes without an error (\<^verbatim>\<open>NAMEDATALEN\<close>).\<close>

definition trunc :: "string \<Rightarrow> string" where
  "trunc s = take 63 s"

definition role_exists :: "string \<Rightarrow> pg \<Rightarrow> bool" where
  "role_exists r c \<longleftrightarrow> pg_roles c (trunc r) \<noteq> None"

definition add_role :: "string \<Rightarrow> role_info \<Rightarrow> pg \<Rightarrow> string + pg" where
  "add_role r i c = (if role_exists r c then Inl (pg_error (''role '' @ quoteIdent (trunc r) @ '' already exists'') ''42710'')
     else Inr (c\<lparr>pg_roles := (pg_roles c)(trunc r \<mapsto> i)\<rparr>))"

definition upd_role :: "string \<Rightarrow> (role_info \<Rightarrow> role_info) \<Rightarrow> pg \<Rightarrow> string + pg" where
  "upd_role r f c = (case pg_roles c (trunc r) of
      None \<Rightarrow> Inl (pg_error (''role '' @ quoteIdent (trunc r) @ '' does not exist'') ''42704'')
    | Some i \<Rightarrow> Inr (c\<lparr>pg_roles := (pg_roles c)(trunc r \<mapsto> f i)\<rparr>))"

definition need_role :: "string \<Rightarrow> pg \<Rightarrow> (pg \<Rightarrow> string + pg) \<Rightarrow> string + pg" where
  "need_role r c k = (if role_exists r c then k c
     else Inl (pg_error (''role '' @ quoteIdent (trunc r) @ '' does not exist'') ''42704''))"

definition drop_schemas :: "(string \<Rightarrow> bool) \<Rightarrow> pg \<Rightarrow> pg" where
  "drop_schemas P c = c\<lparr>pg_schemas := filter (\<lambda>(s, _). \<not> P s) (pg_schemas c),
     pg_tables := (\<lambda>s. if P s then (\<lambda>_. None) else pg_tables c s)\<rparr>"

fun exec_stmt :: "stmt \<Rightarrow> pg \<Rightarrow> string + pg" where
  "exec_stmt (CreateTenantRole r pw) c = add_role r
     \<lparr>ri_login = True, ri_password = Some pw, ri_valid_until = None, ri_member_of = [], ri_settings = []\<rparr> c"
| "exec_stmt (CreateEphemeralRole r pw t tn) c = need_role tn c (add_role r
     \<lparr>ri_login = True, ri_password = Some pw, ri_valid_until = Some t,
      ri_member_of = [trunc tn], ri_settings = []\<rparr>)"
| "exec_stmt (CreateServiceRole r login pw) c = add_role r
     \<lparr>ri_login = login, ri_password = (if pw \<noteq> [] then Some pw else None), ri_valid_until = None,
      ri_member_of = [], ri_settings = []\<rparr> c"
| "exec_stmt (AlterPassword r pw) c = upd_role r (\<lambda>i. i\<lparr>ri_password := Some pw\<rparr>) c"
| "exec_stmt (CreateSchema s r) c = (if map_of (pg_schemas c) (trunc s) \<noteq> None
     then Inl (pg_error (''schema '' @ quoteIdent (trunc s) @ '' already exists'') ''42P06'')
     else need_role r c (\<lambda>c. Inr (c\<lparr>pg_schemas := (trunc s, trunc r) # pg_schemas c,
       pg_tables := (pg_tables c)(trunc s := (\<lambda>_. None))\<rparr>)))"
| "exec_stmt (SetSearchPath r s) c =
     upd_role r (\<lambda>i. i\<lparr>ri_settings := AList.update ''search_path'' (trunc s @ '', public'') (ri_settings i)\<rparr>) c"
| "exec_stmt (SetSetting r p v) c = upd_role r (\<lambda>i. i\<lparr>ri_settings := AList.update p v (ri_settings i)\<rparr>) c"
| "exec_stmt (GrantRole r m) c =
     need_role r c (upd_role m (\<lambda>i. i\<lparr>ri_member_of := List.insert (trunc r) (ri_member_of i)\<rparr>))"
| "exec_stmt (RevokeRole r m) c =
     need_role r c (upd_role m (\<lambda>i. i\<lparr>ri_member_of := filter (\<lambda>x. x \<noteq> trunc r) (ri_member_of i)\<rparr>))"
| "exec_stmt (GrantSelf r) c = need_role r c (\<lambda>c. Inr (c\<lparr>pg_usage := (pg_usage c)(trunc r := True)\<rparr>))"
| "exec_stmt (DropSchemaCascade s) c = Inr (drop_schemas (\<lambda>x. x = trunc s) c)"
| "exec_stmt (ReassignOwned r t) c = need_role r c (\<lambda>c. need_role t c (\<lambda>c. Inr (c\<lparr>pg_schemas :=
     map (\<lambda>(s, ow). (s, if ow = trunc r then trunc t else ow)) (pg_schemas c)\<rparr>)))"
| "exec_stmt (DropOwned r) c =
     need_role r c (\<lambda>c. Inr (drop_schemas (\<lambda>s. map_of (pg_schemas c) s = Some (trunc r)) c))"
| "exec_stmt (DropRole r) c = (if list_ex (\<lambda>(s, ow). ow = trunc r) (pg_schemas c)
     then Inl (pg_error (''role '' @ quoteIdent (trunc r) @ '' cannot be dropped because some objects depend on it'') ''2BP01'')
     else Inr (c\<lparr>pg_roles := (\<lambda>x. if x = trunc r then None
     else map_option (\<lambda>i. i\<lparr>ri_member_of := filter (\<lambda>y. y \<noteq> trunc r) (ri_member_of i)\<rparr>) (pg_roles c x))\<rparr>))"
| "exec_stmt (Notify p) c = Inr c"
| "exec_stmt (CreateExtension x) c = Inr c"
| "exec_stmt (GrantGraphql n) c = Inr c"

text \<open>One statement in one round trip, and a loop that stops at the first error.\<close>

definition exec :: "env \<Rightarrow> stmt \<Rightarrow> world \<Rightarrow> unit res" where
  "exec E s = sql E (\<lambda>d. case exec_stmt s (pg d) of Inl e \<Rightarrow> Inl e | Inr c \<Rightarrow> Inr ((), d\<lparr>pg := c\<rparr>))"

fun exec_all :: "env \<Rightarrow> stmt list \<Rightarrow> world \<Rightarrow> unit res" where
  "exec_all E [] w = (Inr (), w)"
| "exec_all E (s # ss) w = and_then (exec E s w) (\<lambda>_. exec_all E ss)"

section \<open>Lemmas\<close>

lemma exec_Inr:
  "exec E s w = (Inr u, w') \<longleftrightarrow> flt E (tick w) = None \<and>
     (\<exists>c. exec_stmt s (pg (wdb w)) = Inr c \<and>
       w' = w\<lparr>tick := Suc (tick w), wdb := (wdb w)\<lparr>pg := c\<rparr>\<rparr>)"
  by (auto simp: exec_def sql_Inr split: sum.splits)

lemma exec_Inl_wdb: "exec E s w = (Inl e, w') \<Longrightarrow> wdb w' = wdb w"
  by (auto simp: exec_def sql_Inl_wdb)

lemma exec_frame: "exec E s w = (r, w') \<Longrightarrow> \<exists>c. wdb w' = (wdb w)\<lparr>pg := c\<rparr>"
proof (cases r)
  case (Inl e)
  moreover assume "exec E s w = (r, w')"
  ultimately have "wdb w' = (wdb w)\<lparr>pg := pg (wdb w)\<rparr>" by (simp add: exec_Inl_wdb)
  then show ?thesis by blast
next
  case (Inr u)
  moreover assume "exec E s w = (r, w')"
  ultimately show ?thesis by (auto simp: exec_Inr)
qed

text \<open>Statements touch the catalogue only: every table of the control plane stays as it is.\<close>

lemma exec_all_frame: "exec_all E ss w = (r, w') \<Longrightarrow> \<exists>c. wdb w' = (wdb w)\<lparr>pg := c\<rparr>"
proof (induction ss arbitrary: w)
  case Nil
  then have "wdb w' = (wdb w)\<lparr>pg := pg (wdb w)\<rparr>" by simp
  then show ?case by blast
next
  case (Cons s ss)
  obtain r1 w1 where r1: "exec E s w = (r1, w1)" by (cases "exec E s w") auto
  from exec_frame [OF r1] obtain c where c: "wdb w1 = (wdb w)\<lparr>pg := c\<rparr>" by blast
  show ?case
  proof (cases r1)
    case (Inl e)
    with Cons.prems r1 c show ?thesis by auto
  next
    case (Inr u)
    with Cons.prems r1 have "exec_all E ss w1 = (r, w')" by simp
    from Cons.IH [OF this] c show ?thesis by auto
  qed
qed

text \<open>The statements of a loop as one function on the catalogue.\<close>

fun run_stmts :: "stmt list \<Rightarrow> pg \<Rightarrow> string + pg" where
  "run_stmts [] c = Inr c"
| "run_stmts (s # ss) c = (case exec_stmt s c of Inl e \<Rightarrow> Inl e | Inr c' \<Rightarrow> run_stmts ss c')"

lemma exec_all_Inr:
  "exec_all E ss w = (Inr u, w') \<Longrightarrow>
     \<exists>c. run_stmts ss (pg (wdb w)) = Inr c \<and> wdb w' = (wdb w)\<lparr>pg := c\<rparr> \<and> rtick w' = rtick w"
  by (induction ss arbitrary: w) (fastforce simp: and_then_Inr exec_Inr)+

lemma run_stmts_append:
  "run_stmts (xs @ ys) c = (case run_stmts xs c of Inl e \<Rightarrow> Inl e | Inr c' \<Rightarrow> run_stmts ys c')"
  by (induction xs arbitrary: c) (auto split: sum.splits)

lemma exec_all_append:
  "exec_all E (xs @ ys) w = and_then (exec_all E xs w) (\<lambda>_. exec_all E ys)"
proof (induction xs arbitrary: w)
  case (Cons x xs)
  obtain r1 w1 where "exec E x w = (r1, w1)" by (cases "exec E x w") auto
  with Cons show ?case by (cases r1) auto
qed simp

lemma trunc_id: "length s \<le> 63 \<Longrightarrow> trunc s = s"
  by (simp add: trunc_def)

lemmas ddl_simps = add_role_def upd_role_def need_role_def role_exists_def drop_schemas_def

text \<open>Statements that take away, or give privileges to pwrapd only: they make no role and no schema.\<close>

fun is_drop :: "stmt \<Rightarrow> bool" where
  "is_drop (DropSchemaCascade s) = True"
| "is_drop (GrantSelf r) = True"
| "is_drop (DropOwned r) = True"
| "is_drop (DropRole r) = True"
| "is_drop (RevokeRole r m) = True"
| "is_drop _ = False"

lemma map_of_filter_key: "map_of (filter (\<lambda>(k, _). P k) xs) k = (if P k then map_of xs k else None)"
  by (induction xs) auto

lemma exec_drop_keeps:
  assumes "exec_stmt s c = Inr c'" "is_drop s"
  shows "(pg_roles c r = None \<longrightarrow> pg_roles c' r = None) \<and>
    (map_of (pg_schemas c) n = None \<longrightarrow> map_of (pg_schemas c') n = None)"
  using assms by (cases s)
    (auto simp: ddl_simps map_of_filter_key split: if_splits option.splits)

lemma run_drops_keep:
  assumes "run_stmts ss c = Inr c'" "\<forall>s \<in> set ss. is_drop s"
  shows "(pg_roles c r = None \<longrightarrow> pg_roles c' r = None) \<and>
    (map_of (pg_schemas c) n = None \<longrightarrow> map_of (pg_schemas c') n = None)"
  using assms
proof (induction ss arbitrary: c)
  case (Cons s ss)
  then obtain c1 where c1: "exec_stmt s c = Inr c1" "run_stmts ss c1 = Inr c'" by (auto split: sum.splits)
  from Cons.IH [OF c1(2)] Cons.prems exec_drop_keeps [OF c1(1), of r n] show ?case by auto
qed simp

lemma run_drops_gone:
  assumes "run_stmts ss c = Inr c'" "\<forall>s \<in> set ss. is_drop s"
  shows "DropRole r \<in> set ss \<Longrightarrow> pg_roles c' (trunc r) = None"
    and "DropSchemaCascade n \<in> set ss \<Longrightarrow> map_of (pg_schemas c') (trunc n) = None"
proof -
  have *: "\<exists>c1 c2 ts. exec_stmt s c1 = Inr c2 \<and> run_stmts ts c2 = Inr c' \<and> (\<forall>s \<in> set ts. is_drop s)"
    if "s \<in> set ss" for s
  proof -
    from that obtain us ts where ss: "ss = us @ s # ts" by (auto simp: in_set_conv_decomp)
    with assms show ?thesis by (auto simp: run_stmts_append split: sum.splits)
  qed
  show "pg_roles c' (trunc r) = None" if m: "DropRole r \<in> set ss"
  proof -
    from * [OF m] obtain c1 c2 ts where "exec_stmt (DropRole r) c1 = Inr c2"
      "run_stmts ts c2 = Inr c'" "\<forall>s \<in> set ts. is_drop s" by blast
    then show ?thesis using run_drops_keep [of ts c2 c' "trunc r"] by (auto split: if_splits)
  qed
  show "map_of (pg_schemas c') (trunc n) = None" if m: "DropSchemaCascade n \<in> set ss"
  proof -
    from * [OF m] obtain c1 c2 ts where "exec_stmt (DropSchemaCascade n) c1 = Inr c2"
      "run_stmts ts c2 = Inr c'" "\<forall>s \<in> set ts. is_drop s" by blast
    then show ?thesis using run_drops_keep [of ts c2 c' _ "trunc n"]
      by (auto simp: drop_schemas_def map_of_filter_key)
  qed
qed

end
