(* ===== verification/Http.thy ===== *)
theory Http
  imports Postgres
begin

text \<open>
  Requests and replies as the handlers see them, and the bearer token of a request
  (\<^verbatim>\<open>internal/auth/bearer.go\<close>).
\<close>

text \<open>
  A request: the method, \<^verbatim>\<open>URL.Path\<close>, the route chi matched and its URL parameters,
  the value of the \<^verbatim>\<open>Authorization\<close> header (empty when absent), the query parameters,
  the body (\<open>None\<close> for \<^verbatim>\<open>http.NoBody\<close>).
\<close>

record request =
  rq_method :: string
  rq_path :: string
  rq_pattern :: string
  rq_param :: "string \<Rightarrow> string"
  rq_auth :: string
  rq_query :: "string \<Rightarrow> string"
  rq_body :: "string option"

text \<open>A reply: the status, and an error message or a payload.\<close>

type_synonym 'a reply = "nat \<times> (string + 'a)"

type_synonym 'a handler = "world \<Rightarrow> 'a reply \<times> world"

definition write_err :: "nat \<Rightarrow> string \<Rightarrow> 'a handler" where
  "write_err st msg w = ((st, Inl msg), w)"

definition write_ok :: "nat \<Rightarrow> 'a \<Rightarrow> 'a handler" where
  "write_ok st x w = ((st, Inr x), w)"

lemmas write_simps [simp] = write_err_def write_ok_def

definition ExtractBearer :: "request \<Rightarrow> string result" where
  "ExtractBearer r =
     (let h = rq_auth r; prefix = ''Bearer '' in
      if h = [] then Inl (Sentinel ErrNoBearer)
      else if \<not> has_prefix prefix h then Inl (Sentinel ErrNoBearer)
      else let tok = trim_space (drop (length prefix) h)
        in if tok = [] then Inl (Sentinel ErrNoBearer) else Inr tok)"

lemma ExtractBearer_Inl: "ExtractBearer r = Inl e \<Longrightarrow> e = Sentinel ErrNoBearer"
  by (auto simp: ExtractBearer_def Let_def split: if_splits)

lemma ExtractBearer_bearer:
  "rq_auth r = ''Bearer '' @ t \<Longrightarrow> t \<noteq> [] \<Longrightarrow> \<forall>c \<in> set t. graphic c \<Longrightarrow> ExtractBearer r = Inr t"
  by (simp add: ExtractBearer_def has_prefix_def trim_space_graphic)

text \<open>The time-constant comparison \<^verbatim>\<open>subtle.ConstantTimeCompare\<close>: 1 iff the bytes are equal.\<close>

definition ct_compare :: "string \<Rightarrow> string \<Rightarrow> nat" where
  "ct_compare a b = (if a = b then 1 else 0)"

text \<open>A request, for the concrete inputs of the properties.\<close>

definition demo_request :: request where
  "demo_request = \<lparr>rq_method = ''POST'', rq_path = ''/v1/projects'', rq_pattern = ''/v1/projects'',
     rq_param = (\<lambda>_. []), rq_auth = ''Bearer pwa_nosuchtoken'', rq_query = (\<lambda>_. []), rq_body = None\<rparr>"

end
