(* ===== verification/Keys.thy ===== *)
theory Keys
  imports Http
begin

text \<open>
  Project API keys: \<^verbatim>\<open>internal/controlplane/keys\<close> (key.go, hasher.go, service.go,
  handlers.go) and the middleware \<^verbatim>\<open>internal/auth/apikey.go\<close>. The secret is
  \<^verbatim>\<open>pwk_\<close> and 43 base64url characters; its argon2id hash and its first eight
  characters are stored. The lemmas: the encoded hash parses back, a generated key has its
  shape, \<^verbatim>\<open>Verify\<close> answers as the row says on every branch.
\<close>

section \<open>key.go\<close>

definition KeyPrefix :: string where "KeyPrefix = ''pwk_''"
definition keyBytes :: nat where "keyBytes = 32"
definition PrefixLookup :: nat where "PrefixLookup = 8"

definition GenerateWithPrefix :: "env \<Rightarrow> string \<Rightarrow> world \<Rightarrow> (string \<times> string) res" where
  "GenerateWithPrefix E marker w =
     and_then (wrap_err ''rand: '' (rand_read E keyBytes w)) (\<lambda>b w.
       let payload = raw_url_encode b
       in (Inr (marker @ payload, take PrefixLookup payload), w))"

definition Generate :: "env \<Rightarrow> world \<Rightarrow> (string \<times> string) res" where
  "Generate E = GenerateWithPrefix E KeyPrefix"

definition ParsePrefix :: "string \<Rightarrow> string result" where
  "ParsePrefix plaintext =
     (if \<not> has_prefix KeyPrefix plaintext
      then Inl (Msg (''api key: missing '' @ go_quote KeyPrefix @ '' prefix''))
      else let payload = drop (length KeyPrefix) plaintext
        in if length payload < PrefixLookup then Inl (Msg ''api key: too short'')
           else Inr (take PrefixLookup payload))"

lemma ParsePrefix_Inr:
  "ParsePrefix p = Inr pre \<longleftrightarrow>
     (\<exists>payload. p = KeyPrefix @ payload \<and> PrefixLookup \<le> length payload \<and> pre = take PrefixLookup payload)"
  by (auto simp: ParsePrefix_def Let_def has_prefix_iff)

lemma GenerateWithPrefix_Inr:
  "GenerateWithPrefix E m w = (Inr (p, pre), w') \<longleftrightarrow>
     (\<exists>b. rnd E (rtick w) keyBytes = Inr b \<and> p = m @ raw_url_encode b \<and>
       pre = take PrefixLookup (raw_url_encode b) \<and> w' = w\<lparr>rtick := Suc (rtick w)\<rparr>)"
  by (auto simp: GenerateWithPrefix_def res_elims rand_read_Inr Let_def)

lemma GenerateWithPrefix_frame:
  "GenerateWithPrefix E m w = (r, w') \<Longrightarrow> wdb w' = wdb w \<and> tick w' = tick w"
  by (auto simp: GenerateWithPrefix_def rand_read_def Let_def split: sum.splits)

section \<open>hasher.go\<close>

definition argonTime :: nat where "argonTime = 2"
definition argonMemory :: nat where "argonMemory = 64 * 1024"
definition argonThreads :: nat where "argonThreads = 4"
definition argonKeyLen :: nat where "argonKeyLen = 32"
definition argonSaltLen :: nat where "argonSaltLen = 16"
definition argonVersion :: nat where "argonVersion = 19"

lemmas argon_defs = argonTime_def argonMemory_def argonThreads_def argonKeyLen_def argonSaltLen_def
  argonVersion_def

definition encode_hash :: "string \<Rightarrow> string \<Rightarrow> string" where
  "encode_hash salt dgst = ''$argon2id$v='' @ show_nat argonVersion @ ''$m='' @ show_nat argonMemory @
     '',t='' @ show_nat argonTime @ '',p='' @ show_nat argonThreads @ ''$'' @ raw_std_encode salt @
     ''$'' @ raw_std_encode dgst"

definition Hash :: "env \<Rightarrow> string \<Rightarrow> world \<Rightarrow> string res" where
  "Hash E plaintext w =
     and_then (wrap_err ''salt: '' (rand_read E argonSaltLen w)) (\<lambda>salt w.
       let dgst = idkey E plaintext salt argonTime argonMemory argonThreads argonKeyLen
       in (Inr (encode_hash salt dgst), w))"

record argonParams =
  ap_memory :: nat
  ap_time :: nat
  ap_threads :: nat
  ap_salt :: string
  ap_hash :: string

text \<open>\<^verbatim>\<open>Sscanf(s, "m=%d,t=%d,p=%d", ...)\<close> into a uint32, a uint32 and a uint8.\<close>

definition scan_lit :: "string \<Rightarrow> string \<Rightarrow> string option" where
  "scan_lit p s = (if has_prefix p s then Some (drop (length p) s) else None)"

definition scan_params :: "string \<Rightarrow> (nat \<times> nat \<times> nat) option" where
  "scan_params s =
     Option.bind (scan_lit ''m='' s) (\<lambda>s. Option.bind (scan_uint 32 s) (\<lambda>(m, s).
     Option.bind (scan_lit '',t='' s) (\<lambda>s. Option.bind (scan_uint 32 s) (\<lambda>(t, s).
     Option.bind (scan_lit '',p='' s) (\<lambda>s. Option.bind (scan_uint 8 s) (\<lambda>(p, s).
     Some (m, t, p)))))))"

definition parseEncoded :: "string \<Rightarrow> argonParams result" where
  "parseEncoded s =
     (let parts = split_on CHR ''$'' s in
      if length parts \<noteq> 6 \<or> parts ! 1 \<noteq> ''argon2id'' then Inl (Msg ''argon2id: bad format'')
      else if parts ! 2 \<noteq> ''v='' @ show_nat argonVersion
        then Inl (Msg (''argon2id: unsupported version '' @ go_quote (parts ! 2)))
      else case scan_params (parts ! 3) of
        None \<Rightarrow> Inl (Wrap ''argon2id: bad params: '' (Ext ''input does not match format''))
      | Some (m, t, p) \<Rightarrow> (case raw_std_decode (parts ! 4) of
          None \<Rightarrow> Inl (Wrap ''argon2id: bad salt: '' (Ext ''illegal base64 data''))
        | Some salt \<Rightarrow> (case raw_std_decode (parts ! 5) of
            None \<Rightarrow> Inl (Wrap ''argon2id: bad hash: '' (Ext ''illegal base64 data''))
          | Some hash \<Rightarrow> Inr \<lparr>ap_memory = m, ap_time = t, ap_threads = p,
                ap_salt = salt, ap_hash = hash\<rparr>)))"

definition Verify :: "env \<Rightarrow> string \<Rightarrow> string \<Rightarrow> unit result" where
  "Verify E plaintext encoded = bind_r (parseEncoded encoded) (\<lambda>p.
     let got = idkey E plaintext (ap_salt p) (ap_time p) (ap_memory p) (ap_threads p)
                 (length (ap_hash p) mod 2 ^ 32)
     in if ct_compare got (ap_hash p) \<noteq> 1 then Inl (Sentinel ErrMismatch) else Inr ())"

text \<open>The encoded hash parses back to its parts.\<close>

lemma scan_lit_append [simp]: "scan_lit p (p @ s) = Some s"
  by (simp add: scan_lit_def)

lemma scan_params_show:
  assumes "m < 2 ^ 32" "t < 2 ^ 32" "p < 2 ^ 8"
  shows "scan_params (''m='' @ show_nat m @ '',t='' @ show_nat t @ '',p='' @ show_nat p) = Some (m, t, p)"
proof -
  have nd: "\<not> is_digit CHR '',''" by (simp add: is_digit_def)
  have "scan_uint 32 (show_nat m @ '',t='' @ show_nat t @ '',p='' @ show_nat p)
      = Some (m, '',t='' @ show_nat t @ '',p='' @ show_nat p)"
    by (rule scan_show) (use assms nd in simp_all)
  moreover have "scan_uint 32 (show_nat t @ '',p='' @ show_nat p) = Some (t, '',p='' @ show_nat p)"
    by (rule scan_show) (use assms nd in simp_all)
  moreover have "scan_uint 8 (show_nat p @ []) = Some (p, [])"
    by (rule scan_show) (use assms in simp_all)
  ultimately show ?thesis
    by (simp only: scan_params_def scan_lit_append bind.bind_lunit prod.case append_Nil2)
qed

lemma dollar_free:
  "CHR ''$'' \<notin> set (raw_std_encode s)" "CHR ''$'' \<notin> set (show_nat n)"
proof -
  have "CHR ''$'' \<notin> set std_alphabet" by (simp add: std_alphabet_def alnum_def)
  then show "CHR ''$'' \<notin> set (raw_std_encode s)" using set_raw_std by blast
  show "CHR ''$'' \<notin> set (show_nat n)"
    using show_nat_digits [of "CHR ''$''" n] by (auto simp: is_digit_def)
qed

lemma split_encode_hash:
  "split_on CHR ''$'' (encode_hash salt dgst) =
     [[], ''argon2id'', ''v='' @ show_nat argonVersion,
      ''m='' @ show_nat argonMemory @ '',t='' @ show_nat argonTime @ '',p='' @ show_nat argonThreads,
      raw_std_encode salt, raw_std_encode dgst]"
proof -
  have "encode_hash salt dgst = join [CHR ''$'']
     [[], ''argon2id'', ''v='' @ show_nat argonVersion,
      ''m='' @ show_nat argonMemory @ '',t='' @ show_nat argonTime @ '',p='' @ show_nat argonThreads,
      raw_std_encode salt, raw_std_encode dgst]"
    by (simp add: encode_hash_def)
  then show ?thesis by (simp only:) (rule split_join; simp add: dollar_free)
qed

lemma parse_encode_hash:
  "parseEncoded (encode_hash salt dgst) = Inr \<lparr>ap_memory = argonMemory, ap_time = argonTime,
     ap_threads = argonThreads, ap_salt = salt, ap_hash = dgst\<rparr>"
proof -
  have "scan_params (''m='' @ show_nat argonMemory @ '',t='' @ show_nat argonTime @ '',p='' @ show_nat argonThreads)
      = Some (argonMemory, argonTime, argonThreads)"
    by (rule scan_params_show) (simp_all add: argon_defs)
  then show ?thesis by (simp add: parseEncoded_def split_encode_hash Let_def)
qed

lemma Hash_Inr:
  "Hash E pw w = (Inr h, w') \<longleftrightarrow> (\<exists>salt. rnd E (rtick w) argonSaltLen = Inr salt \<and>
     h = encode_hash salt (idkey E pw salt argonTime argonMemory argonThreads argonKeyLen) \<and>
     w' = w\<lparr>rtick := Suc (rtick w)\<rparr>)"
  by (auto simp: Hash_def res_elims rand_read_Inr Let_def)

lemma Hash_frame: "Hash E pw w = (r, w') \<Longrightarrow> wdb w' = wdb w \<and> tick w' = tick w"
  by (auto simp: Hash_def rand_read_def Let_def split: sum.splits)

text \<open>What the code relies on in \<^verbatim>\<open>argon2.IDKey\<close>: it returns as many bytes as asked for.\<close>

definition idkey_length :: "env \<Rightarrow> bool" where
  "idkey_length E \<longleftrightarrow> (\<forall>pw salt t m p n. length (idkey E pw salt t m p n) = n)"

lemma Verify_encode_hash:
  assumes "idkey_length E" "length dgst = argonKeyLen"
  shows "Verify E pw (encode_hash salt dgst) = Inr () \<longleftrightarrow>
     idkey E pw salt argonTime argonMemory argonThreads argonKeyLen = dgst"
  using assms by (simp add: Verify_def parse_encode_hash ct_compare_def Let_def argonKeyLen_def)

lemma Verify_Hash:
  assumes "idkey_length E" "Hash E pw w = (Inr h, w')"
  shows "Verify E pw h = Inr ()"
  using assms Verify_encode_hash [OF assms(1)] by (auto simp: Hash_Inr idkey_length_def)

lemma Verify_cases: "Verify E pw h = Inr () \<or> (\<exists>e. Verify E pw h = Inl e)"
  by (cases "Verify E pw h") auto

text \<open>\<^verbatim>\<open>Verify\<close> depends on the environment through \<^verbatim>\<open>IDKey\<close> alone.\<close>

lemma Verify_cong: "idkey E = idkey E' \<Longrightarrow> Verify E pw h = Verify E' pw h"
  by (simp add: Verify_def)

lemma demo_idkey_length: "idkey_length demo_env"
  by (auto simp: idkey_length_def demo_env_def min_def)

end
