(* ===== verification/Credentials.thy ===== *)
theory Credentials
  imports Http
begin

text \<open>
  The contract shared by the two stores of hashed credentials, project API keys and admin
  tokens: a revoked credential is never accepted again, whatever operations of the store
  run in between. The stores interpret the locale on their own operations.
\<close>

locale credential_store =
  fixes verify :: "env \<Rightarrow> string \<Rightarrow> world \<Rightarrow> 'i res"
    and revoke :: "env \<Rightarrow> 'i \<Rightarrow> world \<Rightarrow> unit res"
    and revoked :: "'i \<Rightarrow> db \<Rightarrow> bool"
    and step :: "db \<Rightarrow> db \<Rightarrow> bool"
  assumes verify_live: "verify E p w = (Inr i, w') \<Longrightarrow> \<not> revoked i (wdb w)"
    and revoke_revokes: "revoke E i w = (Inr u, w') \<Longrightarrow> revoked i (wdb w')"
    and step_keeps: "step d d' \<Longrightarrow> revoked i d \<Longrightarrow> revoked i d'"
begin

lemma steps_keep: "step\<^sup>*\<^sup>* d d' \<Longrightarrow> revoked i d \<Longrightarrow> revoked i d'"
  by (induction rule: rtranclp_induct) (auto intro: step_keeps)

theorem revoked_for_good:
  assumes "revoke E i w = (Inr u, w1)" "step\<^sup>*\<^sup>* (wdb w1) (wdb w2)" "verify E' p w2 = (Inr j, w3)"
  shows "j \<noteq> i"
  using steps_keep [OF assms(2) revoke_revokes [OF assms(1)]] verify_live [OF assms(3)] by blast

end

end
