(* ===== verification/Key_Service.thy ===== *)
theory Key_Service
  imports Keys Credentials
begin

text \<open>
  \<^verbatim>\<open>keys.Service\<close> over the table \<^verbatim>\<open>api_keys\<close>, its HTTP handlers and the middleware
  \<^verbatim>\<open>auth.APIKeyAuth\<close>. The constraints of the table (primary key, the partial unique
  index on the prefix of active keys, the foreign key to \<^verbatim>\<open>projects\<close>) are checked by the
  \<^verbatim>\<open>INSERT\<close>.
\<close>

section \<open>service.go\<close>

record apikey =
  ak_id :: uuid
  ak_project :: uuid
  ak_prefix :: string
  ak_name :: string
  ak_last_used :: "instant option"
  ak_expires :: "instant option"
  ak_created :: instant
  ak_revoked :: "instant option"

record issued_key =
  ik_key :: apikey
  ik_plaintext :: string

text \<open>The columns a key is read with: all but the hash.\<close>

definition key_columns :: "key_row \<Rightarrow> apikey" where
  "key_columns k = \<lparr>ak_id = k_id k, ak_project = k_project k, ak_prefix = k_prefix k, ak_name = k_name k,
     ak_last_used = k_last_used k, ak_expires = k_expires k, ak_created = k_created k,
     ak_revoked = k_revoked k\<rparr>"

definition insert_key :: "env \<Rightarrow> uuid \<Rightarrow> string \<Rightarrow> string \<Rightarrow> string \<Rightarrow> world \<Rightarrow> apikey res" where
  "insert_key E pid prefix hash name w = sql E (\<lambda>d.
     let k = \<lparr>k_id = new_uuid E (tick w), k_project = pid, k_prefix = prefix, k_hash = hash, k_name = name,
           k_last_used = None, k_expires = None, k_created = db_now E, k_revoked = None\<rparr>
     in if \<exists>r \<in> set (api_keys d). k_id r = k_id k
          then Inl (pg_error ''duplicate key value violates unique constraint \"api_keys_pkey\"'' ''23505'')
        else if \<exists>r \<in> set (api_keys d). k_revoked r = None \<and> k_prefix r = prefix
          then Inl (pg_error ''duplicate key value violates unique constraint \"api_keys_prefix_idx\"'' ''23505'')
        else if \<forall>p \<in> set (projects d). p_id p \<noteq> pid
          then Inl (pg_error ''insert or update on table \"api_keys\" violates foreign key constraint'' ''23503'')
        else Inr (key_columns k, d\<lparr>api_keys := api_keys d @ [k]\<rparr>)) w"

definition keys_Issue :: "env \<Rightarrow> uuid \<Rightarrow> string \<Rightarrow> world \<Rightarrow> issued_key res" where
  "keys_Issue E pid name w =
     and_then (Generate E w) (\<lambda>(plaintext, prefix) w.
     and_then (Hash E plaintext w) (\<lambda>hash w.
     and_then (wrap_err ''insert api_key: '' (insert_key E pid prefix hash name w)) (\<lambda>k w.
     (Inr \<lparr>ik_key = k, ik_plaintext = plaintext\<rparr>, w))))"

definition keys_List :: "env \<Rightarrow> uuid \<Rightarrow> world \<Rightarrow> apikey list res" where
  "keys_List E pid = query E (\<lambda>d. map key_columns
     (order_desc k_created (filter (\<lambda>k. k_project k = pid) (api_keys d))))"

definition keys_Revoke :: "env \<Rightarrow> uuid \<Rightarrow> uuid \<Rightarrow> world \<Rightarrow> unit res" where
  "keys_Revoke E pid kid w =
     (let P = (\<lambda>k. k_id k = kid \<and> k_project k = pid \<and> k_revoked k = None) in
      and_then (sql E (\<lambda>d. Inr (affected P (api_keys d),
          d\<lparr>api_keys := update_where P (\<lambda>k. k\<lparr>k_revoked := Some (db_now E)\<rparr>) (api_keys d)\<rparr>)) w)
        (\<lambda>n w. if n = 0 then (Inl (Sentinel ErrKeyNotFound), w) else (Inr (), w)))"

definition touch_key :: "env \<Rightarrow> uuid \<Rightarrow> world \<Rightarrow> world" where
  "touch_key E kid w = snd (sql E (\<lambda>d. Inr ((), d\<lparr>api_keys :=
     update_where (\<lambda>k. k_id k = kid) (\<lambda>k. k\<lparr>k_last_used := Some (db_now E)\<rparr>) (api_keys d)\<rparr>)) w)"

definition keys_Verify :: "env \<Rightarrow> string \<Rightarrow> world \<Rightarrow> (uuid \<times> uuid) res" where
  "keys_Verify E plaintext w = (case ParsePrefix plaintext of
      Inl e \<Rightarrow> (Inl e, w)
    | Inr prefix \<Rightarrow>
       and_then (query E (\<lambda>d. select_one (\<lambda>k. k_prefix k = prefix) (api_keys d)) w) (\<lambda>row w.
       case row of None \<Rightarrow> (Inl (Sentinel ErrKeyNotFound), w)
       | Some k \<Rightarrow>
          if k_revoked k \<noteq> None then (Inl (Sentinel ErrKeyRevoked), w)
          else if k_expires k \<noteq> None \<and> the (k_expires k) < go_now E then (Inl (Sentinel ErrKeyExpired), w)
          else case Verify E plaintext (k_hash k) of
            Inl e \<Rightarrow> (Inl e, w)
          | Inr _ \<Rightarrow> (Inr (k_project k, k_id k), touch_key E (k_id k) w)))"

section \<open>handlers.go\<close>

definition keys_issue_h :: "env \<Rightarrow> request \<Rightarrow> issued_key handler" where
  "keys_issue_h E r w = (case uuid_parse E (rq_param r ''id'') of
      None \<Rightarrow> write_err 400 ''bad project id'' w
    | Some pid \<Rightarrow>
       let name = snd (json_name E (case rq_body r of None \<Rightarrow> [] | Some b \<Rightarrow> b)) in
       (case keys_Issue E pid name w of
          (Inl e, w) \<Rightarrow> write_err 500 (err_text e) w
        | (Inr k, w) \<Rightarrow> write_ok 201 k w))"

definition keys_list_h :: "env \<Rightarrow> request \<Rightarrow> apikey list handler" where
  "keys_list_h E r w = (case uuid_parse E (rq_param r ''id'') of
      None \<Rightarrow> write_err 400 ''bad project id'' w
    | Some pid \<Rightarrow> (case keys_List E pid w of
          (Inl e, w) \<Rightarrow> write_err 500 (err_text e) w
        | (Inr ks, w) \<Rightarrow> write_ok 200 ks w))"

definition keys_revoke_h :: "env \<Rightarrow> request \<Rightarrow> unit handler" where
  "keys_revoke_h E r w = (case uuid_parse E (rq_param r ''id'') of
      None \<Rightarrow> write_err 400 ''bad project id'' w
    | Some pid \<Rightarrow> (case uuid_parse E (rq_param r ''keyID'') of
        None \<Rightarrow> write_err 400 ''bad key id'' w
      | Some kid \<Rightarrow> (case keys_Revoke E pid kid w of
          (Inl e, w) \<Rightarrow> if errors_is e ErrKeyNotFound then write_err 404 ''not found'' w
                          else write_err 500 (err_text e) w
        | (Inr _, w) \<Rightarrow> write_ok 204 () w)))"

text \<open>
  \<^verbatim>\<open>auth.APIKeyAuth\<close>: the inner handler is given the project and key ids the middleware
  puts into the request context.
\<close>

definition APIKeyAuth :: "env \<Rightarrow> request \<Rightarrow> (uuid \<Rightarrow> uuid \<Rightarrow> 'a handler) \<Rightarrow> 'a handler" where
  "APIKeyAuth E r inner w = (case ExtractBearer r of
      Inl e \<Rightarrow> write_err 401 ''missing api key'' w
    | Inr plaintext \<Rightarrow> (case keys_Verify E plaintext w of
        (Inl e, w) \<Rightarrow> write_err (if errors_is e ErrKeyRevoked \<or> errors_is e ErrKeyExpired then 403 else 401)
                        ''invalid api key'' w
      | (Inr (projectID, keyID), w) \<Rightarrow> inner projectID keyID w))"

section \<open>Lemmas\<close>

lemma insert_key_Inr:
  "insert_key E pid prefix hash name w = (Inr k, w') \<longleftrightarrow>
     flt E (tick w) = None \<and>
     (\<forall>r \<in> set (api_keys (wdb w)). k_id r \<noteq> new_uuid E (tick w)) \<and>
     (\<forall>r \<in> set (api_keys (wdb w)). k_revoked r = None \<longrightarrow> k_prefix r \<noteq> prefix) \<and>
     (\<exists>p \<in> set (projects (wdb w)). p_id p = pid) \<and>
     (let row = \<lparr>k_id = new_uuid E (tick w), k_project = pid, k_prefix = prefix, k_hash = hash,
        k_name = name, k_last_used = None, k_expires = None, k_created = db_now E, k_revoked = None\<rparr>
      in k = key_columns row \<and>
         w' = w\<lparr>tick := Suc (tick w), wdb := (wdb w)\<lparr>api_keys := api_keys (wdb w) @ [row]\<rparr>\<rparr>)"
  by (auto simp: insert_key_def sql_Inr Let_def split: if_splits)

lemma insert_key_Inl: "insert_key E pid prefix hash name w = (Inl e, w') \<Longrightarrow> wdb w' = wdb w"
  unfolding insert_key_def by (rule sql_Inl_wdb)

lemma touch_key_keys:
  "api_keys (wdb (touch_key E kid w)) = api_keys (wdb w) \<or>
   api_keys (wdb (touch_key E kid w)) = update_where (\<lambda>k. k_id k = kid)
      (\<lambda>k. k\<lparr>k_last_used := Some (db_now E)\<rparr>) (api_keys (wdb w))"
  by (auto simp: touch_key_def sql_def split: option.splits)

lemma touch_key_frame: "\<exists>ks. wdb (touch_key E kid w) = (wdb w)\<lparr>api_keys := ks\<rparr>"
  by (cases "flt E (tick w)")
    (auto simp: touch_key_def sql_def intro: exI [of _ "api_keys (wdb w)"])

lemma touch_key_used: "\<exists>ks. wdb (touch_key E kid w) = (wdb w)\<lparr>api_keys := ks\<rparr> \<and>
    map (k_last_used_update (\<lambda>_. None)) ks = map (k_last_used_update (\<lambda>_. None)) (api_keys (wdb w))"
  by (cases "flt E (tick w)")
    (auto simp: touch_key_def sql_def map_update_where intro: exI [of _ "api_keys (wdb w)"])

lemma keys_Verify_Inr:
  "keys_Verify E p w = (Inr (pid, kid), w') \<longleftrightarrow>
     (\<exists>prefix k. ParsePrefix p = Inr prefix \<and> flt E (tick w) = None \<and>
       select_one (\<lambda>k. k_prefix k = prefix) (api_keys (wdb w)) = Some k \<and>
       k_revoked k = None \<and> (\<forall>t. k_expires k = Some t \<longrightarrow> go_now E \<le> t) \<and>
       Verify E p (k_hash k) = Inr () \<and> pid = k_project k \<and> kid = k_id k \<and>
       w' = touch_key E kid (w\<lparr>tick := Suc (tick w)\<rparr>))"
  by (auto simp: keys_Verify_def res_elims query_Inr not_less split: sum.splits option.splits if_splits)

lemma keys_Verify_frame: "keys_Verify E p w = (r, w') \<Longrightarrow> \<exists>ks. wdb w' = (wdb w)\<lparr>api_keys := ks\<rparr>"
proof -
  assume v: "keys_Verify E p w = (r, w')"
  have triv: "wdb w = (wdb w)\<lparr>api_keys := api_keys (wdb w)\<rparr>" by simp
  show ?thesis
  proof (cases r)
    case (Inl e)
    with v have "wdb w' = wdb w"
      by (auto simp: keys_Verify_def res_elims query_Inr query_Inl split: sum.splits option.splits if_splits)
    with triv show ?thesis by metis
  next
    case (Inr i)
    obtain pid kid where "i = (pid, kid)" by (cases i)
    with v Inr have "w' = touch_key E kid (w\<lparr>tick := Suc (tick w)\<rparr>)"
      by (auto simp: keys_Verify_Inr)
    then show ?thesis using touch_key_frame [of E kid "w\<lparr>tick := Suc (tick w)\<rparr>"] by simp
  qed
qed

section \<open>Revocation\<close>

text \<open>A key, named by its project and its id, is revoked when a row has the id and no such row is active.\<close>

definition key_revoked :: "uuid \<times> uuid \<Rightarrow> db \<Rightarrow> bool" where
  "key_revoked i d \<longleftrightarrow> (\<exists>k \<in> set (api_keys d). k_id k = snd i) \<and>
     (\<forall>k \<in> set (api_keys d). k_id k = snd i \<and> k_project k = fst i \<longrightarrow> k_revoked k \<noteq> None)"

text \<open>
  What the program does to \<^verbatim>\<open>api_keys\<close>: the operations of the service, the revocation of
  all keys of a project (projects.Delete), and everything that leaves the table alone.
\<close>

inductive key_step :: "db \<Rightarrow> db \<Rightarrow> bool" where
  issue: "keys_Issue E pid name w = (r, w') \<Longrightarrow> key_step (wdb w) (wdb w')"
| revoke: "keys_Revoke E pid kid w = (r', w') \<Longrightarrow> key_step (wdb w) (wdb w')"
| verify: "keys_Verify E p w = (r'', w') \<Longrightarrow> key_step (wdb w) (wdb w')"
| revoke_all: "api_keys d' = update_where (\<lambda>k. k_project k = pid \<and> k_revoked k = None)
     (\<lambda>k. k\<lparr>k_revoked := Some t\<rparr>) (api_keys d) \<Longrightarrow> key_step d d'"
| other: "api_keys d' = api_keys d \<Longrightarrow> key_step d d'"

lemma keys_Issue_keys:
  assumes "keys_Issue E pid name w = (r, w')"
  shows "api_keys (wdb w') = api_keys (wdb w) \<or>
    (\<exists>k. api_keys (wdb w') = api_keys (wdb w) @ [k] \<and> (\<forall>r \<in> set (api_keys (wdb w)). k_id r \<noteq> k_id k))"
  using assms
  by (cases r) (auto simp: keys_Issue_def Generate_def res_elims Let_def insert_key_Inr
      dest!: GenerateWithPrefix_frame Hash_frame insert_key_Inl)

lemma keys_Revoke_keys:
  assumes "keys_Revoke E pid kid w = (r, w')"
  shows "api_keys (wdb w') = api_keys (wdb w) \<or>
    api_keys (wdb w') = update_where (\<lambda>k. k_id k = kid \<and> k_project k = pid \<and> k_revoked k = None)
      (\<lambda>k. k\<lparr>k_revoked := Some (db_now E)\<rparr>) (api_keys (wdb w))"
  using assms by (cases r) (auto simp: keys_Revoke_def Let_def res_elims sql_Inr dest!: sql_Inl_wdb split: if_splits)

text \<open>An update that keeps ids and projects and takes no revocation back keeps what is revoked.\<close>

lemma key_revoked_update:
  assumes "key_revoked i d" "api_keys d' = update_where P f (api_keys d)"
    "\<And>k. k_id (f k) = k_id k" "\<And>k. k_project (f k) = k_project k"
    "\<And>k. k_revoked k \<noteq> None \<Longrightarrow> k_revoked (f k) \<noteq> None"
  shows "key_revoked i d'"
proof -
  define g where "g = (\<lambda>k. if P k then f k else k)"
  have g: "k_id (g k) = k_id k" "k_project (g k) = k_project k"
      "k_revoked k \<noteq> None \<Longrightarrow> k_revoked (g k) \<noteq> None" for k
    using assms(3-5) by (simp_all add: g_def)
  have "set (api_keys d') = g ` set (api_keys d)" by (simp add: assms(2) update_where_def g_def)
  with assms(1) show ?thesis by (simp add: key_revoked_def g del: not_None_eq)
qed

lemma key_revoked_same: "key_revoked i d \<Longrightarrow> api_keys d' = api_keys d \<Longrightarrow> key_revoked i d'"
  by (simp add: key_revoked_def)

lemma keys_Verify_keys:
  assumes "keys_Verify E p w = (r, w')"
  shows "api_keys (wdb w') = api_keys (wdb w) \<or>
    (\<exists>kid. api_keys (wdb w') = update_where (\<lambda>k. k_id k = kid)
      (\<lambda>k. k\<lparr>k_last_used := Some (db_now E)\<rparr>) (api_keys (wdb w)))"
proof (cases r)
  case (Inl e)
  with assms show ?thesis
    by (auto simp: keys_Verify_def res_elims query_Inr query_Inl split: sum.splits option.splits if_splits)
next
  case (Inr i)
  obtain pid kid where "i = (pid, kid)" by (cases i)
  with assms Inr have "w' = touch_key E kid (w\<lparr>tick := Suc (tick w)\<rparr>)" by (auto simp: keys_Verify_Inr)
  then show ?thesis using touch_key_keys [of E kid "w\<lparr>tick := Suc (tick w)\<rparr>"] by auto
qed

lemma key_step_keeps: "key_step d d' \<Longrightarrow> key_revoked i d \<Longrightarrow> key_revoked i d'"
proof (induction rule: key_step.induct)
  case (issue E pid name w r w')
  from keys_Issue_keys [OF issue.hyps] issue.prems show ?case
    by (auto simp: key_revoked_def)
next
  case (revoke E pid kid w r w')
  from keys_Revoke_keys [OF revoke.hyps] revoke.prems show ?case
    by (elim disjE) (auto intro: key_revoked_same key_revoked_update)
next
  case (verify E p w r w')
  from keys_Verify_keys [OF verify.hyps] verify.prems show ?case
    by (elim disjE exE) (auto intro: key_revoked_same key_revoked_update)
qed (auto intro: key_revoked_same key_revoked_update)

lemma keys_Revoke_revokes:
  assumes "keys_Revoke E pid kid w = (Inr u, w')"
  shows "key_revoked (pid, kid) (wdb w')"
proof -
  let ?P = "\<lambda>k. k_id k = kid \<and> k_project k = pid \<and> k_revoked k = None"
  from assms have "affected ?P (api_keys (wdb w)) \<noteq> 0"
    and keys: "api_keys (wdb w') = update_where ?P (\<lambda>k. k\<lparr>k_revoked := Some (db_now E)\<rparr>) (api_keys (wdb w))"
    by (auto simp: keys_Revoke_def Let_def res_elims sql_Inr split: if_splits)
  then obtain k where k: "k \<in> set (api_keys (wdb w))" "?P k" by (auto simp: affected_0)
  define g where "g = (\<lambda>k :: key_row. if ?P k then k\<lparr>k_revoked := Some (db_now E)\<rparr> else k)"
  have "set (api_keys (wdb w')) = g ` set (api_keys (wdb w))" by (simp add: keys update_where_def g_def)
  moreover have "k_id (g x) = k_id x" "k_project (g x) = k_project x"
    "k_id x = kid \<Longrightarrow> k_project x = pid \<Longrightarrow> k_revoked (g x) \<noteq> None" for x by (simp_all add: g_def)
  ultimately show ?thesis using k by (auto simp: key_revoked_def)
qed

lemma keys_Verify_live:
  assumes "keys_Verify E p w = (Inr i, w')"
  shows "\<not> key_revoked i (wdb w)"
  using assms by (cases i) (auto simp: keys_Verify_Inr key_revoked_def dest!: select_one_Some)

interpretation key_store: credential_store keys_Verify "\<lambda>E (pid, kid). keys_Revoke E pid kid" key_revoked key_step
proof unfold_locales
  show "keys_Verify E p w = (Inr i, w') \<Longrightarrow> \<not> key_revoked i (wdb w)" for E p w i w'
    by (rule keys_Verify_live)
  show "(case i of (pid, kid) \<Rightarrow> keys_Revoke E pid kid) w = (Inr u, w') \<Longrightarrow> key_revoked i (wdb w')"
    for E i w u w' by (cases i) (simp add: keys_Revoke_revokes)
qed (rule key_step_keeps)

lemma keys_Issue_verifies:
  assumes "keys_Issue E pid name w = (Inr k, w1)" "idkey_length E" "rand_length E"
    and "\<forall>r \<in> set (api_keys (wdb w)). k_prefix r \<noteq> ak_prefix (ik_key k)"
    and "wdb w2 = wdb w1" "flt E' (tick w2) = None" "idkey E' = idkey E"
  shows "fst (keys_Verify E' (ik_plaintext k) w2) = Inr (pid, ak_id (ik_key k))"
proof -
  from assms(1) obtain b hash wa wb where
    g: "rnd E (rtick w) keyBytes = Inr b" "wa = w\<lparr>rtick := Suc (rtick w)\<rparr>"
    and p: "ik_plaintext k = KeyPrefix @ raw_url_encode b"
    and h: "Hash E (KeyPrefix @ raw_url_encode b) wa = (Inr hash, wb)"
    and i: "insert_key E pid (take PrefixLookup (raw_url_encode b)) hash name wb = (Inr (ik_key k), w1)"
    by (auto simp: keys_Issue_def Generate_def res_elims GenerateWithPrefix_Inr)
  let ?pre = "take PrefixLookup (raw_url_encode b)"
  have "length b = 32" using assms(3) g by (auto simp: rand_length_def keyBytes_def)
  then have pp: "ParsePrefix (ik_plaintext k) = Inr ?pre"
    using p by (auto simp: ParsePrefix_Inr length_raw_url PrefixLookup_def)
  have v: "Verify E' (ik_plaintext k) hash = Inr ()"
    using Verify_Hash [OF assms(2) h] Verify_cong [OF assms(7)] p by simp
  have wb: "wdb wb = wdb w" using Hash_frame [OF h] g by simp
  define row where "row = \<lparr>k_id = new_uuid E (tick wb), k_project = pid, k_prefix = ?pre, k_hash = hash,
    k_name = name, k_last_used = None, k_expires = None, k_created = db_now E, k_revoked = None\<rparr>"
  from i wb have k: "ik_key k = key_columns row" "api_keys (wdb w2) = api_keys (wdb w) @ [row]"
    using assms(5) by (auto simp: insert_key_Inr Let_def row_def)
  with assms(4) have "select_one (\<lambda>r. k_prefix r = ?pre) (api_keys (wdb w2)) = Some row"
    by (intro select_one_unique) (auto simp: key_columns_def row_def)
  with pp v assms(6) k show ?thesis
    by (simp add: keys_Verify_def query_def sql_def row_def key_columns_def)
qed

text \<open>The key handed out, and what issuing it leaves alone.\<close>

lemma keys_Issue_plaintext:
  "keys_Issue E pid name w = (Inr k, w1) \<Longrightarrow> \<exists>b. ik_plaintext k = KeyPrefix @ raw_url_encode b"
  by (auto simp: keys_Issue_def Generate_def res_elims GenerateWithPrefix_Inr Let_def)

lemma keys_Issue_frame:
  "keys_Issue E pid name w = (Inr k, w1) \<Longrightarrow> \<exists>ks. wdb w1 = (wdb w)\<lparr>api_keys := ks\<rparr>"
  by (auto simp: keys_Issue_def Generate_def res_elims Let_def insert_key_Inr
      dest!: GenerateWithPrefix_frame Hash_frame)

lemma issued_bearer:
  assumes "keys_Issue E pid name w = (Inr k, w1)" "rq_auth r = ''Bearer '' @ ik_plaintext k"
  shows "ExtractBearer r = Inr (ik_plaintext k)"
proof -
  from keys_Issue_plaintext [OF assms(1)] obtain b where b: "ik_plaintext k = KeyPrefix @ raw_url_encode b" by blast
  have "graphic c" if "c \<in> set (raw_url_encode b)" for c
    using set_raw_url [of b] url_alphabet_graphic that by blast
  moreover have "\<forall>c \<in> set KeyPrefix. graphic c" by (simp add: KeyPrefix_def graphic_def)
  ultimately show ?thesis
    using ExtractBearer_bearer [OF assms(2)] b by (auto simp: KeyPrefix_def)
qed

text \<open>A database with one project, and the key issued there.\<close>

definition demo_project :: project_row where
  "demo_project = \<lparr>p_id = 7, p_name = ''demo'', p_slug = ''demo'', p_role = ''p_demo'', p_schema = ''p_demo'',
     p_password = ''pw'', p_parent = None, p_created = 0, p_updated = 0, p_deleted = None\<rparr>"

definition demo_db :: db where
  "demo_db = empty_db\<lparr>projects := [demo_project]\<rparr>"

lemma demo_key_issued: "\<exists>k w1. keys_Issue demo_env 7 ''ci'' (world_of demo_db) = (Inr k, w1) \<and>
    tick w1 = 1 \<and> api_keys (wdb w1) \<noteq> []"
  by (simp add: keys_Issue_def Generate_def GenerateWithPrefix_def Hash_def insert_key_def sql_def
      rand_read_def Let_def demo_defs demo_db_def demo_project_def)

lemma demo_key_verifies:
  "\<exists>k w1. keys_Issue demo_env 7 ''ci'' (world_of demo_db) = (Inr k, w1) \<and>
     fst (keys_Verify demo_env (ik_plaintext k) w1) = Inr (7, ak_id (ik_key k))"
proof -
  obtain k w1 where i: "keys_Issue demo_env 7 ''ci'' (world_of demo_db) = (Inr k, w1)"
    using demo_key_issued by blast
  from keys_Issue_verifies [OF i demo_idkey_length demo_rand_length _ refl demo_flt refl]
  have "fst (keys_Verify demo_env (ik_plaintext k) w1) = Inr (7, ak_id (ik_key k))"
    by (simp add: world_of_def demo_db_def empty_db_def)
  with i show ?thesis by blast
qed

lemma issued_prefix_length:
  assumes "keys_Issue E pid name w = (Inr k, w1)" "rand_length E"
  shows "length (ak_prefix (ik_key k)) = PrefixLookup"
  using assms by (auto simp: keys_Issue_def Generate_def res_elims GenerateWithPrefix_Inr insert_key_Inr
      key_columns_def Let_def length_raw_url rand_length_def keyBytes_def PrefixLookup_def)

section \<open>Properties\<close>



text \<open>
  Property C22. Verification is sound: it accepts a plaintext only as a key of the database
  that is not revoked, not expired at that moment, stored under the plaintext's own prefix, and
  whose stored hash the plaintext's argon2id hash matches; and it changes nothing but the key's
  last use.
\<close>

theorem verified_key_is_live:
  assumes "keys_Verify E p w = (Inr (pid, kid), w')"
  shows "(\<exists>k \<in> set (api_keys (wdb w)). k_id k = kid \<and> k_project k = pid \<and> k_revoked k = None \<and>
       (\<forall>t. k_expires k = Some t \<longrightarrow> go_now E \<le> t) \<and> has_prefix (KeyPrefix @ k_prefix k) p \<and>
       Verify E p (k_hash k) = Inr ()) \<and>
     (\<exists>ks. wdb w' = (wdb w)\<lparr>api_keys := ks\<rparr> \<and>
       map (k_last_used_update (\<lambda>_. None)) ks = map (k_last_used_update (\<lambda>_. None)) (api_keys (wdb w)))"
proof
  from assms obtain prefix k where p: "ParsePrefix p = Inr prefix"
    and s: "select_one (\<lambda>k. k_prefix k = prefix) (api_keys (wdb w)) = Some k"
    and k: "k_revoked k = None" "\<forall>t. k_expires k = Some t \<longrightarrow> go_now E \<le> t" "Verify E p (k_hash k) = Inr ()"
      "pid = k_project k" "kid = k_id k"
    and w': "w' = touch_key E kid (w\<lparr>tick := Suc (tick w)\<rparr>)"
    by (auto simp: keys_Verify_Inr)
  from p have "has_prefix (KeyPrefix @ prefix) p"
    by (auto simp: ParsePrefix_Inr has_prefix_iff) (metis append_take_drop_id)
  with select_one_Some [OF s] k show "\<exists>k \<in> set (api_keys (wdb w)). k_id k = kid \<and> k_project k = pid \<and>
      k_revoked k = None \<and> (\<forall>t. k_expires k = Some t \<longrightarrow> go_now E \<le> t) \<and>
      has_prefix (KeyPrefix @ k_prefix k) p \<and> Verify E p (k_hash k) = Inr ()" by auto
  show "\<exists>ks. wdb w' = (wdb w)\<lparr>api_keys := ks\<rparr> \<and>
      map (k_last_used_update (\<lambda>_. None)) ks = map (k_last_used_update (\<lambda>_. None)) (api_keys (wdb w))"
    using touch_key_used [of E kid "w\<lparr>tick := Suc (tick w)\<rparr>"] w' by simp
qed

lemma verified_key_is_live_witness:
  "\<exists>p w i w'. keys_Verify demo_env p w = (Inr i, w') \<and> (\<exists>r \<in> set (api_keys (wdb w)). k_id r = snd i)"
proof -
  obtain k :: issued_key and w1 where "fst (keys_Verify demo_env (ik_plaintext k) w1) = Inr (7, ak_id (ik_key k))"
    using demo_key_verifies by blast
  then obtain w2 where v: "keys_Verify demo_env (ik_plaintext k) w1 = (Inr (7, ak_id (ik_key k)), w2)"
    by (cases "keys_Verify demo_env (ik_plaintext k) w1") auto
  from verified_key_is_live [OF v] have "\<exists>r \<in> set (api_keys (wdb w1)). k_id r = snd (7 :: uuid, ak_id (ik_key k))"
    by (auto simp del: split_paired_Ex)
  with v show ?thesis by blast
qed

text \<open>
  Property C3. Revocation is final: once \<^verbatim>\<open>Revoke\<close> has succeeded for a key, no
  plaintext verifies as that key again, whatever keys are issued, listed, verified or revoked and
  whatever else happens to the database in between.
\<close>

theorem revoked_key_never_verifies:
  assumes "keys_Revoke E pid kid w = (Inr u, w1)" "key_step\<^sup>*\<^sup>* (wdb w1) (wdb w2)"
    and "keys_Verify E' p w2 = (Inr j, w3)"
  shows "j \<noteq> (pid, kid)"
  using key_store.revoked_for_good [of E "(pid, kid)" w u w1 w2 E' p j w3] assms by simp

definition demo_key :: key_row where
  "demo_key = \<lparr>k_id = 99, k_project = 7, k_prefix = [], k_hash = [], k_name = ''old'', k_last_used = None,
     k_expires = None, k_created = 0, k_revoked = None\<rparr>"

lemma revoked_key_never_verifies_witness:
  "\<exists>w1 w2 k w3. keys_Revoke demo_env 7 99 (world_of (demo_db\<lparr>api_keys := [demo_key]\<rparr>)) = (Inr (), w1) \<and>
     keys_Issue demo_env 7 ''ci'' w1 = (Inr k, w2) \<and>
     keys_Verify demo_env (ik_plaintext k) w2 = (Inr (7, ak_id (ik_key k)), w3) \<and>
     (7, ak_id (ik_key k)) \<noteq> (7 :: uuid, 99)"
proof -
  let ?row = "demo_key\<lparr>k_revoked := Some (db_now demo_env)\<rparr>"
  let ?w1 = "\<lparr>wdb = demo_db\<lparr>api_keys := [?row]\<rparr>, tick = 1, rtick = 0\<rparr>"
  have r: "keys_Revoke demo_env 7 99 (world_of (demo_db\<lparr>api_keys := [demo_key]\<rparr>)) = (Inr (), ?w1)"
    by (simp add: keys_Revoke_def sql_def Let_def world_of_def demo_key_def affected_def update_where_def)
  obtain k w2 where i: "keys_Issue demo_env 7 ''ci'' ?w1 = (Inr k, w2)"
    by (simp add: keys_Issue_def Generate_def GenerateWithPrefix_def Hash_def insert_key_def sql_def
        rand_read_def Let_def demo_defs demo_db_def demo_project_def demo_key_def)
  have "ak_prefix (ik_key k) \<noteq> []"
    using issued_prefix_length [OF i demo_rand_length] by (auto simp: PrefixLookup_def)
  with keys_Issue_verifies [OF i demo_idkey_length demo_rand_length _ refl demo_flt refl]
  have "fst (keys_Verify demo_env (ik_plaintext k) w2) = Inr (7, ak_id (ik_key k))"
    by (simp add: demo_key_def)
  then obtain w3 where v: "keys_Verify demo_env (ik_plaintext k) w2 = (Inr (7, ak_id (ik_key k)), w3)"
    by (cases "keys_Verify demo_env (ik_plaintext k) w2") auto
  have "key_step\<^sup>*\<^sup>* (wdb ?w1) (wdb w2)" using key_step.issue [OF i] by (rule r_into_rtranclp)
  from revoked_key_never_verifies [OF r this v] r i v show ?thesis by blast
qed

end
