(* ===== verification/Auth.thy ===== *)
theory Auth
  imports Key_Service
begin

text \<open>
  The request guards of \<^verbatim>\<open>internal/auth\<close>: the bootstrap-token check (admin.go) and the
  per-key rate limiter (ratelimit.go). The token bucket itself is
  \<^verbatim>\<open>golang.org/x/time/rate\<close>, a parameter: a function that makes a bucket and one that asks it.
\<close>

section \<open>admin.go\<close>

definition AdminOnly :: "string \<Rightarrow> request \<Rightarrow> 'a handler \<Rightarrow> 'a handler" where
  "AdminOnly token r inner w =
     (if token = [] then write_err 403 ''admin disabled: PWRAP_BOOTSTRAP_TOKEN unset'' w
      else case ExtractBearer r of
        Inl e \<Rightarrow> write_err 401 ''missing bearer'' w
      | Inr got \<Rightarrow> if ct_compare got token \<noteq> 1 then write_err 401 ''invalid admin token'' w
                   else inner w)"

lemma AdminOnly_pass: "token \<noteq> [] \<Longrightarrow> ExtractBearer r = Inr token \<Longrightarrow> AdminOnly token r inner w = inner w"
  by (simp add: AdminOnly_def ct_compare_def)

lemma AdminOnly_refuse:
  "token = [] \<or> ExtractBearer r \<noteq> Inr token \<Longrightarrow>
     \<exists>st msg. AdminOnly token r inner w = ((st, Inl msg), w) \<and> (st = 401 \<or> st = 403)"
  by (cases "ExtractBearer r") (auto simp: AdminOnly_def ct_compare_def)

section \<open>ratelimit.go\<close>

text \<open>\<^verbatim>\<open>rate.NewLimiter(rps, burst)\<close> and \<^verbatim>\<open>Limiter.Allow\<close> at an instant.\<close>

record ('r, 'l) bucket =
  bk_new :: "'r \<Rightarrow> int \<Rightarrow> 'l"
  bk_allow :: "'l \<Rightarrow> instant \<Rightarrow> bool \<times> 'l"

record 'l entry =
  en_l :: 'l
  en_last :: instant

record ('r, 'l) limiter =
  li_limiters :: "string \<Rightarrow> 'l entry option"
  li_rps :: 'r
  li_burst :: int
  li_ttl :: duration

definition NewLimiter :: "'r \<Rightarrow> int \<Rightarrow> ('r, 'l) limiter" where
  "NewLimiter rps burst = \<lparr>li_limiters = (\<lambda>_. None), li_rps = rps, li_burst = burst, li_ttl = dur_mul 10 minute\<rparr>"

definition Allow :: "('r, 'l) bucket \<Rightarrow> instant \<Rightarrow> string \<Rightarrow> ('r, 'l) limiter \<Rightarrow> bool \<times> ('r, 'l) limiter" where
  "Allow B now key l =
     (if key = [] then (True, l)
      else let b = (case li_limiters l key of Some e \<Rightarrow> en_l e | None \<Rightarrow> bk_new B (li_rps l) (li_burst l));
               (ok, b') = bk_allow B b now
        in (ok, l\<lparr>li_limiters := (li_limiters l)(key \<mapsto> \<lparr>en_l = b', en_last = now\<rparr>)\<rparr>))"

text \<open>One tick of \<^verbatim>\<open>StartCleanup\<close>'s loop.\<close>

definition cleanup_tick :: "instant \<Rightarrow> ('r, 'l) limiter \<Rightarrow> ('r, 'l) limiter" where
  "cleanup_tick now l = l\<lparr>li_limiters := (\<lambda>k. case li_limiters l k of None \<Rightarrow> None
     | Some e \<Rightarrow> if sint (li_ttl l) < now - en_last e then None else Some e)\<rparr>"

definition RateLimit :: "('r, 'l) bucket \<Rightarrow> instant \<Rightarrow> (request \<Rightarrow> string) \<Rightarrow> request \<Rightarrow> 'a handler \<Rightarrow>
    ('r, 'l) limiter \<Rightarrow> world \<Rightarrow> ('a reply \<times> world) \<times> ('r, 'l) limiter" where
  "RateLimit B now keyFn r inner l w =
     (let (ok, l') = Allow B now (keyFn r) l in
      if \<not> ok then (write_err 429 ''rate limit exceeded'' w, l') else (inner w, l'))"

definition BearerKey :: "request \<Rightarrow> string" where
  "BearerKey r = (let h = rq_auth r; prefix = ''Bearer '' in
     if length h \<le> length prefix \<or> take (length prefix) h \<noteq> prefix then []
     else let tok = drop (length prefix) h in if 16 < length tok then take 16 tok else tok)"

lemma BearerKey_length: "length (BearerKey r) \<le> 16"
  by (simp add: BearerKey_def Let_def)

lemma BearerKey_bearer: "t \<noteq> [] \<Longrightarrow> rq_auth r = ''Bearer '' @ t \<Longrightarrow> BearerKey r = take 16 t"
  by (cases t) (simp_all add: BearerKey_def Let_def)

text \<open>What happens to a limiter over time: requests by key, ticks of the cleanup.\<close>

datatype event = Ask instant string | Tick instant

fun event_step :: "('r, 'l) bucket \<Rightarrow> event \<Rightarrow> ('r, 'l) limiter \<Rightarrow> (string \<times> bool) list \<times> ('r, 'l) limiter" where
  "event_step B (Ask t k) l = (let (ok, l') = Allow B t k l in ([(k, ok)], l'))"
| "event_step B (Tick t) l = ([], cleanup_tick t l)"

fun event_run :: "('r, 'l) bucket \<Rightarrow> event list \<Rightarrow> ('r, 'l) limiter \<Rightarrow> (string \<times> bool) list \<times> ('r, 'l) limiter" where
  "event_run B [] l = ([], l)"
| "event_run B (e # es) l =
     (let (o1, l1) = event_step B e l; (o2, l2) = event_run B es l1 in (o1 @ o2, l2))"

fun concerns :: "string \<Rightarrow> event \<Rightarrow> bool" where
  "concerns k (Ask t k') = (k' = k)"
| "concerns k (Tick t) = True"

text \<open>Two limiters agree on a key when they have the same settings and the same entry for it.\<close>

definition same_for :: "string \<Rightarrow> ('r, 'l) limiter \<Rightarrow> ('r, 'l) limiter \<Rightarrow> bool" where
  "same_for k l m \<longleftrightarrow> li_limiters l k = li_limiters m k \<and> li_rps l = li_rps m \<and>
     li_burst l = li_burst m \<and> li_ttl l = li_ttl m"

lemma event_step_same:
  assumes "same_for k l m" "concerns k e"
  shows "fst (event_step B e l) = fst (event_step B e m) \<and>
    same_for k (snd (event_step B e l)) (snd (event_step B e m))"
  using assms by (cases e) (auto simp: same_for_def Allow_def cleanup_tick_def Let_def split: prod.splits option.splits)

lemma event_step_other:
  assumes "\<not> concerns k e"
  shows "filter (\<lambda>(k', _). k' = k) (fst (event_step B e l)) = [] \<and> same_for k (snd (event_step B e l)) l"
  using assms by (cases e) (auto simp: same_for_def Allow_def Let_def split: prod.splits option.splits)

lemma same_for_trans: "same_for k l m \<Longrightarrow> same_for k m n \<Longrightarrow> same_for k l n"
  by (simp add: same_for_def)

lemma event_run_isolated:
  assumes "same_for k l m"
  shows "filter (\<lambda>(k', _). k' = k) (fst (event_run B es l)) = fst (event_run B (filter (concerns k) es) m)"
  using assms
proof (induction es arbitrary: l m)
  case (Cons e es)
  obtain o1 l1 where s: "event_step B e l = (o1, l1)" by fastforce
  obtain o2 m1 where t: "event_step B e m = (o2, m1)" by fastforce
  show ?case
  proof (cases "concerns k e")
    case True
    with event_step_same [OF Cons.prems True, of B] s t have "o1 = o2" "same_for k l1 m1" by auto
    moreover have "filter (\<lambda>(k', _). k' = k) o1 = o1"
      using True s by (cases e) (auto simp: Let_def split: prod.splits)
    ultimately show ?thesis using Cons.IH [of l1 m1] True s t by (auto split: prod.splits)
  next
    case False
    with event_step_other [OF False, of B l] s
    have "filter (\<lambda>(k', _). k' = k) o1 = []" "same_for k l1 l" by auto
    with Cons.IH [of l1 m] same_for_trans [OF _ Cons.prems] False s show ?thesis
      by (auto split: prod.splits)
  qed
qed simp

section \<open>Eviction\<close>

text \<open>
  What the code relies on in the token bucket: one that has been left alone for longer than the
  limiter's ttl is full again, so it answers, and goes on, as a new one does.
\<close>

definition refilled :: "('r, 'l) bucket \<Rightarrow> ('r, 'l) limiter \<Rightarrow> bool" where
  "refilled B l \<longleftrightarrow> (\<forall>b t t'. sint (li_ttl l) < t' - t \<longrightarrow>
     bk_allow B (snd (bk_allow B b t)) t' = bk_allow B (bk_new B (li_rps l) (li_burst l)) t')"

fun event_time :: "event \<Rightarrow> instant" where
  "event_time (Ask t k) = t"
| "event_time (Tick t) = t"

fun is_ask :: "event \<Rightarrow> bool" where
  "is_ask (Ask t k) = True"
| "is_ask (Tick t) = False"

text \<open>
  \<open>evicted_sim B T l m\<close>: the limiter \<open>l\<close> may lack entries of \<open>m\<close> that have been idle
  for longer than the ttl at time \<open>T\<close>; every entry holds a bucket last asked at its time.
\<close>

definition used :: "('r, 'l) bucket \<Rightarrow> 'l entry \<Rightarrow> bool" where
  "used B e \<longleftrightarrow> (\<exists>b. en_l e = snd (bk_allow B b (en_last e)))"

definition evicted_sim :: "('r, 'l) bucket \<Rightarrow> instant \<Rightarrow> ('r, 'l) limiter \<Rightarrow> ('r, 'l) limiter \<Rightarrow> bool" where
  "evicted_sim B T l m \<longleftrightarrow> li_rps l = li_rps m \<and> li_burst l = li_burst m \<and> li_ttl l = li_ttl m \<and>
     (\<forall>k e. li_limiters m k = Some e \<longrightarrow> used B e) \<and>
     (\<forall>k. li_limiters l k = li_limiters m k \<or>
       li_limiters l k = None \<and> (\<exists>e. li_limiters m k = Some e \<and> sint (li_ttl m) < T - en_last e))"

lemma evicted_sim_mono: "evicted_sim B T l m \<Longrightarrow> T \<le> T' \<Longrightarrow> evicted_sim B T' l m"
  unfolding evicted_sim_def by fastforce

lemma evicted_sim_bucket:
  assumes "evicted_sim B t l m" "refilled B m"
  shows "bk_allow B (case li_limiters l k of Some e \<Rightarrow> en_l e | None \<Rightarrow> bk_new B (li_rps l) (li_burst l)) t =
    bk_allow B (case li_limiters m k of Some e \<Rightarrow> en_l e | None \<Rightarrow> bk_new B (li_rps m) (li_burst m)) t"
proof (cases "li_limiters l k = li_limiters m k")
  case True
  have "li_rps l = li_rps m" "li_burst l = li_burst m" using assms(1) by (simp_all add: evicted_sim_def)
  with True show ?thesis by (cases "li_limiters m k") simp_all
next
  case False
  with assms(1) obtain e where e: "li_limiters l k = None" "li_limiters m k = Some e"
      "sint (li_ttl m) < t - en_last e" "used B e"
    unfolding evicted_sim_def by metis
  from e(4) obtain b where "en_l e = snd (bk_allow B b (en_last e))" by (auto simp: used_def)
  with e assms show ?thesis by (simp add: refilled_def evicted_sim_def)
qed

lemma evicted_sim_ask:
  assumes "evicted_sim B t l m" "refilled B m"
  shows "fst (Allow B t k l) = fst (Allow B t k m) \<and> evicted_sim B t (snd (Allow B t k l)) (snd (Allow B t k m))"
proof (cases "k = []")
  case False
  obtain ok b where ask: "bk_allow B (case li_limiters m k of Some e \<Rightarrow> en_l e
      | None \<Rightarrow> bk_new B (li_rps m) (li_burst m)) t = (ok, b)" by fastforce
  then have "b = snd (bk_allow B (case li_limiters m k of Some e \<Rightarrow> en_l e
      | None \<Rightarrow> bk_new B (li_rps m) (li_burst m)) t)" by simp
  then have "used B \<lparr>en_l = b, en_last = t\<rparr>" unfolding used_def by auto
  with False ask evicted_sim_bucket [OF assms, of k] assms(1) show ?thesis
    by (simp add: Allow_def evicted_sim_def)
qed (use assms in \<open>simp add: Allow_def\<close>)

lemma evicted_sim_tick:
  assumes "evicted_sim B t l m"
  shows "evicted_sim B t (cleanup_tick t l) m"
proof -
  have "li_limiters (cleanup_tick t l) k = li_limiters m k \<or> li_limiters (cleanup_tick t l) k = None \<and>
     (\<exists>e. li_limiters m k = Some e \<and> sint (li_ttl m) < t - en_last e)" for k
  proof (cases "li_limiters l k")
    case None
    with assms show ?thesis by (simp add: evicted_sim_def cleanup_tick_def) metis
  next
    case (Some e)
    then have "li_limiters m k = Some e" "li_ttl l = li_ttl m" using assms by (auto simp: evicted_sim_def) (metis option.distinct(1))
    with Some show ?thesis by (simp add: cleanup_tick_def)
  qed
  with assms show ?thesis by (simp add: evicted_sim_def) (simp add: cleanup_tick_def)
qed

lemma Allow_settings: "refilled B (snd (Allow B t k l)) = refilled B l"
  by (simp add: Allow_def refilled_def Let_def split: prod.splits)

lemma event_run_evict:
  assumes "evicted_sim B T l m" "refilled B m" "sorted (T # map event_time es)"
  shows "fst (event_run B es l) = fst (event_run B (filter is_ask es) m)"
  using assms
proof (induction es arbitrary: T l m)
  case (Cons e es)
  then have sim: "evicted_sim B (event_time e) l m" using evicted_sim_mono by fastforce
  have srt: "sorted (event_time e # map event_time es)" using Cons.prems(3) by auto
  show ?case
  proof (cases e)
    case (Ask t k)
    with sim have sim: "evicted_sim B t l m" by simp
    have next_sim: "evicted_sim B t (snd (Allow B t k l)) (snd (Allow B t k m))"
      and same: "fst (Allow B t k l) = fst (Allow B t k m)"
      using evicted_sim_ask [OF sim Cons.prems(2)] by blast+
    have "refilled B (snd (Allow B t k m))" using Cons.prems(2) by (simp add: Allow_settings)
    from Cons.IH [OF next_sim this] srt Ask same show ?thesis
      by (auto split: prod.splits)
  next
    case (Tick t)
    with sim have "evicted_sim B t (cleanup_tick t l) m" by (simp add: evicted_sim_tick)
    from Cons.IH [OF this Cons.prems(2)] srt Tick show ?thesis by (auto split: prod.splits)
  qed
qed simp

section \<open>A token bucket\<close>

text \<open>
  A bucket of 20 whole tokens, refilled at 10 per second: the concrete parameter at which the
  hypothesis \<open>refilled\<close> is met.
\<close>

definition tb_allow :: "int \<times> instant \<Rightarrow> instant \<Rightarrow> bool \<times> (int \<times> instant)" where
  "tb_allow b t =
     (let k = min 20 (max 0 (fst b) + max 0 ((t - snd b) div 100000000)) in
      if 1 \<le> k then (True, (k - 1, t)) else (False, (k, t)))"

definition tb :: "(unit, int \<times> instant) bucket" where
  "tb = \<lparr>bk_new = (\<lambda>_ _. (20, 0)), bk_allow = tb_allow\<rparr>"

lemma tb_full: "20 \<le> max 0 k + max 0 ((t - t0) div 100000000) \<Longrightarrow> tb_allow (k, t0) t = (True, (19, t))"
  by (simp add: tb_allow_def Let_def)

lemma tb_snd: "snd (snd (tb_allow b t)) = t"
  by (simp add: tb_allow_def Let_def)

lemma tb_refilled: "refilled tb (NewLimiter () 20)"
proof -
  have "tb_allow (snd (tb_allow b t)) t' = tb_allow (20, 0) t'" if "600000000000 < t' - t" for b t t'
  proof -
    obtain k where k: "snd (tb_allow b t) = (k, t)"
      using tb_snd [of b t] by (cases "snd (tb_allow b t)") simp
    have "20 \<le> (t' - t) div 100000000" using that by simp
    then show ?thesis by (simp add: k tb_full)
  qed
  moreover have "sint (dur_mul 10 minute) = 600000000000" by code_simp
  ultimately show ?thesis by (simp add: refilled_def NewLimiter_def tb_def)
qed

section \<open>Properties\<close>

text \<open>
  The rate limiter keeps its keys apart: in any sequence of requests and cleanup
  ticks, the decisions on the requests of one key are those of the run in which the other keys
  never came.
\<close>

lemma limiter_keys_independent:
  "filter (\<lambda>(k', _). k' = k) (fst (event_run B es l)) = fst (event_run B (filter (concerns k) es) l)"
  by (rule event_run_isolated) (simp add: same_for_def)

text \<open>
  Property C25. Evicting idle entries is invisible: over any time-ordered sequence of requests
  and cleanup ticks a new limiter takes the decisions it takes without the ticks, whenever a
  bucket left alone for longer than the ttl behaves as a new one.
\<close>

theorem limiter_eviction_invisible:
  assumes "refilled B (NewLimiter rps burst)" "sorted (map event_time es)"
  shows "fst (event_run B es (NewLimiter rps burst)) = fst (event_run B (filter is_ask es) (NewLimiter rps burst))"
proof (cases es)
  case (Cons e es')
  have "evicted_sim B (event_time e) (NewLimiter rps burst) (NewLimiter rps burst)"
    by (simp add: evicted_sim_def NewLimiter_def)
  moreover have "sorted (event_time e # map event_time es)" using assms(2) Cons by simp
  ultimately show ?thesis using assms(1) by (blast intro: event_run_evict)
qed simp

lemma limiter_eviction_witness:
  "fst (event_run tb [Ask 0 ''k'', Tick 700000000000, Ask 700000000001 ''k''] (NewLimiter () 20)) =
   fst (event_run tb [Ask 0 ''k'', Ask 700000000001 ''k''] (NewLimiter () 20))"
  using limiter_eviction_invisible [OF tb_refilled,
    of "[Ask 0 ''k'', Tick 700000000000, Ask 700000000001 ''k'']"] by simp

end
