(* ===== verification/Admin_Tokens.thy ===== *)
theory Admin_Tokens
  imports Auth
begin

text \<open>
  Scoped admin tokens: \<^verbatim>\<open>internal/controlplane/admintokens\<close>. Scopes and their parser
  (scope.go), the token store (service.go), the middlewares \<^verbatim>\<open>RequireScope\<close> and
  \<^verbatim>\<open>Audit\<close> (middleware.go) and the handlers (handlers.go).
\<close>

section \<open>scope.go\<close>

text \<open>A scope is a string in the code; only four are valid.\<close>

type_synonym scope = string

definition ScopeProjects :: scope where "ScopeProjects = ''projects''"
definition ScopeKeys :: scope where "ScopeKeys = ''keys''"
definition ScopeMigrate :: scope where "ScopeMigrate = ''migrate''"
definition ScopeSQL :: scope where "ScopeSQL = ''sql''"

definition All_scopes :: "scope list" where
  "All_scopes = [ScopeProjects, ScopeKeys, ScopeMigrate, ScopeSQL]"

lemmas scope_defs = ScopeProjects_def ScopeKeys_def ScopeMigrate_def ScopeSQL_def

fun valid_in :: "scope list \<Rightarrow> scope \<Rightarrow> bool" where
  "valid_in [] s = False"
| "valid_in (k # ks) s = (if k = s then True else valid_in ks s)"

definition valid :: "scope \<Rightarrow> bool" where
  "valid s = valid_in All_scopes s"

definition JoinAll :: string where
  "JoinAll = join '', '' All_scopes"

text \<open>The loop of \<^verbatim>\<open>ParseScopes\<close>, with \<open>out\<close> the scopes collected so far; \<open>seen\<close> is its set.\<close>

fun parse_loop :: "env \<Rightarrow> scope set \<Rightarrow> scope list \<Rightarrow> string list \<Rightarrow> scope list result" where
  "parse_loop E seen out [] = Inr out"
| "parse_loop E seen out (raw # rest) =
     (let s = to_lower (ulower E) (trim_space raw) in
      if \<not> valid s then Inl (Msg (''unknown scope '' @ go_quote raw @ '' (valid: '' @ JoinAll @ '')''))
      else if s \<in> seen then parse_loop E seen out rest
      else parse_loop E (insert s seen) (out @ [s]) rest)"

definition ParseScopes :: "env \<Rightarrow> string list \<Rightarrow> scope list result" where
  "ParseScopes E xs =
     (if xs = [] then Inl (Msg (''at least one scope is required ('' @ JoinAll @ '')''))
      else bind_r (parse_loop E {} [] xs) (\<lambda>out. Inr (sort out)))"

definition Strings :: "scope list \<Rightarrow> string list" where
  "Strings scopes = map (\<lambda>s. s) scopes"

fun Has :: "scope list \<Rightarrow> scope \<Rightarrow> bool" where
  "Has [] want = False"
| "Has (s # scopes) want = (if s = want then True else Has scopes want)"

lemma Has_iff: "Has scopes want \<longleftrightarrow> want \<in> set scopes"
  by (induction scopes) auto

lemma valid_iff: "valid s \<longleftrightarrow> s \<in> set All_scopes"
proof -
  have "valid_in ks s \<longleftrightarrow> s \<in> set ks" for ks by (induction ks) auto
  then show ?thesis by (simp add: valid_def)
qed

lemma parse_loop_Inr:
  assumes "parse_loop E seen out xs = Inr ys" "seen = set out" "distinct out"
  shows "(\<forall>raw \<in> set xs. valid (to_lower (ulower E) (trim_space raw))) \<and>
    set ys = set out \<union> (\<lambda>raw. to_lower (ulower E) (trim_space raw)) ` set xs \<and> distinct ys"
  using assms
proof (induction xs arbitrary: seen out)
  case (Cons raw xs)
  let ?s = "to_lower (ulower E) (trim_space raw)"
  from Cons.prems(1) have v: "valid ?s" by (auto simp: Let_def split: if_splits)
  show ?case
  proof (cases "?s \<in> seen")
    case True
    with v Cons.prems(1) have "parse_loop E seen out xs = Inr ys" by (simp add: Let_def)
    from Cons.IH [OF this Cons.prems(2,3)] v True Cons.prems(2) show ?thesis by auto
  next
    case False
    with v Cons.prems(1) have "parse_loop E (insert ?s seen) (out @ [?s]) xs = Inr ys" by (simp add: Let_def)
    from Cons.IH [OF this] v False Cons.prems(2,3) show ?thesis by auto
  qed
qed auto

lemma parse_loop_total:
  "(\<forall>raw \<in> set xs. valid (to_lower (ulower E) (trim_space raw))) \<Longrightarrow> \<exists>ys. parse_loop E seen out xs = Inr ys"
  by (induction xs arbitrary: seen out) (auto simp: Let_def)

section \<open>service.go\<close>

definition TokenPrefix :: string where "TokenPrefix = ''pwa_''"

record token =
  tk_id :: uuid
  tk_prefix :: string
  tk_name :: string
  tk_scopes :: "string list"
  tk_last_used :: "instant option"
  tk_expires :: "instant option"
  tk_revoked :: "instant option"
  tk_created :: instant

record issued_token =
  it_token :: token
  it_secret :: string

definition token_columns :: "token_row \<Rightarrow> token" where
  "token_columns t = \<lparr>tk_id = t_id t, tk_prefix = t_prefix t, tk_name = t_name t, tk_scopes = t_scopes t,
     tk_last_used = t_last_used t, tk_expires = t_expires t, tk_revoked = t_revoked t,
     tk_created = t_created t\<rparr>"

definition insert_token :: "env \<Rightarrow> string \<Rightarrow> string \<Rightarrow> string \<Rightarrow> string list \<Rightarrow> instant option \<Rightarrow> world \<Rightarrow> token res" where
  "insert_token E prefix hash name scopes expires w = sql E (\<lambda>d.
     let t = \<lparr>t_id = new_uuid E (tick w), t_prefix = prefix, t_hash = hash, t_name = name, t_scopes = scopes,
           t_last_used = None, t_expires = map_option pg_time expires, t_revoked = None, t_created = db_now E\<rparr>
     in if \<exists>r \<in> set (admin_tokens d). t_id r = t_id t
          then Inl (pg_error ''duplicate key value violates unique constraint \"admin_tokens_pkey\"'' ''23505'')
        else if \<exists>r \<in> set (admin_tokens d). t_prefix r = prefix
          then Inl (pg_error ''duplicate key value violates unique constraint \"admin_tokens_prefix_key\"'' ''23505'')
        else Inr (token_columns t, d\<lparr>admin_tokens := admin_tokens d @ [t]\<rparr>)) w"

definition tokens_Issue :: "env \<Rightarrow> string \<Rightarrow> scope list \<Rightarrow> duration \<Rightarrow> world \<Rightarrow> issued_token res" where
  "tokens_Issue E name scopes ttl w =
     (if scopes = [] then (Inl (Msg (''at least one scope is required ('' @ JoinAll @ '')'')), w)
      else and_then (GenerateWithPrefix E TokenPrefix w) (\<lambda>(plaintext, prefix) w.
        and_then (wrap_err ''hash token: '' (Hash E plaintext w)) (\<lambda>hash w.
        let expires = (if 0 <s ttl then Some (time_add (go_now E) ttl) else None) in
        and_then (insert_token E prefix hash name (Strings scopes) expires w) (\<lambda>t w.
        (Inr \<lparr>it_token = t, it_secret = plaintext\<rparr>, w)))))"

definition tokens_List :: "env \<Rightarrow> world \<Rightarrow> token list res" where
  "tokens_List E = query E (\<lambda>d. map token_columns (order_desc t_created (admin_tokens d)))"

definition tokens_Revoke :: "env \<Rightarrow> uuid \<Rightarrow> world \<Rightarrow> unit res" where
  "tokens_Revoke E tid w =
     (let P = (\<lambda>t. t_id t = tid \<and> t_revoked t = None) in
      and_then (sql E (\<lambda>d. Inr (affected P (admin_tokens d),
          d\<lparr>admin_tokens := update_where P (\<lambda>t. t\<lparr>t_revoked := Some (db_now E)\<rparr>) (admin_tokens d)\<rparr>)) w)
        (\<lambda>n w. if n = 0 then
            and_then (query E (\<lambda>d. list_ex (\<lambda>t. t_id t = tid) (admin_tokens d)) w) (\<lambda>ex w.
              if \<not> ex then (Inl (Sentinel ErrTokenNotFound), w) else (Inr (), w))
          else (Inr (), w)))"

definition touch_token :: "env \<Rightarrow> uuid \<Rightarrow> world \<Rightarrow> world" where
  "touch_token E tid w = snd (sql E (\<lambda>d. Inr ((), d\<lparr>admin_tokens :=
     update_where (\<lambda>t. t_id t = tid) (\<lambda>t. t\<lparr>t_last_used := Some (db_now E)\<rparr>) (admin_tokens d)\<rparr>)) w)"

definition tokens_Verify :: "env \<Rightarrow> string \<Rightarrow> world \<Rightarrow> (token \<times> scope list) res" where
  "tokens_Verify E plaintext w =
     (if \<not> has_prefix TokenPrefix plaintext then (Inl (Sentinel ErrTokenInvalid), w)
      else let payload = drop (length TokenPrefix) plaintext in
        if length payload < PrefixLookup then (Inl (Sentinel ErrTokenInvalid), w)
        else let prefix = take PrefixLookup payload in
          and_then (query E (\<lambda>d. select_one (\<lambda>t. t_prefix t = prefix) (admin_tokens d)) w) (\<lambda>row w.
          case row of None \<Rightarrow> (Inl (Sentinel ErrTokenInvalid), w)
          | Some t \<Rightarrow> (case Verify E plaintext (t_hash t) of
              Inl _ \<Rightarrow> (Inl (Sentinel ErrTokenInvalid), w)
            | Inr _ \<Rightarrow>
              if t_revoked t \<noteq> None then (Inl (Sentinel ErrTokenRevoked), w)
              else if t_expires t \<noteq> None \<and> the (t_expires t) < go_now E then (Inl (Sentinel ErrTokenRevoked), w)
              else let w = touch_token E (t_id t) w
                in (Inr (token_columns t, map (\<lambda>sc. sc) (t_scopes t)), w))))"

text \<open>
  \<^verbatim>\<open>retention.String()\<close> read as an \<^verbatim>\<open>interval\<close>: Go writes a duration below a
  millisecond with a unit Postgres does not know; the server rounds to microseconds.
\<close>

definition as_interval :: "duration \<Rightarrow> string + int" where
  "as_interval d = (if sint d < 1000000 then Inl (pg_error ''invalid input syntax for type interval'' ''22007'')
     else Inr ((sint d + 500) div 1000 * 1000))"

definition PruneAudit :: "env \<Rightarrow> duration \<Rightarrow> world \<Rightarrow> nat res" where
  "PruneAudit E retention w =
     (if sint retention \<le> 0 then (Inr 0, w)
      else sql E (\<lambda>d. case as_interval retention of Inl e \<Rightarrow> Inl e
        | Inr i \<Rightarrow> let old = (\<lambda>a. a_created a < db_now E - i) in
            Inr (affected old (audit_log d), d\<lparr>audit_log := filter (\<lambda>a. \<not> old a) (audit_log d)\<rparr>)) w)"

section \<open>middleware.go\<close>

text \<open>
  The entry the two middlewares share through the request context: absent, empty, or filled in
  with the prefix and the name of the token.
\<close>

type_synonym auditEntry = "(string \<times> string) option"

definition RequireScope :: "env \<Rightarrow> scope \<Rightarrow> request \<Rightarrow> (token \<Rightarrow> 'a handler) \<Rightarrow>
    auditEntry option \<Rightarrow> world \<Rightarrow> 'a reply \<times> auditEntry option \<times> world" where
  "RequireScope E scope r inner entry w =
     (let deny = (\<lambda>st msg w. ((st, Inl msg), entry, w)) in
      case ExtractBearer r of
        Inl e \<Rightarrow> deny 401 ''missing bearer token'' w
      | Inr raw \<Rightarrow> (case tokens_Verify E raw w of
          (Inl e, w) \<Rightarrow>
            if errors_is e ErrTokenInvalid then deny 401 ''invalid admin token'' w
            else if errors_is e ErrTokenRevoked then deny 403 ''admin token revoked or expired'' w
            else deny 500 (err_text e) w
        | (Inr (tok, scopes), w) \<Rightarrow>
            if \<not> Has scopes scope
            then deny 403 (''admin token lacks the '' @ go_quote scope @ '' scope'') w
            else let entry = map_option (\<lambda>_. Some (tk_prefix tok, tk_name tok)) entry;
                     (rep, w) = inner tok w
                 in (rep, entry, w)))"

definition routePattern :: "request \<Rightarrow> string" where
  "routePattern r = (if rq_pattern r \<noteq> [] then rq_pattern r else rq_path r)"

definition audit_row_of :: "env \<Rightarrow> request \<Rightarrow> auditEntry \<Rightarrow> nat \<Rightarrow> audit_row" where
  "audit_row_of E r entry status =
     \<lparr>a_prefix = map_option fst entry, a_name = map_option snd entry,
      a_action = rq_method r @ '' '' @ routePattern r, a_method = rq_method r, a_path = rq_path r,
      a_project = (let raw = rq_param r ''id'' in if raw \<noteq> [] then uuid_parse E raw else None),
      a_status = status, a_created = db_now E\<rparr>"

definition Audit :: "env \<Rightarrow> request \<Rightarrow>
    (auditEntry option \<Rightarrow> world \<Rightarrow> 'a reply \<times> auditEntry option \<times> world) \<Rightarrow> 'a handler" where
  "Audit E r inner w =
     (if rq_method r = ''GET'' \<or> rq_method r = ''HEAD'' then (let (rep, _, w) = inner None w in (rep, w))
      else let (rep, entry, w) = inner (Some None) w;
               row = audit_row_of E r (case entry of Some e \<Rightarrow> e | None \<Rightarrow> None) (fst rep)
        in (rep, snd (sql E (\<lambda>d. Inr ((), d\<lparr>audit_log := audit_log d @ [row]\<rparr>)) w)))"

text \<open>
  \<^verbatim>\<open>statusRecorder\<close>, over the calls a handler makes on its response writer; the second
  component is what \<^verbatim>\<open>net/http\<close> sends: the first status written, 200 when the body comes first.
\<close>

datatype rw_call = WriteHeader nat | WriteBody string

record statusRecorder =
  sr_status :: nat
  sr_written :: bool

fun recorder_step :: "rw_call \<Rightarrow> statusRecorder \<Rightarrow> statusRecorder" where
  "recorder_step (WriteHeader code) s =
     (if \<not> sr_written s then s\<lparr>sr_status := code, sr_written := True\<rparr> else s)"
| "recorder_step (WriteBody b) s = s\<lparr>sr_written := True\<rparr>"

fun sent_status :: "rw_call list \<Rightarrow> nat" where
  "sent_status [] = 200"
| "sent_status (WriteHeader c # cs) = c"
| "sent_status (WriteBody b # cs) = 200"

lemma recorder_written: "sr_written s \<Longrightarrow> fold recorder_step cs s = s"
proof (induction cs)
  case (Cons c cs)
  then show ?case by (cases c; cases s) auto
qed simp

lemma recorder_faithful:
  "sr_status (fold recorder_step cs \<lparr>sr_status = 200, sr_written = False\<rparr>) = sent_status cs"
  by (induction cs rule: sent_status.induct) (simp_all add: recorder_written)

section \<open>handlers.go\<close>

definition tokens_issue_h :: "env \<Rightarrow> request \<Rightarrow> issued_token handler" where
  "tokens_issue_h E r w =
     (let (ok, name, scopes, ttl) = (case rq_body r of None \<Rightarrow> (True, [], [], 0) | Some b \<Rightarrow> json_token E b) in
      if \<not> ok then write_err 400 ''invalid JSON body'' w
      else case ParseScopes E scopes of
        Inl e \<Rightarrow> write_err 400 (err_text e) w
      | Inr scopes \<Rightarrow> (case tokens_Issue E name scopes (dur_mul ttl second) w of
          (Inl e, w) \<Rightarrow> write_err 500 (err_text e) w
        | (Inr t, w) \<Rightarrow> write_ok 201 t w))"

definition tokens_list_h :: "env \<Rightarrow> request \<Rightarrow> token list handler" where
  "tokens_list_h E r w = (case tokens_List E w of
      (Inl e, w) \<Rightarrow> write_err 500 (err_text e) w
    | (Inr ts, w) \<Rightarrow> write_ok 200 ts w)"

definition tokens_revoke_h :: "env \<Rightarrow> request \<Rightarrow> unit handler" where
  "tokens_revoke_h E r w = (case uuid_parse E (rq_param r ''tokenID'') of
      None \<Rightarrow> write_err 400 ''bad token id'' w
    | Some tid \<Rightarrow> (case tokens_Revoke E tid w of
        (Inl e, w) \<Rightarrow> if errors_is e ErrTokenNotFound then write_err 404 ''token not found'' w
                        else write_err 500 (err_text e) w
      | (Inr _, w) \<Rightarrow> write_ok 204 () w))"

section \<open>Lemmas\<close>

lemma insert_token_Inr:
  "insert_token E prefix hash name scopes expires w = (Inr t, w') \<longleftrightarrow>
     flt E (tick w) = None \<and>
     (\<forall>r \<in> set (admin_tokens (wdb w)). t_id r \<noteq> new_uuid E (tick w) \<and> t_prefix r \<noteq> prefix) \<and>
     (let row = \<lparr>t_id = new_uuid E (tick w), t_prefix = prefix, t_hash = hash, t_name = name,
        t_scopes = scopes, t_last_used = None, t_expires = map_option pg_time expires, t_revoked = None,
        t_created = db_now E\<rparr>
      in t = token_columns row \<and>
         w' = w\<lparr>tick := Suc (tick w), wdb := (wdb w)\<lparr>admin_tokens := admin_tokens (wdb w) @ [row]\<rparr>\<rparr>)"
  by (auto simp: insert_token_def sql_Inr Let_def split: if_splits)

lemma insert_token_Inl: "insert_token E prefix hash name scopes expires w = (Inl e, w') \<Longrightarrow> wdb w' = wdb w"
  unfolding insert_token_def by (rule sql_Inl_wdb)

text \<open>Everything about a token but the time of its last use.\<close>

definition token_core :: "token_row \<Rightarrow> token_row" where
  "token_core t = t\<lparr>t_last_used := None\<rparr>"

lemma touch_token_frame: "\<exists>ts. wdb (touch_token E tid w) = (wdb w)\<lparr>admin_tokens := ts\<rparr> \<and>
    map token_core ts = map token_core (admin_tokens (wdb w))"
  by (cases "flt E (tick w)")
    (auto simp: touch_token_def sql_def token_core_def map_update_where
       intro: exI [of _ "admin_tokens (wdb w)"])

lemma tokens_Verify_Inr:
  "tokens_Verify E p w = (Inr (tok, scopes), w') \<longleftrightarrow>
     (\<exists>payload t. p = TokenPrefix @ payload \<and> PrefixLookup \<le> length payload \<and> flt E (tick w) = None \<and>
       select_one (\<lambda>t. t_prefix t = take PrefixLookup payload) (admin_tokens (wdb w)) = Some t \<and>
       Verify E p (t_hash t) = Inr () \<and> t_revoked t = None \<and>
       (\<forall>e. t_expires t = Some e \<longrightarrow> go_now E \<le> e) \<and>
       tok = token_columns t \<and> scopes = t_scopes t \<and>
       w' = touch_token E (t_id t) (w\<lparr>tick := Suc (tick w)\<rparr>))"
  by (auto simp: tokens_Verify_def res_elims query_Inr not_less not_le has_prefix_iff Let_def
      split: sum.splits option.splits if_splits)

lemma tokens_Verify_Inl: "tokens_Verify E p w = (Inl e, w') \<Longrightarrow> wdb w' = wdb w"
  by (auto simp: tokens_Verify_def res_elims query_Inr query_Inl Let_def
      split: sum.splits option.splits if_splits)

lemma tokens_Verify_frame:
  assumes "tokens_Verify E p w = (r, w')"
  shows "\<exists>ts. wdb w' = (wdb w)\<lparr>admin_tokens := ts\<rparr> \<and> map token_core ts = map token_core (admin_tokens (wdb w))"
proof (cases r)
  case (Inl e)
  with assms have "wdb w' = wdb w" using tokens_Verify_Inl by simp
  then show ?thesis by (intro exI [of _ "admin_tokens (wdb w)"]) simp
next
  case (Inr x)
  then obtain tok scopes where "x = (tok, scopes)" by (cases x)
  with assms Inr obtain t :: token_row where "w' = touch_token E (t_id t) (w\<lparr>tick := Suc (tick w)\<rparr>)"
    by (auto simp: tokens_Verify_Inr)
  then show ?thesis using touch_token_frame [of E "t_id t" "w\<lparr>tick := Suc (tick w)\<rparr>"] by simp
qed

lemma tokens_Issue_Inr:
  "tokens_Issue E name scopes ttl w = (Inr t, w') \<longleftrightarrow> scopes \<noteq> [] \<and>
     (\<exists>b hash wb. rnd E (rtick w) keyBytes = Inr b \<and>
       Hash E (TokenPrefix @ raw_url_encode b) (w\<lparr>rtick := Suc (rtick w)\<rparr>) = (Inr hash, wb) \<and>
       insert_token E (take PrefixLookup (raw_url_encode b)) hash name scopes
         (if 0 <s ttl then Some (time_add (go_now E) ttl) else None) wb = (Inr (it_token t), w') \<and>
       it_secret t = TokenPrefix @ raw_url_encode b)"
  by (cases t) (auto simp: tokens_Issue_def res_elims GenerateWithPrefix_Inr Strings_def Let_def)

section \<open>Revocation\<close>

definition token_revoked :: "uuid \<Rightarrow> db \<Rightarrow> bool" where
  "token_revoked i d \<longleftrightarrow> (\<exists>t \<in> set (admin_tokens d). t_id t = i) \<and>
     (\<forall>t \<in> set (admin_tokens d). t_id t = i \<longrightarrow> t_revoked t \<noteq> None)"

text \<open>What the program does to \<^verbatim>\<open>admin_tokens\<close>.\<close>

inductive token_step :: "db \<Rightarrow> db \<Rightarrow> bool" where
  issue: "tokens_Issue E name scopes ttl w = (r, w') \<Longrightarrow> token_step (wdb w) (wdb w')"
| revoke: "tokens_Revoke E tid w = (r', w') \<Longrightarrow> token_step (wdb w) (wdb w')"
| verify: "tokens_Verify E p w = (r'', w') \<Longrightarrow> token_step (wdb w) (wdb w')"
| other: "admin_tokens d' = admin_tokens d \<Longrightarrow> token_step d d'"

lemma token_revoked_core:
  "token_revoked i d \<longleftrightarrow> (\<exists>t \<in> set (map token_core (admin_tokens d)). t_id t = i) \<and>
     (\<forall>t \<in> set (map token_core (admin_tokens d)). t_id t = i \<longrightarrow> t_revoked t \<noteq> None)"
  by (simp add: token_revoked_def token_core_def)

lemma tokens_Issue_tokens:
  assumes "tokens_Issue E name scopes ttl w = (r, w')"
  shows "admin_tokens (wdb w') = admin_tokens (wdb w) \<or>
    (\<exists>t. admin_tokens (wdb w') = admin_tokens (wdb w) @ [t] \<and> (\<forall>r \<in> set (admin_tokens (wdb w)). t_id r \<noteq> t_id t))"
  using assms
  by (cases r) (auto simp: tokens_Issue_def res_elims Let_def insert_token_Inr
      dest!: GenerateWithPrefix_frame Hash_frame insert_token_Inl split: if_splits)

definition revoke_row :: "instant \<Rightarrow> uuid \<Rightarrow> token_row \<Rightarrow> token_row" where
  "revoke_row now tid t = (if t_id t = tid \<and> t_revoked t = None then t\<lparr>t_revoked := Some now\<rparr> else t)"

lemma revoke_row_simps [simp]:
  "t_id (revoke_row now tid t) = t_id t"
  "t_revoked (revoke_row now tid t) = None \<longleftrightarrow> t_revoked t = None \<and> t_id t \<noteq> tid"
  "(\<exists>y. t_revoked (revoke_row now tid t) = Some y) \<longleftrightarrow> t_id t = tid \<or> t_revoked t \<noteq> None"
  by (auto simp: revoke_row_def)

lemma tokens_Revoke_Inl: "tokens_Revoke E tid w = (Inl e, w') \<Longrightarrow> wdb w' = wdb w"
proof -
  assume r: "tokens_Revoke E tid w = (Inl e, w')"
  have "wdb w = (wdb w)\<lparr>admin_tokens := update_where (\<lambda>t. t_id t = tid \<and> t_revoked t = None) f (admin_tokens (wdb w))\<rparr>"
    if "affected (\<lambda>t. t_id t = tid \<and> t_revoked t = None) (admin_tokens (wdb w)) = 0" for f
    using that by (simp add: affected_0 update_where_none)
  with r show ?thesis
    by (auto simp: tokens_Revoke_def res_elims sql_Inr query_Inr query_Inl Let_def split: if_splits
        dest!: sql_Inl_wdb)
qed

lemma tokens_Revoke_Inr:
  assumes "tokens_Revoke E tid w = (Inr u, w')"
  shows "admin_tokens (wdb w') = map (revoke_row (db_now E) tid) (admin_tokens (wdb w)) \<and>
    (\<exists>t \<in> set (admin_tokens (wdb w)). t_id t = tid) \<and>
    wdb w' = (wdb w)\<lparr>admin_tokens := admin_tokens (wdb w')\<rparr>"
proof -
  have m: "update_where (\<lambda>t. t_id t = tid \<and> t_revoked t = None) (\<lambda>t. t\<lparr>t_revoked := Some (db_now E)\<rparr>) ts =
      map (revoke_row (db_now E) tid) ts" for ts
    by (simp add: update_where_def revoke_row_def)
  have a: "\<exists>t \<in> set ts. t_id t = tid"
    if "0 < affected (\<lambda>t. t_id t = tid \<and> t_revoked t = None) ts" for ts :: "token_row list"
    using that affected_0 [of "\<lambda>t. t_id t = tid \<and> t_revoked t = None" ts] by auto
  from assms show ?thesis
    by (auto simp: tokens_Revoke_def res_elims sql_Inr query_Inr Let_def list_ex_iff m dest: a split: if_splits)
qed

lemma tokens_Revoke_revokes:
  assumes "tokens_Revoke E tid w = (Inr u, w')"
  shows "token_revoked tid (wdb w')"
  using tokens_Revoke_Inr [OF assms] by (auto simp: token_revoked_def simp del: not_None_eq)

lemma tokens_Verify_live:
  assumes "tokens_Verify E p w = (Inr (tok, scopes), w')"
  shows "\<not> token_revoked (tk_id tok) (wdb w)"
  using assms by (auto simp: tokens_Verify_Inr token_revoked_def token_columns_def dest!: select_one_Some)

lemma token_step_keeps: "token_step d d' \<Longrightarrow> token_revoked i d \<Longrightarrow> token_revoked i d'"
proof (induction rule: token_step.induct)
  case (issue E name scopes ttl w r w')
  from tokens_Issue_tokens [OF issue.hyps] issue.prems show ?case by (auto simp: token_revoked_def) blast
next
  case (revoke E tid w r w')
  then show ?case
    by (cases r) (auto simp: token_revoked_def simp del: not_None_eq dest!: tokens_Revoke_Inl tokens_Revoke_Inr)
next
  case (verify E p w r w')
  from tokens_Verify_frame [OF verify.hyps] obtain ts
    where "wdb w' = (wdb w)\<lparr>admin_tokens := ts\<rparr>" "map token_core ts = map token_core (admin_tokens (wdb w))" by blast
  with verify.prems show ?case unfolding token_revoked_core by simp
qed (simp add: token_revoked_def)

text \<open>The identity of a verified token.\<close>

definition token_id_of :: "env \<Rightarrow> string \<Rightarrow> world \<Rightarrow> uuid res" where
  "token_id_of E p w = and_then (tokens_Verify E p w) (\<lambda>(tok, _) w. (Inr (tk_id tok), w))"

interpretation token_store: credential_store token_id_of tokens_Revoke token_revoked token_step
proof unfold_locales
  show "token_id_of E p w = (Inr i, w') \<Longrightarrow> \<not> token_revoked i (wdb w)" for E p w i w'
    by (auto simp: token_id_of_def res_elims dest!: tokens_Verify_live)
qed (rule tokens_Revoke_revokes token_step_keeps; assumption)+

lemma tokens_Issue_verifies:
  assumes "tokens_Issue E name scopes ttl w = (Inr t, w1)" "idkey_length E" "rand_length E"
    and "wdb w2 = wdb w1" "flt E' (tick w2) = None" "idkey E' = idkey E"
    and "\<forall>e. tk_expires (it_token t) = Some e \<longrightarrow> go_now E' \<le> e"
  shows "fst (tokens_Verify E' (it_secret t) w2) = Inr (it_token t, scopes)"
proof -
  from assms(1) obtain b hash wb where
    g: "rnd E (rtick w) keyBytes = Inr b"
    and h: "Hash E (TokenPrefix @ raw_url_encode b) (w\<lparr>rtick := Suc (rtick w)\<rparr>) = (Inr hash, wb)"
    and i: "insert_token E (take PrefixLookup (raw_url_encode b)) hash name scopes
         (if 0 <s ttl then Some (time_add (go_now E) ttl) else None) wb = (Inr (it_token t), w1)"
    and p: "it_secret t = TokenPrefix @ raw_url_encode b"
    by (auto simp: tokens_Issue_Inr)
  have "length b = 32" using assms(3) g by (auto simp: rand_length_def keyBytes_def)
  then have len: "PrefixLookup \<le> length (raw_url_encode b)" by (simp add: length_raw_url PrefixLookup_def)
  have v: "Verify E' (it_secret t) hash = Inr ()"
    using Verify_Hash [OF assms(2) h] Verify_cong [OF assms(6)] p by simp
  define row where "row = \<lparr>t_id = new_uuid E (tick wb), t_prefix = take PrefixLookup (raw_url_encode b),
    t_hash = hash, t_name = name, t_scopes = scopes, t_last_used = None,
    t_expires = map_option pg_time (if 0 <s ttl then Some (time_add (go_now E) ttl) else None),
    t_revoked = None, t_created = db_now E\<rparr>"
  from i have k: "it_token t = token_columns row" "admin_tokens (wdb w2) = admin_tokens (wdb wb) @ [row]"
      "\<forall>r \<in> set (admin_tokens (wdb wb)). t_prefix r \<noteq> t_prefix row"
    using assms(4) by (auto simp: insert_token_Inr Let_def row_def)
  then have "select_one (\<lambda>r. t_prefix r = take PrefixLookup (raw_url_encode b)) (admin_tokens (wdb w2)) = Some row"
    by (intro select_one_unique) (auto simp: row_def)
  moreover have "\<forall>e. t_expires row = Some e \<longrightarrow> go_now E' \<le> e" "t_revoked row = None"
    "t_hash row = hash" "t_scopes row = scopes"
    using assms(7) k(1) by (simp_all add: token_columns_def row_def)
  ultimately have "tokens_Verify E' (it_secret t) w2 =
      (Inr (it_token t, scopes), touch_token E' (t_id row) (w2\<lparr>tick := Suc (tick w2)\<rparr>))"
    using p len v assms(5) k(1) unfolding tokens_Verify_Inr by blast
  then show ?thesis by simp
qed

section \<open>The guards\<close>

text \<open>
  The bearer of a request is a live token with a scope: active, unexpired, with the bearer's
  prefix and hash.
\<close>

definition carries :: "env \<Rightarrow> request \<Rightarrow> scope \<Rightarrow> db \<Rightarrow> bool" where
  "carries E r scope d \<longleftrightarrow> (\<exists>raw t. ExtractBearer r = Inr raw \<and> t \<in> set (admin_tokens d) \<and>
     has_prefix (TokenPrefix @ t_prefix t) raw \<and> Verify E raw (t_hash t) = Inr () \<and>
     t_revoked t = None \<and> (\<forall>e. t_expires t = Some e \<longrightarrow> go_now E \<le> e) \<and> scope \<in> set (t_scopes t))"

lemma RequireScope_refuses:
  assumes "\<not> carries E r scope (wdb w)"
  shows "\<exists>st msg w' ts. RequireScope E scope r inner entry w = ((st, Inl msg), entry, w') \<and>
      st \<in> {401, 403, 500} \<and> wdb w' = (wdb w)\<lparr>admin_tokens := ts\<rparr> \<and>
      map token_core ts = map token_core (admin_tokens (wdb w))"
proof (cases "ExtractBearer r")
  case (Inl e)
  then show ?thesis
    by (auto simp: RequireScope_def Let_def intro: exI [of _ "admin_tokens (wdb w)"])
next
  case (Inr raw)
  obtain v w1 where v: "tokens_Verify E raw w = (v, w1)" by fastforce
  from tokens_Verify_frame [OF v] obtain ts where ts: "wdb w1 = (wdb w)\<lparr>admin_tokens := ts\<rparr>"
    "map token_core ts = map token_core (admin_tokens (wdb w))" by blast
  have "\<not> Has scopes scope" if "v = Inr (tok, scopes)" for tok scopes
  proof
    assume h: "Has scopes scope"
    from v that obtain payload t where t: "raw = TokenPrefix @ payload"
      "select_one (\<lambda>t. t_prefix t = take PrefixLookup payload) (admin_tokens (wdb w)) = Some t"
      "Verify E raw (t_hash t) = Inr ()" "t_revoked t = None"
      "\<forall>e. t_expires t = Some e \<longrightarrow> go_now E \<le> e" "scopes = t_scopes t"
      by (auto simp: tokens_Verify_Inr)
    have "has_prefix (TokenPrefix @ t_prefix t) raw"
      using select_one_Some [OF t(2)] t(1) by (auto simp: has_prefix_iff) (metis append_take_drop_id)
    with assms Inr t select_one_Some [OF t(2)] h show False by (auto simp: Has_iff carries_def)
  qed
  with Inr v ts show ?thesis
    by (cases v) (auto simp: RequireScope_def Let_def split: prod.splits)
qed

text \<open>
  The row of a mutating request: the status of the reply, the request, and the token's prefix
  when it is live and has the scope; the last round trip is the write of the row.
\<close>

lemma Audit_RequireScope:
  assumes "rq_method r \<noteq> ''GET''" "rq_method r \<noteq> ''HEAD''"
    and "Audit E r (RequireScope E scope r inner) w = (rep, w')" "flt E (tick w' - 1) = None"
    and "\<And>tok w. audit_log (wdb (snd (inner tok w))) = audit_log (wdb w)"
  shows "\<exists>row. audit_log (wdb w') = audit_log (wdb w) @ [row] \<and>
      a_status row = fst rep \<and> a_method row = rq_method r \<and> a_path row = rq_path r \<and>
      a_action row = rq_method r @ '' '' @ routePattern r \<and>
      a_prefix row = (case ExtractBearer r of Inl _ \<Rightarrow> None | Inr raw \<Rightarrow>
        (case fst (tokens_Verify E raw w) of Inl _ \<Rightarrow> None
         | Inr (tok, scopes) \<Rightarrow> if scope \<in> set scopes then Some (tk_prefix tok) else None))"
proof -
  obtain rep0 entry w2 where q: "RequireScope E scope r inner (Some None) w = (rep0, entry, w2)" by (metis prod_cases3)
  have w2: "tick w' = Suc (tick w2)" "rep = rep0"
    and log: "audit_log (wdb w') = audit_log (wdb w2) @
      [audit_row_of E r (case entry of Some e \<Rightarrow> e | None \<Rightarrow> None) (fst rep)]"
    using assms(1-4) q by (auto simp: Audit_def Let_def sql_def split: option.splits)
  have "audit_log (wdb w2) = audit_log (wdb w) \<and> (case entry of Some e \<Rightarrow> map_option fst e | None \<Rightarrow> None) =
      (case ExtractBearer r of Inl _ \<Rightarrow> None | Inr raw \<Rightarrow> (case fst (tokens_Verify E raw w) of Inl _ \<Rightarrow> None
         | Inr (tok, scopes) \<Rightarrow> if scope \<in> set scopes then Some (tk_prefix tok) else None))"
  proof (cases "ExtractBearer r")
    case (Inl e)
    with q show ?thesis by (auto simp: RequireScope_def Let_def)
  next
    case (Inr raw)
    obtain v w1 where v: "tokens_Verify E raw w = (v, w1)" by fastforce
    from tokens_Verify_frame [OF v] have "audit_log (wdb w1) = audit_log (wdb w)" by auto
    with Inr v q assms(5) show ?thesis
      by (cases v) (auto simp: RequireScope_def Let_def Has_iff split: if_splits prod.splits, metis snd_conv)
  qed
  with log w2 show ?thesis
    by (intro exI [of _ "audit_row_of E r (case entry of Some e \<Rightarrow> e | None \<Rightarrow> None) (fst rep)"])
      (auto simp: audit_row_of_def split: option.splits)
qed

section \<open>Properties\<close>

text \<open>
  An issued token works until it expires: the secret handed out verifies as the
  token handed out, with exactly the scopes it was issued for.
\<close>

lemma issued_token_verifies:
  assumes "tokens_Issue E name scopes ttl w = (Inr t, w1)" "idkey_length E" "rand_length E"
    and "wdb w2 = wdb w1" "flt E' (tick w2) = None" "idkey E' = idkey E"
    and "\<forall>e. tk_expires (it_token t) = Some e \<longrightarrow> go_now E' \<le> e"
  shows "fst (tokens_Verify E' (it_secret t) w2) = Inr (it_token t, scopes)"
  using assms by (rule tokens_Issue_verifies)

lemma demo_expiry:
  assumes "tokens_Issue demo_env name scopes (dur_mul 60 second) w = (Inr t, w1)"
  shows "tk_expires (it_token t) = Some 61000000000"
proof -
  have "0 <s dur_mul 60 second" "sint (dur_mul 60 second) = 60000000000" by code_simp+
  with assms show ?thesis
    by (auto simp: tokens_Issue_Inr insert_token_Inr token_columns_def Let_def time_add_def demo_env_def pg_time_def)
qed

text \<open>
  \<^verbatim>\<open>ParseScopes\<close> accepts a list exactly when it is not empty and every entry,
  trimmed and lowered, is one of the four scopes; it then returns exactly these scopes, each once,
  in increasing order.
\<close>

lemma ParseScopes_spec:
  "ParseScopes E xs = Inr ys \<longleftrightarrow>
     xs \<noteq> [] \<and> (\<lambda>raw. to_lower (ulower E) (trim_space raw)) ` set xs \<subseteq> set All_scopes \<and>
     ys = sorted_list_of_set ((\<lambda>raw. to_lower (ulower E) (trim_space raw)) ` set xs)"
  (is "_ \<longleftrightarrow> _ \<and> ?valid \<and> ys = ?sorted")
proof
  assume "ParseScopes E xs = Inr ys"
  then obtain out where out: "xs \<noteq> []" "parse_loop E {} [] xs = Inr out" "ys = sort out"
    by (auto simp: ParseScopes_def bind_r_Inr split: if_splits)
  from parse_loop_Inr [OF out(2)] out show "xs \<noteq> [] \<and> ?valid \<and> ys = ?sorted"
    by (auto simp: valid_iff sorted_list_of_set_sort_remdups distinct_remdups_id
        intro!: sorted_distinct_set_unique [symmetric])
next
  assume r: "xs \<noteq> [] \<and> ?valid \<and> ys = ?sorted"
  then obtain out where out: "parse_loop E {} [] xs = Inr out"
    using parse_loop_total [of xs E "{}" "[]"] by (auto simp: valid_iff)
  with parse_loop_Inr [OF out] r have "sort out = ys"
    by (auto intro!: sorted_distinct_set_unique)
  with out r show "ParseScopes E xs = Inr ys" by (simp add: ParseScopes_def)
qed

text \<open>
  Property C4. Revocation of an admin token is final: after \<^verbatim>\<open>Revoke\<close> succeeded for a
  token no bearer authenticates as it again, whatever happens to the store in between.
\<close>

theorem revoked_token_never_verifies:
  assumes "tokens_Revoke E tid w = (Inr u, w1)" "token_step\<^sup>*\<^sup>* (wdb w1) (wdb w2)"
    and "tokens_Verify E' p w2 = (Inr (tok, scopes), w3)"
  shows "tk_id tok \<noteq> tid"
  using token_store.revoked_for_good [OF assms(1,2), of E' p "tk_id tok" w3] assms(3)
  by (simp add: token_id_of_def)

text \<open>
  The lifetime of an issued token: from 1 to 9223372036 seconds of \<^verbatim>\<open>ttl_seconds\<close>
  it expires that long after its issue; for zero or a negative number it never expires; one second more
  than the largest wraps around the 64-bit duration, and the token never expires either.
\<close>

lemma token_lifetime:
  assumes "tokens_Issue E name scopes (dur_mul n second) w = (Inr t, w')"
  shows "(1 \<le> n \<and> n \<le> 9223372036 \<longrightarrow> tk_expires (it_token t) = Some (pg_time (go_now E + n * 1000000000))) \<and>
    (- 9223372036 \<le> n \<and> n \<le> 0 \<or> n = 9223372037 \<longrightarrow> tk_expires (it_token t) = None)"
proof -
  have e: "tk_expires (it_token t) = map_option pg_time
      (if 0 < sint (dur_mul n second) then Some (go_now E + sint (dur_mul n second)) else None)"
    using assms by (auto simp: tokens_Issue_Inr insert_token_Inr token_columns_def Let_def time_add_def word_sless_alt)
  have s: "sint (dur_mul n second) = n * 1000000000" if "- 9223372036 \<le> n" "n \<le> 9223372036"
    using sint_dur_mul [of n 1000000000] that by simp
  have "sint (dur_mul 9223372037 second) < 0" by code_simp
  with e s show ?thesis by auto
qed

text \<open>
  Pruning with a positive window of at least a millisecond deletes exactly the audit
  rows older than the window, reports their number, keeps the others in order and touches nothing else;
  with a window of zero or less it deletes nothing.
\<close>

lemma PruneAudit_spec:
  assumes "flt E (tick w) = None" "sint retention \<le> 0 \<or> 1000000 \<le> sint retention"
  shows "\<exists>w'. PruneAudit E retention w =
      (Inr (length (audit_log (wdb w)) - length (audit_log (wdb w'))), w') \<and>
    wdb w' = (wdb w)\<lparr>audit_log := filter (\<lambda>a. sint retention \<le> 0 \<or>
      db_now E \<le> a_created a + (sint retention + 500) div 1000 * 1000) (audit_log (wdb w))\<rparr>"
proof (cases "sint retention \<le> 0")
  case False
  have "length (filter P xs) = length xs - length (filter (\<lambda>x. \<not> P x) xs)" for P and xs :: "audit_row list"
    using sum_length_filter_compl [of P xs] by simp
  note len = this [of "\<lambda>a. a_created a < db_now E - (sint retention + 500) div 1000 * 1000"]
  have "filter (\<lambda>a. \<not> a_created a < db_now E - k) xs = filter (\<lambda>a. db_now E \<le> a_created a + k) xs"
    for k :: int and xs :: "audit_row list"
    by (rule filter_cong) auto
  with False assms len show ?thesis
    by (simp add: PruneAudit_def sql_def as_interval_def affected_def Let_def)
qed (simp add: PruneAudit_def)

section \<open>Witnesses\<close>

definition demo_token :: token_row where
  "demo_token = \<lparr>t_id = 99, t_prefix = [], t_hash = [], t_name = ''old'', t_scopes = [ScopeKeys],
     t_last_used = None, t_expires = None, t_revoked = None, t_created = 0\<rparr>"

lemma revoked_token_never_verifies_witness:
  "\<exists>w1 w2 t w3. tokens_Revoke demo_env 99 (world_of (empty_db\<lparr>admin_tokens := [demo_token]\<rparr>)) = (Inr (), w1) \<and>
     tokens_Issue demo_env ''ci'' [ScopeSQL] (dur_mul 60 second) w1 = (Inr t, w2) \<and>
     tokens_Verify demo_env (it_secret t) w2 = (Inr (it_token t, [ScopeSQL]), w3) \<and> tk_id (it_token t) \<noteq> 99"
proof -
  let ?w1 = "\<lparr>wdb = empty_db\<lparr>admin_tokens := [demo_token\<lparr>t_revoked := Some (db_now demo_env)\<rparr>]\<rparr>, tick = 1, rtick = 0\<rparr>"
  have r: "tokens_Revoke demo_env 99 (world_of (empty_db\<lparr>admin_tokens := [demo_token]\<rparr>)) = (Inr (), ?w1)"
    by (simp add: tokens_Revoke_def sql_def Let_def world_of_def demo_token_def affected_def update_where_def)
  have "\<exists>t w2. tokens_Issue demo_env ''ci'' [ScopeSQL] (dur_mul 60 second) ?w1 = (Inr t, w2)"
    by (simp add: tokens_Issue_def GenerateWithPrefix_def Hash_def insert_token_def sql_def
        rand_read_def Let_def demo_defs demo_token_def PrefixLookup_def length_raw_url keyBytes_def
        flip: length_0_conv)
  then obtain t :: issued_token and w2
    where i: "tokens_Issue demo_env ''ci'' [ScopeSQL] (dur_mul 60 second) ?w1 = (Inr t, w2)" by blast
  have "fst (tokens_Verify demo_env (it_secret t) w2) = Inr (it_token t, [ScopeSQL])"
    by (rule tokens_Issue_verifies [OF i demo_idkey_length demo_rand_length refl demo_flt refl])
      (simp add: demo_expiry [OF i] demo_env_def)
  then obtain w3 where v: "tokens_Verify demo_env (it_secret t) w2 = (Inr (it_token t, [ScopeSQL]), w3)"
    by (cases "tokens_Verify demo_env (it_secret t) w2") auto
  have "token_step\<^sup>*\<^sup>* (wdb ?w1) (wdb w2)" using token_step.issue [OF i] by (rule r_into_rtranclp)
  from revoked_token_never_verifies [OF r this v] r i v show ?thesis by blast
qed

end
