(* ===== verification/Crypto.thy ===== *)
theory Crypto
  imports Admin_Tokens
begin

text \<open>
  \<^verbatim>\<open>internal/crypto/cipher.go\<close>: encryption of stored credentials. AES-GCM itself
  (\<^verbatim>\<open>crypto/aes\<close>, \<^verbatim>\<open>crypto/cipher\<close>) is a parameter, a record with its nonce size,
  \<^verbatim>\<open>Seal\<close> and \<^verbatim>\<open>Open\<close>; \<open>aead_ok\<close> says what the code relies on. The locale
  \<open>field_cipher\<close> is the contract of the interface \<^verbatim>\<open>Cipher\<close>: both implementations interpret it,
  and the projects service uses nothing else.
\<close>

section \<open>The AEAD\<close>

record aead =
  ae_nonce :: nat
  ae_seal :: "string \<Rightarrow> string \<Rightarrow> string"
  ae_open :: "string \<Rightarrow> string \<Rightarrow> string option"

text \<open>What \<^verbatim>\<open>Seal\<close> writes \<^verbatim>\<open>Open\<close> reads, under the same nonce; the tag makes it non-empty.\<close>

definition aead_ok :: "aead \<Rightarrow> bool" where
  "aead_ok g \<longleftrightarrow> (\<forall>n p. length n = ae_nonce g \<longrightarrow>
     ae_open g n (ae_seal g n p) = Some p \<and> ae_seal g n p \<noteq> [])"

section \<open>cipher.go\<close>

definition envelopePrefix :: string where "envelopePrefix = ''v1:''"

definition IsEnvelope :: "string \<Rightarrow> bool" where
  "IsEnvelope s = has_prefix envelopePrefix s"

text \<open>The two implementations of the interface.\<close>

datatype cipher = AesGCM aead | Noop

definition aes_Encrypt :: "env \<Rightarrow> aead \<Rightarrow> string \<Rightarrow> world \<Rightarrow> string res" where
  "aes_Encrypt E a plaintext w =
     (if plaintext = [] then (Inr [], w)
      else and_then (wrap_err ''crypto: nonce: '' (rand_read E (ae_nonce a) w)) (\<lambda>nonce w.
        let ct = ae_seal a nonce plaintext; out = nonce @ ct
        in (Inr (envelopePrefix @ std_encode out), w)))"

definition aes_Decrypt :: "aead \<Rightarrow> string \<Rightarrow> string result" where
  "aes_Decrypt a stored =
     (if stored = [] then Inr []
      else if \<not> has_prefix envelopePrefix stored then Inr stored
      else case std_decode (drop (length envelopePrefix) stored) of
        None \<Rightarrow> Inl (Wrap ''crypto: decode ciphertext: '' (Ext ''illegal base64 data''))
      | Some raw \<Rightarrow>
          let ns = ae_nonce a in
          if length raw < ns + 1 then Inl (Msg ''crypto: ciphertext too short'')
          else case ae_open a (take ns raw) (drop ns raw) of
            None \<Rightarrow> Inl (Wrap ''crypto: open: '' (Ext ''cipher: message authentication failed''))
          | Some pt \<Rightarrow> Inr pt)"

fun Encrypt :: "env \<Rightarrow> cipher \<Rightarrow> string \<Rightarrow> world \<Rightarrow> string res" where
  "Encrypt E (AesGCM a) s w = aes_Encrypt E a s w"
| "Encrypt E Noop s w = (Inr s, w)"

fun Decrypt :: "cipher \<Rightarrow> string \<Rightarrow> string result" where
  "Decrypt (AesGCM a) s = aes_Decrypt a s"
| "Decrypt Noop s = (if has_prefix envelopePrefix s
     then Inl (Msg ''crypto: stored value is encrypted but no key is configured'') else Inr s)"

fun Enabled :: "cipher \<Rightarrow> bool" where
  "Enabled (AesGCM a) = True"
| "Enabled Noop = False"

text \<open>\<open>gcm\<close> makes the AEAD of a key: \<^verbatim>\<open>aes.NewCipher\<close> and \<^verbatim>\<open>cipher.NewGCM\<close>.\<close>

definition NewFromKey :: "(string \<Rightarrow> aead) \<Rightarrow> string \<Rightarrow> cipher result" where
  "NewFromKey gcm key = (if length key \<noteq> 32
     then Inl (Msg (''crypto: key must be 32 bytes, got '' @ show_nat (length key)))
     else Inr (AesGCM (gcm key)))"

definition NewFromBase64Key :: "(string \<Rightarrow> aead) \<Rightarrow> string \<Rightarrow> cipher result" where
  "NewFromBase64Key gcm s =
     (let s = trim_space s in
      if s = [] then Inl (Msg ''crypto: encryption key is empty'')
      else let key = (case std_decode s of Some k \<Rightarrow> Some k | None \<Rightarrow> raw_url_decode s) in
        (case key of None \<Rightarrow> Inl (Wrap ''crypto: decode key: '' (Ext ''illegal base64 data''))
         | Some k \<Rightarrow> NewFromKey gcm k))"

section \<open>The contract\<close>

text \<open>
  A field cipher decrypts what it encrypted (under \<open>trusted\<close>, what it relies on itself),
  leaves values that are no envelopes as they are, writes envelopes when it is enabled and nothing new
  when it is not; it uses the random source only.
\<close>

locale field_cipher =
  fixes enc :: "env \<Rightarrow> string \<Rightarrow> world \<Rightarrow> string res"
    and dec :: "string \<Rightarrow> string result"
    and enabled :: bool
    and trusted :: bool
  assumes enc_dec: "trusted \<Longrightarrow> rand_length E \<Longrightarrow> \<not> IsEnvelope s \<Longrightarrow> enc E s w = (Inr ct, w') \<Longrightarrow> dec ct = Inr s"
    and dec_legacy: "\<not> IsEnvelope s \<Longrightarrow> dec s = Inr s"
    and enc_envelope: "enabled \<Longrightarrow> s \<noteq> [] \<Longrightarrow> enc E s w = (Inr ct, w') \<Longrightarrow> IsEnvelope ct"
    and enc_empty: "enabled \<Longrightarrow> enc E [] w = (Inr ct, w') \<Longrightarrow> ct = []"
    and enc_frame: "enc E s w = (r, w') \<Longrightarrow> wdb w' = wdb w \<and> tick w' = tick w"
begin

text \<open>Storing a value again, encrypted, does not change what is read back.\<close>

lemma reencrypt_same:
  "trusted \<Longrightarrow> rand_length E \<Longrightarrow> \<not> IsEnvelope s \<Longrightarrow> enc E s w = (Inr ct, w') \<Longrightarrow> dec ct = dec s"
  using enc_dec dec_legacy by simp

end

lemma not_envelope_Nil [simp]: "\<not> IsEnvelope []"
  by (simp add: IsEnvelope_def envelopePrefix_def has_prefix_def)

lemma envelope_append [simp]: "IsEnvelope (envelopePrefix @ s)"
  by (simp add: IsEnvelope_def has_prefix_def)

lemma aes_Encrypt_Inr:
  "aes_Encrypt E a s w = (Inr ct, w') \<longleftrightarrow>
     (s = [] \<and> ct = [] \<and> w' = w) \<or>
     (s \<noteq> [] \<and> (\<exists>nonce. rnd E (rtick w) (ae_nonce a) = Inr nonce \<and>
       ct = envelopePrefix @ std_encode (nonce @ ae_seal a nonce s) \<and> w' = w\<lparr>rtick := Suc (rtick w)\<rparr>))"
  by (auto simp: aes_Encrypt_def res_elims rand_read_Inr Let_def)

lemma aes_open_envelope:
  assumes "aead_ok a" "length nonce = ae_nonce a"
  shows "aes_Decrypt a (envelopePrefix @ std_encode (nonce @ ae_seal a nonce s)) = Inr s"
proof -
  have "ae_open a nonce (ae_seal a nonce s) = Some s" "ae_seal a nonce s \<noteq> []"
    using assms by (auto simp: aead_ok_def)
  then show ?thesis using assms(2)
    by (cases "ae_seal a nonce s") (auto simp: aes_Decrypt_def has_prefix_def envelopePrefix_def Let_def)
qed

lemma aes_Encrypt_Decrypt:
  assumes "aead_ok a" "rand_length E" "aes_Encrypt E a s w = (Inr ct, w')"
  shows "aes_Decrypt a ct = Inr s"
proof (cases "s = []")
  case True
  with assms(3) show ?thesis by (simp add: aes_Encrypt_def aes_Decrypt_def)
next
  case False
  with assms(3) obtain nonce where n: "rnd E (rtick w) (ae_nonce a) = Inr nonce"
    and ct: "ct = envelopePrefix @ std_encode (nonce @ ae_seal a nonce s)" by (auto simp: aes_Encrypt_Inr)
  have "length nonce = ae_nonce a" using assms(2) n by (auto simp: rand_length_def)
  then show ?thesis unfolding ct by (rule aes_open_envelope [OF assms(1)])
qed

fun trusted :: "cipher \<Rightarrow> bool" where
  "trusted (AesGCM a) = aead_ok a"
| "trusted Noop = True"

interpretation cipher: field_cipher "\<lambda>E. Encrypt E c" "Decrypt c" "Enabled c" "trusted c"
  for c
proof unfold_locales
  show "trusted c \<Longrightarrow> rand_length E \<Longrightarrow> \<not> IsEnvelope s \<Longrightarrow> Encrypt E c s w = (Inr ct, w') \<Longrightarrow> Decrypt c ct = Inr s"
    for E s w ct w'
    by (cases c) (auto simp: IsEnvelope_def intro: aes_Encrypt_Decrypt)
  show "\<not> IsEnvelope s \<Longrightarrow> Decrypt c s = Inr s" for s
    by (cases c) (auto simp: aes_Decrypt_def IsEnvelope_def)
  show "Enabled c \<Longrightarrow> s \<noteq> [] \<Longrightarrow> Encrypt E c s w = (Inr ct, w') \<Longrightarrow> IsEnvelope ct" for E s w ct w'
    by (cases c) (auto simp: aes_Encrypt_Inr)
  show "Enabled c \<Longrightarrow> Encrypt E c [] w = (Inr ct, w') \<Longrightarrow> ct = []" for E w ct w'
    by (cases c) (auto simp: aes_Encrypt_Inr)
  show "Encrypt E c s w = (r, w') \<Longrightarrow> wdb w' = wdb w \<and> tick w' = tick w" for E s w r w'
    by (cases c) (auto simp: aes_Encrypt_def Let_def rand_read_def split: if_splits sum.splits)
qed

section \<open>Properties\<close>

text \<open>
  Encryption of a stored field loses nothing: with a working AEAD, whatever AES-GCM
  cipher of a key encrypted it decrypts to the same text, and what it stored for a non-empty text is a
  versioned envelope which the cipher without a key refuses to read.
\<close>

lemma Encrypt_Decrypt:
  assumes "NewFromKey gcm key = Inr c" "aead_ok (gcm key)" "rand_length E"
    and "Encrypt E c s w = (Inr ct, w')" "s \<noteq> []"
  shows "Decrypt c ct = Inr s \<and> IsEnvelope ct \<and> (\<exists>e. Decrypt Noop ct = Inl e)"
proof -
  have c: "c = AesGCM (gcm key)" using assms(1) by (auto simp: NewFromKey_def split: if_splits)
  have "Decrypt c ct = Inr s" using assms(2-4) c by (auto intro: aes_Encrypt_Decrypt)
  moreover have "IsEnvelope ct" using cipher.enc_envelope [of c s E w ct w'] assms(4,5) c by simp
  ultimately show ?thesis by (simp add: IsEnvelope_def)
qed

text \<open>An AEAD whose seal is the plaintext, the nonce and one tag byte.\<close>

definition demo_aead :: aead where
  "demo_aead = \<lparr>ae_nonce = 12, ae_seal = (\<lambda>n p. p @ n @ ''t''),
     ae_open = (\<lambda>n c. if n @ ''t'' = drop (length c - 13) c then Some (take (length c - 13) c) else None)\<rparr>"

lemma demo_aead_ok: "aead_ok demo_aead"
  by (simp add: aead_ok_def demo_aead_def)

end
