(* ===== verification/Authsetup.thy ===== *)
theory Authsetup
  imports Crypto
begin

text \<open>
  \<^verbatim>\<open>internal/controlplane/authsetup\<close>: the roles PostgREST logs in with, and the list of
  tenant schemas it may expose, kept as a setting of the authenticator role.
\<close>

definition ensureRole :: "env \<Rightarrow> string \<Rightarrow> bool \<Rightarrow> string \<Rightarrow> world \<Rightarrow> unit res" where
  "ensureRole E name login password w =
     and_then (query E (\<lambda>d. pg_roles (pg d) name \<noteq> None) w) (\<lambda>ex w.
       if \<not> ex then exec E (CreateServiceRole name login password) w
       else if password \<noteq> [] then exec E (AlterPassword name password) w
       else (Inr (), w))"

definition EnsureRoles :: "env \<Rightarrow> string \<Rightarrow> string \<Rightarrow> string \<Rightarrow> string \<Rightarrow> world \<Rightarrow> unit res" where
  "EnsureRoles E authRole authPassword anonRole jwtSecret w =
     and_then (wrap_err ''anon: '' (ensureRole E anonRole False [] w)) (\<lambda>_ w.
     and_then (wrap_err ''authenticator: '' (ensureRole E authRole True authPassword w)) (\<lambda>_ w.
     and_then (wrap_err ''grant anon: '' (exec E (GrantRole anonRole authRole) w)) (\<lambda>_ w.
     if jwtSecret \<noteq> [] then
       and_then (wrap_err ''set jwt_secret: '' (exec E (SetSetting authRole ''pgrst.jwt_secret'' jwtSecret) w)) (\<lambda>_ w.
       wrap_err ''set jwt_secret_is_base64: '' (exec E (SetSetting authRole ''pgrst.jwt_secret_is_base64'' ''false'') w))
     else (Inr (), w))))"

definition GrantTenant :: "env \<Rightarrow> string \<Rightarrow> string \<Rightarrow> world \<Rightarrow> unit res" where
  "GrantTenant E authRole tenantRole = exec E (GrantRole tenantRole authRole)"

definition RevokeTenant :: "env \<Rightarrow> string \<Rightarrow> string \<Rightarrow> world \<Rightarrow> unit res" where
  "RevokeTenant E authRole tenantRole = exec E (RevokeRole tenantRole authRole)"

text \<open>\<^verbatim>\<open>ORDER BY pg_schema\<close>, in the byte order of the C collation.\<close>

definition live_schemas :: "db \<Rightarrow> string list" where
  "live_schemas d = sort (map p_schema (filter (\<lambda>p. p_deleted p = None) (projects d)))"

definition RebuildSchemasList :: "env \<Rightarrow> string \<Rightarrow> world \<Rightarrow> unit res" where
  "RebuildSchemasList E authRole w =
     and_then (query E live_schemas w) (\<lambda>schemas w.
     let csv = join '','' (''public'' # schemas) in
     and_then (wrap_err ''set db_schemas: '' (exec E (SetSetting authRole ''pgrst.db_schemas'' csv) w)) (\<lambda>_ w.
     let w = snd (exec E (Notify ''reload config'') w);
         w = snd (exec E (Notify ''reload schema'') w)
     in (Inr (), w)))"

section \<open>Lemmas\<close>

lemma notify_frame: "wdb (snd (exec E (Notify p) w)) = wdb w"
  by (simp add: exec_def sql_def split: option.split)

lemma live_schemas_pg [simp]: "live_schemas (d\<lparr>pg := c\<rparr>) = live_schemas d"
  by (simp add: live_schemas_def)

lemma RebuildSchemasList_Inr:
  assumes "RebuildSchemasList E a w = (Inr u, w')"
  shows "\<exists>i. pg_roles (pg (wdb w)) (trunc a) = Some i \<and>
    wdb w' = (wdb w)\<lparr>pg := (pg (wdb w))\<lparr>pg_roles := (pg_roles (pg (wdb w)))(trunc a \<mapsto>
      i\<lparr>ri_settings := AList.update ''pgrst.db_schemas''
         (join '','' (''public'' # live_schemas (wdb w))) (ri_settings i)\<rparr>)\<rparr>\<rparr>"
  using assms
  by (auto simp: RebuildSchemasList_def res_elims query_Inr exec_Inr Let_def notify_frame upd_role_def
      split: option.splits)

text \<open>What the grants and settings of this component leave alone in a role: login, password, expiry.\<close>

definition role_core :: "role_info \<Rightarrow> bool \<times> string option \<times> instant option" where
  "role_core i = (ri_login i, ri_password i, ri_valid_until i)"

definition same_logins :: "pg \<Rightarrow> pg \<Rightarrow> bool" where
  "same_logins c c' \<longleftrightarrow> pg_schemas c' = pg_schemas c \<and> pg_tables c' = pg_tables c \<and>
     (\<forall>x. map_option role_core (pg_roles c' x) = map_option role_core (pg_roles c x))"

lemma same_logins_refl [simp]: "same_logins c c"
  by (simp add: same_logins_def)

lemma same_logins_trans: "same_logins c d \<Longrightarrow> same_logins d e \<Longrightarrow> same_logins c e"
  by (simp add: same_logins_def)

lemma same_logins_Some:
  "same_logins c c' \<Longrightarrow> pg_roles c x = Some i \<Longrightarrow> \<exists>i'. pg_roles c' x = Some i' \<and> role_core i' = role_core i"
  unfolding same_logins_def by (metis option.map(2) map_option_eq_Some)

lemma same_logins_None: "same_logins c c' \<Longrightarrow> pg_roles c x = None \<longleftrightarrow> pg_roles c' x = None"
  unfolding same_logins_def by (metis option.map_disc_iff)

lemma exec_grant_logins: "exec_stmt (GrantRole r m) c = Inr c' \<Longrightarrow> same_logins c c'"
  by (auto simp: ddl_simps same_logins_def role_core_def split: if_splits option.splits)

lemma exec_setting_logins: "exec_stmt (SetSetting r p v) c = Inr c' \<Longrightarrow> same_logins c c'"
  by (auto simp: ddl_simps same_logins_def role_core_def split: if_splits option.splits)

lemma RebuildSchemasList_logins:
  "wdb (snd (RebuildSchemasList E a w)) = (wdb w)\<lparr>pg := pg (wdb (snd (RebuildSchemasList E a w)))\<rparr> \<and>
   same_logins (pg (wdb w)) (pg (wdb (snd (RebuildSchemasList E a w))))"
proof -
  obtain r w' where r: "RebuildSchemasList E a w = (r, w')" by fastforce
  show ?thesis
  proof (cases r)
    case (Inl e)
    with r have "wdb w' = wdb w"
      by (auto simp: RebuildSchemasList_def res_elims query_Inr query_Inl Let_def dest!: exec_Inl_wdb)
    with r show ?thesis by simp
  next
    case (Inr u)
    with r have "RebuildSchemasList E a w = (Inr u, w')" by simp
    from RebuildSchemasList_Inr [OF this] r show ?thesis
      by (auto simp: same_logins_def role_core_def)
  qed
qed

end
