(* ===== verification/Projects.thy ===== *)
theory Projects
  imports Authsetup
begin

text \<open>
  \<^verbatim>\<open>internal/controlplane/projects\<close>: provisioning and removal of projects, tenant
  credentials and their re-encryption (service.go), the HTTP handlers (handlers.go).
\<close>

section \<open>service.go\<close>

record project =
  pr_id :: uuid
  pr_name :: string
  pr_slug :: string
  pr_role :: string
  pr_schema :: string
  pr_parent :: "uuid option"
  pr_created :: instant
  pr_updated :: instant

text \<open>The service: the authenticator role (empty without PostgREST) and the cipher.\<close>

record service =
  sv_auth :: string
  sv_cipher :: cipher

definition NewService :: service where
  "NewService = \<lparr>sv_auth = [], sv_cipher = Noop\<rparr>"

definition NewServiceWithAuth :: "string \<Rightarrow> service" where
  "NewServiceWithAuth a = \<lparr>sv_auth = a, sv_cipher = Noop\<rparr>"

definition WithCipher :: "service \<Rightarrow> cipher option \<Rightarrow> service" where
  "WithCipher S c = S\<lparr>sv_cipher := (case c of None \<Rightarrow> Noop | Some c \<Rightarrow> c)\<rparr>"

definition project_columns :: "project_row \<Rightarrow> project" where
  "project_columns p = \<lparr>pr_id = p_id p, pr_name = p_name p, pr_slug = p_slug p, pr_role = p_role p,
     pr_schema = p_schema p, pr_parent = p_parent p, pr_created = p_created p, pr_updated = p_updated p\<rparr>"

definition randomPassword :: "env \<Rightarrow> world \<Rightarrow> string res" where
  "randomPassword E w = and_then (rand_read E 24 w) (\<lambda>b w. (Inr (raw_url_encode b), w))"

definition isUniqueViolation :: "goerr \<Rightarrow> bool" where
  "isUniqueViolation e = str_contains ''SQLSTATE 23505'' (err_text e)"

definition insert_project :: "env \<Rightarrow> string \<Rightarrow> string \<Rightarrow> string \<Rightarrow> string \<Rightarrow> string \<Rightarrow> world \<Rightarrow> project res" where
  "insert_project E name slug role schema stored w = sql E (\<lambda>d.
     let p = \<lparr>p_id = new_uuid E (tick w), p_name = name, p_slug = slug, p_role = role, p_schema = schema,
           p_password = stored, p_parent = None, p_created = db_now E, p_updated = db_now E, p_deleted = None\<rparr>
     in if \<exists>r \<in> set (projects d). p_id r = p_id p \<or> p_name r = name \<or> p_slug r = slug
          then Inl (pg_error ''duplicate key value violates unique constraint'' ''23505'')
        else Inr (project_columns p, d\<lparr>projects := projects d @ [p]\<rparr>)) w"

definition provision :: "string \<Rightarrow> string \<Rightarrow> string \<Rightarrow> stmt list" where
  "provision role schema password =
     [CreateTenantRole role password, CreateSchema schema role, SetSearchPath role schema]"

text \<open>What \<^verbatim>\<open>Create\<close> does between \<^verbatim>\<open>Begin\<close> and \<^verbatim>\<open>Commit\<close>.\<close>

definition create_tx :: "env \<Rightarrow> service \<Rightarrow> string \<Rightarrow> string \<Rightarrow> string \<Rightarrow> string \<Rightarrow> string \<Rightarrow> string \<Rightarrow> world \<Rightarrow> project res" where
  "create_tx E S name slug role schema password storedPassword w =
     (case insert_project E name slug role schema storedPassword w of
        (Inl e, w) \<Rightarrow> if isUniqueViolation e then (Inl (Sentinel ErrAlreadyExists), w)
                        else (Inl (Wrap ''insert project: '' e), w)
      | (Inr p, w) \<Rightarrow>
          and_then (wrap_err ''provision role/schema: '' (exec_all E (provision role schema password) w)) (\<lambda>_ w.
          and_then (if sv_auth S \<noteq> [] then wrap_err ''grant authenticator: '' (GrantTenant E (sv_auth S) role w)
                    else (Inr (), w)) (\<lambda>_ w.
          (Inr p, w))))"

definition projects_Create :: "env \<Rightarrow> service \<Rightarrow> string \<Rightarrow> world \<Rightarrow> project res" where
  "projects_Create E S name w =
     (let name = trim_space name in
      if name = [] \<or> 64 < length name then (Inl (Sentinel ErrInvalidName), w)
      else let slug = slugify E name in
        if slug = [] then (Inl (Sentinel ErrInvalidName), w)
        else let role = ''p_'' @ slug; schema = ''p_'' @ slug in
          and_then (randomPassword E w) (\<lambda>password w.
          and_then (wrap_err ''encrypt password: '' (Encrypt E (sv_cipher S) password w)) (\<lambda>storedPassword w.
          and_then (in_tx E (create_tx E S name slug role schema password storedPassword) w) (\<lambda>p w.
          (Inr p, if sv_auth S \<noteq> [] then snd (RebuildSchemasList E (sv_auth S) w) else w)))))"

definition projects_Get :: "env \<Rightarrow> uuid \<Rightarrow> world \<Rightarrow> project res" where
  "projects_Get E pid w =
     and_then (query E (\<lambda>d. select_one (\<lambda>p. p_id p = pid \<and> p_deleted p = None) (projects d)) w) (\<lambda>row w.
     case row of None \<Rightarrow> (Inl (Sentinel ErrProjectNotFound), w) | Some p \<Rightarrow> (Inr (project_columns p), w))"

definition projects_List :: "env \<Rightarrow> world \<Rightarrow> project list res" where
  "projects_List E = query E (\<lambda>d. map project_columns
     (order_desc p_created (filter (\<lambda>p. p_deleted p = None) (projects d))))"

definition ephemeralRoleNames :: "env \<Rightarrow> uuid \<Rightarrow> world \<Rightarrow> string list res" where
  "ephemeralRoleNames E pid = query E (\<lambda>d. map e_role
     (filter (\<lambda>e. e_project e = pid \<and> pg_roles (pg d) (e_role e) \<noteq> None) (ephemeral_roles d)))"

definition drop_list :: "project \<Rightarrow> string list \<Rightarrow> stmt list" where
  "drop_list p ephemeral = [DropSchemaCascade (pr_schema p)] @
     concat (map (\<lambda>r. [GrantSelf r, DropOwned r, DropRole r]) ephemeral) @ [DropRole (pr_role p)]"

text \<open>What \<^verbatim>\<open>Delete\<close> does between \<^verbatim>\<open>Begin\<close> and \<^verbatim>\<open>Commit\<close>.\<close>

definition delete_tx :: "env \<Rightarrow> service \<Rightarrow> uuid \<Rightarrow> project \<Rightarrow> world \<Rightarrow> unit res" where
  "delete_tx E S pid p w =
     and_then (sql E (\<lambda>d. Inr ((), d\<lparr>projects :=
         update_where (\<lambda>r. p_id r = pid) (\<lambda>r. r\<lparr>p_deleted := Some (db_now E)\<rparr>) (projects d)\<rparr>)) w) (\<lambda>_ w.
     and_then (wrap_err ''revoke keys: '' (sql E (\<lambda>d. Inr ((), d\<lparr>api_keys :=
         update_where (\<lambda>k. k_project k = pid \<and> k_revoked k = None)
           (\<lambda>k. k\<lparr>k_revoked := Some (db_now E)\<rparr>) (api_keys d)\<rparr>)) w)) (\<lambda>_ w.
     and_then (if sv_auth S \<noteq> [] then wrap_err ''revoke authenticator: '' (RevokeTenant E (sv_auth S) (pr_role p) w)
               else (Inr (), w)) (\<lambda>_ w.
     and_then (wrap_err ''list ephemeral roles: '' (ephemeralRoleNames E pid w)) (\<lambda>ephemeral w.
     wrap_err ''drop: '' (exec_all E (drop_list p ephemeral) w)))))"

definition projects_Delete :: "env \<Rightarrow> service \<Rightarrow> uuid \<Rightarrow> world \<Rightarrow> unit res" where
  "projects_Delete E S pid w =
     and_then (projects_Get E pid w) (\<lambda>p w.
     and_then (in_tx E (delete_tx E S pid p) w) (\<lambda>_ w.
     (Inr (), if sv_auth S \<noteq> [] then snd (RebuildSchemasList E (sv_auth S) w) else w)))"

definition LatestAppliedVersion :: "env \<Rightarrow> uuid \<Rightarrow> world \<Rightarrow> string res" where
  "LatestAppliedVersion E pid w =
     and_then (query E (\<lambda>d. select_one (\<lambda>_. True)
       (order_desc m_started (filter (\<lambda>m. m_project m = pid \<and> m_state m = ''applied'') (migration_log d)))) w) (\<lambda>row w.
     case row of None \<Rightarrow> (Inr [], w) | Some m \<Rightarrow> (Inr (m_version m), w))"

definition GetCredentials :: "env \<Rightarrow> service \<Rightarrow> uuid \<Rightarrow> world \<Rightarrow> (string \<times> string \<times> string) res" where
  "GetCredentials E S pid w =
     and_then (query E (\<lambda>d. select_one (\<lambda>p. p_id p = pid \<and> p_deleted p = None) (projects d)) w) (\<lambda>row w.
     case row of None \<Rightarrow> (Inl (Sentinel ErrProjectNotFound), w)
     | Some p \<Rightarrow> (case Decrypt (sv_cipher S) (p_password p) of
         Inl e \<Rightarrow> (Inl (Wrap ''decrypt pg_password: '' e), w)
       | Inr password \<Rightarrow> (Inr (p_role p, password, p_schema p), w)))"

text \<open>
  The loop of \<^verbatim>\<open>ReencryptAll\<close> over the pending rows, counting the updates; the messages are
  given without the id.
\<close>

fun reencrypt_rows :: "env \<Rightarrow> cipher \<Rightarrow> nat \<Rightarrow> (uuid \<times> string) list \<Rightarrow> world \<Rightarrow> nat res" where
  "reencrypt_rows E c n [] w = (Inr n, w)"
| "reencrypt_rows E c n ((i, stored) # rs) w =
     and_then (wrap_err ''encrypt id: '' (Encrypt E c stored w)) (\<lambda>ct w.
     and_then (wrap_err ''update id: '' (sql E (\<lambda>d. Inr ((), d\<lparr>projects :=
         update_where (\<lambda>p. p_id p = i \<and> p_password p = stored) (\<lambda>p. p\<lparr>p_password := ct\<rparr>) (projects d)\<rparr>)) w)) (\<lambda>_ w.
     reencrypt_rows E c (n + 1) rs w))"

definition ReencryptAll :: "env \<Rightarrow> service \<Rightarrow> world \<Rightarrow> nat res" where
  "ReencryptAll E S w =
     (if \<not> Enabled (sv_cipher S) then (Inr 0, w)
      else and_then (wrap_err ''list projects: '' (query E (\<lambda>d. map (\<lambda>p. (p_id p, p_password p))
          (filter (\<lambda>p. p_deleted p = None) (projects d))) w)) (\<lambda>rows w.
        reencrypt_rows E (sv_cipher S) 0 (filter (\<lambda>(_, stored). \<not> IsEnvelope stored) rows) w))"

section \<open>handlers.go\<close>

definition body_of :: "request \<Rightarrow> string" where
  "body_of r = (case rq_body r of None \<Rightarrow> [] | Some b \<Rightarrow> b)"

definition projects_create_h :: "env \<Rightarrow> service \<Rightarrow> request \<Rightarrow> project handler" where
  "projects_create_h E S r w =
     (let (ok, name) = json_name E (body_of r) in
      if \<not> ok then write_err 400 ''invalid body'' w
      else case projects_Create E S name w of
        (Inl e, w) \<Rightarrow> if errors_is e ErrInvalidName then write_err 400 (err_text e) w
                        else if errors_is e ErrAlreadyExists then write_err 409 (err_text e) w
                        else write_err 500 (err_text e) w
      | (Inr p, w) \<Rightarrow> write_ok 201 p w)"

definition projects_list_h :: "env \<Rightarrow> request \<Rightarrow> project list handler" where
  "projects_list_h E r w = (case projects_List E w of
      (Inl e, w) \<Rightarrow> write_err 500 (err_text e) w
    | (Inr ps, w) \<Rightarrow> write_ok 200 ps w)"

definition projects_get_h :: "env \<Rightarrow> request \<Rightarrow> project handler" where
  "projects_get_h E r w = (case uuid_parse E (rq_param r ''id'') of
      None \<Rightarrow> write_err 400 ''bad id'' w
    | Some pid \<Rightarrow> (case projects_Get E pid w of
        (Inl e, w) \<Rightarrow> if errors_is e ErrProjectNotFound then write_err 404 ''not found'' w
                        else write_err 500 (err_text e) w
      | (Inr p, w) \<Rightarrow> write_ok 200 p w))"

definition projects_delete_h :: "env \<Rightarrow> service \<Rightarrow> request \<Rightarrow> unit handler" where
  "projects_delete_h E S r w = (case uuid_parse E (rq_param r ''id'') of
      None \<Rightarrow> write_err 400 ''bad id'' w
    | Some pid \<Rightarrow> (case projects_Delete E S pid w of
        (Inl e, w) \<Rightarrow> if errors_is e ErrProjectNotFound then write_err 404 ''not found'' w
                        else write_err 500 (err_text e) w
      | (Inr _, w) \<Rightarrow> write_ok 204 () w))"

section \<open>Lemmas\<close>

lemma insert_project_Inr:
  "insert_project E name slug role schema stored w = (Inr p, w') \<longleftrightarrow>
     flt E (tick w) = None \<and>
     (\<forall>r \<in> set (projects (wdb w)). p_id r \<noteq> new_uuid E (tick w) \<and> p_name r \<noteq> name \<and> p_slug r \<noteq> slug) \<and>
     (let row = \<lparr>p_id = new_uuid E (tick w), p_name = name, p_slug = slug, p_role = role, p_schema = schema,
        p_password = stored, p_parent = None, p_created = db_now E, p_updated = db_now E, p_deleted = None\<rparr>
      in p = project_columns row \<and>
         w' = w\<lparr>tick := Suc (tick w), wdb := (wdb w)\<lparr>projects := projects (wdb w) @ [row]\<rparr>\<rparr>)"
  by (auto simp: insert_project_def sql_Inr Let_def split: if_splits)

lemma randomPassword_Inr:
  "randomPassword E w = (Inr pw, w') \<longleftrightarrow> (\<exists>b. rnd E (rtick w) 24 = Inr b \<and> pw = raw_url_encode b \<and>
     w' = w\<lparr>rtick := Suc (rtick w)\<rparr>)"
  by (auto simp: randomPassword_def res_elims rand_read_Inr)

text \<open>A generated password has no colon, so it cannot be taken for an envelope.\<close>

lemma password_not_envelope: "\<not> IsEnvelope (raw_url_encode b)"
proof
  assume "IsEnvelope (raw_url_encode b)"
  then have "CHR '':'' \<in> set (raw_url_encode b)"
    by (auto simp: IsEnvelope_def has_prefix_iff envelopePrefix_def)
  moreover have "CHR '':'' \<notin> set url_alphabet" by (simp add: url_alphabet_def alnum_def)
  ultimately show False using set_raw_url by blast
qed

lemma run_provision:
  assumes "run_stmts (provision role schema password) c = Inr c'"
  shows "pg_roles c (trunc role) = None \<and> map_of (pg_schemas c) (trunc schema) = None \<and>
    (\<exists>i. pg_roles c' (trunc role) = Some i \<and> role_core i = (True, Some password, None) \<and>
       map_of (ri_settings i) ''search_path'' = Some (trunc schema @ '', public'')) \<and>
    pg_schemas c' = (trunc schema, trunc role) # pg_schemas c \<and>
    (\<forall>x. x \<noteq> trunc role \<longrightarrow> pg_roles c' x = pg_roles c x)"
  using assms
  by (auto simp: provision_def ddl_simps role_core_def split: if_splits option.splits sum.splits)

lemma create_tx_Inr:
  assumes "create_tx E S name slug role schema password stored w = (Inr p, w')"
  shows "\<exists>c c2 row. row = \<lparr>p_id = new_uuid E (tick w), p_name = name, p_slug = slug, p_role = role,
       p_schema = schema, p_password = stored, p_parent = None, p_created = db_now E, p_updated = db_now E,
       p_deleted = None\<rparr> \<and> p = project_columns row \<and>
     (\<forall>r \<in> set (projects (wdb w)). p_id r \<noteq> p_id row \<and> p_name r \<noteq> name \<and> p_slug r \<noteq> slug) \<and>
     run_stmts (provision role schema password) (pg (wdb w)) = Inr c \<and> same_logins c c2 \<and>
     wdb w' = (wdb w)\<lparr>projects := projects (wdb w) @ [row], pg := c2\<rparr>"
proof -
  from assms obtain w1 w2 where i: "insert_project E name slug role schema stored w = (Inr p, w1)"
    and e: "exec_all E (provision role schema password) w1 = (Inr (), w2)"
    and g: "(sv_auth S \<noteq> [] \<and> GrantTenant E (sv_auth S) role w2 = (Inr (), w')) \<or> (sv_auth S = [] \<and> w' = w2)"
    by (auto simp: create_tx_def res_elims split: prod.splits sum.splits if_splits)
  from exec_all_Inr [OF e] obtain c where c: "run_stmts (provision role schema password) (pg (wdb w1)) = Inr c"
    "wdb w2 = (wdb w1)\<lparr>pg := c\<rparr>" by blast
  from g have "\<exists>c2. same_logins c c2 \<and> wdb w' = (wdb w2)\<lparr>pg := c2\<rparr>"
  proof
    assume "sv_auth S \<noteq> [] \<and> GrantTenant E (sv_auth S) role w2 = (Inr (), w')"
    then obtain c2 where "exec_stmt (GrantRole role (sv_auth S)) c = Inr c2" "wdb w' = (wdb w2)\<lparr>pg := c2\<rparr>"
      using c(2) by (auto simp: GrantTenant_def exec_Inr)
    then show ?thesis using exec_grant_logins by blast
  qed (use c(2) in \<open>auto intro: exI [of _ c]\<close>)
  then obtain c2 where "same_logins c c2" "wdb w' = (wdb w2)\<lparr>pg := c2\<rparr>" by blast
  with i c show ?thesis by (auto simp: insert_project_Inr Let_def)
qed

text \<open>What a successful \<^verbatim>\<open>Create\<close> did.\<close>

lemma projects_Create_Inr:
  assumes "projects_Create E S name w = (Inr p, w')"
  shows "trim_space name \<noteq> [] \<and> length (trim_space name) \<le> 64 \<and> slugify E (trim_space name) \<noteq> [] \<and>
    (\<exists>b password stored wa c c2 row. rnd E (rtick w) 24 = Inr b \<and> password = raw_url_encode b \<and>
       Encrypt E (sv_cipher S) password (w\<lparr>rtick := Suc (rtick w)\<rparr>) = (Inr stored, wa) \<and>
       row = \<lparr>p_id = new_uuid E (Suc (tick w)), p_name = trim_space name, p_slug = slugify E (trim_space name),
         p_role = ''p_'' @ slugify E (trim_space name), p_schema = ''p_'' @ slugify E (trim_space name),
         p_password = stored, p_parent = None, p_created = db_now E, p_updated = db_now E, p_deleted = None\<rparr> \<and>
       p = project_columns row \<and>
       (\<forall>r \<in> set (projects (wdb w)). p_id r \<noteq> p_id row \<and> p_name r \<noteq> p_name row \<and> p_slug r \<noteq> p_slug row) \<and>
       run_stmts (provision (p_role row) (p_schema row) password) (pg (wdb w)) = Inr c \<and> same_logins c c2 \<and>
       wdb w' = (wdb w)\<lparr>projects := projects (wdb w) @ [row], pg := c2\<rparr>)"
proof -
  let ?name = "trim_space name" and ?slug = "slugify E (trim_space name)"
  from assms obtain b stored wa w3 where n: "?name \<noteq> []" "length ?name \<le> 64" "?slug \<noteq> []"
    and b: "rnd E (rtick w) 24 = Inr b"
    and enc: "Encrypt E (sv_cipher S) (raw_url_encode b) (w\<lparr>rtick := Suc (rtick w)\<rparr>) = (Inr stored, wa)"
    and tx: "in_tx E (create_tx E S ?name ?slug (''p_'' @ ?slug) (''p_'' @ ?slug) (raw_url_encode b) stored) wa = (Inr p, w3)"
    and w': "w' = (if sv_auth S \<noteq> [] then snd (RebuildSchemasList E (sv_auth S) w3) else w3)"
    by (auto simp: projects_Create_def Let_def res_elims randomPassword_Inr split: if_splits)
  have wa: "wdb wa = wdb w \<and> tick wa = tick w" using cipher.enc_frame [OF enc] by simp
  from tx obtain w4 where c: "create_tx E S ?name ?slug (''p_'' @ ?slug) (''p_'' @ ?slug) (raw_url_encode b) stored
      (wa\<lparr>tick := Suc (tick wa)\<rparr>) = (Inr p, w4)" and w4: "wdb w3 = wdb w4"
    by (auto simp: in_tx_Inr)
  have "\<exists>c2. same_logins (pg (wdb w3)) c2 \<and> wdb w' = (wdb w3)\<lparr>pg := c2\<rparr>"
    using RebuildSchemasList_logins [of E "sv_auth S" w3] w' by (auto intro: exI [of _ "pg (wdb w3)"])
  then obtain c3 where "same_logins (pg (wdb w3)) c3" "wdb w' = (wdb w3)\<lparr>pg := c3\<rparr>" by blast
  moreover from create_tx_Inr [OF c] wa obtain cc c2 row where r:
    "row = \<lparr>p_id = new_uuid E (Suc (tick w)), p_name = ?name, p_slug = ?slug, p_role = ''p_'' @ ?slug,
       p_schema = ''p_'' @ ?slug, p_password = stored, p_parent = None, p_created = db_now E,
       p_updated = db_now E, p_deleted = None\<rparr>" "p = project_columns row"
    "\<forall>r \<in> set (projects (wdb w)). p_id r \<noteq> p_id row \<and> p_name r \<noteq> ?name \<and> p_slug r \<noteq> ?slug"
    "run_stmts (provision (''p_'' @ ?slug) (''p_'' @ ?slug) (raw_url_encode b)) (pg (wdb w)) = Inr cc"
    "same_logins cc c2" "wdb w4 = (wdb w)\<lparr>projects := projects (wdb w) @ [row], pg := c2\<rparr>"
    by auto
  ultimately have "same_logins cc c3" "wdb w' = (wdb w)\<lparr>projects := projects (wdb w) @ [row], pg := c3\<rparr>"
    using w4 same_logins_trans by auto
  then show ?thesis
    by (intro conjI n b enc r exI [of _ b] exI [of _ "raw_url_encode b"] exI [of _ stored] exI [of _ wa]
        exI [of _ cc] exI [of _ c3] exI [of _ row]) (use r in simp_all)
qed

text \<open>Every failure of \<^verbatim>\<open>Create\<close> leaves the database as it was.\<close>

lemma projects_Create_Inl:
  assumes "projects_Create E S name w = (Inl e, w')"
  shows "wdb w' = wdb w"
proof -
  have p: "wdb w' = wdb w" if "randomPassword E w = (r, w')" for r w w'
    using that by (auto simp: randomPassword_def rand_read_def split: sum.splits)
  have c: "wdb w' = wdb w" if "Encrypt E (sv_cipher S) s w = (r, w')" for s r w w'
    using cipher.enc_frame [OF that] by simp
  from assms show ?thesis
    by (auto simp: projects_Create_def Let_def res_elims split: if_splits dest!: p c in_tx_Inl_wdb)
qed

section \<open>Deletion\<close>

lemma projects_Get_Inr:
  "projects_Get E pid w = (Inr p, w') \<longleftrightarrow> flt E (tick w) = None \<and> w' = w\<lparr>tick := Suc (tick w)\<rparr> \<and>
     (\<exists>row. select_one (\<lambda>p. p_id p = pid \<and> p_deleted p = None) (projects (wdb w)) = Some row \<and>
        p = project_columns row)"
  by (auto simp: projects_Get_def res_elims query_Inr split: option.splits)

lemma projects_Get_Inl: "projects_Get E pid w = (Inl e, w') \<Longrightarrow> wdb w' = wdb w"
  by (auto simp: projects_Get_def res_elims query_Inr query_Inl split: option.splits)

text \<open>Every failure of \<^verbatim>\<open>Delete\<close> leaves the database as it was.\<close>

lemma projects_Delete_Inl: "projects_Delete E S pid w = (Inl e, w') \<Longrightarrow> wdb w' = wdb w"
  by (auto simp: projects_Delete_def res_elims projects_Get_Inr dest!: projects_Get_Inl in_tx_Inl_wdb)

definition deleted_rows :: "instant \<Rightarrow> uuid \<Rightarrow> project_row list \<Rightarrow> project_row list" where
  "deleted_rows t pid = update_where (\<lambda>r. p_id r = pid) (\<lambda>r. r\<lparr>p_deleted := Some t\<rparr>)"

definition revoked_keys :: "instant \<Rightarrow> uuid \<Rightarrow> key_row list \<Rightarrow> key_row list" where
  "revoked_keys t pid = update_where (\<lambda>k. k_project k = pid \<and> k_revoked k = None) (\<lambda>k. k\<lparr>k_revoked := Some t\<rparr>)"

lemma drop_list_drops: "\<forall>s \<in> set (drop_list p es). is_drop s"
  by (auto simp: drop_list_def)

lemma exec_revoke_keeps:
  "exec_stmt (RevokeRole r m) c = Inr c' \<Longrightarrow> same_logins c c'"
  by (auto simp: ddl_simps same_logins_def role_core_def split: if_splits option.splits)

lemma delete_tx_Inr:
  assumes "delete_tx E S pid p w = (Inr u, w')"
  shows "\<exists>c1 c2 es. same_logins (pg (wdb w)) c1 \<and>
     es = map e_role (filter (\<lambda>e. e_project e = pid \<and> pg_roles c1 (e_role e) \<noteq> None) (ephemeral_roles (wdb w))) \<and>
     run_stmts (drop_list p es) c1 = Inr c2 \<and>
     wdb w' = (wdb w)\<lparr>projects := deleted_rows (db_now E) pid (projects (wdb w)),
       api_keys := revoked_keys (db_now E) pid (api_keys (wdb w)), pg := c2\<rparr>"
proof -
  define w2 where "w2 = w\<lparr>tick := Suc (Suc (tick w)), wdb := (wdb w)\<lparr>
    projects := deleted_rows (db_now E) pid (projects (wdb w)),
    api_keys := revoked_keys (db_now E) pid (api_keys (wdb w))\<rparr>\<rparr>"
  from assms obtain w3 w4 es where
    w3: "(sv_auth S \<noteq> [] \<and> RevokeTenant E (sv_auth S) (pr_role p) w2 = (Inr (), w3)) \<or> (sv_auth S = [] \<and> w3 = w2)"
    and es: "ephemeralRoleNames E pid w3 = (Inr es, w4)"
    and e: "exec_all E (drop_list p es) w4 = (Inr u, w')"
    by (auto simp: delete_tx_def res_elims sql_Inr deleted_rows_def revoked_keys_def w2_def split: if_splits)
  from w3 have "\<exists>c1. same_logins (pg (wdb w2)) c1 \<and> wdb w3 = (wdb w2)\<lparr>pg := c1\<rparr>"
  proof
    assume "sv_auth S \<noteq> [] \<and> RevokeTenant E (sv_auth S) (pr_role p) w2 = (Inr (), w3)"
    then obtain c1 where "exec_stmt (RevokeRole (pr_role p) (sv_auth S)) (pg (wdb w2)) = Inr c1"
      "wdb w3 = (wdb w2)\<lparr>pg := c1\<rparr>" by (auto simp: RevokeTenant_def exec_Inr)
    then show ?thesis using exec_revoke_keeps by blast
  qed (auto intro: exI [of _ "pg (wdb w2)"])
  then obtain c1 where c1: "same_logins (pg (wdb w)) c1" "wdb w3 = (wdb w2)\<lparr>pg := c1\<rparr>"
    by (auto simp: w2_def)
  from exec_all_Inr [OF e] obtain c2 where c2: "run_stmts (drop_list p es) (pg (wdb w4)) = Inr c2"
    "wdb w' = (wdb w4)\<lparr>pg := c2\<rparr>" by blast
  show ?thesis
    by (intro exI [of _ c1] exI [of _ c2] exI [of _ es])
      (use c1 c2 es in \<open>auto simp: ephemeralRoleNames_def query_Inr w2_def\<close>)
qed

text \<open>What a successful \<^verbatim>\<open>Delete\<close> did.\<close>

lemma projects_Delete_Inr:
  assumes "projects_Delete E S pid w = (Inr u, w')"
  shows "\<exists>row c. select_one (\<lambda>p. p_id p = pid \<and> p_deleted p = None) (projects (wdb w)) = Some row \<and>
     wdb w' = (wdb w)\<lparr>projects := deleted_rows (db_now E) pid (projects (wdb w)),
       api_keys := revoked_keys (db_now E) pid (api_keys (wdb w)), pg := c\<rparr> \<and>
     pg_roles c (trunc (p_role row)) = None \<and> map_of (pg_schemas c) (trunc (p_schema row)) = None \<and>
     (\<forall>e \<in> set (ephemeral_roles (wdb w)). e_project e = pid \<and> length (e_role e) \<le> 63 \<longrightarrow> pg_roles c (e_role e) = None)"
proof -
  from assms obtain row w1 w2 where
    row: "select_one (\<lambda>p. p_id p = pid \<and> p_deleted p = None) (projects (wdb w)) = Some row"
    and tx: "in_tx E (delete_tx E S pid (project_columns row)) w1 = (Inr (), w2)" and w1: "wdb w1 = wdb w"
    and w': "w' = (if sv_auth S \<noteq> [] then snd (RebuildSchemasList E (sv_auth S) w2) else w2)"
    by (auto simp: projects_Delete_def res_elims projects_Get_Inr)
  from tx obtain w3 where "delete_tx E S pid (project_columns row) (w1\<lparr>tick := Suc (tick w1)\<rparr>) = (Inr (), w3)"
    and w2: "wdb w2 = wdb w3" by (auto simp: in_tx_Inr)
  from delete_tx_Inr [OF this(1)] w1 obtain c1 c2 es where
    c1: "same_logins (pg (wdb w)) c1"
    and es: "es = map e_role (filter (\<lambda>e. e_project e = pid \<and> pg_roles c1 (e_role e) \<noteq> None) (ephemeral_roles (wdb w)))"
    and c2: "run_stmts (drop_list (project_columns row) es) c1 = Inr c2"
    and w3: "wdb w3 = (wdb w)\<lparr>projects := deleted_rows (db_now E) pid (projects (wdb w)),
       api_keys := revoked_keys (db_now E) pid (api_keys (wdb w)), pg := c2\<rparr>" by auto
  have "\<exists>c. same_logins c2 c \<and> wdb w' = (wdb w3)\<lparr>pg := c\<rparr>"
    using RebuildSchemasList_logins [of E "sv_auth S" w2] w' w2 w3 by (auto intro: exI [of _ c2])
  then obtain c where c: "same_logins c2 c" "wdb w' = (wdb w3)\<lparr>pg := c\<rparr>" by blast
  have gone: "pg_roles c2 (trunc (p_role row)) = None" "map_of (pg_schemas c2) (trunc (p_schema row)) = None"
    using run_drops_gone [OF c2 drop_list_drops] by (auto simp: drop_list_def project_columns_def)
  have eph: "pg_roles c2 (e_role e) = None"
    if "e \<in> set (ephemeral_roles (wdb w))" "e_project e = pid" "length (e_role e) \<le> 63" for e
  proof (cases "pg_roles c1 (e_role e) = None")
    case True
    then show ?thesis using run_drops_keep [OF c2 drop_list_drops] by blast
  next
    case False
    with that es have "DropRole (e_role e) \<in> set (drop_list (project_columns row) es)"
      by (auto simp: drop_list_def)
    from run_drops_gone(1) [OF c2 drop_list_drops this] that(3) show ?thesis by (simp add: trunc_id)
  qed
  show ?thesis
    by (intro exI [of _ row] exI [of _ c])
      (use row c w3 gone eph same_logins_None [OF c(1)] in \<open>auto simp: same_logins_def\<close>)
qed

section \<open>Re-encryption\<close>

text \<open>How a pass over the pending rows \<open>rs\<close> may change a row.\<close>

definition reencrypted :: "cipher \<Rightarrow> (uuid \<times> string) set \<Rightarrow> project_row \<Rightarrow> project_row \<Rightarrow> bool" where
  "reencrypted c R r r' \<longleftrightarrow> r' = r\<lparr>p_password := p_password r'\<rparr> \<and>
     Decrypt c (p_password r') = Decrypt c (p_password r) \<and>
     (IsEnvelope (p_password r') \<or> r' = r \<and> ((p_id r, p_password r) \<in> R \<longrightarrow> p_password r = []))"

definition reencrypt_row :: "uuid \<Rightarrow> string \<Rightarrow> string \<Rightarrow> project_row \<Rightarrow> project_row" where
  "reencrypt_row i s ct p = (if p_id p = i \<and> p_password p = s then p\<lparr>p_password := ct\<rparr> else p)"

lemma reencrypt_update:
  "update_where (\<lambda>p. p_id p = i \<and> p_password p = s) (\<lambda>p. p\<lparr>p_password := ct\<rparr>) ps = map (reencrypt_row i s ct) ps"
  by (simp add: update_where_def reencrypt_row_def)

lemma reencrypted_step:
  assumes "reencrypted c R (reencrypt_row i s ct r) r'" "Decrypt c ct = Decrypt c s"
    "s \<noteq> [] \<Longrightarrow> IsEnvelope ct" "s = [] \<Longrightarrow> ct = []"
  shows "reencrypted c (insert (i, s) R) r r'"
  using assms by (cases "p_id r = i \<and> p_password r = s"; cases "s = []")
    (auto simp: reencrypted_def reencrypt_row_def)

lemma reencrypt_rows_Inr:
  assumes "reencrypt_rows E c n rs w = (Inr m, w')" "Enabled c" "trusted c" "rand_length E"
    "\<forall>(i, s) \<in> set rs. \<not> IsEnvelope s"
  shows "m = n + length rs \<and> (\<exists>ps. wdb w' = (wdb w)\<lparr>projects := ps\<rparr> \<and>
    list_all2 (reencrypted c (set rs)) (projects (wdb w)) ps)"
  using assms
proof (induction rs arbitrary: n w)
  case Nil
  then show ?case
    by (auto simp: reencrypted_def intro!: exI [of _ "projects (wdb w)"] list.rel_refl)
next
  case (Cons r rs)
  obtain i s where r: "r = (i, s)" by fastforce
  from Cons.prems(1) r obtain ct w1 where enc: "Encrypt E c s w = (Inr ct, w1)"
    and rec': "reencrypt_rows E c (n + 1) rs (w1\<lparr>tick := Suc (tick w1),
      wdb := (wdb w1)\<lparr>projects := map (reencrypt_row i s ct) (projects (wdb w1))\<rparr>\<rparr>) = (Inr m, w')"
    by (auto simp: res_elims sql_Inr reencrypt_update)
  define w2 where "w2 = w1\<lparr>tick := Suc (tick w1),
    wdb := (wdb w1)\<lparr>projects := map (reencrypt_row i s ct) (projects (wdb w1))\<rparr>\<rparr>"
  have rec: "reencrypt_rows E c (n + 1) rs w2 = (Inr m, w')"
    and upd: "wdb w2 = (wdb w1)\<lparr>projects := map (reencrypt_row i s ct) (projects (wdb w1))\<rparr>"
    using rec' by (simp_all add: w2_def)
  have w1: "wdb w1 = wdb w" using cipher.enc_frame [OF enc] by simp
  have s: "\<not> IsEnvelope s" using Cons.prems(5) r by simp
  have ct: "Decrypt c ct = Decrypt c s" "s \<noteq> [] \<Longrightarrow> IsEnvelope ct" "s = [] \<Longrightarrow> ct = []"
    using cipher.reencrypt_same [OF Cons.prems(3,4) s enc] cipher.enc_envelope [OF Cons.prems(2) _ enc]
      cipher.enc_empty [OF Cons.prems(2)] enc by auto
  from Cons.IH [OF rec Cons.prems(2-4)] Cons.prems(5) obtain ps where
    m: "m = n + 1 + length rs" and ps: "wdb w' = (wdb w2)\<lparr>projects := ps\<rparr>"
      "list_all2 (reencrypted c (set rs)) (map (reencrypt_row i s ct) (projects (wdb w))) ps"
    using upd w1 by auto
  have "list_all2 (reencrypted c (set (r # rs))) (projects (wdb w)) ps"
    using ps(2) unfolding list_all2_map1 r
    by (auto elim!: list_all2_mono intro: reencrypted_step [OF _ ct])
  with m ps(1) upd w1 show ?case by auto
qed

lemma ReencryptAll_Inr:
  assumes "ReencryptAll E S w = (Inr n, w')" "Enabled (sv_cipher S)" "trusted (sv_cipher S)" "rand_length E"
  shows "n = length (filter (\<lambda>p. p_deleted p = None \<and> \<not> IsEnvelope (p_password p)) (projects (wdb w))) \<and>
    (\<exists>ps. wdb w' = (wdb w)\<lparr>projects := ps\<rparr> \<and>
      list_all2 (\<lambda>r r'. r' = r\<lparr>p_password := p_password r'\<rparr> \<and>
        Decrypt (sv_cipher S) (p_password r') = Decrypt (sv_cipher S) (p_password r) \<and>
        (p_deleted r = None \<longrightarrow> IsEnvelope (p_password r') \<or> p_password r' = [])) (projects (wdb w)) ps)"
proof -
  let ?rows = "map (\<lambda>p. (p_id p, p_password p)) (filter (\<lambda>p. p_deleted p = None) (projects (wdb w)))"
  let ?pending = "filter (\<lambda>(_, stored). \<not> IsEnvelope stored) ?rows"
  from assms(1,2) have r: "reencrypt_rows E (sv_cipher S) 0 ?pending (w\<lparr>tick := Suc (tick w)\<rparr>) = (Inr n, w')"
    by (auto simp: ReencryptAll_def res_elims query_Inr)
  from reencrypt_rows_Inr [OF r assms(2-4)] obtain ps where
    n: "n = length ?pending" and ps: "wdb w' = (wdb w)\<lparr>projects := ps\<rparr>"
      "list_all2 (reencrypted (sv_cipher S) (set ?pending)) (projects (wdb w)) ps" by auto
  have "length ?pending = length (filter (\<lambda>p. p_deleted p = None \<and> \<not> IsEnvelope (p_password p)) (projects (wdb w)))"
    by (simp add: filter_map o_def conj_commute)
  moreover have "list_all2 (\<lambda>r r'. r' = r\<lparr>p_password := p_password r'\<rparr> \<and>
        Decrypt (sv_cipher S) (p_password r') = Decrypt (sv_cipher S) (p_password r) \<and>
        (p_deleted r = None \<longrightarrow> IsEnvelope (p_password r') \<or> p_password r' = [])) (projects (wdb w)) ps"
    using ps(2) by (rule list.rel_mono_strong) (auto simp: reencrypted_def)
  ultimately show ?thesis using n ps(1) by auto
qed

section \<open>Names already taken\<close>

lemma unique_violation_text: "isUniqueViolation (Ext (pg_error ''duplicate key value violates unique constraint'' ''23505''))"
  unfolding isUniqueViolation_def err_text.simps by code_simp

lemma Encrypt_total: "\<forall>k n. \<exists>b. rnd E k n = Inr b \<Longrightarrow> \<exists>ct w'. Encrypt E c s w = (Inr ct, w')"
  by (cases c; cases "s = []") (auto simp: aes_Encrypt_Inr simp del: split_paired_Ex)

lemma projects_Create_taken:
  assumes "\<forall>n. flt E n = None" "\<forall>k n. \<exists>b. rnd E k n = Inr b"
    and "trim_space name \<noteq> []" "length (trim_space name) \<le> 64" "slugify E (trim_space name) \<noteq> []"
    and "r \<in> set (projects (wdb w))" "p_name r = trim_space name \<or> p_slug r = slugify E (trim_space name)"
  shows "fst (projects_Create E S name w) = Inl (Sentinel ErrAlreadyExists)"
proof -
  obtain b where b: "rnd E (rtick w) 24 = Inr b" using assms(2) by blast
  have "\<exists>ct w'. Encrypt E (sv_cipher S) (raw_url_encode b) (w\<lparr>rtick := Suc (rtick w)\<rparr>) = (Inr ct, w')"
    using assms(2) by (rule Encrypt_total)
  then obtain ct w1 where enc: "Encrypt E (sv_cipher S) (raw_url_encode b) (w\<lparr>rtick := Suc (rtick w)\<rparr>) = (Inr ct, w1)"
    by blast
  have w1: "wdb w1 = wdb w" using cipher.enc_frame [OF enc] by simp
  let ?name = "trim_space name" and ?slug = "slugify E (trim_space name)"
  have "insert_project E ?name ?slug (''p_'' @ ?slug) (''p_'' @ ?slug) ct (w1\<lparr>tick := Suc (tick w1)\<rparr>) =
      (Inl (Ext (pg_error ''duplicate key value violates unique constraint'' ''23505'')), w1\<lparr>tick := Suc (Suc (tick w1))\<rparr>)"
    using assms(1,6,7) w1 by (auto simp: insert_project_def sql_def Let_def)
  then have "create_tx E S ?name ?slug (''p_'' @ ?slug) (''p_'' @ ?slug) (raw_url_encode b) ct (w1\<lparr>tick := Suc (tick w1)\<rparr>) =
      (Inl (Sentinel ErrAlreadyExists), w1\<lparr>tick := Suc (Suc (tick w1))\<rparr>)"
    using unique_violation_text by (simp add: create_tx_def)
  then have "fst (in_tx E (create_tx E S ?name ?slug (''p_'' @ ?slug) (''p_'' @ ?slug) (raw_url_encode b) ct) w1) =
      Inl (Sentinel ErrAlreadyExists)"
    using assms(1) by (simp add: in_tx_def query_def sql_def)
  then have "\<exists>w2. in_tx E (create_tx E S ?name ?slug (''p_'' @ ?slug) (''p_'' @ ?slug) (raw_url_encode b) ct) w1 =
      (Inl (Sentinel ErrAlreadyExists), w2)"
    by (cases "in_tx E (create_tx E S ?name ?slug (''p_'' @ ?slug) (''p_'' @ ?slug) (raw_url_encode b) ct) w1") auto
  moreover have "randomPassword E w = (Inr (raw_url_encode b), w\<lparr>rtick := Suc (rtick w)\<rparr>)"
    using b by (simp add: randomPassword_Inr)
  ultimately show ?thesis
    using assms(3-5) enc by (auto simp: projects_Create_def Let_def)
qed

section \<open>Properties\<close>



text \<open>
  Property C6. A successful \<^verbatim>\<open>Delete\<close> marks the project deleted and revokes all its keys,
  leaving the rows of other projects and their keys as they were; its schema, its tenant role and every
  ephemeral role recorded for it are gone from the server.
\<close>

theorem Delete_removes:
  assumes "projects_Delete E S pid w = (Inr u, w')"
  shows "\<exists>row. row \<in> set (projects (wdb w)) \<and> p_id row = pid \<and> p_deleted row = None \<and>
    projects (wdb w') = map (\<lambda>r. if p_id r = pid then r\<lparr>p_deleted := Some (db_now E)\<rparr> else r) (projects (wdb w)) \<and>
    api_keys (wdb w') = map (\<lambda>k. if k_project k = pid \<and> k_revoked k = None
      then k\<lparr>k_revoked := Some (db_now E)\<rparr> else k) (api_keys (wdb w)) \<and>
    pg_roles (pg (wdb w')) (trunc (p_role row)) = None \<and>
    map_of (pg_schemas (pg (wdb w'))) (trunc (p_schema row)) = None \<and>
    (\<forall>e \<in> set (ephemeral_roles (wdb w)). e_project e = pid \<and> length (e_role e) \<le> 63 \<longrightarrow>
      pg_roles (pg (wdb w')) (e_role e) = None) \<and>
    wdb w' = (wdb w)\<lparr>projects := projects (wdb w'), api_keys := api_keys (wdb w'), pg := pg (wdb w')\<rparr>"
proof -
  from projects_Delete_Inr [OF assms] obtain row c where
    row: "select_one (\<lambda>p. p_id p = pid \<and> p_deleted p = None) (projects (wdb w)) = Some row"
    and w': "wdb w' = (wdb w)\<lparr>projects := deleted_rows (db_now E) pid (projects (wdb w)),
       api_keys := revoked_keys (db_now E) pid (api_keys (wdb w)), pg := c\<rparr>"
    and gone: "pg_roles c (trunc (p_role row)) = None" "map_of (pg_schemas c) (trunc (p_schema row)) = None"
      "\<forall>e \<in> set (ephemeral_roles (wdb w)). e_project e = pid \<and> length (e_role e) \<le> 63 \<longrightarrow> pg_roles c (e_role e) = None"
    by blast
  from select_one_Some [OF row] w' gone show ?thesis
    by (intro exI [of _ row]) (simp add: deleted_rows_def revoked_keys_def update_where_def)
qed

text \<open>
  Property C18. No key of a deleted project is ever accepted again: after a successful
  \<^verbatim>\<open>Delete\<close> no plaintext verifies as a key the project had then, whatever happens in between.
\<close>

theorem deleted_project_keys_dead:
  assumes "projects_Delete E S pid w = (Inr u, w1)" "k \<in> set (api_keys (wdb w))" "k_project k = pid"
    and "key_step\<^sup>*\<^sup>* (wdb w1) (wdb w2)" "keys_Verify E' p w2 = (Inr j, w3)"
  shows "j \<noteq> (pid, k_id k)"
proof -
  from projects_Delete_Inr [OF assms(1)] have "api_keys (wdb w1) = revoked_keys (db_now E) pid (api_keys (wdb w))" by auto
  moreover define g where "g = (\<lambda>k :: key_row. if k_project k = pid \<and> k_revoked k = None
      then k\<lparr>k_revoked := Some (db_now E)\<rparr> else k)"
  ultimately have "set (api_keys (wdb w1)) = g ` set (api_keys (wdb w))"
    by (simp add: revoked_keys_def update_where_def)
  moreover have "k_id (g x) = k_id x" "k_project (g x) = k_project x"
    "k_project x = pid \<Longrightarrow> k_revoked (g x) \<noteq> None" for x by (simp_all add: g_def)
  ultimately have "key_revoked (pid, k_id k) (wdb w1)" using assms(2) by (simp add: key_revoked_def) blast
  from key_store.steps_keep [OF assms(4) this] key_store.verify_live [OF assms(5)] show ?thesis by blast
qed

text \<open>
  The re-encryption pass: when it succeeds under an enabled cipher, it has rewritten
  exactly the live rows whose password was no envelope and counted them; every live row now holds an
  envelope (or an empty password), every password still decrypts to what it did, and nothing else changed.
\<close>

lemma ReencryptAll_spec:
  assumes "ReencryptAll E S w = (Inr n, w')" "Enabled (sv_cipher S)" "trusted (sv_cipher S)" "rand_length E"
  shows "n = length (filter (\<lambda>p. p_deleted p = None \<and> \<not> IsEnvelope (p_password p)) (projects (wdb w))) \<and>
    wdb w' = (wdb w)\<lparr>projects := projects (wdb w')\<rparr> \<and>
    list_all2 (\<lambda>r r'. r' = r\<lparr>p_password := p_password r'\<rparr> \<and>
        Decrypt (sv_cipher S) (p_password r') = Decrypt (sv_cipher S) (p_password r) \<and>
        (p_deleted r = None \<longrightarrow> IsEnvelope (p_password r') \<or> p_password r' = []))
      (projects (wdb w)) (projects (wdb w'))"
  using ReencryptAll_Inr [OF assms] by auto

text \<open>
  Property C24. A slug of 62 or more characters, which the length check on the name lets pass,
  makes a role name beyond the 63 bytes Postgres keeps: \<^verbatim>\<open>Create\<close> succeeds, and the role and the
  schema the project row names do not exist on the server.
\<close>

theorem long_slug_truncated:
  assumes "projects_Create E S name w = (Inr p, w')" "62 \<le> length (slugify E (trim_space name))"
    and "\<forall>x i. pg_roles (pg (wdb w)) x = Some i \<longrightarrow> length x \<le> 63"
    and "\<forall>x \<in> set (pg_schemas (pg (wdb w))). length (fst x) \<le> 63"
  shows "pg_roles (pg (wdb w')) (pr_role p) = None \<and> map_of (pg_schemas (pg (wdb w'))) (pr_schema p) = None"
proof -
  from projects_Create_Inr [OF assms(1)] obtain c c2 row password where
    row: "p = project_columns row" "p_role row = ''p_'' @ slugify E (trim_space name)" "p_schema row = p_role row"
    and c: "run_stmts (provision (p_role row) (p_schema row) password) (pg (wdb w)) = Inr c" "same_logins c c2"
    and w': "pg (wdb w') = c2" by auto
  have len: "63 < length (p_role row)" using assms(2) row by simp
  have r0: "pg_roles (pg (wdb w)) (p_role row) = None" using assms(3) len by fastforce
  have "length (trunc (p_role row)) \<le> 63" by (simp add: trunc_def)
  then have ne: "p_role row \<noteq> trunc (p_role row)" using len by auto
  then have "pg_roles c (p_role row) = None" using run_provision [OF c(1)] r0 by auto
  then have r: "pg_roles c2 (p_role row) = None" using same_logins_None [OF c(2)] by blast
  have "map_of (pg_schemas (pg (wdb w))) (p_role row) = None"
    using assms(4) len by (force simp: map_of_eq_None_iff)
  then have "map_of (pg_schemas c2) (p_role row) = None"
    using run_provision [OF c(1)] c(2) row(3) ne by (auto simp: same_logins_def)
  with r row w' show ?thesis by (simp add: project_columns_def)
qed

section \<open>Witnesses\<close>

lemma demo_create:
  assumes "trim_space name \<noteq> []" "length (trim_space name) \<le> 64" "slugify demo_env (trim_space name) \<noteq> []"
  shows "\<exists>p w'. projects_Create demo_env NewService name (world_of empty_db) = (Inr p, w')"
  using assms
  by (simp add: projects_Create_def create_tx_def Let_def randomPassword_def rand_read_def NewService_def
      in_tx_def query_def sql_def insert_project_def exec_def provision_def ddl_simps demo_defs)

lemma demo_create_app: "\<exists>p w'. projects_Create demo_env NewService ''My App'' (world_of empty_db) = (Inr p, w')"
  by (rule demo_create) code_simp+



text \<open>A project with its role and schema, a key, and an ephemeral role.\<close>

definition demo_role :: role_info where
  "demo_role = \<lparr>ri_login = True, ri_password = Some ''pw'', ri_valid_until = None, ri_member_of = [], ri_settings = []\<rparr>"

definition demo_world :: world where
  "demo_world = world_of (demo_db\<lparr>api_keys := [demo_key],
     ephemeral_roles := [\<lparr>e_role = ''p_demo_e_1'', e_project = 7, e_expires = 0, e_created = 0\<rparr>],
     pg := \<lparr>pg_roles = [''p_demo'' \<mapsto> demo_role, ''p_demo_e_1'' \<mapsto> demo_role],
       pg_schemas = [(''p_demo'', ''p_demo'')], pg_tables = (\<lambda>_ _. None), pg_usage = (\<lambda>_. False)\<rparr>\<rparr>)"

lemma demo_delete: "\<exists>w'. projects_Delete demo_env NewService 7 demo_world = (Inr (), w')"
  by (simp add: projects_Delete_def projects_Get_def delete_tx_def NewService_def demo_world_def demo_db_def
      demo_project_def demo_key_def select_one_def project_columns_def
      in_tx_def query_def sql_def exec_def ephemeralRoleNames_def drop_list_def ddl_simps trunc_def demo_role_def
      world_of_def empty_db_def Let_def)

lemma Delete_removes_witness:
  "\<exists>w'. projects_Delete demo_env NewService 7 demo_world = (Inr (), w') \<and>
     pg_roles (pg (wdb w')) ''p_demo_e_1'' = None"
proof -
  obtain w' where d: "projects_Delete demo_env NewService 7 demo_world = (Inr (), w')" using demo_delete by blast
  from Delete_removes [OF d] have "pg_roles (pg (wdb w')) ''p_demo_e_1'' = None"
    by (auto simp: demo_world_def world_of_def)
  with d show ?thesis by blast
qed

lemma long_slug_truncated_witness:
  "\<exists>p w'. projects_Create demo_env NewService (replicate 62 CHR ''a'') (world_of empty_db) = (Inr p, w') \<and>
     pg_roles (pg (wdb w')) (pr_role p) = None"
proof -
  have "\<exists>p w'. projects_Create demo_env NewService (replicate 62 CHR ''a'') (world_of empty_db) = (Inr p, w')"
    by (rule demo_create) code_simp+
  then obtain p :: project and w' where
    c: "projects_Create demo_env NewService (replicate 62 CHR ''a'') (world_of empty_db) = (Inr p, w')" by blast
  have "62 \<le> length (slugify demo_env (trim_space (replicate 62 CHR ''a'')))" by code_simp
  from long_slug_truncated [OF c this] c show ?thesis by (auto simp: demo_defs)
qed

lemma deleted_project_keys_dead_witness:
  "\<exists>w1 k w2 w3. projects_Delete demo_env NewService 7 demo_world = (Inr (), w1) \<and>
     keys_Issue demo_env 7 ''ci'' (world_of (wdb w1)) = (Inr k, w2) \<and>
     keys_Verify demo_env (ik_plaintext k) w2 = (Inr (7, ak_id (ik_key k)), w3) \<and>
     (7, ak_id (ik_key k)) \<noteq> (7 :: uuid, k_id demo_key)"
proof -
  obtain w1 where d: "projects_Delete demo_env NewService 7 demo_world = (Inr (), w1)" using demo_delete by blast
  from projects_Delete_Inr [OF d] have w1: "projects (wdb w1) = [demo_project\<lparr>p_deleted := Some (db_now demo_env)\<rparr>]"
      "api_keys (wdb w1) = [demo_key\<lparr>k_revoked := Some (db_now demo_env)\<rparr>]"
    by (auto simp: demo_world_def world_of_def demo_db_def deleted_rows_def revoked_keys_def update_where_def
        demo_project_def demo_key_def)
  then have "\<exists>k w2. keys_Issue demo_env 7 ''ci'' (world_of (wdb w1)) = (Inr k, w2)"
    by (simp add: keys_Issue_def Generate_def GenerateWithPrefix_def Hash_def insert_key_def sql_def
        rand_read_def Let_def demo_env_def demo_project_def demo_key_def world_of_def)
  then obtain k :: issued_key and w2 where i: "keys_Issue demo_env 7 ''ci'' (world_of (wdb w1)) = (Inr k, w2)" by blast
  have "ak_prefix (ik_key k) \<noteq> []"
    using issued_prefix_length [OF i demo_rand_length] by (auto simp: PrefixLookup_def)
  with keys_Issue_verifies [OF i demo_idkey_length demo_rand_length _ refl demo_flt refl] w1
  have "fst (keys_Verify demo_env (ik_plaintext k) w2) = Inr (7, ak_id (ik_key k))"
    by (simp add: demo_key_def world_of_def)
  then obtain w3 where v: "keys_Verify demo_env (ik_plaintext k) w2 = (Inr (7, ak_id (ik_key k)), w3)"
    by (cases "keys_Verify demo_env (ik_plaintext k) w2") auto
  have k: "demo_key \<in> set (api_keys (wdb demo_world))" "k_project demo_key = 7"
    by (simp_all add: demo_world_def world_of_def demo_key_def)
  have "key_step (wdb w1) (wdb w2)" using key_step.issue [OF i] by (simp add: world_of_def)
  from deleted_project_keys_dead [OF d k r_into_rtranclp [of key_step, OF this] v] d i v show ?thesis by blast
qed

end
