(* ===== verification/Config.thy ===== *)
theory Config
  imports Go_Strings
begin

text \<open>
  \<^verbatim>\<open>internal/config/config.go\<close>: the configuration read from the environment. The
  environment is a function from names to values (empty when unset, as \<^verbatim>\<open>os.Getenv\<close>), \<open>url_parse\<close>
  the host name, port and path \<^verbatim>\<open>url.Parse\<close> finds in a DSN. The trace sample rate, a float the model
  has no use for, is left out.
\<close>

record config =
  HTTPAddr :: string
  DatabaseURL :: string
  TenantHost :: string
  TenantPort :: string
  TenantDatabase :: string
  TenantSSLMode :: string
  BootstrapToken :: string
  Environment :: string
  AuthenticatorRole :: string
  AuthenticatorPassword :: string
  AnonRole :: string
  JWTSecret :: string
  RestExternalURL :: string
  RestTokenTTLSeconds :: int
  DSNTTLSeconds :: int
  AuditRetentionDays :: int
  EncryptionKey :: string
  OTLPEndpoint :: string
  OTLPInsecure :: bool
  OTelServiceName :: string
  MetricsAddr :: string

definition getenv :: "(string \<Rightarrow> string) \<Rightarrow> string \<Rightarrow> string \<Rightarrow> string" where
  "getenv os k d = (let v = os k in if v \<noteq> [] then v else d)"

definition intEnv :: "(string \<Rightarrow> string) \<Rightarrow> string \<Rightarrow> int \<Rightarrow> int" where
  "intEnv os k d = (let v = os k in
     if v = [] then d else case scan_int v of None \<Rightarrow> d | Some (n, _) \<Rightarrow> n)"

definition boolEnv :: "(string \<Rightarrow> string) \<Rightarrow> (string \<Rightarrow> string) \<Rightarrow> string \<Rightarrow> bool \<Rightarrow> bool" where
  "boolEnv lower os k d = (let v = to_lower lower (trim_space (os k)) in
     if v = [] then d
     else if v \<in> set [''1'', ''true'', ''yes'', ''on''] then True
     else if v \<in> set [''0'', ''false'', ''no'', ''off''] then False
     else d)"

definition parseHostPortDB :: "(string \<Rightarrow> (string \<times> string \<times> string) option) \<Rightarrow> string \<Rightarrow>
    (string \<times> string \<times> string) result" where
  "parseHostPortDB url_parse dsn = (case url_parse dsn of
      None \<Rightarrow> Inl (Ext ''parse error'')
    | Some (host, port, path) \<Rightarrow>
        Inr (host, if port = [] then ''5432'' else port,
             if has_prefix ''/'' path then drop 1 path else path))"

definition Load :: "(string \<Rightarrow> string) \<Rightarrow> (string \<Rightarrow> (string \<times> string \<times> string) option) \<Rightarrow>
    (string \<Rightarrow> string) \<Rightarrow> config result" where
  "Load lower url_parse os =
     (let cfg = \<lparr>HTTPAddr = getenv os ''PWRAP_HTTP_ADDR'' '':8080'',
        DatabaseURL = os ''PWRAP_DATABASE_URL'',
        TenantHost = [], TenantPort = [], TenantDatabase = [],
        TenantSSLMode = getenv os ''PWRAP_TENANT_SSLMODE'' ''disable'',
        BootstrapToken = os ''PWRAP_BOOTSTRAP_TOKEN'',
        Environment = getenv os ''PWRAP_ENV'' ''development'',
        AuthenticatorRole = getenv os ''PWRAP_AUTHENTICATOR_ROLE'' ''pwrap_authenticator'',
        AuthenticatorPassword = os ''PWRAP_AUTHENTICATOR_PASSWORD'',
        AnonRole = getenv os ''PWRAP_ANON_ROLE'' ''pwrap_anon'',
        JWTSecret = os ''PWRAP_JWT_SECRET'',
        RestExternalURL = getenv os ''PWRAP_REST_URL'' ''http://localhost:3000'',
        RestTokenTTLSeconds = intEnv os ''PWRAP_REST_TOKEN_TTL_SECONDS'' 3600,
        DSNTTLSeconds = intEnv os ''PWRAP_DSN_TTL_SECONDS'' 3600,
        AuditRetentionDays = intEnv os ''PWRAP_AUDIT_RETENTION_DAYS'' 90,
        EncryptionKey = os ''PWRAP_ENCRYPTION_KEY'',
        OTLPEndpoint = os ''PWRAP_OTLP_ENDPOINT'',
        OTLPInsecure = boolEnv lower os ''PWRAP_OTLP_INSECURE'' True,
        OTelServiceName = getenv os ''PWRAP_OTEL_SERVICE_NAME'' ''pwrapd'',
        MetricsAddr = os ''PWRAP_METRICS_ADDR''\<rparr> in
      if trim_space (DatabaseURL cfg) = [] then Inl (Msg ''PWRAP_DATABASE_URL is required'')
      else case parseHostPortDB url_parse (DatabaseURL cfg) of
        Inl e \<Rightarrow> Inl (Wrap ''parse PWRAP_DATABASE_URL: '' e)
      | Inr (host, port, db) \<Rightarrow>
          Inr (cfg\<lparr>TenantHost := getenv os ''PWRAP_TENANT_HOST'' host,
                   TenantPort := getenv os ''PWRAP_TENANT_PORT'' port,
                   TenantDatabase := getenv os ''PWRAP_TENANT_DATABASE'' db\<rparr>))"

definition RestEnabled :: "config \<Rightarrow> bool" where
  "RestEnabled c \<longleftrightarrow> AuthenticatorPassword c \<noteq> [] \<and> JWTSecret c \<noteq> []"

text \<open>A configuration, for the concrete inputs of the properties.\<close>

definition demo_config :: config where
  "demo_config = \<lparr>HTTPAddr = '':8080'', DatabaseURL = ''postgres://db/pwrap'', TenantHost = ''db'', TenantPort = ''5432'',
     TenantDatabase = ''pwrap'', TenantSSLMode = ''require'', BootstrapToken = ''boot'', Environment = ''test'',
     AuthenticatorRole = ''auth'', AuthenticatorPassword = [], AnonRole = ''anon'', JWTSecret = [],
     RestExternalURL = [], RestTokenTTLSeconds = 3600, DSNTTLSeconds = 3600, AuditRetentionDays = 90,
     EncryptionKey = [], OTLPEndpoint = [], OTLPInsecure = True, OTelServiceName = ''pwrapd'', MetricsAddr = []\<rparr>"

section \<open>Properties\<close>

lemma getenv_ne: "d \<noteq> [] \<Longrightarrow> getenv os k d \<noteq> []"
  by (simp add: getenv_def Let_def)

text \<open>
  A configuration that loads is usable: the addresses, roles and the port have
  values; the lifetimes are those the environment gives in decimal, or the defaults of an hour and of
  ninety days; with an unset environment but for the database URL everything optional is off.
\<close>

lemma Load_usable:
  assumes "Load lower url_parse os = Inr cfg"
  shows "HTTPAddr cfg \<noteq> [] \<and> AuthenticatorRole cfg \<noteq> [] \<and> AnonRole cfg \<noteq> [] \<and> TenantPort cfg \<noteq> [] \<and>
    TenantSSLMode cfg \<noteq> [] \<and> trim_space (DatabaseURL cfg) \<noteq> [] \<and>
    (\<forall>n. n < 2 ^ 63 \<and> os ''PWRAP_DSN_TTL_SECONDS'' = show_nat n \<longrightarrow> DSNTTLSeconds cfg = int n) \<and>
    (os ''PWRAP_DSN_TTL_SECONDS'' = [] \<longrightarrow> DSNTTLSeconds cfg = 3600) \<and>
    (os ''PWRAP_AUDIT_RETENTION_DAYS'' = [] \<longrightarrow> AuditRetentionDays cfg = 90) \<and>
    ((\<forall>k. k \<noteq> ''PWRAP_DATABASE_URL'' \<longrightarrow> os k = []) \<longrightarrow>
       \<not> RestEnabled cfg \<and> EncryptionKey cfg = [] \<and> BootstrapToken cfg = [] \<and> OTLPEndpoint cfg = [])"
proof -
  from assms obtain host port db where db: "trim_space (os ''PWRAP_DATABASE_URL'') \<noteq> []"
    and p: "parseHostPortDB url_parse (os ''PWRAP_DATABASE_URL'') = Inr (host, port, db)"
    and port: "TenantPort cfg = getenv os ''PWRAP_TENANT_PORT'' port"
    and c: "DatabaseURL cfg = os ''PWRAP_DATABASE_URL''" "HTTPAddr cfg = getenv os ''PWRAP_HTTP_ADDR'' '':8080''"
      "AuthenticatorRole cfg = getenv os ''PWRAP_AUTHENTICATOR_ROLE'' ''pwrap_authenticator''"
      "AnonRole cfg = getenv os ''PWRAP_ANON_ROLE'' ''pwrap_anon''"
      "TenantSSLMode cfg = getenv os ''PWRAP_TENANT_SSLMODE'' ''disable''"
      "DSNTTLSeconds cfg = intEnv os ''PWRAP_DSN_TTL_SECONDS'' 3600"
      "AuditRetentionDays cfg = intEnv os ''PWRAP_AUDIT_RETENTION_DAYS'' 90"
      "EncryptionKey cfg = os ''PWRAP_ENCRYPTION_KEY''" "BootstrapToken cfg = os ''PWRAP_BOOTSTRAP_TOKEN''"
      "OTLPEndpoint cfg = os ''PWRAP_OTLP_ENDPOINT''"
      "AuthenticatorPassword cfg = os ''PWRAP_AUTHENTICATOR_PASSWORD''" "JWTSecret cfg = os ''PWRAP_JWT_SECRET''"
    by (auto simp: Load_def Let_def split: if_splits sum.splits)
  have "port \<noteq> []" using p by (auto simp: parseHostPortDB_def split: option.splits if_splits)
  moreover have i: "intEnv os k d = int n" if "n < 2 ^ 63" "os k = show_nat n" for n k d
    using scan_int_show [OF that(1), of "[]"] that(2) by (simp add: intEnv_def)
  have "\<forall>n. n < 2 ^ 63 \<and> os ''PWRAP_DSN_TTL_SECONDS'' = show_nat n \<longrightarrow> DSNTTLSeconds cfg = int n"
    unfolding c(6) by (intro allI impI i) auto
  moreover have "intEnv os k d = d" if "os k = []" for k d using that by (simp add: intEnv_def)
  ultimately show ?thesis using db port c by (simp add: getenv_ne RestEnabled_def)
qed

end
