(* ===== verification/Dsn.thy ===== *)
theory Dsn
  imports Config
begin

text \<open>
  The connection string pwrapd hands out: \<^verbatim>\<open>tenancy.BuildDSN\<close> (dsn.go), over the parts of
  \<^verbatim>\<open>net/url\<close> and \<^verbatim>\<open>net.JoinHostPort\<close> it uses. The lemmas show that a reader of the URL
  finds the role and the password again, whatever bytes they hold.
\<close>

section \<open>Escaping of \<^verbatim>\<open>net/url\<close>\<close>

datatype url_mode = EncodePath | EncodeHost | EncodeUserPassword | EncodeQueryComponent

definition unreserved :: "char \<Rightarrow> bool" where
  "unreserved c \<longleftrightarrow> (CHR ''a'' \<le> c \<and> c \<le> CHR ''z'') \<or> (CHR ''A'' \<le> c \<and> c \<le> CHR ''Z'')
     \<or> (CHR ''0'' \<le> c \<and> c \<le> CHR ''9'')"

definition shouldEscape :: "url_mode \<Rightarrow> char \<Rightarrow> bool" where
  "shouldEscape m c =
     (if unreserved c then False
      else if m = EncodeHost \<and> c \<in> set ''!$&()*+,;=:[]<>'' \<union> {CHR 0x27, CHR 0x22} then False
      else if c \<in> set ''-_.~'' then False
      else if c \<in> set ''$&+,/:;=?@'' \<and> m = EncodePath then c = CHR ''?''
      else if c \<in> set ''$&+,/:;=?@'' \<and> m = EncodeUserPassword
        then c = CHR ''@'' \<or> c = CHR ''/'' \<or> c = CHR ''?'' \<or> c = CHR '':''
      else True)"

definition upperhex :: "nat \<Rightarrow> char" where
  "upperhex n = ''0123456789ABCDEF'' ! n"

definition escape_char :: "url_mode \<Rightarrow> char \<Rightarrow> string" where
  "escape_char m c =
     (if c = CHR '' '' \<and> m = EncodeQueryComponent then ''+''
      else if shouldEscape m c then [CHR ''%'', upperhex (of_char c div 16), upperhex (of_char c mod 16)]
      else [c])"

definition escape :: "url_mode \<Rightarrow> string \<Rightarrow> string" where
  "escape m s = concat (map (escape_char m) s)"

definition JoinHostPort :: "string \<Rightarrow> string \<Rightarrow> string" where
  "JoinHostPort host port = (if CHR '':'' \<in> set host then ''['' @ host @ '']:'' @ port else host @ '':'' @ port)"

section \<open>dsn.go\<close>

definition BuildDSN :: "config \<Rightarrow> string \<Rightarrow> string \<Rightarrow> string" where
  "BuildDSN cfg role password =
     ''postgres://'' @ escape EncodeUserPassword role @ '':'' @ escape EncodeUserPassword password @ ''@'' @
     escape EncodeHost (JoinHostPort (TenantHost cfg) (TenantPort cfg)) @
     escape EncodePath (''/'' @ TenantDatabase cfg) @
     ''?sslmode='' @ escape EncodeQueryComponent (TenantSSLMode cfg)"

section \<open>Reading a DSN\<close>

definition unhex :: "char \<Rightarrow> nat" where
  "unhex c = (if CHR ''0'' \<le> c \<and> c \<le> CHR ''9'' then of_char c - 48 else of_char c - 55)"

fun unescape :: "string \<Rightarrow> string" where
  "unescape (c # h # l # s) =
     (if c = CHR ''%'' then char_of (16 * unhex h + unhex l) # unescape s else c # unescape (h # l # s))"
| "unescape s = s"

text \<open>
  The parts of a URL by RFC 3986: the authority ends at the first of slash, question mark and
  number sign, the user information at its last at-sign, the user at the first colon.
\<close>

record dsn_parts =
  d_user :: string
  d_password :: string
  d_host :: string
  d_rest :: string

definition read_dsn :: "string \<Rightarrow> dsn_parts option" where
  "read_dsn s = (if \<not> has_prefix ''postgres://'' s then None
     else let r = drop 11 s;
              stop = (\<lambda>c. c \<noteq> CHR ''/'' \<and> c \<noteq> CHR ''?'' \<and> c \<noteq> CHR ''#'');
              auth = takeWhile stop r;
              host = rev (takeWhile (\<lambda>c. c \<noteq> CHR ''@'') (rev auth));
              info = take (length auth - length host - 1) auth;
              user = takeWhile (\<lambda>c. c \<noteq> CHR '':'') info
       in Some \<lparr>d_user = unescape user, d_password = unescape (drop (length user + 1) info),
                d_host = host, d_rest = dropWhile stop r\<rparr>)"

lemma unhex_upperhex: "n < 16 \<Longrightarrow> unhex (upperhex n) = n"
  by (simp add: less_Suc_eq eval_nat_numeral) (elim disjE; simp add: unhex_def upperhex_def; code_simp)

lemma upperhex_unreserved: "n < 16 \<Longrightarrow> unreserved (upperhex n)"
  by (simp add: less_Suc_eq eval_nat_numeral) (elim disjE; simp add: unreserved_def upperhex_def; code_simp)

lemma escape_Cons: "escape m (c # s) = escape_char m c @ escape m s"
  by (simp add: escape_def)

lemma unescape_plain: "c \<noteq> CHR ''%'' \<Longrightarrow> unescape (c # s) = c # unescape s"
  by (cases s rule: unescape.cases) auto

lemma nibbles: "(of_char c :: nat) div 16 < 16" "(of_char c :: nat) mod 16 < 16"
  using nat_of_char_less_256 [of c] by (simp_all add: less_mult_imp_div_less)

lemma unescape_hex:
  fixes c :: char
  shows "unescape (CHR ''%'' # upperhex (of_char c div 16) # upperhex (of_char c mod 16) # s) = c # unescape s"
  by (simp add: unhex_upperhex nibbles)

lemma unescape_escape: "unescape (escape EncodeUserPassword s) = s"
proof (induction s)
  case (Cons c s)
  have "\<not> shouldEscape EncodeUserPassword c \<Longrightarrow> c \<noteq> CHR ''%''"
    by (auto simp: shouldEscape_def unreserved_def)
  with Cons show ?case
    by (auto simp: escape_Cons escape_char_def unescape_plain unescape_hex simp del: unescape.simps(1))
qed (simp add: escape_def)

text \<open>The characters of an escaped component.\<close>

lemma set_escape:
  assumes "c \<in> set (escape m s)" "m \<noteq> EncodeQueryComponent"
  shows "c = CHR ''%'' \<or> \<not> shouldEscape m c"
proof -
  from assms(1) obtain x where x: "c \<in> set (escape_char m x)" by (auto simp: escape_def)
  have "unreserved y \<Longrightarrow> \<not> shouldEscape m y" for y by (simp add: shouldEscape_def)
  with x upperhex_unreserved [OF nibbles(1)] upperhex_unreserved [OF nibbles(2)] assms(2) show ?thesis
    by (auto simp: escape_char_def split: if_splits)
qed

lemma escape_userinfo_free:
  "c \<in> set (escape EncodeUserPassword s) \<Longrightarrow> c \<noteq> CHR ''/'' \<and> c \<noteq> CHR ''?'' \<and> c \<noteq> CHR ''#'' \<and> c \<noteq> CHR ''@'' \<and> c \<noteq> CHR '':''"
  by (drule set_escape) (auto simp: shouldEscape_def unreserved_def)

lemma escape_host_free:
  "c \<in> set (escape EncodeHost s) \<Longrightarrow> c \<noteq> CHR ''/'' \<and> c \<noteq> CHR ''?'' \<and> c \<noteq> CHR ''#'' \<and> c \<noteq> CHR ''@''"
  by (drule set_escape) (auto simp: shouldEscape_def unreserved_def)

lemma takeWhile_stop: "\<forall>c \<in> set xs. P c \<Longrightarrow> \<not> P y \<Longrightarrow> takeWhile P (xs @ y # ys) = xs \<and> dropWhile P (xs @ y # ys) = y # ys"
  by (induction xs) auto

lemma takeWhile_rev_at:
  "CHR ''@'' \<notin> set h \<Longrightarrow> takeWhile (\<lambda>c. c \<noteq> CHR ''@'') (rev (i @ CHR ''@'' # h)) = rev h"
  using takeWhile_stop [of "rev h" "\<lambda>c. c \<noteq> CHR ''@''" "CHR ''@''" "rev i"] by auto

lemma read_BuildDSN:
  "read_dsn (BuildDSN cfg role password) = Some \<lparr>d_user = role, d_password = password,
     d_host = escape EncodeHost (JoinHostPort (TenantHost cfg) (TenantPort cfg)),
     d_rest = escape EncodePath (''/'' @ TenantDatabase cfg) @
       ''?sslmode='' @ escape EncodeQueryComponent (TenantSSLMode cfg)\<rparr>"
proof -
  let ?u = "escape EncodeUserPassword role" and ?p = "escape EncodeUserPassword password"
  let ?h = "escape EncodeHost (JoinHostPort (TenantHost cfg) (TenantPort cfg))"
  let ?stop = "\<lambda>c. c \<noteq> CHR ''/'' \<and> c \<noteq> CHR ''?'' \<and> c \<noteq> CHR ''#''"
  let ?info = "?u @ CHR '':'' # ?p"
  let ?auth = "?info @ CHR ''@'' # ?h"
  obtain rest where rest: "escape EncodePath (''/'' @ TenantDatabase cfg) @
      ''?sslmode='' @ escape EncodeQueryComponent (TenantSSLMode cfg) = CHR ''/'' # rest"
    by (simp add: escape_Cons escape_char_def shouldEscape_def unreserved_def)
  have dsn: "BuildDSN cfg role password = ''postgres://'' @ ?auth @ CHR ''/'' # rest"
    by (simp add: BuildDSN_def flip: rest)
  have "\<forall>c \<in> set ?auth. ?stop c" using escape_userinfo_free escape_host_free by auto
  note st = takeWhile_stop [OF this, of "CHR ''/''" rest]
  have "takeWhile (\<lambda>c. c \<noteq> CHR ''@'') (rev ?auth) = rev ?h"
    using escape_host_free [of "CHR ''@''"] by (intro takeWhile_rev_at) auto
  moreover have "takeWhile (\<lambda>c. c \<noteq> CHR '':'') ?info = ?u"
    using takeWhile_stop [of ?u "\<lambda>c. c \<noteq> CHR '':''" "CHR '':''" ?p] escape_userinfo_free by blast
  moreover have "drop 11 (''postgres://'' @ ?auth @ CHR ''/'' # rest) = ?auth @ CHR ''/'' # rest" by simp
  moreover have "has_prefix ''postgres://'' (''postgres://'' @ ?auth @ CHR ''/'' # rest)"
    by (simp only: has_prefix_iff) blast
  ultimately show ?thesis
    unfolding dsn rest read_dsn_def Let_def
    using st by (simp add: unescape_escape)
qed

section \<open>Properties\<close>

text \<open>
  The credentials in a DSN cannot leave their field: reading the URL back gives
  exactly the role and the password it was built with, whatever bytes they hold, and the configured host,
  port, database and TLS mode, which the credentials cannot influence.
\<close>

lemma BuildDSN_reads_back:
  "read_dsn (BuildDSN cfg role password) = Some \<lparr>d_user = role, d_password = password,
     d_host = escape EncodeHost (JoinHostPort (TenantHost cfg) (TenantPort cfg)),
     d_rest = escape EncodePath (''/'' @ TenantDatabase cfg) @
       ''?sslmode='' @ escape EncodeQueryComponent (TenantSSLMode cfg)\<rparr>"
  by (rule read_BuildDSN)

end
