(* ===== verification/Tenancy.thy ===== *)
theory Tenancy
  imports Projects Dsn
begin

text \<open>
  \<^verbatim>\<open>internal/controlplane/tenancy\<close>: the exchange of an API key for a short-lived login role
  (dsn.go, handlers.go) and the life of these roles: minting, sweeping, retirement (ephemeral.go).
\<close>

section \<open>ephemeral.go\<close>

definition DefaultTTL :: duration where "DefaultTTL = hour"
definition sweepGrace :: duration where "sweepGrace = dur_mul 5 minute"
definition roleNameMax :: nat where "roleNameMax = 63"

definition randomSecret :: "env \<Rightarrow> nat \<Rightarrow> world \<Rightarrow> string res" where
  "randomSecret E n w = and_then (rand_read E n w) (\<lambda>b w. (Inr (raw_url_encode b), w))"

text \<open>Go integers here are far from their bounds, so \<^verbatim>\<open>max\<close> is an unbounded integer.\<close>

definition ephemeralRoleName :: "env \<Rightarrow> string \<Rightarrow> world \<Rightarrow> string res" where
  "ephemeralRoleName E tenantRole w =
     and_then (wrap_err ''generate role suffix: '' (randomSecret E 9 w)) (\<lambda>suffix w.
       let sep = ''_e_'';
           mx = int roleNameMax - int (length sep) - int (length suffix);
           stem = (if mx < int (length tenantRole) then take (nat mx) tenantRole else tenantRole)
       in (Inr (stem @ sep @ suffix), w))"

definition insert_ephemeral :: "env \<Rightarrow> string \<Rightarrow> uuid \<Rightarrow> instant \<Rightarrow> world \<Rightarrow> unit res" where
  "insert_ephemeral E role pid expiresAt = sql E (\<lambda>d.
     if \<exists>e \<in> set (ephemeral_roles d). e_role e = role
       then Inl (pg_error ''duplicate key value violates unique constraint \"ephemeral_roles_pkey\"'' ''23505'')
     else if \<forall>p \<in> set (projects d). p_id p \<noteq> pid
       then Inl (pg_error ''insert or update on table \"ephemeral_roles\" violates foreign key constraint'' ''23503'')
     else Inr ((), d\<lparr>ephemeral_roles := ephemeral_roles d @
       [\<lparr>e_role = role, e_project = pid, e_expires = pg_time expiresAt, e_created = db_now E\<rparr>]\<rparr>))"

text \<open>\<^verbatim>\<open>Format(time.RFC3339)\<close> keeps whole seconds.\<close>

definition whole_seconds :: "instant \<Rightarrow> instant" where
  "whole_seconds t = t div 1000000000 * 1000000000"

definition mint_tx :: "env \<Rightarrow> uuid \<Rightarrow> string \<Rightarrow> string \<Rightarrow> string \<Rightarrow> string \<Rightarrow> instant \<Rightarrow> world \<Rightarrow> unit res" where
  "mint_tx E pid tenantRole schema role password expiresAt w =
     and_then (wrap_err ''record ephemeral role: '' (insert_ephemeral E role pid expiresAt w)) (\<lambda>_ w.
     wrap_err ''create ephemeral role: '' (exec_all E
       [CreateEphemeralRole role password (whole_seconds expiresAt) tenantRole,
        SetSearchPath role schema] w))"

definition Mint :: "env \<Rightarrow> uuid \<Rightarrow> string \<Rightarrow> string \<Rightarrow> duration \<Rightarrow> world \<Rightarrow> (string \<times> string \<times> instant) res" where
  "Mint E pid tenantRole schema ttl w =
     and_then (ephemeralRoleName E tenantRole w) (\<lambda>role w.
     and_then (wrap_err ''generate password: '' (randomSecret E 24 w)) (\<lambda>password w.
     let expiresAt = time_add (go_now E) ttl in
     and_then (in_tx E (mint_tx E pid tenantRole schema role password expiresAt) w) (\<lambda>_ w.
     (Inr (role, password, expiresAt), w))))"

text \<open>\<^verbatim>\<open>pg_has_role\<close> fails for a role that does not exist.\<close>

definition grantSelfIfMissing :: "env \<Rightarrow> string \<Rightarrow> world \<Rightarrow> unit res" where
  "grantSelfIfMissing E role w =
     and_then (wrap_err (''check membership in '' @ role @ '': '') (sql E (\<lambda>d.
         if role_exists role (pg d) then Inr (pg_usage (pg d) (trunc role), d)
         else Inl (pg_error (''role '' @ quoteIdent role @ '' does not exist'') ''42704'')) w)) (\<lambda>has w.
       if has then (Inr (), w)
       else wrap_err (''grant '' @ role @ '': '') (exec E (GrantSelf role) w))"

definition exec_named :: "env \<Rightarrow> stmt \<Rightarrow> world \<Rightarrow> unit res" where
  "exec_named E s w = wrap_err (render (\<lambda>_. []) s @ '': '') (exec E s w)"

text \<open>The loop over the three statements of \<^verbatim>\<open>retireRole\<close>.\<close>

definition hand_over :: "env \<Rightarrow> string \<Rightarrow> string \<Rightarrow> world \<Rightarrow> unit res" where
  "hand_over E role tenantRole w =
     and_then (exec_named E (ReassignOwned role tenantRole) w) (\<lambda>_ w.
     and_then (exec_named E (DropOwned role) w) (\<lambda>_ w.
     exec_named E (DropRole role) w))"

definition retireRole :: "env \<Rightarrow> string \<Rightarrow> string \<Rightarrow> world \<Rightarrow> unit res" where
  "retireRole E role tenantRole w =
     and_then (query E (\<lambda>d. pg_roles (pg d) role \<noteq> None) w) (\<lambda>ex w.
     if \<not> ex then (Inr (), w)
     else
       and_then (grantSelfIfMissing E role w) (\<lambda>_ w.
       and_then (grantSelfIfMissing E tenantRole w) (\<lambda>_ w.
       hand_over E role tenantRole w)))"

text \<open>The rows of \<^verbatim>\<open>ephemeral_roles e JOIN projects p ON p.id = e.project_id WHERE ...\<close>.\<close>

definition joined :: "(eph_row \<Rightarrow> bool) \<Rightarrow> db \<Rightarrow> (string \<times> string) list" where
  "joined P d = concat (map (\<lambda>e. map (\<lambda>p. (e_role e, p_role p))
     (filter (\<lambda>p. p_id p = e_project e) (projects d))) (filter P (ephemeral_roles d)))"

definition delete_row :: "env \<Rightarrow> string \<Rightarrow> world \<Rightarrow> unit res" where
  "delete_row E role = sql E (\<lambda>d. Inr ((), d\<lparr>ephemeral_roles :=
     filter (\<lambda>e. e_role e \<noteq> role) (ephemeral_roles d)\<rparr>))"

text \<open>The loop of \<^verbatim>\<open>Sweep\<close>: the roles dropped and the failures, in order.\<close>

fun sweep_loop :: "env \<Rightarrow> (string \<times> string) list \<Rightarrow> nat \<Rightarrow> string list \<Rightarrow> world \<Rightarrow> (nat \<times> string list) \<times> world" where
  "sweep_loop E [] dropped failures w = ((dropped, failures), w)"
| "sweep_loop E ((role, tenantRole) # names) dropped failures w =
     (case retireRole E role tenantRole w of
        (Inl e, w) \<Rightarrow> sweep_loop E names dropped (failures @ [role @ '': '' @ err_text e]) w
      | (Inr _, w) \<Rightarrow> (case delete_row E role w of
          (Inl e, w) \<Rightarrow> sweep_loop E names dropped (failures @ [role @ '' (row): '' @ err_text e]) w
        | (Inr _, w) \<Rightarrow> sweep_loop E names (dropped + 1) failures w))"

definition Sweep :: "env \<Rightarrow> world \<Rightarrow> nat res" where
  "Sweep E w =
     and_then (query E (joined (\<lambda>e. e_expires e < db_now E - sint sweepGrace)) w) (\<lambda>names w.
     let ((dropped, failures), w) = sweep_loop E names 0 [] w in
     if failures \<noteq> [] then (Inl (Msg (''sweep: '' @ show_nat (length failures) @ '' of '' @
         show_nat (length names) @ '' could not be dropped: '' @ join ''; '' failures)), w)
     else (Inr dropped, w))"

fun drop_loop :: "env \<Rightarrow> (string \<times> string) list \<Rightarrow> world \<Rightarrow> unit res" where
  "drop_loop E [] w = (Inr (), w)"
| "drop_loop E ((role, tenantRole) # names) w =
     and_then (wrap_err (''drop ephemeral role '' @ role @ '': '') (retireRole E role tenantRole w)) (\<lambda>_.
     drop_loop E names)"

definition DropForProject :: "env \<Rightarrow> uuid \<Rightarrow> world \<Rightarrow> unit res" where
  "DropForProject E pid w =
     and_then (query E (joined (\<lambda>e. e_project e = pid)) w) (\<lambda>names w.
     and_then (drop_loop E names w) (\<lambda>_.
     sql E (\<lambda>d. Inr ((), d\<lparr>ephemeral_roles := filter (\<lambda>e. e_project e \<noteq> pid) (ephemeral_roles d)\<rparr>))))"

section \<open>dsn.go and handlers.go\<close>

record connection =
  cn_dsn :: string
  cn_schema :: string
  cn_version :: string
  cn_expires :: instant

record tenancy_service =
  ts_projects :: service
  ts_cfg :: config
  ts_ttl :: duration

definition tenancy_NewService :: "service \<Rightarrow> config \<Rightarrow> tenancy_service" where
  "tenancy_NewService ps cfg =
     (let ttl = dur_mul (DSNTTLSeconds cfg) second in
      \<lparr>ts_projects = ps, ts_cfg = cfg, ts_ttl = (if ttl \<le>s 0 then DefaultTTL else ttl)\<rparr>)"

definition Exchange :: "env \<Rightarrow> tenancy_service \<Rightarrow> uuid \<Rightarrow> world \<Rightarrow> connection res" where
  "Exchange E T pid w =
     and_then (GetCredentials E (ts_projects T) pid w) (\<lambda>(tenantRole, _, schema) w.
     let (v, w) = LatestAppliedVersion E pid w;
         version = (case v of Inl _ \<Rightarrow> [] | Inr v \<Rightarrow> v) in
     and_then (wrap_err ''mint credentials: '' (Mint E pid tenantRole schema (ts_ttl T) w)) (\<lambda>(role, password, expiresAt) w.
     (Inr \<lparr>cn_dsn = BuildDSN (ts_cfg T) role password, cn_schema = schema, cn_version = version,
           cn_expires = expiresAt\<rparr>, w)))"

text \<open>\<^verbatim>\<open>Connection\<close>, behind \<^verbatim>\<open>APIKeyAuth\<close>, which gives the project id.\<close>

definition Connection_h :: "env \<Rightarrow> tenancy_service \<Rightarrow> uuid \<Rightarrow> connection handler" where
  "Connection_h E T pid w = (case Exchange E T pid w of
      (Inl e, w) \<Rightarrow> if errors_is e ErrProjectNotFound then write_err 404 ''project not found'' w
                      else write_err 500 (err_text e) w
    | (Inr c, w) \<Rightarrow> write_ok 200 c w)"

section \<open>Lemmas\<close>

lemma GetCredentials_wdb: "GetCredentials E S pid w = (r, w') \<Longrightarrow> wdb w' = wdb w"
  by (cases r) (auto simp: GetCredentials_def res_elims query_Inr query_Inl split: option.splits sum.splits)

lemma ephemeralRoleName_Inr:
  assumes "ephemeralRoleName E tenantRole w = (Inr role, w')" "rand_length E"
  shows "\<exists>suffix. length suffix = 12 \<and> role = take 48 tenantRole @ ''_e_'' @ suffix \<and> wdb w' = wdb w \<and> tick w' = tick w"
proof -
  from assms(1) obtain b where b: "rnd E (rtick w) 9 = Inr b" and w': "w' = w\<lparr>rtick := Suc (rtick w)\<rparr>"
    and role: "role = (let suffix = raw_url_encode b; mx = int roleNameMax - int (length ''_e_'') - int (length suffix)
      in (if mx < int (length tenantRole) then take (nat mx) tenantRole else tenantRole) @ ''_e_'' @ suffix)"
    by (auto simp: ephemeralRoleName_def randomSecret_def res_elims rand_read_Inr Let_def)
  have len: "length (raw_url_encode b) = 12" using assms(2) b by (auto simp: rand_length_def length_raw_url)
  with role w' show ?thesis by (intro exI [of _ "raw_url_encode b"]) (simp add: roleNameMax_def Let_def)
qed

lemma ephemeral_name_length:
  "length suffix = 12 \<Longrightarrow> length (take 48 t @ ''_e_'' @ suffix) \<le> roleNameMax"
  by (simp add: roleNameMax_def)

lemma insert_ephemeral_Inr:
  "insert_ephemeral E role pid t w = (Inr u, w') \<longleftrightarrow> flt E (tick w) = None \<and>
     (\<forall>e \<in> set (ephemeral_roles (wdb w)). e_role e \<noteq> role) \<and> (\<exists>p \<in> set (projects (wdb w)). p_id p = pid) \<and>
     w' = w\<lparr>tick := Suc (tick w), wdb := (wdb w)\<lparr>ephemeral_roles := ephemeral_roles (wdb w) @
       [\<lparr>e_role = role, e_project = pid, e_expires = pg_time t, e_created = db_now E\<rparr>]\<rparr>\<rparr>"
  by (auto simp: insert_ephemeral_def sql_Inr split: if_splits)

lemma run_mint:
  assumes "run_stmts [CreateEphemeralRole role password t tenantRole, SetSearchPath role schema] c = Inr c'"
  shows "pg_roles c (trunc role) = None \<and> role_exists tenantRole c \<and>
    (\<exists>i. pg_roles c' = (pg_roles c)(trunc role \<mapsto> i) \<and> role_core i = (True, Some password, Some t) \<and>
       ri_member_of i = [trunc tenantRole] \<and> map_of (ri_settings i) ''search_path'' = Some (trunc schema @ '', public'')) \<and>
    pg_schemas c' = pg_schemas c \<and> pg_tables c' = pg_tables c"
  using assms by (auto simp: ddl_simps role_core_def split: if_splits option.splits sum.splits)

lemma Mint_Inr:
  assumes "Mint E pid tenantRole schema ttl w = (Inr (role, password, expiresAt), w')" "rand_length E"
  shows "\<exists>suffix c. length suffix = 12 \<and> role = take 48 tenantRole @ ''_e_'' @ suffix \<and>
    expiresAt = time_add (go_now E) ttl \<and>
    (\<forall>e \<in> set (ephemeral_roles (wdb w)). e_role e \<noteq> role) \<and> (\<exists>p \<in> set (projects (wdb w)). p_id p = pid) \<and>
    run_stmts [CreateEphemeralRole role password (whole_seconds expiresAt) tenantRole, SetSearchPath role schema]
      (pg (wdb w)) = Inr c \<and>
    wdb w' = (wdb w)\<lparr>ephemeral_roles := ephemeral_roles (wdb w) @
      [\<lparr>e_role = role, e_project = pid, e_expires = pg_time expiresAt, e_created = db_now E\<rparr>], pg := c\<rparr>"
proof -
  from assms(1) obtain w1 w2 w3 where n: "ephemeralRoleName E tenantRole w = (Inr role, w1)"
    and p: "randomSecret E 24 w1 = (Inr password, w2)"
    and tx: "in_tx E (mint_tx E pid tenantRole schema role password expiresAt) w2 = (Inr (), w3)"
    and e: "expiresAt = time_add (go_now E) ttl" "w' = w3"
    by (auto simp: Mint_def res_elims Let_def)
  from ephemeralRoleName_Inr [OF n assms(2)] obtain suffix where
    s: "length suffix = 12" "role = take 48 tenantRole @ ''_e_'' @ suffix" "wdb w1 = wdb w" by blast
  have w2: "wdb w2 = wdb w" using p s(3) by (auto simp: randomSecret_def res_elims rand_read_Inr)
  from tx obtain w4 where "mint_tx E pid tenantRole schema role password expiresAt (w2\<lparr>tick := Suc (tick w2)\<rparr>) = (Inr (), w4)"
    and w3: "wdb w3 = wdb w4" by (auto simp: in_tx_Inr)
  then obtain w5 where i: "insert_ephemeral E role pid expiresAt (w2\<lparr>tick := Suc (tick w2)\<rparr>) = (Inr (), w5)"
    and x: "exec_all E [CreateEphemeralRole role password (whole_seconds expiresAt) tenantRole,
        SetSearchPath role schema] w5 = (Inr (), w4)"
    by (auto simp: mint_tx_def res_elims simp del: exec_all.simps)
  from exec_all_Inr [OF x] i w2 w3 s e show ?thesis
    by (auto simp: insert_ephemeral_Inr simp del: run_stmts.simps)
qed

lemma Mint_Inl:
  assumes "Mint E pid tenantRole schema ttl w = (Inl e, w')"
  shows "wdb w' = wdb w"
proof -
  have p: "wdb w' = wdb w" if "randomSecret E n w = (r, w')" for r n w w'
    using that by (auto simp: randomSecret_def rand_read_def split: sum.splits)
  have n: "wdb w' = wdb w" if "ephemeralRoleName E t w = (r, w')" for r t w w'
    using that p by (cases r) (auto simp: ephemeralRoleName_def res_elims Let_def)
  from assms show ?thesis
    by (auto simp: Mint_def Let_def res_elims dest!: p n in_tx_Inl_wdb)
qed

section \<open>Retirement\<close>

text \<open>Nothing a retired role owned is lost, and no other role appears or disappears.\<close>

definition kept :: "string set \<Rightarrow> pg \<Rightarrow> pg \<Rightarrow> bool" where
  "kept x c c' \<longleftrightarrow> map fst (pg_schemas c') = map fst (pg_schemas c) \<and> pg_tables c' = pg_tables c \<and>
     dom (pg_roles c') \<subseteq> dom (pg_roles c) \<and> dom (pg_roles c) \<subseteq> dom (pg_roles c') \<union> x"

lemma kept_refl [simp]: "kept x c c"
  by (simp add: kept_def)

lemma kept_trans: "kept x c d \<Longrightarrow> kept x d e \<Longrightarrow> kept x c e"
  unfolding kept_def by (intro conjI) (simp, simp, blast, blast)

lemma exec_named_Inr: "exec_named E s w = (Inr u, w') \<longleftrightarrow> exec E s w = (Inr u, w')"
  by (simp add: exec_named_def wrap_err_Inr)

lemma exec_named_Inl: "exec_named E s w = (Inl e, w') \<Longrightarrow> wdb w' = wdb w"
  by (auto simp: exec_named_def wrap_err_Inl dest: exec_Inl_wdb)

lemma kept_usage [simp]: "kept x c (c\<lparr>pg_usage := f\<rparr>)"
  by (simp add: kept_def)

lemma grantSelf_frame:
  assumes "grantSelfIfMissing E r w = (res, w')"
  shows "wdb w' = wdb w \<or> (\<exists>f. wdb w' = (wdb w)\<lparr>pg := (pg (wdb w))\<lparr>pg_usage := f\<rparr>\<rparr>)"
  using assms
  by (cases res) (auto simp: grantSelfIfMissing_def res_elims sql_Inr sql_Inl exec_Inr ddl_simps
      dest!: exec_Inl_wdb split: if_splits)

lemma reassign_kept:
  assumes "exec_stmt (ReassignOwned r t) c = Inr c'" "trunc t \<noteq> trunc r"
  shows "kept x c c' \<and> (\<forall>s \<in> set (pg_schemas c'). snd s \<noteq> trunc r)"
  using assms by (auto simp: ddl_simps kept_def split: if_splits)

lemma drop_owned_nothing:
  assumes "exec_stmt (DropOwned r) c = Inr c'" "\<forall>s \<in> set (pg_schemas c). snd s \<noteq> trunc r"
  shows "c' = c"
proof -
  have "map_of (pg_schemas c) s \<noteq> Some (trunc r)" for s using assms(2) by (force dest: map_of_SomeD)
  with assms(1) show ?thesis by (auto simp: ddl_simps split: if_splits)
qed

lemma drop_role_kept:
  "exec_stmt (DropRole r) c = Inr c' \<Longrightarrow> kept {trunc r} c c' \<and> pg_roles c' (trunc r) = None"
  by (auto simp: kept_def split: if_splits)

text \<open>\<open>framed x w w'\<close>: only the catalogue changed, and only as \<open>kept\<close> allows.\<close>

definition framed :: "string set \<Rightarrow> world \<Rightarrow> world \<Rightarrow> bool" where
  "framed x w w' \<longleftrightarrow> (\<exists>c. wdb w' = (wdb w)\<lparr>pg := c\<rparr> \<and> kept x (pg (wdb w)) c)"

lemma framed_same: "wdb w' = wdb w \<Longrightarrow> framed x w w'"
  by (auto simp: framed_def intro!: exI [of _ "pg (wdb w)"])

lemma framed_trans: "framed x w1 w2 \<Longrightarrow> framed x w2 w3 \<Longrightarrow> framed x w1 w3"
  unfolding framed_def
proof (elim exE conjE)
  fix c d assume "wdb w2 = (wdb w1)\<lparr>pg := c\<rparr>" "kept x (pg (wdb w1)) c" "wdb w3 = (wdb w2)\<lparr>pg := d\<rparr>" "kept x (pg (wdb w2)) d"
  then show "\<exists>c. wdb w3 = (wdb w1)\<lparr>pg := c\<rparr> \<and> kept x (pg (wdb w1)) c"
    by (intro exI [of _ d]) (auto intro: kept_trans)
qed

text \<open>A sequence frames what its steps frame.\<close>

lemma and_then_framed:
  assumes "and_then m f = (r, w')" "\<And>a w1. m = (a, w1) \<Longrightarrow> framed x w w1"
    "\<And>y w1. m = (Inr y, w1) \<Longrightarrow> f y w1 = (r, w') \<Longrightarrow> framed x w1 w' \<and> (\<forall>u. r = Inr u \<longrightarrow> P w')"
  shows "framed x w w' \<and> (\<forall>u. r = Inr u \<longrightarrow> P w')"
proof -
  obtain a w1 where m: "m = (a, w1)" by fastforce
  show ?thesis
  proof (cases a)
    case (Inl e)
    with assms(1,2) m show ?thesis by auto
  next
    case (Inr y)
    with assms(1) m assms(3) [of y w1] have "framed x w1 w' \<and> (\<forall>u. r = Inr u \<longrightarrow> P w')" by simp
    with framed_trans [OF assms(2) [OF m]] show ?thesis by blast
  qed
qed

lemma framed_exec: "exec E s w = (Inr u, w') \<Longrightarrow>
    (\<And>c. exec_stmt s (pg (wdb w)) = Inr c \<Longrightarrow> kept x (pg (wdb w)) c) \<Longrightarrow> framed x w w'"
  by (auto simp: framed_def exec_Inr)

lemma grantSelf_framed: "grantSelfIfMissing E r w = (res, w') \<Longrightarrow> framed x w w'"
  by (drule grantSelf_frame) (auto simp: framed_def intro: framed_same [unfolded framed_def])

lemma hand_over_framed:
  assumes "hand_over E role t w = (r, w')" "trunc t \<noteq> trunc role"
  shows "framed {trunc role} w w' \<and> (\<forall>u. r = Inr u \<longrightarrow> pg_roles (pg (wdb w')) (trunc role) = None)"
proof (cases "\<exists>w1. exec_named E (ReassignOwned role t) w = (Inr (), w1)")
  case False
  with assms(1) show ?thesis
    by (cases r) (auto simp: hand_over_def res_elims intro: framed_same dest: exec_named_Inl)
next
  case True
  then obtain w1 where w1: "exec_named E (ReassignOwned role t) w = (Inr (), w1)" by blast
  then obtain c1 where c1: "exec_stmt (ReassignOwned role t) (pg (wdb w)) = Inr c1" "wdb w1 = (wdb w)\<lparr>pg := c1\<rparr>"
    by (auto simp: exec_named_Inr exec_Inr simp del: exec_stmt.simps)
  have f1: "framed {trunc role} w w1"
    using c1 reassign_kept [OF c1(1) assms(2), of "{trunc role}"] by (auto simp: framed_def)
  have f2: "framed {trunc role} w1 w2" if "exec_named E (DropOwned role) w1 = (Inr (), w2)" for w2
    using that drop_owned_nothing [of role c1] reassign_kept [OF c1(1) assms(2)] c1(2)
    by (auto simp: exec_named_Inr intro!: framed_exec simp del: exec_stmt.simps)
  have f3: "framed {trunc role} w2 w3 \<and> pg_roles (pg (wdb w3)) (trunc role) = None"
    if "exec_named E (DropRole role) w2 = (Inr (), w3)" for w2 w3
    using that drop_role_kept by (fastforce simp: exec_named_Inr exec_Inr framed_def simp del: exec_stmt.simps)
  have n: "framed {trunc role} v v'" if "exec_named E s v = (Inl e, v')" for s v e v'
    using exec_named_Inl [OF that] by (rule framed_same)
  show ?thesis
  proof (rule and_then_framed [OF assms(1) [unfolded hand_over_def]])
    fix a v assume "exec_named E (ReassignOwned role t) w = (a, v)"
    with w1 f1 show "framed {trunc role} w v" by simp
  next
    fix y v assume "exec_named E (ReassignOwned role t) w = (Inr y, v)" and
      rest: "and_then (exec_named E (DropOwned role) v) (\<lambda>_ w. exec_named E (DropRole role) w) = (r, w')"
    with w1 have v: "v = w1" by simp
    show "framed {trunc role} v w' \<and> (\<forall>u. r = Inr u \<longrightarrow> pg_roles (pg (wdb w')) (trunc role) = None)"
    proof (rule and_then_framed [OF rest])
      fix a v' assume "exec_named E (DropOwned role) v = (a, v')"
      then show "framed {trunc role} v v'" using f2 n v by (cases a) auto
    next
      fix y v' assume "exec_named E (DropRole role) v' = (r, w')"
      then show "framed {trunc role} v' w' \<and> (\<forall>u. r = Inr u \<longrightarrow> pg_roles (pg (wdb w')) (trunc role) = None)"
        using f3 n by (cases r) auto
    qed
  qed
qed

lemma retire_framed:
  assumes "retireRole E role t w = (r, w')" "trunc t \<noteq> trunc role" "length role \<le> 63"
  shows "framed {trunc role} w w' \<and> (\<forall>u. r = Inr u \<longrightarrow> pg_roles (pg (wdb w')) role = None)"
proof (rule and_then_framed [OF assms(1) [unfolded retireRole_def]])
  fix a v assume "query E (\<lambda>d. pg_roles (pg d) role \<noteq> None) w = (a, v)"
  then show "framed {trunc role} w v" by (intro framed_same) (rule query_wdb)
next
  fix ex v assume q: "query E (\<lambda>d. pg_roles (pg d) role \<noteq> None) w = (Inr ex, v)"
    and rest: "(if \<not> ex then (Inr (), v) else and_then (grantSelfIfMissing E role v) (\<lambda>_ w.
       and_then (grantSelfIfMissing E t w) (\<lambda>_ w. hand_over E role t w))) = (r, w')"
  show "framed {trunc role} v w' \<and> (\<forall>u. r = Inr u \<longrightarrow> pg_roles (pg (wdb w')) role = None)"
  proof (cases ex)
    case False
    with q rest show ?thesis by (auto simp: query_Inr framed_same)
  next
    case True
    with rest have rest: "and_then (grantSelfIfMissing E role v) (\<lambda>_ w.
       and_then (grantSelfIfMissing E t w) (\<lambda>_ w. hand_over E role t w)) = (r, w')" by simp
    show ?thesis
    proof (rule and_then_framed [OF rest grantSelf_framed])
      fix y v1 assume r2: "and_then (grantSelfIfMissing E t v1) (\<lambda>_ w. hand_over E role t w) = (r, w')"
      show "framed {trunc role} v1 w' \<and> (\<forall>u. r = Inr u \<longrightarrow> pg_roles (pg (wdb w')) role = None)"
        by (rule and_then_framed [OF r2 grantSelf_framed])
          (use hand_over_framed [OF _ assms(2)] assms(3) in \<open>auto simp: trunc_id\<close>)
    qed
  qed
qed

lemma kept_mono: "kept x c c' \<Longrightarrow> x \<subseteq> y \<Longrightarrow> kept y c c'"
  by (auto simp: kept_def)

text \<open>The sweep: what happens to the roles on the work list \<open>names\<close>, and to nothing else.\<close>

definition swept :: "string set \<Rightarrow> string set \<Rightarrow> db \<Rightarrow> db \<Rightarrow> bool" where
  "swept X D d d' \<longleftrightarrow> D \<subseteq> X \<and>
     (\<exists>c. d' = d\<lparr>ephemeral_roles := filter (\<lambda>e. e_role e \<notin> D) (ephemeral_roles d), pg := c\<rparr> \<and> kept X (pg d) c) \<and>
     (\<forall>r \<in> D. pg_roles (pg d') r = None)"

lemma swept_refl: "swept X {} d d"
  by (auto simp: swept_def intro!: exI [of _ "pg d"])

lemma swept_step:
  assumes "swept X D d1 d2" "swept Y F d2 d3"
  shows "swept (X \<union> Y) (D \<union> F) d1 d3"
proof -
  from assms obtain c c' where
    c: "d2 = d1\<lparr>ephemeral_roles := filter (\<lambda>e. e_role e \<notin> D) (ephemeral_roles d1), pg := c\<rparr>" "kept X (pg d1) c"
    and c': "d3 = d2\<lparr>ephemeral_roles := filter (\<lambda>e. e_role e \<notin> F) (ephemeral_roles d2), pg := c'\<rparr>" "kept Y (pg d2) c'"
    and g: "D \<subseteq> X" "F \<subseteq> Y" "\<forall>r \<in> D. pg_roles (pg d2) r = None" "\<forall>r \<in> F. pg_roles (pg d3) r = None"
    by (auto simp: swept_def)
  have "d3 = d1\<lparr>ephemeral_roles := filter (\<lambda>e. e_role e \<notin> D \<union> F) (ephemeral_roles d1), pg := c'\<rparr>"
    using c(1) c'(1) by (auto simp: conj_commute)
  moreover have "kept (X \<union> Y) (pg d1) c'"
    using c c' kept_mono [of X "pg d1" c "X \<union> Y"] kept_mono [of Y c c' "X \<union> Y"] by (auto intro: kept_trans)
  moreover have "pg_roles (pg d3) r = None" if "r \<in> D \<union> F" for r
  proof (cases "r \<in> F")
    case False
    with that g(3) have "r \<notin> dom (pg_roles (pg d2))" by (simp add: domIff)
    moreover have "dom (pg_roles (pg d3)) \<subseteq> dom (pg_roles (pg d2))" using c' by (simp add: kept_def)
    ultimately show ?thesis by (auto simp: domIff)
  qed (use g(4) in simp)
  ultimately show ?thesis using g(1,2) by (auto simp: swept_def)
qed

lemma framed_swept: "framed X w w' \<Longrightarrow> swept X {} (wdb w) (wdb w')"
  by (auto simp: framed_def swept_def)

lemma sweep_loop_spec:
  assumes "sweep_loop E names d fs w = ((d', fs'), w')"
    "\<forall>(r, t) \<in> set names. length r \<le> 63 \<and> trunc t \<noteq> r"
  shows "\<exists>D. swept (fst ` set names) D (wdb w) (wdb w') \<and>
    d' + length fs' = d + length fs + length names \<and> length fs \<le> length fs' \<and>
    (length fs' = length fs \<longrightarrow> D = fst ` set names)"
  using assms
proof (induction names arbitrary: d fs w)
  case Nil
  then show ?case using swept_refl by (intro exI [of _ "{}"]) auto
next
  case (Cons rt names)
  obtain role t where rt: "rt = (role, t)" by fastforce
  with Cons.prems(2) have role: "length role \<le> 63" "trunc t \<noteq> trunc role" "trunc role = role"
    by (auto simp: trunc_id)
  obtain a w1 where ret: "retireRole E role t w = (a, w1)" by fastforce
  from retire_framed [OF ret role(2,1)] role(3) have
    f1: "swept {role} {} (wdb w) (wdb w1)" and gone: "\<forall>u. a = Inr u \<longrightarrow> pg_roles (pg (wdb w1)) role = None"
    by (auto intro: framed_swept)
  define row where "row = (case a of Inl _ \<Rightarrow> (Inl (Msg []), w1) | Inr _ \<Rightarrow> delete_row E role w1)"
  obtain b w2 where row2: "row = (b, w2)" by fastforce
  have f2: "swept {role} (case b of Inl _ \<Rightarrow> {} | Inr _ \<Rightarrow> {role}) (wdb w1) (wdb w2)"
  proof (cases a)
    case (Inl e)
    with row2 show ?thesis using swept_refl by (auto simp: row_def swept_def)
  next
    case (Inr u)
    with row2 have "delete_row E role w1 = (b, w2)" by (simp add: row_def)
    then show ?thesis using gone Inr
      by (cases b) (auto simp: delete_row_def sql_Inr swept_def kept_def intro!: exI [of _ "pg (wdb w1)"] dest!: sql_Inl_wdb)
  qed
  from Cons.prems(1) rt ret row2 obtain d1 fs1 where
    rec: "sweep_loop E names d1 fs1 w2 = ((d', fs'), w')"
    and cnt: "d1 + length fs1 = d + length fs + 1" "length fs \<le> length fs1"
      "length fs1 = length fs \<longrightarrow> (\<exists>u. b = Inr u)"
    by (cases a; cases b) (auto simp: row_def split: prod.splits)
  from Cons.IH [OF rec] Cons.prems(2) obtain D where D: "swept (fst ` set names) D (wdb w2) (wdb w')"
    "d' + length fs' = d1 + length fs1 + length names" "length fs1 \<le> length fs'"
    "length fs' = length fs1 \<longrightarrow> D = fst ` set names" by auto
  from swept_step [OF swept_step [OF f1 f2] D(1)] rt cnt D show ?case
    by (intro exI [of _ "(case b of Inl _ \<Rightarrow> {} | Inr _ \<Rightarrow> {role}) \<union> D"]) auto
qed

lemma role_coreD: "role_core i = (l, p, v) \<Longrightarrow> ri_login i = l \<and> ri_password i = p \<and> ri_valid_until i = v"
  by (simp add: role_core_def)

lemma whole_seconds_bounds: "whole_seconds t \<le> t" "t - 1000000000 < whole_seconds t"
  by (simp_all add: whole_seconds_def)

text \<open>What a minted role is.\<close>

lemma Mint_role:
  assumes "Mint E pid tenantRole schema ttl w = (Inr (role, password, expiresAt), w')" "rand_length E"
  shows "length role \<le> 63 \<and> expiresAt = go_now E + sint ttl \<and> role_exists tenantRole (pg (wdb w)) \<and>
    pg_roles (pg (wdb w)) role = None \<and>
    (\<exists>i. pg_roles (pg (wdb w')) = (pg_roles (pg (wdb w)))(role \<mapsto> i) \<and> ri_login i \<and>
       ri_password i = Some password \<and> ri_valid_until i = Some (whole_seconds expiresAt) \<and>
       ri_member_of i = [trunc tenantRole] \<and>
       map_of (ri_settings i) ''search_path'' = Some (trunc schema @ '', public'')) \<and>
    pg_schemas (pg (wdb w')) = pg_schemas (pg (wdb w)) \<and> pg_tables (pg (wdb w')) = pg_tables (pg (wdb w)) \<and>
    wdb w' = (wdb w)\<lparr>ephemeral_roles := ephemeral_roles (wdb w) @
      [\<lparr>e_role = role, e_project = pid, e_expires = pg_time expiresAt, e_created = db_now E\<rparr>], pg := pg (wdb w')\<rparr>"
proof -
  from Mint_Inr [OF assms] obtain suffix c where s: "length suffix = 12" "role = take 48 tenantRole @ ''_e_'' @ suffix"
    and e: "expiresAt = time_add (go_now E) ttl"
    and c: "run_stmts [CreateEphemeralRole role password (whole_seconds expiresAt) tenantRole, SetSearchPath role schema]
      (pg (wdb w)) = Inr c"
    and w': "wdb w' = (wdb w)\<lparr>ephemeral_roles := ephemeral_roles (wdb w) @
      [\<lparr>e_role = role, e_project = pid, e_expires = pg_time expiresAt, e_created = db_now E\<rparr>], pg := c\<rparr>" by blast
  have len: "length role \<le> 63" using ephemeral_name_length [OF s(1)] s(2) by (simp add: roleNameMax_def)
  then have t: "trunc role = role" by (rule trunc_id)
  from run_mint [OF c] len e w' show ?thesis unfolding t
    by (auto simp: time_add_def dest!: role_coreD)
qed

text \<open>The login an exchange hands out.\<close>

lemma Exchange_login:
  assumes "Exchange E T pid w = (Inr c, w')" "rand_length E"
  shows "\<exists>row i d. select_one (\<lambda>p. p_id p = pid \<and> p_deleted p = None) (projects (wdb w)) = Some row \<and>
    read_dsn (cn_dsn c) = Some d \<and> pg_roles (pg (wdb w)) (d_user d) = None \<and>
    pg_roles (pg (wdb w')) (d_user d) = Some i \<and> ri_login i \<and> ri_password i = Some (d_password d) \<and>
    ri_valid_until i = Some (whole_seconds (cn_expires c)) \<and> cn_expires c = go_now E + sint (ts_ttl T) \<and>
    ri_member_of i = [trunc (p_role row)] \<and> cn_schema c = p_schema row"
proof -
  obtain v w2 where v: "LatestAppliedVersion E pid (w\<lparr>tick := Suc (tick w)\<rparr>) = (v, w2)" by fastforce
  have w2: "wdb w2 = wdb w"
    using v by (cases v) (auto simp: LatestAppliedVersion_def res_elims query_Inr query_Inl split: option.splits)
  from assms(1) v obtain row role password expiresAt where
    row: "select_one (\<lambda>p. p_id p = pid \<and> p_deleted p = None) (projects (wdb w)) = Some row"
    and m: "Mint E pid (p_role row) (p_schema row) (ts_ttl T) w2 = (Inr (role, password, expiresAt), w')"
    and c: "cn_dsn c = BuildDSN (ts_cfg T) role password" "cn_expires c = expiresAt" "cn_schema c = p_schema row"
    by (auto simp: Exchange_def GetCredentials_def query_Inr res_elims Let_def split: sum.splits option.splits)
  from Mint_role [OF m assms(2)] obtain i where
    i: "pg_roles (pg (wdb w')) = (pg_roles (pg (wdb w2)))(role \<mapsto> i)" "ri_login i"
      "ri_password i = Some password" "ri_valid_until i = Some (whole_seconds expiresAt)"
      "ri_member_of i = [trunc (p_role row)]"
    and e: "expiresAt = go_now E + sint (ts_ttl T)" "pg_roles (pg (wdb w2)) role = None" by blast
  obtain d where d: "read_dsn (cn_dsn c) = Some d" "d_user d = role" "d_password d = password"
    using read_BuildDSN [of "ts_cfg T" role password] c(1) by simp
  show ?thesis using row i e d c w2 by (intro exI [of _ row] exI [of _ i] exI [of _ d]) simp
qed

section \<open>Properties\<close>

text \<open>
  Property C9. Minting is all or nothing, and what it mints is short-lived: on an error nothing
  changed; on success exactly one role was added, under a new name of at most 63 bytes, with the
  password handed out, a member of the tenant role only, refused by the server from less than a second
  before the returned deadline \<open>now + ttl\<close>; it is recorded for the sweeper; no other role, schema or table
  changed.
\<close>

theorem Mint_spec:
  assumes "Mint E pid tenantRole schema ttl w = (res, w')" "rand_length E"
  shows "case res of Inl e \<Rightarrow> wdb w' = wdb w
    | Inr (role, password, expiresAt) \<Rightarrow>
        length role \<le> 63 \<and> expiresAt = go_now E + sint ttl \<and> pg_roles (pg (wdb w)) role = None \<and>
        (\<exists>i t. pg_roles (pg (wdb w')) = (pg_roles (pg (wdb w)))(role \<mapsto> i) \<and> ri_login i \<and>
           ri_password i = Some password \<and> ri_valid_until i = Some t \<and>
           expiresAt - 1000000000 < t \<and> t \<le> expiresAt \<and> ri_member_of i = [trunc tenantRole]) \<and>
        pg_schemas (pg (wdb w')) = pg_schemas (pg (wdb w)) \<and> pg_tables (pg (wdb w')) = pg_tables (pg (wdb w)) \<and>
        (\<exists>row. e_role row = role \<and> e_project row = pid \<and> e_expires row = pg_time expiresAt \<and>
           wdb w' = (wdb w)\<lparr>ephemeral_roles := ephemeral_roles (wdb w) @ [row], pg := pg (wdb w')\<rparr>)"
proof (cases res)
  case (Inl e)
  with assms(1) show ?thesis using Mint_Inl by simp
next
  case (Inr x)
  obtain role password expiresAt where x: "x = (role, password, expiresAt)" by (cases x)
  note m = Mint_role [OF assms(1) [unfolded Inr x] assms(2)]
  have "\<exists>i t. pg_roles (pg (wdb w')) = (pg_roles (pg (wdb w)))(role \<mapsto> i) \<and> ri_login i \<and>
      ri_password i = Some password \<and> ri_valid_until i = Some t \<and>
      expiresAt - 1000000000 < t \<and> t \<le> expiresAt \<and> ri_member_of i = [trunc tenantRole]"
    using m whole_seconds_bounds [of expiresAt] by blast
  moreover have "\<exists>row. e_role row = role \<and> e_project row = pid \<and> e_expires row = pg_time expiresAt \<and>
      wdb w' = (wdb w)\<lparr>ephemeral_roles := ephemeral_roles (wdb w) @ [row], pg := pg (wdb w')\<rparr>"
  proof -
    from m have w': "wdb w' = (wdb w)\<lparr>ephemeral_roles := ephemeral_roles (wdb w) @
      [\<lparr>e_role = role, e_project = pid, e_expires = pg_time expiresAt, e_created = db_now E\<rparr>], pg := pg (wdb w')\<rparr>"
      by blast
    show ?thesis
      by (intro exI [of _ "\<lparr>e_role = role, e_project = pid, e_expires = pg_time expiresAt,
        e_created = db_now E\<rparr>"] conjI, simp_all only: eph_row.simps) (rule w')
  qed
  ultimately show ?thesis using m Inr x by simp
qed

lemma sweepGrace_ns: "sint sweepGrace = 300000000000"
  unfolding sweepGrace_def by code_simp

lemma Sweep_swept:
  fixes E w
  defines "names \<equiv> joined (\<lambda>e. e_expires e < db_now E - sint sweepGrace) (wdb w)"
  assumes "Sweep E w = (r, w')" and ok: "\<forall>(r, t) \<in> set names. length r \<le> 63 \<and> trunc t \<noteq> r"
  shows "\<exists>Dn. swept (fst ` set names) Dn (wdb w) (wdb w') \<and> (\<forall>n. r = Inr n \<longrightarrow> Dn = fst ` set names)"
proof (cases "flt E (tick w)")
  case (Some s)
  with assms(2) have "wdb w' = wdb w" "\<exists>e. r = Inl e" by (auto simp: Sweep_def query_def sql_def)
  then show ?thesis using swept_refl [of "fst ` set names"] by auto
next
  case None
  let ?w1 = "w\<lparr>tick := Suc (tick w)\<rparr>"
  obtain d fs w2 where l: "sweep_loop E names 0 [] ?w1 = ((d, fs), w2)" by (metis prod.exhaust)
  from assms(2) None l have r: "w' = w2" "\<forall>n. r = Inr n \<longrightarrow> fs = []"
    by (auto simp: names_def Sweep_def query_def sql_def split: if_splits)
  from sweep_loop_spec [OF l ok] r show ?thesis by auto
qed

lemma kept_others:
  assumes "kept X c c'" "x \<notin> X"
  shows "pg_roles c' x = None \<longleftrightarrow> pg_roles c x = None"
proof -
  have "x \<in> dom (pg_roles c') \<longleftrightarrow> x \<in> dom (pg_roles c)" using assms by (auto simp: kept_def)
  then show ?thesis by (auto simp: domIff)
qed

text \<open>
  Property C8. A sweep drops only what has expired, and loses nothing: whatever fails on the way,
  the rows it deletes are of roles past their deadline and the grace, which no longer exist; every other
  role, every schema and every table is still there; and when it reports success every expired role of a
  project is gone with its row.
\<close>

theorem Sweep_spec:
  assumes "Sweep E w = (r, w')" "distinct (map e_role (ephemeral_roles (wdb w)))"
    and "\<forall>e \<in> set (ephemeral_roles (wdb w)). length (e_role e) \<le> 63 \<and>
      (\<forall>p \<in> set (projects (wdb w)). trunc (p_role p) \<noteq> e_role e)"
  shows "\<exists>D. ephemeral_roles (wdb w') = filter (\<lambda>e. e \<notin> D) (ephemeral_roles (wdb w)) \<and>
    (\<forall>e \<in> D. e_expires e < db_now E - 300000000000 \<and> pg_roles (pg (wdb w')) (e_role e) = None) \<and>
    (\<forall>x. (\<forall>e \<in> set (ephemeral_roles (wdb w)). e_role e = x \<longrightarrow> db_now E - 300000000000 \<le> e_expires e) \<longrightarrow>
       (pg_roles (pg (wdb w')) x = None \<longleftrightarrow> pg_roles (pg (wdb w)) x = None)) \<and>
    map fst (pg_schemas (pg (wdb w'))) = map fst (pg_schemas (pg (wdb w))) \<and>
    pg_tables (pg (wdb w')) = pg_tables (pg (wdb w)) \<and>
    wdb w' = (wdb w)\<lparr>ephemeral_roles := ephemeral_roles (wdb w'), pg := pg (wdb w')\<rparr> \<and>
    (\<forall>n. r = Inr n \<longrightarrow> (\<forall>e \<in> set (ephemeral_roles (wdb w')). e_expires e < db_now E - 300000000000 \<longrightarrow>
       (\<forall>p \<in> set (projects (wdb w)). p_id p \<noteq> e_project e)))"
proof -
  let ?names = "joined (\<lambda>e. e_expires e < db_now E - sint sweepGrace) (wdb w)"
  have names: "x \<in> fst ` set ?names \<longleftrightarrow> (\<exists>e \<in> set (ephemeral_roles (wdb w)). e_role e = x \<and>
      e_expires e < db_now E - 300000000000 \<and> (\<exists>p \<in> set (projects (wdb w)). p_id p = e_project e))" for x
    by (force simp: joined_def sweepGrace_ns image_iff)
  have "\<forall>(r, t) \<in> set ?names. length r \<le> 63 \<and> trunc t \<noteq> r" using assms(3) by (auto simp: joined_def)
  from Sweep_swept [OF assms(1) this] obtain Dn where Dn: "swept (fst ` set ?names) Dn (wdb w) (wdb w')"
    and full: "\<forall>n. r = Inr n \<longrightarrow> Dn = fst ` set ?names" by blast
  then obtain c where sub: "Dn \<subseteq> fst ` set ?names"
    and w': "wdb w' = (wdb w)\<lparr>ephemeral_roles := filter (\<lambda>e. e_role e \<notin> Dn) (ephemeral_roles (wdb w)), pg := c\<rparr>"
    and k: "kept (fst ` set ?names) (pg (wdb w)) c" and gone: "\<forall>r \<in> Dn. pg_roles c r = None"
    by (auto simp: swept_def)
  define D where "D = {e \<in> set (ephemeral_roles (wdb w)). e_role e \<in> Dn}"
  have rows: "ephemeral_roles (wdb w') = filter (\<lambda>e. e \<notin> D) (ephemeral_roles (wdb w))"
    unfolding w' by (auto simp: D_def intro: filter_cong)
  have exp: "e_expires e < db_now E - 300000000000" if "e \<in> D" for e
  proof -
    have "e_role e \<in> fst ` set ?names" using that sub by (auto simp: D_def)
    then obtain e' where "e' \<in> set (ephemeral_roles (wdb w))" "e_role e' = e_role e"
      "e_expires e' < db_now E - 300000000000" unfolding names by blast
    moreover then have "e' = e" using assms(2) that by (auto simp: D_def distinct_map inj_on_def)
    ultimately show ?thesis by simp
  qed
  have others: "pg_roles c x = None \<longleftrightarrow> pg_roles (pg (wdb w)) x = None"
    if "\<forall>e \<in> set (ephemeral_roles (wdb w)). e_role e = x \<longrightarrow> db_now E - 300000000000 \<le> e_expires e" for x
    using kept_others [OF k, of x] that unfolding names by fastforce
  have clean: "\<forall>p \<in> set (projects (wdb w)). p_id p \<noteq> e_project e"
    if "r = Inr n" "e \<in> set (ephemeral_roles (wdb w'))" "e_expires e < db_now E - 300000000000" for n e
    using that full by (auto simp: w' names)
  show ?thesis
    by (intro exI [of _ D] conjI rows ballI allI impI)
      (use exp others clean gone k w' in \<open>auto simp: D_def kept_def\<close>)
qed


section \<open>Witnesses\<close>

definition demo_tenancy :: tenancy_service where
  "demo_tenancy = tenancy_NewService NewService demo_config"

lemma demo_mint: "\<exists>role password t w'. Mint demo_env 7 ''p_demo'' ''p_demo'' hour demo_world = (Inr (role, password, t), w')"
proof -
  obtain s where s: "raw_url_encode (replicate 9 (char_of (7::nat))) = s" and l: "length s = 12"
    by (simp add: length_raw_url)
  have ne: "s \<noteq> ''1''" "''1'' \<noteq> s" using l by auto
  show ?thesis
    by (simp add: Mint_def ephemeralRoleName_def randomSecret_def rand_read_def Let_def roleNameMax_def
        mint_tx_def insert_ephemeral_def in_tx_def query_def sql_def exec_def ddl_simps trunc_def
        demo_world_def demo_db_def world_of_def empty_db_def demo_project_def demo_role_def demo_env_def
        s l ne)
qed

lemma Mint_spec_witness:
  "\<exists>role password t w'. Mint demo_env 7 ''p_demo'' ''p_demo'' hour demo_world = (Inr (role, password, t), w') \<and>
     length role \<le> 63 \<and> t = 3601000000000"
proof -
  obtain role password t w' where
    m: "Mint demo_env 7 ''p_demo'' ''p_demo'' hour demo_world = (Inr (role, password, t), w')" using demo_mint by blast
  have "sint hour = 3600000000000" by code_simp
  with Mint_spec [OF m demo_rand_length] m show ?thesis by (auto simp: demo_env_def)
qed


definition late_env :: env where
  "late_env = demo_env\<lparr>db_now := 1000000000000\<rparr>"

lemma demo_sweep: "\<exists>w'. Sweep late_env demo_world = (Inr 1, w')"
proof -
  have "sint sweepGrace = 300000000000" unfolding sweepGrace_def by code_simp
  then show ?thesis
    by (simp add: Sweep_def joined_def query_def sql_def late_env_def demo_world_def demo_db_def world_of_def
        empty_db_def demo_project_def demo_role_def retireRole_def grantSelfIfMissing_def hand_over_def
        exec_named_def exec_def ddl_simps trunc_def delete_row_def Let_def)
qed

lemma Sweep_spec_witness:
  "\<exists>w'. Sweep late_env demo_world = (Inr 1, w') \<and> map fst (pg_schemas (pg (wdb w'))) = [''p_demo''] \<and>
     pg_roles (pg (wdb w')) ''p_demo'' \<noteq> None"
proof -
  obtain w' where s: "Sweep late_env demo_world = (Inr 1, w')" using demo_sweep by blast
  have d: "distinct (map e_role (ephemeral_roles (wdb demo_world)))"
    "\<forall>e \<in> set (ephemeral_roles (wdb demo_world)). length (e_role e) \<le> 63 \<and>
      (\<forall>p \<in> set (projects (wdb demo_world)). trunc (p_role p) \<noteq> e_role e)"
    by (simp_all add: demo_world_def demo_db_def world_of_def demo_project_def trunc_def)
  from Sweep_spec [OF s d] have fs: "map fst (pg_schemas (pg (wdb w'))) = map fst (pg_schemas (pg (wdb demo_world)))"
    and "\<forall>x. (\<forall>e \<in> set (ephemeral_roles (wdb demo_world)). e_role e = x \<longrightarrow>
         db_now late_env - 300000000000 \<le> e_expires e) \<longrightarrow>
       (pg_roles (pg (wdb w')) x = None \<longleftrightarrow> pg_roles (pg (wdb demo_world)) x = None)" by blast+
  note this(2) [rule_format, of "''p_demo''"]
  then have "pg_roles (pg (wdb w')) ''p_demo'' \<noteq> None"
    by (simp add: demo_world_def world_of_def del: not_None_eq)
  with fs s show ?thesis by (simp add: demo_world_def world_of_def)
qed

end
