(* ===== verification/Sql_Apply.thy ===== *)
theory Sql_Apply
  imports Tenancy
begin

text \<open>
  \<^verbatim>\<open>internal/controlplane/sqlapply\<close>: SQL of the operator, run on a connection with the
  tenant's own login, in one transaction (handlers.go).
\<close>

text \<open>
  A text of SQL inside an explicit transaction, on a connection with a DSN: its error, if any, the
  catalogue with its work, and the catalogue a \<^verbatim>\<open>ROLLBACK\<close> after it goes back to: the one before
  unless the text itself ends the transaction. \<open>sx_read\<close> is the error of reading the body, if any.
\<close>

record sql_env =
  sx_read :: "string option"
  sx_batch :: "string \<Rightarrow> string \<Rightarrow> pg \<Rightarrow> string option \<times> pg \<times> pg"

record sql_handler =
  sh_projects :: service
  sh_cfg :: config

text \<open>The three first round trips are \<^verbatim>\<open>Acquire\<close>, \<^verbatim>\<open>BEGIN\<close> and the function's.\<close>

definition withTx :: "env \<Rightarrow> (pg \<Rightarrow> string option \<times> pg \<times> pg) \<Rightarrow> world \<Rightarrow> unit res" where
  "withTx E fn w =
     and_then (query E (\<lambda>_. ()) w) (\<lambda>_ w.
     and_then (query E (\<lambda>_. ()) w) (\<lambda>_ w.
     let c = pg (wdb w);
         (r, work, kept) = (case flt E (tick w) of Some e \<Rightarrow> (Some e, c, c) | None \<Rightarrow> fn c);
         w = w\<lparr>tick := Suc (tick w)\<rparr>
     in case r of
          Some e \<Rightarrow> (Inl (Ext e), w\<lparr>tick := Suc (tick w), wdb := (wdb w)\<lparr>pg := kept\<rparr>\<rparr>)
        | None \<Rightarrow> (case query E (\<lambda>_. ()) w of
            (Inl e, w) \<Rightarrow> (Inl e, w\<lparr>wdb := (wdb w)\<lparr>pg := kept\<rparr>\<rparr>)
          | (Inr _, w) \<Rightarrow> (Inr (), w\<lparr>wdb := (wdb w)\<lparr>pg := work\<rparr>\<rparr>))))"

definition sql_apply_h :: "env \<Rightarrow> sql_env \<Rightarrow> sql_handler \<Rightarrow> request \<Rightarrow> bool handler" where
  "sql_apply_h E X H r w = (case uuid_parse E (rq_param r ''id'') of
      None \<Rightarrow> write_err 400 ''bad project id'' w
    | Some pid \<Rightarrow> (case GetCredentials E (sh_projects H) pid w of
        (Inl e, w) \<Rightarrow> write_err 404 (err_text e) w
      | (Inr (role, password, _), w) \<Rightarrow> (case sx_read X of
          Some e \<Rightarrow> write_err 400 (''read body: '' @ e) w
        | None \<Rightarrow>
            let body = body_of r in
            if body = [] then write_err 400 ''empty body'' w
            else let dsn = BuildDSN (sh_cfg H) role password in
            (case pool_new E dsn of
               Some e \<Rightarrow> write_err 500 (''open tenant pool: '' @ e) w
             | None \<Rightarrow> (case withTx E (sx_batch X dsn body) w of
                 (Inl e, w) \<Rightarrow> write_err 400 (err_text e) w
               | (Inr _, w) \<Rightarrow>
                   let w = snd (query E (\<lambda>_. ()) w)
                   in write_ok 200 True w)))))"

section \<open>Lemmas\<close>

lemma withTx_Inr:
  "withTx E fn w = (Inr u, w') \<Longrightarrow> \<exists>work kept. fn (pg (wdb w)) = (None, work, kept) \<and> wdb w' = (wdb w)\<lparr>pg := work\<rparr>"
  by (auto simp: withTx_def res_elims query_Inr query_Inl Let_def split: prod.splits option.splits sum.splits)

lemma withTx_Inl:
  "withTx E fn w = (Inl e, w') \<Longrightarrow>
     wdb w' = wdb w \<or> (\<exists>r work kept. fn (pg (wdb w)) = (r, work, kept) \<and> wdb w' = (wdb w)\<lparr>pg := kept\<rparr>)"
  by (auto simp: withTx_def res_elims query_Inr query_Inl Let_def split: prod.splits option.splits sum.splits)

lemma GetCredentials_row:
  assumes "GetCredentials E S pid w = (Inr (role, password, schema), w')"
  shows "\<exists>p \<in> set (projects (wdb w)). p_id p = pid \<and> p_deleted p = None \<and> p_role p = role \<and> p_schema p = schema \<and>
    Decrypt (sv_cipher S) (p_password p) = Inr password"
  using assms
  by (auto simp: GetCredentials_def res_elims query_Inr dest!: select_one_Some split: option.splits sum.splits)

lemma query_world: "wdb (snd (query E f w)) = wdb w"
  by (simp add: query_def sql_def split: option.split)

section \<open>Properties\<close>

lemma sql_apply_run:
  assumes "uuid_parse E (rq_param r ''id'') = Some pid"
    and "GetCredentials E (sh_projects H) pid w = (Inr (role, password, schema), w1)"
    and "withTx E (sx_batch X (BuildDSN (sh_cfg H) role password) (body_of r)) w1 = (u, w2)"
  shows "sql_apply_h E X H r w = (case sx_read X of
      Some e \<Rightarrow> ((400, Inl (''read body: '' @ e)), w1)
    | None \<Rightarrow> if body_of r = [] then ((400, Inl ''empty body''), w1)
        else case pool_new E (BuildDSN (sh_cfg H) role password) of
           Some e \<Rightarrow> ((500, Inl (''open tenant pool: '' @ e)), w1)
         | None \<Rightarrow> (case u of Inl e \<Rightarrow> ((400, Inl (err_text e)), w2)
             | Inr _ \<Rightarrow> ((200, Inr True), snd (query E (\<lambda>_. ()) w2))))"
  using assms by (simp add: sql_apply_h_def Let_def split: option.split sum.split)

text \<open>A batch that leaves nothing behind on failure leaves the database as it was when its
  transaction fails, for whatever reason, and its work when it commits.\<close>
lemma withTx_clean:
  assumes "withTx E fn w = (u, w')" "\<And>c. snd (snd (fn c)) = c"
  shows "case u of Inl e \<Rightarrow> wdb w' = wdb w
    | Inr _ \<Rightarrow> (\<exists>work. fn (pg (wdb w)) = (None, work, pg (wdb w)) \<and> wdb w' = (wdb w)\<lparr>pg := work\<rparr>)"
proof (cases u)
  case (Inl e)
  with withTx_Inl assms(1) have "wdb w' = wdb w \<or>
    (\<exists>r work kept. fn (pg (wdb w)) = (r, work, kept) \<and> wdb w' = (wdb w)\<lparr>pg := kept\<rparr>)" by blast
  with assms(2) [of "pg (wdb w)"] Inl show ?thesis by auto
next
  case (Inr y)
  with withTx_Inr assms(1) obtain work kept where "fn (pg (wdb w)) = (None, work, kept)"
    "wdb w' = (wdb w)\<lparr>pg := work\<rparr>" by blast
  with assms(2) [of "pg (wdb w)"] Inr show ?thesis by simp
qed


text \<open>
  A text that creates a schema on a connection (so that it can succeed or fail), and one that
  commits before it fails: the second keeps what it has committed, though the reply is an error.
\<close>

definition plain_env :: sql_env where
  "plain_env = \<lparr>sx_read = None, sx_batch = (\<lambda>dsn text c.
     (None, c\<lparr>pg_schemas := (text, dsn) # pg_schemas c\<rparr>, c))\<rparr>"

definition commit_env :: sql_env where
  "commit_env = \<lparr>sx_read = None, sx_batch = (\<lambda>dsn text c.
     let c = c\<lparr>pg_schemas := (text, dsn) # pg_schemas c\<rparr> in (Some ''syntax error'', c, c))\<rparr>"

definition demo_sql :: sql_handler where
  "demo_sql = \<lparr>sh_projects = NewService, sh_cfg = demo_config\<rparr>"

definition sql_request :: request where
  "sql_request = demo_request\<lparr>rq_param := (\<lambda>_. ''1234567''), rq_body := Some ''x''\<rparr>"

definition sql_dsn :: string where
  "sql_dsn = BuildDSN demo_config ''p_demo'' ''pw''"

lemma sql_request_eval:
  "uuid_parse demo_env (rq_param sql_request ''id'') = Some 7" "body_of sql_request = ''x''"
  "GetCredentials demo_env NewService 7 (world_of demo_db) =
     (Inr (''p_demo'', ''pw'', ''p_demo''), (world_of demo_db)\<lparr>tick := 1\<rparr>)"
  by (simp_all add: sql_request_def demo_env_def body_of_def GetCredentials_def query_def sql_def world_of_def
      demo_db_def demo_project_def select_one_def empty_db_def NewService_def has_prefix_def envelopePrefix_def)

lemma world_sel: "wdb (world_of d) = d" "tick (world_of d) = 0"
  by (simp_all add: world_of_def)

lemma sql_apply_plain:
  "sql_apply_h demo_env plain_env demo_sql sql_request (world_of demo_db) =
     ((200, Inr True), (world_of demo_db)\<lparr>tick := 6,
        wdb := demo_db\<lparr>pg := (pg demo_db)\<lparr>pg_schemas := (''x'', sql_dsn) # pg_schemas (pg demo_db)\<rparr>\<rparr>\<rparr>)"
proof -
  have "flt demo_env n = None" "pool_new demo_env dsn = None" for n dsn by (simp_all add: demo_env_def)
  then show ?thesis
    by (simp add: sql_apply_h_def sql_request_eval demo_sql_def plain_env_def withTx_def query_def sql_def
        world_sel Let_def flip: sql_dsn_def)
qed

lemma commit_in_text_escapes:
  "sql_apply_h demo_env commit_env demo_sql sql_request (world_of demo_db) =
     ((400, Inl ''syntax error''), (world_of demo_db)\<lparr>tick := 5,
        wdb := demo_db\<lparr>pg := (pg demo_db)\<lparr>pg_schemas := (''x'', sql_dsn) # pg_schemas (pg demo_db)\<rparr>\<rparr>\<rparr>)"
proof -
  have "flt demo_env n = None" "pool_new demo_env dsn = None" for n dsn by (simp_all add: demo_env_def)
  then show ?thesis
    by (simp add: sql_apply_h_def sql_request_eval demo_sql_def commit_env_def withTx_def query_def sql_def
        world_sel Let_def flip: sql_dsn_def)
qed


end
