(* ===== verification/Migrations.thy ===== *)
theory Migrations
  imports Tenancy
begin

text \<open>
  \<^verbatim>\<open>internal/controlplane/migrations\<close>: applying the tenant baseline and River's migrations to a
  project and the log of it (runner.go), the sweep of orphaned log rows (sweep.go), the handlers
  (handlers.go). The lemmas: what a run adds to the log and to nothing else, the invariant of the log,
  its state machine (pending, then applied or failed, and never again another state).
\<close>

section \<open>runner.go\<close>

record mig_entry =
  en_id :: nat
  en_version :: string
  en_source :: string
  en_checksum :: string
  en_state :: string
  en_error :: string
  en_started :: instant
  en_completed :: "instant option"

record mig_status =
  st_current :: string
  st_target :: string
  st_up_to_date :: bool
  st_log :: "mig_entry list"

text \<open>\<open>rn_fs\<close> is \<^verbatim>\<open>tenantmigs.FS.ReadFile\<close> on the embedded files.\<close>

record runner =
  rn_projects :: service
  rn_cfg :: config
  rn_fs :: "string \<Rightarrow> string result"

definition baselineVersion :: string where "baselineVersion = ''0001_init''"

text \<open>The scanned columns of a log row; a NULL error is the empty string (\<^verbatim>\<open>nullStr.Scan\<close>).\<close>

definition nullStr :: "string option \<Rightarrow> string" where
  "nullStr src = (case src of None \<Rightarrow> [] | Some v \<Rightarrow> v)"

definition entry_columns :: "mig_row \<Rightarrow> mig_entry" where
  "entry_columns m = \<lparr>en_id = m_id m, en_version = m_version m, en_source = m_source m,
     en_checksum = m_checksum m, en_state = m_state m, en_error = nullStr (m_error m),
     en_started = m_started m, en_completed = m_completed m\<rparr>"

text \<open>Every error of the query, a lost connection too, counts as "not applied yet".\<close>

definition isApplied :: "env \<Rightarrow> uuid \<Rightarrow> string \<Rightarrow> string \<Rightarrow> world \<Rightarrow> mig_entry option res" where
  "isApplied E pid version checksum w =
     (case query E (\<lambda>d. select_one (\<lambda>_. True) (order_desc m_started (filter (\<lambda>m. m_project m = pid \<and>
          m_version m = version \<and> m_checksum m = checksum \<and> m_state m = ''applied'') (migration_log d)))) w of
        (Inr (Some m), w) \<Rightarrow> (Inr (Some (entry_columns m)), w)
      | (_, w) \<Rightarrow> (Inr None, w))"

definition insert_pending :: "env \<Rightarrow> uuid \<Rightarrow> string \<Rightarrow> world \<Rightarrow> nat res" where
  "insert_pending E pid checksum = sql E (\<lambda>d.
     if \<not> list_ex (\<lambda>p. p_id p = pid) (projects d)
     then Inl (pg_error ''insert or update violates foreign key constraint'' ''23503'')
     else Inr (Suc (mig_seq d), d\<lparr>mig_seq := Suc (mig_seq d), migration_log := migration_log d @
       [\<lparr>m_id = Suc (mig_seq d), m_project = pid, m_version = baselineVersion, m_source = ''embedded'',
         m_checksum = checksum, m_state = ''pending'', m_error = None, m_started = db_now E,
         m_completed = None\<rparr>]\<rparr>))"

text \<open>The loops over the extensions and the grants, with the wrapped error of each statement.\<close>

fun create_extensions :: "env \<Rightarrow> string list \<Rightarrow> world \<Rightarrow> unit res" where
  "create_extensions E [] w = (Inr (), w)"
| "create_extensions E (x # xs) w =
     and_then (wrap_err (''create extension '' @ x @ '': '') (exec E (CreateExtension x) w)) (\<lambda>_.
     create_extensions E xs)"

fun grant_graphql :: "env \<Rightarrow> nat list \<Rightarrow> world \<Rightarrow> unit res" where
  "grant_graphql E [] w = (Inr (), w)"
| "grant_graphql E (n # ns) w =
     and_then (wrap_err ''grant graphql: '' (exec E (GrantGraphql n) w)) (\<lambda>_. grant_graphql E ns)"

definition applyAll :: "env \<Rightarrow> runner \<Rightarrow> string \<Rightarrow> string \<Rightarrow> string \<Rightarrow> world \<Rightarrow> unit res" where
  "applyAll E R role password baselineSQL w =
     and_then (create_extensions E [''vector'', ''pg_graphql'', ''postgis''] w) (\<lambda>_ w.
     and_then (grant_graphql E [0, 1] w) (\<lambda>_ w.
     let tenantDSN = BuildDSN (rn_cfg R) role password in
     case pool_new E tenantDSN of
       Some e \<Rightarrow> (Inl (Wrap ''tenant pool: '' (Ext e)), w)
     | None \<Rightarrow>
        and_then (wrap_err ''apply baseline: '' (tenant_sql E (tenant_exec E tenantDSN baselineSQL) w)) (\<lambda>_ w.
        wrap_err ''river migrate: '' (tenant_sql E (river E tenantDSN) w))))"

text \<open>
  \<^verbatim>\<open>UPDATE migration_log ... WHERE id = $3 RETURNING\<close>: the row as updated, or
  \<^verbatim>\<open>pgx.ErrNoRows\<close>.
\<close>

definition finish_log :: "env \<Rightarrow> nat \<Rightarrow> goerr option \<Rightarrow> world \<Rightarrow> mig_entry option res" where
  "finish_log E logID applyErr = sql E (\<lambda>d.
     let log = update_where (\<lambda>m. m_id m = logID) (\<lambda>m. m\<lparr>
           m_state := (case applyErr of None \<Rightarrow> ''applied'' | Some _ \<Rightarrow> ''failed''),
           m_error := map_option err_text applyErr, m_completed := Some (db_now E)\<rparr>) (migration_log d)
     in Inr (map_option entry_columns (select_one (\<lambda>m. m_id m = logID) log), d\<lparr>migration_log := log\<rparr>))"

text \<open>
  \<^verbatim>\<open>Apply\<close> returns an entry with an error when the migration itself failed
  (\<open>Inr (entry, Some e)\<close>), and no entry when its own bookkeeping failed (\<open>Inl e\<close>).
\<close>

definition mig_Apply :: "env \<Rightarrow> runner \<Rightarrow> uuid \<Rightarrow> world \<Rightarrow> (mig_entry \<times> goerr option) res" where
  "mig_Apply E R pid w =
     and_then (GetCredentials E (rn_projects R) pid w) (\<lambda>(role, password, _) w.
     case rn_fs R (baselineVersion @ ''.up.sql'') of
       Inl e \<Rightarrow> (Inl (Wrap ''read baseline: '' e), w)
     | Inr sqlBytes \<Rightarrow>
        (let checksum = sha256_hex E sqlBytes in
         and_then (isApplied E pid baselineVersion checksum w) (\<lambda>already w.
         case already of
           Some prev \<Rightarrow> (Inr (prev, None), w)
         | None \<Rightarrow>
            and_then (wrap_err ''log pending: '' (insert_pending E pid checksum w)) (\<lambda>logID w.
            let (r, w) = applyAll E R role password sqlBytes w;
                applyErr = (case r of Inl e \<Rightarrow> Some e | Inr _ \<Rightarrow> None)
            in and_then (wrap_err ''log update: '' (finish_log E logID applyErr w)) (\<lambda>row w.
               case row of
                 None \<Rightarrow> (Inl (Wrap ''log update: '' (Ext ''no rows in result set'')), w)
               | Some entry \<Rightarrow> (Inr (entry, applyErr), w))))))"

text \<open>The loop of \<^verbatim>\<open>Status\<close> over the rows, newest first.\<close>

fun status_loop :: "mig_row list \<Rightarrow> string \<Rightarrow> mig_entry list \<Rightarrow> string \<times> mig_entry list" where
  "status_loop [] current log = (current, log)"
| "status_loop (m # ms) current log =
     (let e = entry_columns m;
          current = (if en_state e = ''applied'' \<and> current = [] then en_version e else current)
      in status_loop ms current (log @ [e]))"

definition mig_Status :: "env \<Rightarrow> uuid \<Rightarrow> world \<Rightarrow> mig_status res" where
  "mig_Status E pid w =
     and_then (query E (\<lambda>d. take 50 (order_desc m_started (filter (\<lambda>m. m_project m = pid) (migration_log d)))) w) (\<lambda>rows w.
     let (current, log) = status_loop rows [] []
     in (Inr \<lparr>st_current = current, st_target = baselineVersion,
              st_up_to_date = (current = baselineVersion), st_log = log\<rparr>, w))"

section \<open>sweep.go\<close>

text \<open>
  \<^verbatim>\<open>int(olderThan.Seconds())\<close> truncates towards zero (the float64 in between is exact enough
  below 97 days), and the driver refuses what does not fit the \<^verbatim>\<open>int4\<close> parameter.
\<close>

definition whole_secs :: "duration \<Rightarrow> int" where
  "whole_secs d = (if 0 \<le> sint d then sint d div 1000000000 else - (- sint d div 1000000000))"

definition stale :: "env \<Rightarrow> int \<Rightarrow> mig_row \<Rightarrow> bool" where
  "stale E secs m \<longleftrightarrow> m_state m = ''pending'' \<and> m_started m < db_now E - secs * 1000000000"

definition SweepStale :: "env \<Rightarrow> duration \<Rightarrow> world \<Rightarrow> nat res" where
  "SweepStale E olderThan w = wrap_err ''migrations: sweep: '' (sql E (\<lambda>d.
     let secs = whole_secs olderThan in
     if secs < - (2 ^ 31) \<or> 2 ^ 31 \<le> secs then Inl ''unable to encode into int4: out of range''
     else Inr (affected (stale E secs) (migration_log d),
       d\<lparr>migration_log := update_where (stale E secs) (\<lambda>m. m\<lparr>m_state := ''failed'',
          m_error := Some ''orphaned: pwrapd died mid-apply; swept on startup'',
          m_completed := Some (db_now E)\<rparr>) (migration_log d)\<rparr>)) w)"

section \<open>handlers.go\<close>

definition mig_apply_h :: "env \<Rightarrow> runner \<Rightarrow> request \<Rightarrow> mig_entry handler" where
  "mig_apply_h E R r w = (case uuid_parse E (rq_param r ''id'') of
      None \<Rightarrow> write_err 400 ''bad project id'' w
    | Some pid \<Rightarrow> (case mig_Apply E R pid w of
        (Inl e, w) \<Rightarrow> write_err 500 (err_text e) w
      | (Inr (entry, Some e), w) \<Rightarrow> write_err 500 (err_text e) w
      | (Inr (entry, None), w) \<Rightarrow> write_ok 200 entry w))"

definition mig_status_h :: "env \<Rightarrow> request \<Rightarrow> mig_status handler" where
  "mig_status_h E r w = (case uuid_parse E (rq_param r ''id'') of
      None \<Rightarrow> write_err 400 ''bad project id'' w
    | Some pid \<Rightarrow> (case mig_Status E pid w of
        (Inl e, w) \<Rightarrow> write_err 500 (err_text e) w
      | (Inr s, w) \<Rightarrow> write_ok 200 s w))"

section \<open>The invariant of the log\<close>

definition row_ok :: "mig_row \<Rightarrow> bool" where
  "row_ok m \<longleftrightarrow> m_state m \<in> {''pending'', ''applied'', ''failed''} \<and>
     (m_completed m = None \<longleftrightarrow> m_state m = ''pending'') \<and> (m_error m \<noteq> None \<longleftrightarrow> m_state m = ''failed'')"

definition mig_inv :: "db \<Rightarrow> bool" where
  "mig_inv d \<longleftrightarrow> distinct (map m_id (migration_log d)) \<and> m_id ` set (migration_log d) \<subseteq> {..mig_seq d} \<and>
     list_all row_ok (migration_log d)"

text \<open>The columns of a row that no operation writes again.\<close>

definition mig_core :: "mig_row \<Rightarrow> nat \<times> uuid \<times> string \<times> string \<times> string \<times> instant" where
  "mig_core m = (m_id m, m_project m, m_version m, m_source m, m_checksum m, m_started m)"

text \<open>What changes of the log are allowed: rows get finished, a new row is appended.\<close>

definition finishes :: "mig_row \<Rightarrow> mig_row \<Rightarrow> bool" where
  "finishes m m' \<longleftrightarrow> mig_core m' = mig_core m \<and> row_ok m' \<and> (m_state m = ''pending'' \<or> m' = m)"

definition log_evolves :: "db \<Rightarrow> db \<Rightarrow> bool" where
  "log_evolves d d' \<longleftrightarrow> (\<exists>old new. migration_log d' = old @ new \<and> list_all2 finishes (migration_log d) old)"

text \<open>
  A run's own changes: the credentials are read, at most one row is added with a fresh number and
  finished with the outcome, and beyond the log only the catalogue changes.
\<close>

definition new_row :: "env \<Rightarrow> uuid \<Rightarrow> string \<Rightarrow> nat \<Rightarrow> mig_row" where
  "new_row E pid checksum n = \<lparr>m_id = n, m_project = pid, m_version = baselineVersion, m_source = ''embedded'',
     m_checksum = checksum, m_state = ''pending'', m_error = None, m_started = db_now E, m_completed = None\<rparr>"

definition finished :: "env \<Rightarrow> goerr option \<Rightarrow> mig_row \<Rightarrow> mig_row" where
  "finished E ae m = m\<lparr>m_state := (case ae of None \<Rightarrow> ''applied'' | Some _ \<Rightarrow> ''failed''),
     m_error := map_option err_text ae, m_completed := Some (db_now E)\<rparr>"

lemma isApplied_total: "\<exists>o1. isApplied E pid v c w = (Inr o1, w\<lparr>tick := Suc (tick w)\<rparr>)"
  by (auto simp: isApplied_def query_def sql_def split: option.splits)

lemma isApplied_Some:
  assumes "isApplied E pid v c w = (Inr (Some e), w')"
  shows "\<exists>m \<in> set (migration_log (wdb w)). m_project m = pid \<and> m_version m = v \<and> m_checksum m = c \<and>
    m_state m = ''applied'' \<and> e = entry_columns m"
proof -
  from assms obtain m where "select_one (\<lambda>_. True) (order_desc m_started (filter (\<lambda>m. m_project m = pid \<and>
      m_version m = v \<and> m_checksum m = c \<and> m_state m = ''applied'') (migration_log (wdb w)))) = Some m"
    "e = entry_columns m"
    by (auto simp: isApplied_def query_Inr split: prod.splits sum.splits option.splits)
  with select_one_Some [OF this(1)] show ?thesis by auto
qed

lemma create_extensions_frame: "create_extensions E xs w = (r, w') \<Longrightarrow> \<exists>c. wdb w' = (wdb w)\<lparr>pg := c\<rparr>"
proof (induction xs arbitrary: w)
  case Nil
  then show ?case by (auto intro: exI [of _ "pg (wdb w)"])
next
  case (Cons x xs)
  obtain r1 w1 where e: "exec E (CreateExtension x) w = (r1, w1)" by fastforce
  from exec_frame [OF e] Cons.IH [of w1] Cons.prems e show ?case by (cases r1) auto
qed

lemma grant_graphql_frame: "grant_graphql E xs w = (r, w') \<Longrightarrow> \<exists>c. wdb w' = (wdb w)\<lparr>pg := c\<rparr>"
proof (induction xs arbitrary: w)
  case Nil
  then show ?case by (auto intro: exI [of _ "pg (wdb w)"])
next
  case (Cons x xs)
  obtain r1 w1 where e: "exec E (GrantGraphql x) w = (r1, w1)" by fastforce
  from exec_frame [OF e] Cons.IH [of w1] Cons.prems e show ?case by (cases r1) auto
qed

lemma applyAll_frame:
  assumes "applyAll E R role pw sql0 w = (r, w')"
  shows "\<exists>c. wdb w' = (wdb w)\<lparr>pg := c\<rparr>"
proof -
  obtain r1 w1 where 1: "create_extensions E [''vector'', ''pg_graphql'', ''postgis''] w = (r1, w1)" by fastforce
  obtain r2 w2 where 2: "grant_graphql E [0, Suc 0] w1 = (r2, w2)" by fastforce
  obtain r3 w3 where 3: "tenant_sql E (tenant_exec E (BuildDSN (rn_cfg R) role pw) sql0) w2 = (r3, w3)" by fastforce
  obtain r4 w4 where 4: "tenant_sql E (river E (BuildDSN (rn_cfg R) role pw)) w3 = (r4, w4)" by fastforce
  note f = create_extensions_frame [OF 1] grant_graphql_frame [OF 2] tenant_sql_frame [OF 3] tenant_sql_frame [OF 4]
  show ?thesis
    using assms f by (cases r1; cases r2; cases r3; cases r4)
      (auto simp: applyAll_def Let_def 1 2 3 4 simp del: create_extensions.simps grant_graphql.simps split: option.splits)
qed

lemma insert_pending_Inr:
  "insert_pending E pid c w = (Inr n, w') \<longleftrightarrow> flt E (tick w) = None \<and> n = Suc (mig_seq (wdb w)) \<and>
     list_ex (\<lambda>p. p_id p = pid) (projects (wdb w)) \<and>
     w' = w\<lparr>tick := Suc (tick w), wdb := (wdb w)\<lparr>mig_seq := Suc (mig_seq (wdb w)),
       migration_log := migration_log (wdb w) @ [new_row E pid c (Suc (mig_seq (wdb w)))]\<rparr>\<rparr>"
  by (auto simp: insert_pending_def sql_Inr new_row_def split: if_splits)

lemma insert_pending_Inl: "insert_pending E pid c w = (Inl e, w') \<Longrightarrow> wdb w' = wdb w"
  by (auto simp: insert_pending_def sql_Inl)

lemma finish_log_fresh:
  assumes "migration_log (wdb w) = log @ [m]" "m_id m = n" "n \<notin> m_id ` set log"
  shows "finish_log E n ae w = (r, w') \<longleftrightarrow> w' = w\<lparr>tick := Suc (tick w), wdb := wdb w'\<rparr> \<and>
    (case flt E (tick w) of Some s \<Rightarrow> r = Inl (Ext s) \<and> wdb w' = wdb w
     | None \<Rightarrow> r = Inr (Some (entry_columns (finished E ae m))) \<and>
        wdb w' = (wdb w)\<lparr>migration_log := log @ [finished E ae m]\<rparr>)"
proof -
  let ?f = "\<lambda>m. m\<lparr>m_state := (case ae of None \<Rightarrow> ''applied'' | Some _ \<Rightarrow> ''failed''),
    m_error := map_option err_text ae, m_completed := Some (db_now E)\<rparr>"
  have "update_where (\<lambda>m. m_id m = n) ?f log = log"
    by (rule update_where_none) (use assms(3) in force)
  with assms(1,2) have u: "update_where (\<lambda>m. m_id m = n) ?f (migration_log (wdb w)) = log @ [finished E ae m]"
    by (simp add: finished_def) (simp add: update_where_def)
  from assms(3) have ne: "\<forall>r \<in> set log. m_id r \<noteq> n" by force
  have "select_one (\<lambda>m. m_id m = n) (log @ [finished E ae m]) = Some (finished E ae m)"
    by (rule select_one_unique) (use ne assms(2) in \<open>simp_all add: finished_def ball_Un\<close>)
  with u show ?thesis
    by (auto simp: finish_log_def Let_def sql_def split: option.splits)
qed

lemma mig_inv_fresh: "mig_inv d \<Longrightarrow> Suc (mig_seq d) \<notin> m_id ` set (migration_log d)"
  by (auto simp: mig_inv_def)

lemma mig_Apply_cases:
  assumes "mig_Apply E R pid w = (r, w')" "mig_inv (wdb w)"
  shows "wdb w' = wdb w \<and> (\<forall>e ae. r = Inr (e, ae) \<longrightarrow> ae = None \<and> (\<exists>m \<in> set (migration_log (wdb w)).
        m_project m = pid \<and> m_version m = baselineVersion \<and> m_state m = ''applied'' \<and> e = entry_columns m \<and>
        (\<exists>sql0. rn_fs R (baselineVersion @ ''.up.sql'') = Inr sql0 \<and> m_checksum m = sha256_hex E sql0))) \<or>
    (\<exists>ck c row sql0. rn_fs R (baselineVersion @ ''.up.sql'') = Inr sql0 \<and> ck = sha256_hex E sql0 \<and> wdb w' = (wdb w)\<lparr>mig_seq := Suc (mig_seq (wdb w)),
        migration_log := migration_log (wdb w) @ [row], pg := c\<rparr> \<and>
      ((\<exists>e. r = Inl e) \<and> row = new_row E pid ck (Suc (mig_seq (wdb w))) \<or>
       (\<exists>ae. r = Inr (entry_columns row, ae) \<and> row = finished E ae (new_row E pid ck (Suc (mig_seq (wdb w)))))))"
    (is "?same \<or> ?added")
proof -
  obtain g w1 where g: "GetCredentials E (rn_projects R) pid w = (g, w1)" by fastforce
  note d1 = GetCredentials_wdb [OF g]
  show ?thesis
  proof (cases "\<exists>role pw sch sql0. g = Inr (role, pw, sch) \<and> rn_fs R (baselineVersion @ ''.up.sql'') = Inr sql0")
    case False
    with assms g d1 have ?same by (cases g) (auto simp: mig_Apply_def split: sum.splits)
    then show ?thesis ..
  next
    case True
    then obtain role pw sch sql0 where c: "g = Inr (role, pw, sch)"
      "rn_fs R (baselineVersion @ ''.up.sql'') = Inr sql0" by blast
    define ck where "ck = sha256_hex E sql0"
    obtain o1 w2 where o: "isApplied E pid baselineVersion ck w1 = (Inr o1, w2)" and d2: "wdb w2 = wdb w"
      using isApplied_total [of E pid baselineVersion ck w1] d1 by auto
    show ?thesis
    proof (cases o1)
      case (Some e)
      with assms(1) have r: "r = Inr (e, None)" "w' = w2"
        by (auto simp: mig_Apply_def g c Let_def o [unfolded ck_def])
      from isApplied_Some [OF o [unfolded Some]] d1 d2 r c(2) have ?same by (auto simp: ck_def)
      then show ?thesis ..
    next
      case None
      obtain i w3 where i: "insert_pending E pid ck w2 = (i, w3)" by fastforce
      show ?thesis
      proof (cases i)
        case (Inl e)
        with assms(1) have "w' = w3" "\<exists>e. r = Inl e"
          by (auto simp: mig_Apply_def g c Let_def o [unfolded ck_def] None i [unfolded ck_def])
        with insert_pending_Inl [OF i [unfolded Inl]] d2 have ?same by auto
        then show ?thesis ..
      next
        case (Inr n)
        from i Inr d2 have n: "n = Suc (mig_seq (wdb w))" and d3: "wdb w3 = (wdb w)\<lparr>mig_seq := n,
            migration_log := migration_log (wdb w) @ [new_row E pid ck n]\<rparr>"
          by (auto simp: insert_pending_Inr)
        obtain a w4 where a: "applyAll E R role pw sql0 w3 = (a, w4)" by fastforce
        from applyAll_frame [OF a] d3 obtain c' where d4: "wdb w4 = (wdb w)\<lparr>mig_seq := n,
            migration_log := migration_log (wdb w) @ [new_row E pid ck n], pg := c'\<rparr>" by auto
        define ae where "ae = (case a of Inl e \<Rightarrow> Some e | Inr _ \<Rightarrow> None)"
        obtain f w5 where f: "finish_log E n ae w4 = (f, w5)" by fastforce
        have "migration_log (wdb w4) = migration_log (wdb w) @ [new_row E pid ck n]"
          "m_id (new_row E pid ck n) = n" "n \<notin> m_id ` set (migration_log (wdb w))"
          using d4 n mig_inv_fresh [OF assms(2)] by (simp_all add: new_row_def)
        from finish_log_fresh [OF this, THEN iffD1, OF f] d4 have "
            (\<exists>s. f = Inl (Ext s)) \<and> wdb w5 = wdb w4 \<or>
            f = Inr (Some (entry_columns (finished E ae (new_row E pid ck n)))) \<and> wdb w5 = (wdb w)\<lparr>mig_seq := n,
              migration_log := migration_log (wdb w) @ [finished E ae (new_row E pid ck n)], pg := c'\<rparr>"
          by (auto split: option.splits)
        moreover have "(r, w') = and_then (wrap_err ''log update: '' (f, w5)) (\<lambda>row w. case row of
            None \<Rightarrow> (Inl (Wrap ''log update: '' (Ext ''no rows in result set'')), w)
          | Some entry \<Rightarrow> (Inr (entry, ae), w))"
          using assms(1) f unfolding mig_Apply_def g c(1) and_then_simps prod.case c(2) sum.case Let_def
            ck_def [symmetric] o None option.case i Inr wrap_err_simps a ae_def by simp
        ultimately have ?added unfolding n [symmetric]
          using d4 c(2) by (cases f) (auto simp: ck_def [symmetric])
        then show ?thesis ..
      qed
    qed
  qed
qed

lemma row_ok_new: "row_ok (new_row E pid ck n)" "row_ok (finished E ae (new_row E pid ck n))"
  by (simp_all add: row_ok_def new_row_def finished_def split: option.splits)

lemma finishes_refl: "row_ok m \<Longrightarrow> finishes m m"
  by (simp add: finishes_def)

lemma finishes_trans: "finishes a b \<Longrightarrow> finishes b c \<Longrightarrow> finishes a c"
  by (auto simp: finishes_def)

lemma finishes_all_refl: "list_all row_ok ms \<Longrightarrow> list_all2 finishes ms ms"
  by (simp add: list_all2_same list_all_iff finishes_refl)

lemma log_evolves_same: "mig_inv d \<Longrightarrow> migration_log d' = migration_log d \<Longrightarrow> log_evolves d d'"
  using finishes_all_refl [of "migration_log d"] by (force simp: log_evolves_def mig_inv_def)

lemma log_evolves_trans: "log_evolves a b \<Longrightarrow> log_evolves b c \<Longrightarrow> log_evolves a c"
proof -
  assume "log_evolves a b" "log_evolves b c"
  then obtain o1 n1 o2 n2 where 1: "migration_log b = o1 @ n1" "list_all2 finishes (migration_log a) o1"
    and 2: "migration_log c = o2 @ n2" "list_all2 finishes (migration_log b) o2"
    by (auto simp: log_evolves_def)
  from 1(1) 2(2) obtain x y where o2: "o2 = x @ y" "list_all2 finishes o1 x"
    by (auto simp: list_all2_append1)
  have "list_all2 finishes (migration_log a) x"
    by (rule list_all2_trans [OF _ 1(2) o2(2)]) (rule finishes_trans)
  with 2(1) o2(1) show ?thesis by (auto simp: log_evolves_def)
qed

lemma mig_Apply_evolves:
  assumes "mig_Apply E R pid w = (r, w')" "mig_inv (wdb w)"
  shows "mig_inv (wdb w') \<and> log_evolves (wdb w) (wdb w')"
  using mig_Apply_cases [OF assms]
proof (elim disjE conjE exE)
  assume "wdb w' = wdb w"
  with assms(2) log_evolves_same show ?thesis by simp
next
  fix ck c row sql0
  assume d: "wdb w' = (wdb w)\<lparr>mig_seq := Suc (mig_seq (wdb w)), migration_log := migration_log (wdb w) @ [row], pg := c\<rparr>"
    and "row = new_row E pid ck (Suc (mig_seq (wdb w)))"
  then have "row_ok row" "m_id row = Suc (mig_seq (wdb w))" by (simp_all add: row_ok_new) (simp add: new_row_def)
  with d assms(2) mig_inv_fresh [OF assms(2)] finishes_all_refl show ?thesis
    by (auto simp: mig_inv_def log_evolves_def)
next
  fix ck c row sql0 ae
  assume d: "wdb w' = (wdb w)\<lparr>mig_seq := Suc (mig_seq (wdb w)), migration_log := migration_log (wdb w) @ [row], pg := c\<rparr>"
    and "row = finished E ae (new_row E pid ck (Suc (mig_seq (wdb w))))"
  then have "row_ok row" "m_id row = Suc (mig_seq (wdb w))"
    by (simp_all add: row_ok_new) (simp add: new_row_def finished_def)
  with d assms(2) mig_inv_fresh [OF assms(2)] finishes_all_refl show ?thesis
    by (auto simp: mig_inv_def log_evolves_def)
qed

text \<open>The row the sweep makes of a stale one.\<close>

definition orphaned :: "env \<Rightarrow> mig_row \<Rightarrow> mig_row" where
  "orphaned E m = m\<lparr>m_state := ''failed'', m_error := Some ''orphaned: pwrapd died mid-apply; swept on startup'',
     m_completed := Some (db_now E)\<rparr>"

lemma SweepStale_Inr:
  "SweepStale E dur w = (Inr n, w') \<longleftrightarrow> flt E (tick w) = None \<and> - (2 ^ 31) \<le> whole_secs dur \<and> whole_secs dur < 2 ^ 31 \<and>
     n = affected (stale E (whole_secs dur)) (migration_log (wdb w)) \<and>
     w' = w\<lparr>tick := Suc (tick w), wdb := (wdb w)\<lparr>migration_log :=
       update_where (stale E (whole_secs dur)) (orphaned E) (migration_log (wdb w))\<rparr>\<rparr>"
  by (auto simp: SweepStale_def res_elims sql_Inr Let_def orphaned_def [abs_def] split: if_splits)

lemma SweepStale_Inl: "SweepStale E dur w = (Inl e, w') \<Longrightarrow> wdb w' = wdb w"
  by (auto simp: SweepStale_def res_elims sql_Inl)

lemma orphaned_finishes: "row_ok m \<Longrightarrow> finishes m (if stale E k m then orphaned E m else m)"
  by (auto simp: finishes_def stale_def orphaned_def mig_core_def row_ok_def)

lemma sweep_evolves:
  assumes "SweepStale E dur w = (r, w')" "mig_inv (wdb w)"
  shows "mig_inv (wdb w') \<and> log_evolves (wdb w) (wdb w')"
proof (cases r)
  case (Inl e)
  with assms SweepStale_Inl log_evolves_same show ?thesis by (metis (no_types))
next
  case (Inr n)
  let ?P = "stale E (whole_secs dur)"
  let ?l = "update_where ?P (orphaned E) (migration_log (wdb w))"
  from assms(1) Inr have d: "wdb w' = (wdb w)\<lparr>migration_log := ?l\<rparr>" by (auto simp: SweepStale_Inr)
  have f: "list_all2 finishes (migration_log (wdb w)) ?l"
    using assms(2) orphaned_finishes
    by (auto simp: update_where_def mig_inv_def list_all_iff list_all2_map2 list_all2_same)
  have ids: "map m_id ?l = map m_id (migration_log (wdb w))"
    by (rule map_update_where) (simp add: orphaned_def)
  then have "m_id ` set ?l = m_id ` set (migration_log (wdb w))" by (metis list.set_map)
  moreover from f have "list_all row_ok ?l"
    by (auto simp: list_all_length list_all2_conv_all_nth finishes_def)
  ultimately show ?thesis using assms(2) d f ids by (auto simp: mig_inv_def log_evolves_def)
qed

section \<open>The log as a state machine\<close>

inductive mig_step :: "db \<Rightarrow> db \<Rightarrow> bool" where
  apply_run: "mig_Apply E R pid w = (r, w') \<Longrightarrow> mig_step (wdb w) (wdb w')"
| sweep_run: "SweepStale E dur w = (r', w') \<Longrightarrow> mig_step (wdb w) (wdb w')"
| other: "migration_log d' = migration_log d \<Longrightarrow> mig_seq d' = mig_seq d \<Longrightarrow> mig_step d d'"

lemma mig_step_evolves: "mig_step d d' \<Longrightarrow> mig_inv d \<Longrightarrow> mig_inv d' \<and> log_evolves d d'"
proof (induction rule: mig_step.induct)
  case (other d' d)
  then have "mig_inv d'" by (simp add: mig_inv_def)
  with other log_evolves_same show ?case by blast
qed (simp_all add: mig_Apply_evolves sweep_evolves)

lemma mig_steps_evolve:
  assumes "mig_step\<^sup>*\<^sup>* d d'" "mig_inv d"
  shows "mig_inv d' \<and> log_evolves d d'"
  using assms
proof (induction rule: rtranclp_induct)
  case base
  then show ?case by (simp add: log_evolves_same)
next
  case (step d1 d2)
  with mig_step_evolves log_evolves_trans show ?case by blast
qed

lemma log_evolves_sets:
  assumes "log_evolves d d'"
  shows "{m \<in> set (migration_log d). m_state m \<noteq> ''pending''} \<subseteq> set (migration_log d')"
    "mig_core ` set (migration_log d) \<subseteq> mig_core ` set (migration_log d')"
proof -
  from assms obtain old new where d': "migration_log d' = old @ new" "list_all2 finishes (migration_log d) old"
    by (auto simp: log_evolves_def)
  have "\<exists>m' \<in> set old. finishes m m'" if "m \<in> set (migration_log d)" for m
    using d'(2) that by (fastforce simp: list_all2_conv_all_nth in_set_conv_nth)
  note ex = this
  from ex d'(1) show "{m \<in> set (migration_log d). m_state m \<noteq> ''pending''} \<subseteq> set (migration_log d')"
    by (fastforce simp: finishes_def)
  have "mig_core m \<in> mig_core ` set (migration_log d')" if "m \<in> set (migration_log d)" for m
    using ex [OF that] d'(1) by (auto simp: finishes_def intro: rev_image_eqI)
  then show "mig_core ` set (migration_log d) \<subseteq> mig_core ` set (migration_log d')" by blast
qed

lemma mig_Apply_Inr_creds:
  assumes "mig_Apply E R pid w = (Inr x, w')"
  shows "\<exists>role pw sch w1. GetCredentials E (rn_projects R) pid w = (Inr (role, pw, sch), w1)"
  using assms by (cases "GetCredentials E (rn_projects R) pid w"; cases "fst (GetCredentials E (rn_projects R) pid w)")
    (auto simp: mig_Apply_def)

lemma GetCredentials_again:
  assumes "GetCredentials E S pid w = (Inr x, w1)" "projects (wdb w2) = projects (wdb w)" "flt E2 (tick w2) = None"
  shows "GetCredentials E2 S pid w2 = (Inr x, w2\<lparr>tick := Suc (tick w2)\<rparr>)"
  using assms by (auto simp: GetCredentials_def and_then_Inr query_Inr query_def sql_def split: option.splits sum.splits)

lemma GetCredentials_live:
  "GetCredentials E S pid w = (Inr x, w1) \<Longrightarrow> \<exists>p \<in> set (projects (wdb w)). p_id p = pid \<and> p_deleted p = None"
  by (auto simp: GetCredentials_def res_elims query_Inr split: option.splits dest!: select_one_Some)

text \<open>An applied row with the checksum of the embedded file ends a run at once.\<close>

lemma mig_Apply_applied:
  assumes "GetCredentials E (rn_projects R) pid w = (Inr x, w1)" "rn_fs R (baselineVersion @ ''.up.sql'') = Inr sql0"
    and "m \<in> set (migration_log (wdb w))" "m_project m = pid" "m_version m = baselineVersion"
    "m_checksum m = sha256_hex E sql0" "m_state m = ''applied''" "flt E (tick w1) = None"
  shows "\<exists>e w'. mig_Apply E R pid w = (Inr (e, None), w') \<and> wdb w' = wdb w \<and> en_state e = ''applied'' \<and>
    en_checksum e = sha256_hex E sql0"
proof -
  obtain role pw sch where x: "x = (role, pw, sch)" by (cases x) auto
  have d1: "wdb w1 = wdb w" using GetCredentials_wdb [OF assms(1)] .
  let ?P = "\<lambda>m. m_project m = pid \<and> m_version m = baselineVersion \<and> m_checksum m = sha256_hex E sql0 \<and> m_state m = ''applied''"
  let ?rows = "order_desc m_started (filter ?P (migration_log (wdb w1)))"
  have "m \<in> set ?rows" using assms(3-7) d1 by simp
  then obtain m' where m': "select_one (\<lambda>_. True) ?rows = Some m'"
    using select_one_None [of "\<lambda>_. True" ?rows] by (cases "select_one (\<lambda>_. True) ?rows") auto
  from select_one_Some [OF m'] have "?P m'" by simp
  moreover have "isApplied E pid baselineVersion (sha256_hex E sql0) w1 =
      (Inr (Some (entry_columns m')), w1\<lparr>tick := Suc (tick w1)\<rparr>)"
    using m' assms(8) by (simp add: isApplied_def query_def sql_def)
  ultimately show ?thesis
    using assms(1,2) d1 by (simp add: mig_Apply_def x entry_columns_def)
qed

section \<open>Properties\<close>



text \<open>
  A run that dies before its last update does not stay pending for ever: the sweep of a
  start more than five minutes later marks its row failed, with every other row as old and still pending, and
  changes no row that is settled or younger.
\<close>

lemma crashed_run_swept:
  assumes "mig_Apply E R pid w = (Inl e, w1)" "mig_inv (wdb w)" "migration_log (wdb w1) \<noteq> migration_log (wdb w)"
    and "wdb w2 = wdb w1" "flt E' (tick w2) = None" "db_now E + 300000000000 < db_now E'"
  shows "\<exists>n w3 row. SweepStale E' (dur_mul 5 minute) w2 = (Inr n, w3) \<and> 1 \<le> n \<and>
    migration_log (wdb w1) = migration_log (wdb w) @ [row] \<and> m_state row = ''pending'' \<and>
    orphaned E' row \<in> set (migration_log (wdb w3)) \<and>
    (\<forall>m \<in> set (migration_log (wdb w3)). m_state m = ''pending'' \<longrightarrow> db_now E' - 300000000000 \<le> m_started m) \<and>
    {m \<in> set (migration_log (wdb w2)). \<not> stale E' 300 m} \<subseteq> set (migration_log (wdb w3))"
proof -
  from mig_Apply_cases [OF assms(1,2)] assms(3) obtain ck row where row: "migration_log (wdb w1) = migration_log (wdb w) @ [row]"
    "row = new_row E pid ck (Suc (mig_seq (wdb w)))" by auto
  have s: "whole_secs (dur_mul 5 minute) = 300" by code_simp
  let ?l = "update_where (stale E' 300) (orphaned E') (migration_log (wdb w2))"
  have st: "stale E' 300 row" using row(2) assms(6) by (simp add: stale_def new_row_def)
  have "row \<in> set (migration_log (wdb w2))" using row(1) assms(4) by simp
  with st have "orphaned E' row \<in> set ?l" by (auto simp: set_update_where)
  moreover have "1 \<le> affected (stale E' 300) (migration_log (wdb w2))"
    using \<open>row \<in> _\<close> st affected_0 [of "stale E' 300" "migration_log (wdb w2)"] by (auto simp: Suc_le_eq)
  moreover have "\<forall>m \<in> set ?l. m_state m = ''pending'' \<longrightarrow> db_now E' - 300000000000 \<le> m_started m"
    by (auto simp: set_update_where orphaned_def stale_def)
  moreover have "{m \<in> set (migration_log (wdb w2)). \<not> stale E' 300 m} \<subseteq> set ?l" by (auto simp: set_update_where)
  moreover have "SweepStale E' (dur_mul 5 minute) w2 = (Inr (affected (stale E' 300) (migration_log (wdb w2))),
      w2\<lparr>tick := Suc (tick w2), wdb := (wdb w2)\<lparr>migration_log := ?l\<rparr>\<rparr>)"
    using s assms(5) by (simp add: SweepStale_Inr)
  moreover have "m_state row = ''pending''" using row(2) by (simp add: new_row_def)
  ultimately show ?thesis using row(1) by (intro exI conjI) (assumption | simp)+
qed

section \<open>Witnesses\<close>

definition demo_runner :: runner where
  "demo_runner = \<lparr>rn_projects = NewService, rn_cfg = demo_config, rn_fs = (\<lambda>_. Inr ''CREATE TABLE t ();'')\<rparr>"

text \<open>The last update of a run, its eleventh round trip, fails.\<close>

definition restart_env :: env where
  "restart_env = demo_env\<lparr>db_now := 400000000000\<rparr>"

lemma demo_mig_inv: "mig_inv (wdb (world_of demo_db))"
  by (simp add: mig_inv_def world_of_def demo_db_def empty_db_def)

lemma demo_creds:
  "flt E 0 = None \<Longrightarrow> GetCredentials E NewService 7 (world_of demo_db) =
     (Inr (''p_demo'', ''pw'', ''p_demo''), world_of demo_db\<lparr>tick := 1\<rparr>)"
  by (simp add: GetCredentials_def query_def sql_def world_of_def demo_db_def empty_db_def select_one_def
      demo_project_def NewService_def IsEnvelope_def envelopePrefix_def has_prefix_def)

lemmas run_simps = isApplied_def query_def sql_def Let_def
  insert_pending_def applyAll_def exec_def tenant_sql_def finish_log_def order_desc_def select_one_def
  update_where_def demo_defs demo_db_def demo_project_def

lemma demo_apply: "\<exists>e w'. mig_Apply demo_env demo_runner 7 (world_of demo_db) = (Inr (e, None), w')"
  by (simp add: mig_Apply_def demo_runner_def demo_creds) (simp add: run_simps)



end
