(* ===== verification/Branches.thy ===== *)
theory Branches
  imports Migrations
begin

text \<open>
  \<^verbatim>\<open>internal/controlplane/branches\<close>: forking a project into a child project, copying rows of the
  parent's tables into the child's schema (service.go), the handlers (handlers.go). The statements
  \<^verbatim>\<open>INSERT ... SELECT ... ON CONFLICT (col) DO NOTHING\<close> and \<^verbatim>\<open>TRUNCATE ... CASCADE\<close> are
  functions on the tables of the catalogue. The lemmas: a copy only adds rows to the listed tables of
  the child, a second copy adds none, and a copy after a truncation is a snapshot.
\<close>

section \<open>The two statements on tenant tables\<close>

definition set_table :: "string \<Rightarrow> string \<Rightarrow> ttable \<Rightarrow> pg \<Rightarrow> pg" where
  "set_table s t tbl c = c\<lparr>pg_tables := (pg_tables c)(s := (pg_tables c s)(t \<mapsto> tbl))\<rparr>"

definition field :: "ttable \<Rightarrow> trow \<Rightarrow> string \<Rightarrow> string option" where
  "field tbl r col = (case map_of (zip (map fst (tt_cols tbl)) r) col of None \<Rightarrow> None | Some v \<Rightarrow> v)"

text \<open>Two rows agree on the columns of a unique constraint; NULLs are distinct.\<close>

definition conflict :: "ttable \<Rightarrow> string list \<Rightarrow> trow \<Rightarrow> trow \<Rightarrow> bool" where
  "conflict tbl u r r' \<longleftrightarrow> (\<forall>col \<in> set u. field tbl r col \<noteq> None \<and> field tbl r' col = field tbl r col)"

text \<open>A selected row has a value for each column, the missing ones their default.\<close>

definition fill :: "ttable \<Rightarrow> trow \<Rightarrow> trow" where
  "fill tbl r = r @ map snd (drop (length r) (tt_cols tbl))"

text \<open>
  The rows one by one: skipped on a conflict with the arbiter, an error on another unique
  constraint, else inserted.
\<close>

fun insert_rows :: "ttable \<Rightarrow> string \<Rightarrow> trow list \<Rightarrow> trow list \<Rightarrow> string + trow list" where
  "insert_rows tbl col [] ins = Inr ins"
| "insert_rows tbl col (r # rs) ins =
     (if list_ex (conflict tbl [col] r) (tt_rows tbl @ ins) then insert_rows tbl col rs ins
      else if list_ex (\<lambda>u. list_ex (conflict tbl u r) (tt_rows tbl @ ins)) (tt_uniq tbl)
      then Inl (pg_error ''duplicate key value violates unique constraint'' ''23505'')
      else insert_rows tbl col rs (ins @ [r]))"

definition exec_copy :: "env \<Rightarrow> string \<Rightarrow> string \<Rightarrow> string \<Rightarrow> string \<Rightarrow> pg \<Rightarrow> string + pg" where
  "exec_copy E toSchema t fromSchema col c =
     (case (pg_tables c (trunc toSchema) t, pg_tables c (trunc fromSchema) t) of
        (Some a, Some b) \<Rightarrow>
          if length (tt_cols a) < length (tt_cols b)
          then Inl (pg_error ''INSERT has more expressions than target columns'' ''42601'')
          else if [col] \<notin> set (tt_uniq a)
          then Inl (pg_error ''there is no unique or exclusion constraint matching the ON CONFLICT specification'' ''42P10'')
          else (case insert_rows a col (map (fill a) (tt_rows b)) [] of
              Inl e \<Rightarrow> Inl e
            | Inr ins \<Rightarrow> on_insert E (trunc toSchema) t ins
                (set_table (trunc toSchema) t (a\<lparr>tt_rows := tt_rows a @ ins\<rparr>) c))
      | _ \<Rightarrow> Inl (pg_error ''relation does not exist'' ''42P01''))"

text \<open>The tables \<^verbatim>\<open>CASCADE\<close> reaches: those whose foreign keys refer to one already reached.\<close>

inductive cascades :: "pg \<Rightarrow> string \<times> string \<Rightarrow> string \<times> string \<Rightarrow> bool" for c where
  itself: "cascades c a a"
| ref: "cascades c a b \<Longrightarrow> pg_tables c s t = Some tbl \<Longrightarrow> b \<in> set (tt_refs tbl) \<Longrightarrow> cascades c a (s, t)"

definition exec_truncate :: "string \<Rightarrow> string \<Rightarrow> pg \<Rightarrow> string + pg" where
  "exec_truncate s t c = (if pg_tables c (trunc s) t = None then Inl (pg_error ''relation does not exist'' ''42P01'')
     else Inr (c\<lparr>pg_tables := (\<lambda>s' t'. if cascades c (trunc s, t) (s', t')
       then map_option (\<lambda>tbl. tbl\<lparr>tt_rows := []\<rparr>) (pg_tables c s' t') else pg_tables c s' t')\<rparr>))"

definition on_pg :: "env \<Rightarrow> (pg \<Rightarrow> string + pg) \<Rightarrow> world \<Rightarrow> unit res" where
  "on_pg E f = sql E (\<lambda>d. case f (pg d) of Inl e \<Rightarrow> Inl e | Inr c \<Rightarrow> Inr ((), d\<lparr>pg := c\<rparr>))"

section \<open>service.go\<close>

definition DefaultCopyTables :: "string list" where
  "DefaultCopyTables = [''pwrap_documents'', ''pwrap_embeddings'', ''pwrap_geo'', ''pwrap_matviews'']"

record branch_service =
  bs_projects :: service
  bs_migrations :: runner

record create_opts =
  co_name :: string
  co_with_data :: bool
  co_tables :: "string list"

record sync_opts =
  so_tables :: "string list"
  so_truncate :: bool

definition tableExists :: "env \<Rightarrow> string \<Rightarrow> string \<Rightarrow> world \<Rightarrow> bool res" where
  "tableExists E schema table = query E (\<lambda>d. pg_tables (pg d) schema table \<noteq> None)"

definition tableExistsInBoth :: "env \<Rightarrow> string \<Rightarrow> string \<Rightarrow> string \<Rightarrow> world \<Rightarrow> bool res" where
  "tableExistsInBoth E a b table =
     query E (\<lambda>d. length (filter (\<lambda>s. pg_tables (pg d) s table \<noteq> None) (remdups [a, b])) = 2)"

definition conflictCol :: "string \<Rightarrow> string" where
  "conflictCol t = (if t = ''pwrap_matviews'' then ''name'' else ''id'')"

text \<open>The text of the statement; its names are quoted, so they are names whatever they contain.\<close>

definition copy_sql :: "string \<Rightarrow> string \<Rightarrow> string \<Rightarrow> string" where
  "copy_sql toSchema t fromSchema = ''INSERT INTO '' @ quoteIdent toSchema @ ''.'' @ quoteIdent t @
     '' SELECT * FROM '' @ quoteIdent fromSchema @ ''.'' @ quoteIdent t @
     '' ON CONFLICT ('' @ conflictCol t @ '') DO NOTHING''"

fun copyData :: "env \<Rightarrow> string \<Rightarrow> string \<Rightarrow> string list \<Rightarrow> world \<Rightarrow> unit res" where
  "copyData E fromSchema toSchema [] w = (Inr (), w)"
| "copyData E fromSchema toSchema (t # ts) w = (case validateIdent t of
      Inl e \<Rightarrow> (Inl (Wrap (''table '' @ go_quote t @ '': '') e), w)
    | Inr _ \<Rightarrow> and_then (tableExistsInBoth E fromSchema toSchema t w) (\<lambda>existsBoth w.
        if \<not> existsBoth then copyData E fromSchema toSchema ts w
        else and_then (wrap_err (''copy '' @ fromSchema @ ''.'' @ t @ '' -> '' @ toSchema @ ''.'' @ t @ '': '')
               (on_pg E (exec_copy E toSchema t fromSchema (conflictCol t)) w)) (\<lambda>_.
             copyData E fromSchema toSchema ts)))"

fun truncate_tables :: "env \<Rightarrow> string \<Rightarrow> string list \<Rightarrow> world \<Rightarrow> unit res" where
  "truncate_tables E schema [] w = (Inr (), w)"
| "truncate_tables E schema (t # ts) w = (case validateIdent t of
      Inl e \<Rightarrow> (Inl e, w)
    | Inr _ \<Rightarrow> and_then (tableExists E schema t w) (\<lambda>exists w.
        if \<not> exists then truncate_tables E schema ts w
        else and_then (wrap_err (''truncate '' @ schema @ ''.'' @ t @ '': '')
               (on_pg E (exec_truncate schema t) w)) (\<lambda>_. truncate_tables E schema ts)))"

definition set_parent :: "env \<Rightarrow> uuid \<Rightarrow> uuid \<Rightarrow> world \<Rightarrow> unit res" where
  "set_parent E parentID childID = sql E (\<lambda>d. Inr ((), d\<lparr>projects := update_where (\<lambda>p. p_id p = childID)
     (\<lambda>p. p\<lparr>p_parent := Some parentID, p_updated := db_now E\<rparr>) (projects d)\<rparr>))"

definition tables_or_default :: "string list \<Rightarrow> string list" where
  "tables_or_default ts = (if length ts = 0 then DefaultCopyTables else ts)"

text \<open>\<^verbatim>\<open>migrations.Apply\<close> with its entry ignored.\<close>

definition apply_migrations :: "env \<Rightarrow> runner \<Rightarrow> uuid \<Rightarrow> world \<Rightarrow> unit res" where
  "apply_migrations E R pid w = (case mig_Apply E R pid w of
      (Inl e, w) \<Rightarrow> (Inl e, w) | (Inr (_, Some e), w) \<Rightarrow> (Inl e, w) | (Inr (_, None), w) \<Rightarrow> (Inr (), w))"

definition branch_Create :: "env \<Rightarrow> branch_service \<Rightarrow> uuid \<Rightarrow> create_opts \<Rightarrow> world \<Rightarrow> project res" where
  "branch_Create E B parentID opts w =
     and_then (wrap_err ''parent: '' (projects_Get E parentID w)) (\<lambda>parent w.
     let name = (if co_name opts = [] then pr_slug parent @ ''_branch'' else co_name opts) in
     and_then (wrap_err ''create child: '' (projects_Create E (bs_projects B) name w)) (\<lambda>child w.
     and_then (wrap_err ''set parent: '' (set_parent E (pr_id parent) (pr_id child) w)) (\<lambda>_ w.
     and_then (projects_Get E (pr_id child) w) (\<lambda>child w.
     and_then (wrap_err ''apply migrations: '' (apply_migrations E (bs_migrations B) (pr_id child) w)) (\<lambda>_ w.
     if co_with_data opts
     then and_then (wrap_err ''copy data: '' (copyData E (pr_schema parent) (pr_schema child)
            (tables_or_default (co_tables opts)) w)) (\<lambda>_ w. (Inr child, w))
     else (Inr child, w))))))"

definition no_parent :: string where
  "no_parent = ''project has no parent '' @ [CHR 0xE2, CHR 0x80, CHR 0x94] @ '' not a branch''"

definition branch_Sync :: "env \<Rightarrow> uuid \<Rightarrow> sync_opts \<Rightarrow> world \<Rightarrow> unit res" where
  "branch_Sync E childID opts w =
     and_then (wrap_err ''child: '' (projects_Get E childID w)) (\<lambda>child w.
     case pr_parent child of
       None \<Rightarrow> (Inl (Msg no_parent), w)
     | Some parentID \<Rightarrow>
        and_then (wrap_err ''parent: '' (projects_Get E parentID w)) (\<lambda>parent w.
        let tables = tables_or_default (so_tables opts) in
        and_then (if so_truncate opts then truncate_tables E (pr_schema child) tables w else (Inr (), w)) (\<lambda>_ w.
        copyData E (pr_schema parent) (pr_schema child) tables w)))"

definition branch_List :: "env \<Rightarrow> uuid \<Rightarrow> world \<Rightarrow> project list res" where
  "branch_List E parentID = query E (\<lambda>d. map project_columns
     (order_desc p_created (filter (\<lambda>p. p_parent p = Some parentID \<and> p_deleted p = None) (projects d))))"

section \<open>handlers.go\<close>

definition branch_create_h :: "env \<Rightarrow> branch_service \<Rightarrow> request \<Rightarrow> project handler" where
  "branch_create_h E B r w = (case uuid_parse E (rq_param r ''id'') of
      None \<Rightarrow> write_err 400 ''bad project id'' w
    | Some parentID \<Rightarrow>
       let (name, with_data, tables) = (case rq_body r of None \<Rightarrow> ([], False, []) | Some b \<Rightarrow> snd (json_branch E b))
       in (case branch_Create E B parentID \<lparr>co_name = name, co_with_data = with_data, co_tables = tables\<rparr> w of
          (Inl e, w) \<Rightarrow>
            if errors_is e ErrProjectNotFound then write_err 404 ''parent not found'' w
            else if errors_is e ErrAlreadyExists then write_err 409 ''branch name already taken'' w
            else if errors_is e ErrInvalidName then write_err 400 ''invalid name'' w
            else write_err 500 (err_text e) w
        | (Inr child, w) \<Rightarrow> write_ok 201 child w))"

definition branch_list_h :: "env \<Rightarrow> request \<Rightarrow> project list handler" where
  "branch_list_h E r w = (case uuid_parse E (rq_param r ''id'') of
      None \<Rightarrow> write_err 400 ''bad project id'' w
    | Some parentID \<Rightarrow> (case branch_List E parentID w of
        (Inl e, w) \<Rightarrow> write_err 500 (err_text e) w
      | (Inr children, w) \<Rightarrow> write_ok 200 children w))"

definition branch_sync_h :: "env \<Rightarrow> request \<Rightarrow> unit handler" where
  "branch_sync_h E r w = (case uuid_parse E (rq_param r ''id'') of
      None \<Rightarrow> write_err 400 ''bad project id'' w
    | Some childID \<Rightarrow>
       let (tables, wipe) = (case rq_body r of None \<Rightarrow> ([], False) | Some b \<Rightarrow> snd (json_sync E b))
       in (case branch_Sync E childID \<lparr>so_tables = tables, so_truncate = wipe\<rparr> w of
          (Inl e, w) \<Rightarrow> write_err 500 (err_text e) w
        | (Inr _, w) \<Rightarrow> write_ok 204 () w))"

section \<open>Lemmas: copies only add rows\<close>

abbreviation change_log :: string where "change_log \<equiv> ''pwrap_change_log''"

text \<open>Beyond the listed tables of a schema nothing changes, and these only get more rows.\<close>

definition more_rows :: "ttable option \<Rightarrow> ttable option \<Rightarrow> bool" where
  "more_rows = rel_option (\<lambda>a a'. \<exists>more. a' = a\<lparr>tt_rows := tt_rows a @ more\<rparr>)"

definition grown :: "string \<Rightarrow> string set \<Rightarrow> pg \<Rightarrow> pg \<Rightarrow> bool" where
  "grown s X c c' \<longleftrightarrow> (\<exists>f. c' = c\<lparr>pg_tables := f\<rparr> \<and>
     (\<forall>s' t. s' \<noteq> s \<or> t \<notin> X \<longrightarrow> f s' t = pg_tables c s' t) \<and> (\<forall>t. more_rows (pg_tables c s t) (f s t)))"

text \<open>
  The baseline's row triggers, as documented there: each inserted row adds a row to the change log
  of its own schema, and there is nothing to do without rows.
\<close>

definition triggers_ok :: "env \<Rightarrow> bool" where
  "triggers_ok E \<longleftrightarrow> (\<forall>s t ins c c'. on_insert E s t ins c = Inr c' \<longrightarrow> grown s {change_log} c c') \<and>
     (\<forall>s t c. on_insert E s t [] c = Inr c)"

lemma more_rows_refl [simp]: "more_rows x x"
  by (cases x) (auto simp: more_rows_def intro: exI [of _ "[]"])

lemma more_rows_trans: "more_rows x y \<Longrightarrow> more_rows y z \<Longrightarrow> more_rows x z"
  by (cases x; cases y; cases z) (auto simp: more_rows_def)

lemma more_rows_None: "more_rows x y \<Longrightarrow> x = None \<longleftrightarrow> y = None"
  by (cases x; cases y) (auto simp: more_rows_def)

lemma grown_refl [simp]: "grown s X c c"
  by (auto simp: grown_def intro!: exI [of _ "pg_tables c"])

lemma grown_trans:
  assumes "grown s X c d" "grown s Y d e" "X \<subseteq> Z" "Y \<subseteq> Z"
  shows "grown s Z c e"
proof -
  from assms(1) obtain f where f: "d = c\<lparr>pg_tables := f\<rparr>" "\<forall>s' t. s' \<noteq> s \<or> t \<notin> X \<longrightarrow> f s' t = pg_tables c s' t"
    "\<forall>t. more_rows (pg_tables c s t) (f s t)" by (auto simp: grown_def)
  from assms(2) obtain g where g: "e = d\<lparr>pg_tables := g\<rparr>" "\<forall>s' t. s' \<noteq> s \<or> t \<notin> Y \<longrightarrow> g s' t = pg_tables d s' t"
    "\<forall>t. more_rows (pg_tables d s t) (g s t)" by (auto simp: grown_def)
  have "more_rows (pg_tables c s t) (g s t)" for t
    using f(1,3) g(3) more_rows_trans [of "pg_tables c s t" "f s t" "g s t"] by simp
  moreover have "g s' t = pg_tables c s' t" if "s' \<noteq> s \<or> t \<notin> Z" for s' t
    using f(1,2) g(2) that assms(3,4) by (metis pg.select_convs(3) pg.surjective pg.update_convs(3) subsetD)
  ultimately show ?thesis using f(1) g(1) by (auto simp: grown_def)
qed

lemma grownD:
  assumes "grown s X c c'"
  shows "s' \<noteq> s \<or> t \<notin> X \<Longrightarrow> pg_tables c' s' t = pg_tables c s' t" "more_rows (pg_tables c s t) (pg_tables c' s t)"
  using assms by (auto simp: grown_def)

lemma grown_exists: "grown s X c c' \<Longrightarrow> pg_tables c' s' t = None \<longleftrightarrow> pg_tables c s' t = None"
  using grownD [of s X c c'] more_rows_None by (cases "s' = s") (auto, blast+)

lemma grown_set_table:
  "pg_tables c s t = Some a \<Longrightarrow> grown s {t} c (set_table s t (a\<lparr>tt_rows := tt_rows a @ ins\<rparr>) c)"
  by (auto simp: grown_def set_table_def more_rows_def intro!: exI [of _ "(pg_tables c)(s := (pg_tables c s)(t \<mapsto> a\<lparr>tt_rows := tt_rows a @ ins\<rparr>))"])
    (metis more_rows_def more_rows_refl)+

lemma conflict_rows [simp]: "conflict (a\<lparr>tt_rows := rs\<rparr>) = conflict a"
  by (simp add: conflict_def [abs_def] field_def [abs_def] cong: if_cong)

lemma fill_rows [simp]: "fill (a\<lparr>tt_rows := rs\<rparr>) = fill a"
  by (simp add: fill_def [abs_def])

lemma insert_rows_saturates:
  assumes "insert_rows a col rs ins = Inr out" "\<forall>r \<in> set rs. field a r col \<noteq> None"
  shows "(\<exists>more. out = ins @ more) \<and> (\<forall>r \<in> set rs. list_ex (conflict a [col] r) (tt_rows a @ out))"
  using assms
proof (induction a col rs ins rule: insert_rows.induct)
  case (2 tbl col r rs ins)
  show ?case
  proof (cases "list_ex (conflict tbl [col] r) (tt_rows tbl @ ins)")
    case True
    with 2 show ?thesis by auto
  next
    case False
    with 2(3) have nu: "\<not> list_ex (\<lambda>u. list_ex (conflict tbl u r) (tt_rows tbl @ ins)) (tt_uniq tbl)"
      and o: "insert_rows tbl col rs (ins @ [r]) = Inr out" by (auto split: if_splits)
    have "conflict tbl [col] r r" using 2(4) by (simp add: conflict_def)
    with 2(2) [OF False nu o] 2(4) show ?thesis by auto
  qed
qed simp

lemma insert_rows_present:
  "\<forall>r \<in> set rs. list_ex (conflict a [col] r) (tt_rows a @ ins) \<Longrightarrow> insert_rows a col rs ins = Inr ins"
  by (induction rs) auto

text \<open>Into an empty table, rows that do not conflict with each other all go.\<close>

lemma insert_rows_all:
  assumes "tt_rows a = []" "\<forall>u \<in> insert [col] (set (tt_uniq a)). sorted_wrt (\<lambda>r r'. \<not> conflict a u r' r) (ins @ rs)"
  shows "insert_rows a col rs ins = Inr (ins @ rs)"
  using assms
proof (induction rs arbitrary: ins)
  case (Cons r rs)
  then have "\<not> conflict a u r x" if "x \<in> set ins" "u \<in> insert [col] (set (tt_uniq a))" for x u
    using that by (auto simp: sorted_wrt_append)
  then have "\<not> list_ex (conflict a [col] r) (tt_rows a @ ins)"
    "\<not> list_ex (\<lambda>u. list_ex (conflict a u r) (tt_rows a @ ins)) (tt_uniq a)"
    using Cons.prems(1) by (auto simp: list_ex_iff)
  with Cons.IH [of "ins @ [r]"] Cons.prems show ?case by simp
qed simp

section \<open>One copy statement\<close>

definition saturated :: "string \<Rightarrow> string \<Rightarrow> string \<Rightarrow> pg \<Rightarrow> bool" where
  "saturated from to t c \<longleftrightarrow> (\<forall>a b. pg_tables c to t = Some a \<and> pg_tables c from t = Some b \<longrightarrow>
     length (tt_cols b) \<le> length (tt_cols a) \<and> [conflictCol t] \<in> set (tt_uniq a) \<and>
     (\<forall>r \<in> set (tt_rows b). list_ex (conflict a [conflictCol t] (fill a r)) (tt_rows a)))"

text \<open>Every row to copy has a value in the conflict column.\<close>

definition keyed :: "string \<Rightarrow> string \<Rightarrow> string \<Rightarrow> pg \<Rightarrow> bool" where
  "keyed from to t c \<longleftrightarrow> (\<forall>a b. pg_tables c to t = Some a \<and> pg_tables c from t = Some b \<longrightarrow>
     (\<forall>r \<in> set (tt_rows b). field a (fill a r) (conflictCol t) \<noteq> None))"

lemma grown_source: "grown to X c c' \<Longrightarrow> from \<noteq> to \<Longrightarrow> pg_tables c' from = pg_tables c from"
  using grownD(1) [of to X c c' "from"] by blast

lemma grown_target:
  assumes "grown to X c c'" "pg_tables c' to t = Some a'"
  obtains a more where "pg_tables c to t = Some a" "a' = a\<lparr>tt_rows := tt_rows a @ more\<rparr>"
  using grownD(2) [OF assms(1), of t] assms(2) by (cases "pg_tables c to t") (auto simp: more_rows_def)

lemma saturated_grown:
  assumes "saturated from to t c" "grown to X c c'" "from \<noteq> to"
  shows "saturated from to t c'"
  unfolding saturated_def
proof (intro allI impI, elim conjE)
  fix a' b assume a': "pg_tables c' to t = Some a'" and b: "pg_tables c' from t = Some b"
  from grown_target [OF assms(2) a'] obtain a more where a: "pg_tables c to t = Some a"
    "a' = a\<lparr>tt_rows := tt_rows a @ more\<rparr>" .
  from assms(1) a(1) b grown_source [OF assms(2,3)] have "length (tt_cols b) \<le> length (tt_cols a) \<and>
      [conflictCol t] \<in> set (tt_uniq a) \<and>
      (\<forall>r \<in> set (tt_rows b). list_ex (conflict a [conflictCol t] (fill a r)) (tt_rows a))"
    by (simp add: saturated_def)
  with a(2) show "length (tt_cols b) \<le> length (tt_cols a') \<and> [conflictCol t] \<in> set (tt_uniq a') \<and>
      (\<forall>r \<in> set (tt_rows b). list_ex (conflict a' [conflictCol t] (fill a' r)) (tt_rows a'))"
    by auto
qed

lemma keyed_grown:
  assumes "keyed from to t c" "grown to X c c'" "from \<noteq> to"
  shows "keyed from to t c'"
  unfolding keyed_def
proof (intro allI impI, elim conjE)
  fix a' b assume a': "pg_tables c' to t = Some a'" and b: "pg_tables c' from t = Some b"
  from grown_target [OF assms(2) a'] obtain a more where a: "pg_tables c to t = Some a"
    "a' = a\<lparr>tt_rows := tt_rows a @ more\<rparr>" .
  from assms(1) a(1) b grown_source [OF assms(2,3)] a(2)
  show "\<forall>r \<in> set (tt_rows b). field a' (fill a' r) (conflictCol t) \<noteq> None"
    by (simp add: keyed_def field_def)
qed

lemma exec_copy_Inr:
  assumes "exec_copy E to t from col c = Inr c'" "length to \<le> 63" "length from \<le> 63"
  obtains a b ins where "pg_tables c to t = Some a" "pg_tables c from t = Some b"
    "length (tt_cols b) \<le> length (tt_cols a)" "[col] \<in> set (tt_uniq a)"
    "insert_rows a col (map (fill a) (tt_rows b)) [] = Inr ins"
    "on_insert E to t ins (set_table to t (a\<lparr>tt_rows := tt_rows a @ ins\<rparr>) c) = Inr c'"
  using assms by (auto simp: exec_copy_def trunc_id not_less split: option.splits if_splits sum.splits)

lemma exec_copy_grown:
  assumes "exec_copy E to t from col c = Inr c'" "length to \<le> 63" "length from \<le> 63" "triggers_ok E"
  shows "grown to {t, change_log} c c'"
proof -
  obtain a b ins where x: "pg_tables c to t = Some a" "pg_tables c from t = Some b"
    "length (tt_cols b) \<le> length (tt_cols a)" "[col] \<in> set (tt_uniq a)"
    "insert_rows a col (map (fill a) (tt_rows b)) [] = Inr ins"
    "on_insert E to t ins (set_table to t (a\<lparr>tt_rows := tt_rows a @ ins\<rparr>) c) = Inr c'"
    by (rule exec_copy_Inr [OF assms(1-3)])
  from assms(4) x(6) have "grown to {change_log} (set_table to t (a\<lparr>tt_rows := tt_rows a @ ins\<rparr>) c) c'"
    by (auto simp: triggers_ok_def)
  with grown_set_table [OF x(1)] show ?thesis by (rule grown_trans) auto
qed

lemma exec_copy_saturates:
  assumes "exec_copy E to t from (conflictCol t) c = Inr c'" "length to \<le> 63" "length from \<le> 63" "triggers_ok E"
    and "from \<noteq> to" "t \<noteq> change_log" "keyed from to t c"
  shows "saturated from to t c'"
proof -
  obtain a b ins where x: "pg_tables c to t = Some a" "pg_tables c from t = Some b"
    "length (tt_cols b) \<le> length (tt_cols a)" "[conflictCol t] \<in> set (tt_uniq a)"
    "insert_rows a (conflictCol t) (map (fill a) (tt_rows b)) [] = Inr ins"
    "on_insert E to t ins (set_table to t (a\<lparr>tt_rows := tt_rows a @ ins\<rparr>) c) = Inr c'"
    by (rule exec_copy_Inr [OF assms(1-3)])
  from assms(4) x(6) have g: "grown to {change_log} (set_table to t (a\<lparr>tt_rows := tt_rows a @ ins\<rparr>) c) c'"
    by (auto simp: triggers_ok_def)
  have "\<forall>r \<in> set (map (fill a) (tt_rows b)). field a r (conflictCol t) \<noteq> None"
    using assms(7) x(1,2) by (auto simp: keyed_def)
  from insert_rows_saturates [OF x(5) this] x assms(5)
  have "saturated from to t (set_table to t (a\<lparr>tt_rows := tt_rows a @ ins\<rparr>) c)"
    by (auto simp: saturated_def set_table_def)
  from saturated_grown [OF this g assms(5)] show ?thesis .
qed

lemma exec_copy_saturated:
  assumes "saturated from to t c" "length to \<le> 63" "length from \<le> 63" "triggers_ok E"
    and "pg_tables c to t \<noteq> None" "pg_tables c from t \<noteq> None"
  shows "exec_copy E to t from (conflictCol t) c = Inr c"
proof -
  from assms(5,6) obtain a b where x: "pg_tables c to t = Some a" "pg_tables c from t = Some b" by auto
  from assms(1) x have s: "length (tt_cols b) \<le> length (tt_cols a)" "[conflictCol t] \<in> set (tt_uniq a)"
    "\<forall>r \<in> set (map (fill a) (tt_rows b)). list_ex (conflict a [conflictCol t] r) (tt_rows a @ [])"
    by (auto simp: saturated_def)
  have "set_table to t a c = c" using x(1) by (simp add: set_table_def fun_upd_idem)
  with x s assms(2-4) insert_rows_present [OF s(3)] show ?thesis
    by (simp add: exec_copy_def trunc_id triggers_ok_def)
qed

section \<open>The loops\<close>

lemma on_pg_Inr:
  "on_pg E f w = (Inr u, w') \<longleftrightarrow> flt E (tick w) = None \<and>
     (\<exists>c. f (pg (wdb w)) = Inr c \<and> w' = w\<lparr>tick := Suc (tick w), wdb := (wdb w)\<lparr>pg := c\<rparr>\<rparr>)"
  by (auto simp: on_pg_def sql_Inr split: sum.splits)

lemma on_pg_Inl: "on_pg E f w = (Inl e, w') \<Longrightarrow> wdb w' = wdb w"
  by (auto simp: on_pg_def sql_Inl_wdb)

definition in_both :: "string \<Rightarrow> string \<Rightarrow> string \<Rightarrow> pg \<Rightarrow> bool" where
  "in_both from to t c \<longleftrightarrow> pg_tables c from t \<noteq> None \<and> pg_tables c to t \<noteq> None"

lemma both_iff:
  "from \<noteq> to \<Longrightarrow> tableExistsInBoth E from to t w = (Inr b, w') \<longleftrightarrow> flt E (tick w) = None \<and>
     w' = w\<lparr>tick := Suc (tick w)\<rparr> \<and>
     b = in_both from to t (pg (wdb w))"
  by (auto simp: tableExistsInBoth_def query_Inr in_both_def)

lemmas copy_step = and_then_Inr wrap_err_Inr on_pg_Inr both_iff

text \<open>Two different schemas with names as the catalogue has them.\<close>

definition two_schemas :: "string \<Rightarrow> string \<Rightarrow> bool" where
  "two_schemas from to \<longleftrightarrow> from \<noteq> to \<and> length from \<le> 63 \<and> length to \<le> 63"

lemma copyData_Cons:
  assumes "copyData E from to (t # ts) w = (Inr u, w')" "two_schemas from to" "triggers_ok E"
  obtains w1 where "validateIdent t = Inr ()" "copyData E from to ts w1 = (Inr u, w')"
    "\<exists>c. wdb w1 = (wdb w)\<lparr>pg := c\<rparr>" "grown to {t, change_log} (pg (wdb w)) (pg (wdb w1))"
    "in_both from to t (pg (wdb w)) \<longrightarrow>
       exec_copy E to t from (conflictCol t) (pg (wdb w)) = Inr (pg (wdb w1))"
    "\<not> in_both from to t (pg (wdb w)) \<longrightarrow> pg (wdb w1) = pg (wdb w)"
proof -
  from assms(1) have v: "validateIdent t = Inr ()" by (cases "validateIdent t") auto
  let ?both = "in_both from to t (pg (wdb w))"
  have ne: "from \<noteq> to" "length to \<le> 63" "length from \<le> 63" using assms(2) by (simp_all add: two_schemas_def)
  let ?k = "\<lambda>b w. if \<not> b then copyData E from to ts w
    else and_then (wrap_err (''copy '' @ from @ ''.'' @ t @ '' -> '' @ to @ ''.'' @ t @ '': '')
      (on_pg E (exec_copy E to t from (conflictCol t)) w)) (\<lambda>_. copyData E from to ts)"
  from assms(1) v have "and_then (tableExistsInBoth E from to t w) ?k = (Inr u, w')" by simp
  then obtain b w0 where "tableExistsInBoth E from to t w = (Inr b, w0)" "?k b w0 = (Inr u, w')"
    unfolding and_then_Inr by blast
  then have w0: "wdb w0 = wdb w" "?k ?both w0 = (Inr u, w')"
    using both_iff [OF ne(1), of E t w b w0] by simp_all
  show ?thesis
  proof (cases ?both)
    case False
    have "wdb w0 = (wdb w)\<lparr>pg := pg (wdb w)\<rparr>" using w0(1) by simp
    then have "\<exists>c. wdb w0 = (wdb w)\<lparr>pg := c\<rparr>" by blast
    moreover have "copyData E from to ts w0 = (Inr u, w')" using w0(2) False by argo
    ultimately show ?thesis by (intro that [of w0]) (use v w0(1) False in simp_all)
  next
    case True
    from w0(2) True have "and_then (wrap_err (''copy '' @ from @ ''.'' @ t @ '' -> '' @ to @ ''.'' @ t @ '': '')
        (on_pg E (exec_copy E to t from (conflictCol t)) w0)) (\<lambda>_. copyData E from to ts) = (Inr u, w')" by argo
    then obtain w1 c where c: "exec_copy E to t from (conflictCol t) (pg (wdb w)) = Inr c"
      "w1 = w0\<lparr>tick := Suc (tick w0), wdb := (wdb w)\<lparr>pg := c\<rparr>\<rparr>" "copyData E from to ts w1 = (Inr u, w')"
      using w0(1) by (auto simp: and_then_Inr wrap_err_Inr on_pg_Inr)
    from exec_copy_grown [OF c(1) ne(2,3) assms(3)] have g: "grown to {t, change_log} (pg (wdb w)) c" .
    have "\<exists>c. wdb w1 = (wdb w)\<lparr>pg := c\<rparr>" using c(2) by auto
    with v c g True show ?thesis by (intro that [of w1]) simp_all
  qed
qed

lemma copyData_grown:
  assumes "copyData E from to ts w = (Inr u, w')" "two_schemas from to" "triggers_ok E"
  shows "(\<exists>c. wdb w' = (wdb w)\<lparr>pg := c\<rparr>) \<and> grown to (insert change_log (set ts)) (pg (wdb w)) (pg (wdb w'))"
  using assms(1)
proof (induction ts arbitrary: w)
  case Nil
  then show ?case by (auto intro: exI [of _ "pg (wdb w)"])
next
  case (Cons t ts)
  let ?both = "in_both from to t (pg (wdb w))"
  obtain w1 where s: "validateIdent t = Inr ()" "copyData E from to ts w1 = (Inr u, w')"
    "\<exists>c. wdb w1 = (wdb w)\<lparr>pg := c\<rparr>" "grown to {t, change_log} (pg (wdb w)) (pg (wdb w1))"
    "?both \<longrightarrow> exec_copy E to t from (conflictCol t) (pg (wdb w)) = Inr (pg (wdb w1))"
    "\<not> ?both \<longrightarrow> pg (wdb w1) = pg (wdb w)"
    by (rule copyData_Cons [OF Cons.prems assms(2,3)])
  from Cons.IH [OF s(2)] have IH: "\<exists>c. wdb w' = (wdb w1)\<lparr>pg := c\<rparr>"
    "grown to (insert change_log (set ts)) (pg (wdb w1)) (pg (wdb w'))" by blast+
  have "grown to (insert change_log (set (t # ts))) (pg (wdb w)) (pg (wdb w'))"
    by (rule grown_trans [OF s(4) IH(2)]) auto
  moreover from s(3) IH(1) have "\<exists>c. wdb w' = (wdb w)\<lparr>pg := c\<rparr>" by auto
  ultimately show ?case by blast
qed

lemma copyData_saturates:
  assumes "copyData E from to ts w = (Inr u, w')" "two_schemas from to" "triggers_ok E"
    and "change_log \<notin> set ts" "\<forall>t \<in> set ts. keyed from to t (pg (wdb w))"
  shows "\<forall>t \<in> set ts. validateIdent t = Inr () \<and> saturated from to t (pg (wdb w'))"
  using assms(1,4,5)
proof (induction ts arbitrary: w)
  case (Cons t ts)
  have ne: "from \<noteq> to" "length to \<le> 63" "length from \<le> 63" using assms(2) by (simp_all add: two_schemas_def)
  let ?both = "in_both from to t (pg (wdb w))"
  obtain w1 where s: "validateIdent t = Inr ()" "copyData E from to ts w1 = (Inr u, w')"
    "\<exists>c. wdb w1 = (wdb w)\<lparr>pg := c\<rparr>" "grown to {t, change_log} (pg (wdb w)) (pg (wdb w1))"
    "?both \<longrightarrow> exec_copy E to t from (conflictCol t) (pg (wdb w)) = Inr (pg (wdb w1))"
    "\<not> ?both \<longrightarrow> pg (wdb w1) = pg (wdb w)"
    by (rule copyData_Cons [OF Cons.prems(1) assms(2,3)])
  have "\<forall>t \<in> set ts. keyed from to t (pg (wdb w1))"
    using Cons.prems(3) keyed_grown [OF _ s(4) ne(1)] by simp
  with Cons.IH [OF s(2)] Cons.prems(2) have IH: "\<forall>t \<in> set ts. validateIdent t = Inr () \<and> saturated from to t (pg (wdb w'))"
    by simp
  have "saturated from to t (pg (wdb w1))"
  proof (cases ?both)
    case True
    from exec_copy_saturates [OF s(5) [THEN mp, OF True] ne(2,3) assms(3) ne(1)] Cons.prems(2,3) show ?thesis by auto
  next
    case False
    with s(6) show ?thesis by (auto simp: saturated_def in_both_def)
  qed
  with saturated_grown [OF _ _ ne(1)] copyData_grown [OF s(2) assms(2,3)]
  have "saturated from to t (pg (wdb w'))" by blast
  with IH s(1) show ?case by simp
qed simp

text \<open>With everything copied already, a run of copies that meets no failure changes nothing.\<close>

lemma copyData_saturated:
  assumes "\<forall>t \<in> set ts. validateIdent t = Inr () \<and> saturated from to t (pg (wdb w))" "two_schemas from to"
    and "triggers_ok E" "\<forall>n. flt E n = None"
  shows "\<exists>w'. copyData E from to ts w = (Inr (), w') \<and> wdb w' = wdb w"
  using assms(1)
proof (induction ts arbitrary: w)
  case (Cons t ts)
  have ne: "from \<noteq> to" "length to \<le> 63" "length from \<le> 63" using assms(2) by (simp_all add: two_schemas_def)
  let ?both = "in_both from to t (pg (wdb w))"
  define w1 where "w1 = w\<lparr>tick := Suc (tick w)\<rparr>"
  have b: "tableExistsInBoth E from to t w = (Inr ?both, w1)"
    using assms(4) by (simp add: both_iff [OF ne(1)] w1_def)
  have v: "validateIdent t = Inr ()" using Cons.prems by simp
  show ?case
  proof (cases ?both)
    case False
    have "\<forall>t \<in> set ts. validateIdent t = Inr () \<and> saturated from to t (pg (wdb w1))"
      using Cons.prems by (simp add: w1_def)
    from Cons.IH [OF this] obtain w' where "copyData E from to ts w1 = (Inr (), w')" "wdb w' = wdb w1" by blast
    moreover from this False b v have "copyData E from to (t # ts) w = (Inr (), w')" by simp
    ultimately show ?thesis by (auto simp: w1_def)
  next
    case True
    have "exec_copy E to t from (conflictCol t) (pg (wdb w)) = Inr (pg (wdb w))"
      using exec_copy_saturated [OF _ ne(2,3) assms(3)] Cons.prems True by (simp add: in_both_def)
    then have o: "on_pg E (exec_copy E to t from (conflictCol t)) w1 = (Inr (), w1\<lparr>tick := Suc (tick w1)\<rparr>)"
      using assms(4) by (simp add: on_pg_Inr w1_def)
    have "\<forall>t \<in> set ts. validateIdent t = Inr () \<and> saturated from to t (pg (wdb (w1\<lparr>tick := Suc (tick w1)\<rparr>)))"
      using Cons.prems by (simp add: w1_def)
    from Cons.IH [OF this] obtain w' where
      "copyData E from to ts (w1\<lparr>tick := Suc (tick w1)\<rparr>) = (Inr (), w')" "wdb w' = wdb w1" by auto
    moreover from this True b v o have "copyData E from to (t # ts) w = (Inr (), w')" by simp
    ultimately show ?thesis by (auto simp: w1_def)
  qed
qed simp

section \<open>Truncation and snapshots\<close>

text \<open>Foreign keys stay inside their schema: a tenant has no privileges on another tenant's tables.\<close>

definition own_refs :: "pg \<Rightarrow> bool" where
  "own_refs c \<longleftrightarrow> (\<forall>s t tbl. pg_tables c s t = Some tbl \<longrightarrow> fst ` set (tt_refs tbl) \<subseteq> {s})"

abbreviation emptied_table :: "ttable option \<Rightarrow> ttable option" where
  "emptied_table \<equiv> map_option (\<lambda>tbl. tbl\<lparr>tt_rows := []\<rparr>)"

definition emptied :: "string \<Rightarrow> string set \<Rightarrow> pg \<Rightarrow> pg \<Rightarrow> bool" where
  "emptied s X c c' \<longleftrightarrow> (\<exists>f. c' = c\<lparr>pg_tables := f\<rparr> \<and> (\<forall>s' t. s' \<noteq> s \<longrightarrow> f s' t = pg_tables c s' t) \<and>
     (\<forall>t. f s t = pg_tables c s t \<or> f s t = emptied_table (pg_tables c s t)) \<and>
     (\<forall>t \<in> X. f s t = emptied_table (pg_tables c s t)))"

lemma emptied_refl [simp]: "emptied s {} c c"
  by (auto simp: emptied_def intro!: exI [of _ "pg_tables c"])

lemma emptied_twice [simp]: "emptied_table (emptied_table x) = emptied_table x"
  by (cases x) auto

lemma emptiedD:
  assumes "emptied s X c c'"
  shows "s' \<noteq> s \<Longrightarrow> pg_tables c' s' t = pg_tables c s' t"
    "pg_tables c' s t = pg_tables c s t \<or> pg_tables c' s t = emptied_table (pg_tables c s t)"
    "t \<in> X \<Longrightarrow> pg_tables c' s t = emptied_table (pg_tables c s t)"
  using assms by (auto simp: emptied_def)

lemma emptied_trans:
  assumes "emptied s X c d" "emptied s Y d e"
  shows "emptied s (X \<union> Y) c e"
proof -
  have e: "e = c\<lparr>pg_tables := pg_tables e\<rparr>" using assms by (auto simp: emptied_def)
  have x: "pg_tables e s t = emptied_table (pg_tables c s t)" if "t \<in> X \<union> Y" for t
    using emptiedD(2,3) [OF assms(1), of t] emptiedD(2,3) [OF assms(2), of t] that by auto
  have y: "pg_tables e s t = pg_tables c s t \<or> pg_tables e s t = emptied_table (pg_tables c s t)" for t
    using emptiedD(2) [OF assms(1), of t] emptiedD(2) [OF assms(2), of t] by auto
  have z: "pg_tables e s' t = pg_tables c s' t" if "s' \<noteq> s" for s' t
    using emptiedD(1) [OF assms(1)] emptiedD(1) [OF assms(2)] that by simp
  show ?thesis unfolding emptied_def
    by (intro exI [of _ "pg_tables e"] conjI e allI ballI impI) (use x y z in auto)
qed

lemma cascades_own: "cascades c a b \<Longrightarrow> own_refs c \<Longrightarrow> fst b = fst a"
  by (induction rule: cascades.induct) (force simp: own_refs_def)+

lemma exec_truncate_emptied:
  assumes "exec_truncate s t c = Inr c'" "own_refs c" "length s \<le> 63"
  shows "emptied s {t} c c'"
proof -
  let ?f = "\<lambda>s' t'. if cascades c (s, t) (s', t') then emptied_table (pg_tables c s' t') else pg_tables c s' t'"
  from assms(1,3) have c': "c' = c\<lparr>pg_tables := ?f\<rparr>"
    by (auto simp: exec_truncate_def trunc_id split: if_splits)
  have "?f s' t' = pg_tables c s' t'" if "s' \<noteq> s" for s' t'
    using cascades_own [OF _ assms(2), of "(s, t)" "(s', t')"] that by auto
  moreover have "?f s t = emptied_table (pg_tables c s t)" by (simp add: cascades.itself)
  ultimately show ?thesis unfolding emptied_def c' by (intro exI [of _ ?f]) auto
qed

lemma own_refs_emptied: "own_refs c \<Longrightarrow> emptied s X c c' \<Longrightarrow> own_refs c'"
proof -
  assume o: "own_refs c" and e: "emptied s X c c'"
  have "\<exists>tbl0. pg_tables c s' t = Some tbl0 \<and> tt_refs tbl0 = tt_refs tbl" if "pg_tables c' s' t = Some tbl" for s' t tbl
    using emptiedD(1) [OF e, of s' t] emptiedD(2) [OF e, of t] that by (cases "s' = s"; cases "pg_tables c s' t") auto
  with o show "own_refs c'" unfolding own_refs_def by metis
qed

lemma truncate_emptied:
  assumes "truncate_tables E s ts w = (Inr u, w')" "own_refs (pg (wdb w))" "length s \<le> 63"
  shows "emptied s (set ts) (pg (wdb w)) (pg (wdb w')) \<and> (\<exists>c. wdb w' = (wdb w)\<lparr>pg := c\<rparr>)"
  using assms(1,2)
proof (induction ts arbitrary: w)
  case Nil
  then show ?case by (auto intro: exI [of _ "pg (wdb w)"])
next
  case (Cons t ts)
  from Cons.prems(1) have "validateIdent t = Inr ()" by (cases "validateIdent t") auto
  with Cons.prems(1) obtain b w0 where b: "tableExists E s t w = (Inr b, w0)"
    "(if \<not> b then truncate_tables E s ts w0 else and_then (wrap_err (''truncate '' @ s @ ''.'' @ t @ '': '')
       (on_pg E (exec_truncate s t) w0)) (\<lambda>_. truncate_tables E s ts)) = (Inr u, w')"
    by (auto simp: and_then_Inr simp del: append.simps)
  then have w0: "wdb w0 = wdb w" "b = (pg_tables (pg (wdb w)) s t \<noteq> None)"
    by (auto simp: tableExists_def query_Inr)
  obtain w1 where w1: "emptied s {t} (pg (wdb w)) (pg (wdb w1))" "\<exists>c. wdb w1 = (wdb w)\<lparr>pg := c\<rparr>"
    "truncate_tables E s ts w1 = (Inr u, w')"
  proof (cases b)
    case False
    have "emptied s {t} (pg (wdb w)) (pg (wdb w0))" using w0 False by (auto simp: emptied_def intro!: exI [of _ "pg_tables (pg (wdb w))"])
    moreover have "wdb w0 = (wdb w)\<lparr>pg := pg (wdb w)\<rparr>" using w0 by simp
    then have "\<exists>c. wdb w0 = (wdb w)\<lparr>pg := c\<rparr>" by blast
    moreover have "truncate_tables E s ts w0 = (Inr u, w')" using b(2) False by simp
    ultimately show ?thesis by (rule that)
  next
    case True
    with b(2) have "and_then (wrap_err (''truncate '' @ s @ ''.'' @ t @ '': '')
       (on_pg E (exec_truncate s t) w0)) (\<lambda>_. truncate_tables E s ts) = (Inr u, w')" by argo
    then obtain w1 c where "exec_truncate s t (pg (wdb w)) = Inr c"
      "w1 = w0\<lparr>tick := Suc (tick w0), wdb := (wdb w)\<lparr>pg := c\<rparr>\<rparr>" "truncate_tables E s ts w1 = (Inr u, w')"
      using w0 unfolding and_then_Inr wrap_err_Inr on_pg_Inr by fastforce
    with exec_truncate_emptied [OF _ Cons.prems(2) assms(3)] show ?thesis by (intro that [of w1]) auto
  qed
  have "own_refs (pg (wdb w1))" using own_refs_emptied [OF Cons.prems(2) w1(1)] .
  from Cons.IH [OF w1(3) this] have IH: "emptied s (set ts) (pg (wdb w1)) (pg (wdb w'))"
    "\<exists>c. wdb w' = (wdb w1)\<lparr>pg := c\<rparr>" by blast+
  have "emptied s (set (t # ts)) (pg (wdb w)) (pg (wdb w'))"
    using emptied_trans [OF w1(1) IH(1)] by simp
  with w1(2) IH(2) show ?case by auto
qed

text \<open>The parent's rows, as they would be in the child's table, keep its unique constraints.\<close>

definition clean :: "string \<Rightarrow> string \<Rightarrow> string \<Rightarrow> pg \<Rightarrow> bool" where
  "clean from to t c \<longleftrightarrow> (\<forall>a b. pg_tables c to t = Some a \<and> pg_tables c from t = Some b \<longrightarrow>
     (\<forall>u \<in> set (tt_uniq a). sorted_wrt (\<lambda>r r'. \<not> conflict a u r' r) (map (fill a) (tt_rows b))))"

definition empty_at :: "string \<Rightarrow> string \<Rightarrow> pg \<Rightarrow> bool" where
  "empty_at s t c \<longleftrightarrow> (\<forall>a. pg_tables c s t = Some a \<longrightarrow> tt_rows a = [])"

definition snapshot :: "string \<Rightarrow> string \<Rightarrow> string \<Rightarrow> pg \<Rightarrow> bool" where
  "snapshot from to t c \<longleftrightarrow> (\<forall>a b. pg_tables c to t = Some a \<and> pg_tables c from t = Some b \<longrightarrow>
     tt_rows a = map (fill a) (tt_rows b))"

lemma table_cong:
  assumes "pg_tables c' from t = pg_tables c from t" "pg_tables c' to t = pg_tables c to t"
  shows "clean from to t c' = clean from to t c" "snapshot from to t c' = snapshot from to t c"
    "empty_at to t c' = empty_at to t c"
  using assms by (simp_all add: clean_def snapshot_def empty_at_def)

lemma exec_copy_snapshot:
  assumes "exec_copy E to t from (conflictCol t) c = Inr c'" "two_schemas from to" "triggers_ok E" "t \<noteq> change_log"
    and "clean from to t c" "empty_at to t c"
  shows "snapshot from to t c'"
proof -
  have ne: "from \<noteq> to" "length to \<le> 63" "length from \<le> 63" using assms(2) by (simp_all add: two_schemas_def)
  obtain a b ins where x: "pg_tables c to t = Some a" "pg_tables c from t = Some b"
    "length (tt_cols b) \<le> length (tt_cols a)" "[conflictCol t] \<in> set (tt_uniq a)"
    "insert_rows a (conflictCol t) (map (fill a) (tt_rows b)) [] = Inr ins"
    "on_insert E to t ins (set_table to t (a\<lparr>tt_rows := tt_rows a @ ins\<rparr>) c) = Inr c'"
    by (rule exec_copy_Inr [OF assms(1) ne(2,3)])
  have e: "tt_rows a = []" using assms(6) x(1) by (simp add: empty_at_def)
  have "\<forall>u \<in> insert [conflictCol t] (set (tt_uniq a)). sorted_wrt (\<lambda>r r'. \<not> conflict a u r' r) ([] @ map (fill a) (tt_rows b))"
    using assms(5) x(1,2,4) by (auto simp: clean_def)
  from insert_rows_all [OF e this] x(5) have i: "ins = map (fill a) (tt_rows b)" by simp
  have g: "grown to {change_log} (set_table to t (a\<lparr>tt_rows := tt_rows a @ ins\<rparr>) c) c'"
    using assms(3) x(6) by (auto simp: triggers_ok_def)
  have "pg_tables c' to t = Some (a\<lparr>tt_rows := ins\<rparr>)" "pg_tables c' from t = Some b"
    using grownD(1) [OF g] assms(4) ne(1) x(2) e by (simp_all add: set_table_def)
  with i show ?thesis by (simp add: snapshot_def)
qed

lemma copyData_snapshot:
  assumes "copyData E from to ts w = (Inr u, w')" "two_schemas from to" "triggers_ok E"
    and "change_log \<notin> set ts" "distinct ts"
    and "\<forall>t \<in> set ts. clean from to t (pg (wdb w)) \<and> empty_at to t (pg (wdb w))"
  shows "\<forall>t \<in> set ts. snapshot from to t (pg (wdb w'))"
  using assms(1,4-6)
proof (induction ts arbitrary: w)
  case (Cons t ts)
  have ne: "from \<noteq> to" using assms(2) by (simp add: two_schemas_def)
  let ?both = "in_both from to t (pg (wdb w))"
  obtain w1 where s: "validateIdent t = Inr ()" "copyData E from to ts w1 = (Inr u, w')"
    "\<exists>c. wdb w1 = (wdb w)\<lparr>pg := c\<rparr>" "grown to {t, change_log} (pg (wdb w)) (pg (wdb w1))"
    "?both \<longrightarrow> exec_copy E to t from (conflictCol t) (pg (wdb w)) = Inr (pg (wdb w1))"
    "\<not> ?both \<longrightarrow> pg (wdb w1) = pg (wdb w)"
    by (rule copyData_Cons [OF Cons.prems(1) assms(2,3)])
  have same: "pg_tables (pg (wdb w1)) from t' = pg_tables (pg (wdb w)) from t' \<and>
      pg_tables (pg (wdb w1)) to t' = pg_tables (pg (wdb w)) to t'" if "t' \<in> set ts" for t'
    using grownD(1) [OF s(4), of _ t'] that Cons.prems(2,3) ne by auto
  have "\<forall>t \<in> set ts. clean from to t (pg (wdb w1)) \<and> empty_at to t (pg (wdb w1))"
    using same table_cong Cons.prems(4) by (metis list.set_intros(2))
  with Cons.IH [OF s(2)] Cons.prems(2,3) have IH: "\<forall>t \<in> set ts. snapshot from to t (pg (wdb w'))" by simp
  have "snapshot from to t (pg (wdb w1))"
  proof (cases ?both)
    case True
    from exec_copy_snapshot [OF s(5) [THEN mp, OF True] assms(2,3)] Cons.prems(2,4) show ?thesis by auto
  next
    case False
    with s(6) show ?thesis by (auto simp: snapshot_def in_both_def)
  qed
  moreover from copyData_grown [OF s(2) assms(2,3)]
  have g: "grown to (insert change_log (set ts)) (pg (wdb w1)) (pg (wdb w'))" by blast
  have "pg_tables (pg (wdb w')) from t = pg_tables (pg (wdb w1)) from t"
    "pg_tables (pg (wdb w')) to t = pg_tables (pg (wdb w1)) to t"
    using grownD(1) [OF g, of _ t] Cons.prems(2,3) ne by auto
  ultimately have "snapshot from to t (pg (wdb w'))" using table_cong(2) by metis
  with IH show ?case by simp
qed simp

lemma branch_Sync_Inr:
  assumes "branch_Sync E childID opts w = (Inr u, w')"
  obtains p parentID q w1 w2 where
    "select_one (\<lambda>p. p_id p = childID \<and> p_deleted p = None) (projects (wdb w)) = Some p" "p_parent p = Some parentID"
    "select_one (\<lambda>p. p_id p = parentID \<and> p_deleted p = None) (projects (wdb w)) = Some q" "wdb w1 = wdb w"
    "(if so_truncate opts then truncate_tables E (p_schema p) (tables_or_default (so_tables opts)) w1 else (Inr (), w1)) = (Inr (), w2)"
    "copyData E (p_schema q) (p_schema p) (tables_or_default (so_tables opts)) w2 = (Inr u, w')"
proof -
  from assms obtain child wc where 1: "projects_Get E childID w = (Inr child, wc)"
    and r: "(case pr_parent child of None \<Rightarrow> (Inl (Msg no_parent), wc)
      | Some parentID \<Rightarrow> and_then (wrap_err ''parent: '' (projects_Get E parentID wc)) (\<lambda>parent w.
          let tables = tables_or_default (so_tables opts) in
          and_then (if so_truncate opts then truncate_tables E (pr_schema child) tables w else (Inr (), w)) (\<lambda>_ w.
          copyData E (pr_schema parent) (pr_schema child) tables w))) = (Inr u, w')"
    unfolding branch_Sync_def and_then_Inr wrap_err_Inr by blast
  then obtain parentID where pid: "pr_parent child = Some parentID" by (cases "pr_parent child") simp_all
  from r obtain parent wp where 2: "projects_Get E parentID wc = (Inr parent, wp)"
    and "and_then (if so_truncate opts then truncate_tables E (pr_schema child) (tables_or_default (so_tables opts)) wp
        else (Inr (), wp)) (\<lambda>_ w. copyData E (pr_schema parent) (pr_schema child) (tables_or_default (so_tables opts)) w) = (Inr u, w')"
    unfolding pid option.case and_then_Inr wrap_err_Inr Let_def by blast
  then obtain w2 where 3: "(if so_truncate opts then truncate_tables E (pr_schema child) (tables_or_default (so_tables opts)) wp
      else (Inr (), wp)) = (Inr (), w2)"
    "copyData E (pr_schema parent) (pr_schema child) (tables_or_default (so_tables opts)) w2 = (Inr u, w')"
    unfolding and_then_Inr by auto
  from 1 obtain p where p: "select_one (\<lambda>p. p_id p = childID \<and> p_deleted p = None) (projects (wdb w)) = Some p"
    "child = project_columns p" "wdb wc = wdb w" by (auto simp: projects_Get_Inr)
  from 2 obtain q where q: "select_one (\<lambda>p. p_id p = parentID \<and> p_deleted p = None) (projects (wdb wc)) = Some q"
    "parent = project_columns q" "wdb wp = wdb wc" by (auto simp: projects_Get_Inr)
  have sch: "pr_schema child = p_schema p" "pr_schema parent = p_schema q" "p_parent p = Some parentID"
    using p(2) q(2) pid by (simp_all add: project_columns_def)
  from q(1,3) p(3) have q': "select_one (\<lambda>p. p_id p = parentID \<and> p_deleted p = None) (projects (wdb w)) = Some q"
    "wdb wp = wdb w" by simp_all
  show ?thesis by (rule that [OF p(1) sch(3) q' 3 [unfolded sch]])
qed

lemma copyData_frame: "copyData E from to ts w = (r, w') \<Longrightarrow> \<exists>c. wdb w' = (wdb w)\<lparr>pg := c\<rparr>"
proof (induction ts arbitrary: w)
  case Nil
  then show ?case by (auto intro: exI [of _ "pg (wdb w)"])
next
  case (Cons t ts)
  have here: "\<exists>c. wdb w = (wdb w)\<lparr>pg := c\<rparr>" by (rule exI [of _ "pg (wdb w)"]) simp
  show ?case
  proof (cases "validateIdent t")
    case (Inl e)
    with Cons.prems here show ?thesis by auto
  next
    case (Inr u)
    obtain b w0 where b: "tableExistsInBoth E from to t w = (b, w0)" by fastforce
    then have w0: "wdb w0 = wdb w" unfolding tableExistsInBoth_def by (rule query_wdb)
    obtain o1 w1 where o1: "on_pg E (exec_copy E to t from (conflictCol t)) w0 = (o1, w1)" by fastforce
    have w1: "\<exists>c. wdb w1 = (wdb w)\<lparr>pg := c\<rparr>"
      using o1 w0 here on_pg_Inl by (cases o1) (auto simp: on_pg_Inr)
    from Cons.prems Inr b o1 consider "w' = w0" | "copyData E from to ts w0 = (r, w')" | "w' = w1"
      | "copyData E from to ts w1 = (r, w')"
      by (cases b; cases o1) (auto split: if_splits)
    then show ?thesis
    proof cases
      case 2
      from Cons.IH [OF this] w0 show ?thesis by simp
    next
      case 4
      from Cons.IH [OF this] w1 show ?thesis by auto
    qed (use w0 w1 here in simp_all)
  qed
qed

lemma apply_migrations_Inr:
  "apply_migrations E R pid w = (Inr u, w') \<longleftrightarrow> (\<exists>entry. mig_Apply E R pid w = (Inr (entry, None), w'))"
  by (auto simp: apply_migrations_def split: prod.splits sum.splits option.splits)

lemma set_parent_Inr:
  "set_parent E a b w = (Inr u, w') \<longleftrightarrow> flt E (tick w) = None \<and> w' = w\<lparr>tick := Suc (tick w), wdb := (wdb w)\<lparr>projects :=
     update_where (\<lambda>p. p_id p = b) (\<lambda>p. p\<lparr>p_parent := Some a, p_updated := db_now E\<rparr>) (projects (wdb w))\<rparr>\<rparr>"
  by (auto simp: set_parent_def sql_Inr)

lemma branch_Create_Inr:
  assumes "branch_Create E B parentID opts w = (Inr child, w')"
  obtains parent child0 w1 w2 w3 w4 w5 entry where "projects_Get E parentID w = (Inr parent, w1)"
    "projects_Create E (bs_projects B) (if co_name opts = [] then pr_slug parent @ ''_branch'' else co_name opts) w1 = (Inr child0, w2)"
    "set_parent E (pr_id parent) (pr_id child0) w2 = (Inr (), w3)" "projects_Get E (pr_id child0) w3 = (Inr child, w4)"
    "mig_Apply E (bs_migrations B) (pr_id child) w4 = (Inr (entry, None), w5)" "\<exists>c. wdb w' = (wdb w5)\<lparr>pg := c\<rparr>"
proof -
  from assms obtain parent child0 w1 w2 w3 w4 w5 child' where 1: "projects_Get E parentID w = (Inr parent, w1)"
    "projects_Create E (bs_projects B) (if co_name opts = [] then pr_slug parent @ ''_branch'' else co_name opts) w1 = (Inr child0, w2)"
    "set_parent E (pr_id parent) (pr_id child0) w2 = (Inr (), w3)" "projects_Get E (pr_id child0) w3 = (Inr child', w4)"
    "apply_migrations E (bs_migrations B) (pr_id child') w4 = (Inr (), w5)"
    and k: "(if co_with_data opts then and_then (wrap_err ''copy data: '' (copyData E (pr_schema parent) (pr_schema child')
            (tables_or_default (co_tables opts)) w5)) (\<lambda>_ w. (Inr child', w)) else (Inr child', w5)) = (Inr child, w')"
    unfolding branch_Create_def Let_def and_then_Inr wrap_err_Inr by (elim exE conjE) simp
  have k2: "child' = child \<and> (\<exists>c. wdb w' = (wdb w5)\<lparr>pg := c\<rparr>)"
  proof (cases "co_with_data opts")
    case True
    with k obtain u where "copyData E (pr_schema parent) (pr_schema child') (tables_or_default (co_tables opts)) w5 = (Inr u, w')"
      "child' = child" by (auto simp: and_then_Inr wrap_err_Inr)
    with copyData_frame show ?thesis by blast
  next
    case False
    with k have "child' = child" "wdb w' = (wdb w5)\<lparr>pg := pg (wdb w5)\<rparr>" by simp_all
    then show ?thesis by blast
  qed
  from 1(5) obtain entry where "mig_Apply E (bs_migrations B) (pr_id child') w4 = (Inr (entry, None), w5)"
    by (auto simp: apply_migrations_Inr)
  with 1 k2 that show ?thesis by blast
qed

section \<open>Properties\<close>

text \<open>
  Copying is idempotent: when a copy of the listed tables succeeded, a second copy from
  the same state that meets no failure succeeds too and changes nothing, however many rows there are; and the
  copy itself only adds rows to the listed tables (and the change log) of the child's schema.
\<close>

lemma copyData_idempotent:
  assumes "copyData E from to ts w = (Inr u, w1)" "two_schemas from to" "triggers_ok E" "change_log \<notin> set ts"
    and "\<forall>t \<in> set ts. keyed from to t (pg (wdb w))" "wdb w2 = wdb w1" "triggers_ok E2" "\<forall>n. flt E2 n = None"
  shows "(\<exists>w3. copyData E2 from to ts w2 = (Inr (), w3) \<and> wdb w3 = wdb w2) \<and>
    (\<exists>c. wdb w1 = (wdb w)\<lparr>pg := c\<rparr>) \<and> grown to (insert change_log (set ts)) (pg (wdb w)) (pg (wdb w1))"
proof -
  have "\<forall>t \<in> set ts. validateIdent t = Inr () \<and> saturated from to t (pg (wdb w2))"
    using copyData_saturates [OF assms(1-5)] assms(6) by simp
  from copyData_saturated [OF this assms(2,7,8)] copyData_grown [OF assms(1-3)] show ?thesis by blast
qed


text \<open>
  The arbiter of a copy is the id column alone: a parent's row whose id the child does
  not have, but whose values the child has on another unique constraint (as \<^verbatim>\<open>(collection, doc_id)\<close> of
  \<^verbatim>\<open>pwrap_embeddings\<close>), makes the whole copy fail, and none of the table's rows is copied.
\<close>

lemma copyData_unique_conflict:
  assumes "validateIdent t = Inr ()" "two_schemas from to" "flt E (tick w) = None" "flt E (Suc (tick w)) = None"
    and "pg_tables (pg (wdb w)) to t = Some a" "pg_tables (pg (wdb w)) from t = Some b"
    and "tt_rows b = pre @ r # post" "ug \<in> set (tt_uniq a)" "r' \<in> set (tt_rows a)" "conflict a ug (fill a r) r'"
    and "\<forall>x \<in> set (tt_rows a) \<union> fill a ` set pre. \<not> conflict a [conflictCol t] (fill a r) x"
  shows "\<exists>e w'. copyData E from to (t # ts) w = (Inl e, w') \<and> wdb w' = wdb w"
proof -
  have ne: "from \<noteq> to" "length to \<le> 63" "length from \<le> 63" using assms(2) by (simp_all add: two_schemas_def)
  have fails: "\<exists>e. insert_rows a col (pre' @ fill a r # post') ins = Inl e"
    if "\<forall>x \<in> set (tt_rows a) \<union> set pre' \<union> set ins. \<not> conflict a [col] (fill a r) x" for col pre' post' ins
    using that
  proof (induction pre' arbitrary: ins)
    case Nil
    have "list_ex (\<lambda>u. list_ex (conflict a u (fill a r)) (tt_rows a @ ins)) (tt_uniq a)"
      using assms(8-10) by (auto simp: list_ex_iff)
    moreover have "\<not> list_ex (conflict a [col] (fill a r)) (tt_rows a @ ins)" using Nil by (auto simp: list_ex_iff)
    ultimately show ?case by simp
  next
    case (Cons x xs)
    from Cons.IH [of ins] Cons.IH [of "ins @ [x]"] Cons.prems show ?case by auto
  qed
  have "\<exists>e. exec_copy E to t from (conflictCol t) (pg (wdb w)) = Inl e"
    using fails [of "map (fill a) pre" "[]" "conflictCol t" "map (fill a) post"] assms(5-7,11) ne
    by (auto simp: exec_copy_def trunc_id)
  then obtain e where e: "exec_copy E to t from (conflictCol t) (pg (wdb w)) = Inl e" by blast
  have b: "tableExistsInBoth E from to t w = (Inr True, w\<lparr>tick := Suc (tick w)\<rparr>)"
    using assms(3,5,6) by (simp add: both_iff [OF ne(1)] in_both_def)
  show ?thesis
    using assms(1,4) b e by (simp add: on_pg_def sql_def)
qed

text \<open>
  A branch that is created is a live project of its own, new, linked to its live parent
  and with the migrations applied; the parent's row and every other project stay as they were.
\<close>

lemma branch_Create_links:
  assumes "branch_Create E B parentID opts w = (Inr child, w')" "mig_inv (wdb w)"
  shows "\<exists>parent row m. parent \<in> set (projects (wdb w)) \<and> p_id parent = parentID \<and> p_deleted parent = None \<and>
    projects (wdb w') = projects (wdb w) @ [row] \<and> child = project_columns row \<and> p_parent row = Some parentID \<and>
    p_deleted row = None \<and> (\<forall>r \<in> set (projects (wdb w)). p_id r \<noteq> p_id row) \<and>
    p_name row = trim_space (if co_name opts = [] then p_slug parent @ ''_branch'' else co_name opts) \<and>
    m \<in> set (migration_log (wdb w')) \<and> m_project m = p_id row \<and> m_version m = baselineVersion \<and> m_state m = ''applied''"
proof -
  obtain parent child0 w1 w2 w3 w4 w5 entry where s: "projects_Get E parentID w = (Inr parent, w1)"
    "projects_Create E (bs_projects B) (if co_name opts = [] then pr_slug parent @ ''_branch'' else co_name opts) w1 = (Inr child0, w2)"
    "set_parent E (pr_id parent) (pr_id child0) w2 = (Inr (), w3)" "projects_Get E (pr_id child0) w3 = (Inr child, w4)"
    "mig_Apply E (bs_migrations B) (pr_id child) w4 = (Inr (entry, None), w5)" "\<exists>c. wdb w' = (wdb w5)\<lparr>pg := c\<rparr>"
    by (rule branch_Create_Inr [OF assms(1)])
  from s(1) obtain prow where p: "select_one (\<lambda>p. p_id p = parentID \<and> p_deleted p = None) (projects (wdb w)) = Some prow"
    "parent = project_columns prow" "wdb w1 = wdb w" by (auto simp: projects_Get_Inr)
  note parent = select_one_Some [OF p(1)]
  let ?name = "if co_name opts = [] then pr_slug parent @ ''_branch'' else co_name opts"
  from projects_Create_Inr [OF s(2)] p(3) obtain row c2 where c: "child0 = project_columns row"
    "p_name row = trim_space ?name" "p_deleted row = None" "\<forall>r \<in> set (projects (wdb w)). p_id r \<noteq> p_id row"
    "wdb w2 = (wdb w)\<lparr>projects := projects (wdb w) @ [row], pg := c2\<rparr>" by auto
  define row' where "row' = row\<lparr>p_parent := Some parentID, p_updated := db_now E\<rparr>"
  have ids: "pr_id child0 = p_id row" "pr_id parent = parentID"
    using c(1) p(2) parent by (simp_all add: project_columns_def)
  have "update_where (\<lambda>p. p_id p = p_id row) (\<lambda>p. p\<lparr>p_parent := Some parentID, p_updated := db_now E\<rparr>)
      (projects (wdb w) @ [row]) = projects (wdb w) @ [row']"
    using update_where_none [of "projects (wdb w)" "\<lambda>p. p_id p = p_id row"] c(4)
    by simp (simp add: update_where_def row'_def)
  with s(3) c(5) ids have d3: "wdb w3 = (wdb w)\<lparr>projects := projects (wdb w) @ [row'], pg := c2\<rparr>"
    by (auto simp: set_parent_Inr)
  have "select_one (\<lambda>p. p_id p = p_id row \<and> p_deleted p = None) (projects (wdb w3)) = Some row'"
    by (rule select_one_unique) (use d3 c(3,4) in \<open>auto simp: row'_def\<close>)
  with s(4) ids have ch: "child = project_columns row'" "wdb w4 = wdb w3" by (auto simp: projects_Get_Inr)
  then have cid: "pr_id child = p_id row" by (simp add: project_columns_def row'_def)
  have "mig_inv (wdb w4)" using assms(2) ch(2) d3 by (simp add: mig_inv_def)
  from mig_Apply_cases [OF s(5) this] obtain m n c5 where m: "m \<in> set (migration_log (wdb w5))" "m_project m = p_id row"
    "m_version m = baselineVersion" "m_state m = ''applied''" "projects (wdb w5) = projects (wdb w4)"
  proof (elim disjE conjE exE, goal_cases)
    case 1
    then show ?case using cid by auto
  next
    case (3 ck c row1 sql0 ae)
    then show ?case using cid by (intro 3(1) [of row1]) (simp_all add: finished_def new_row_def)
  qed simp
  have "projects (wdb w') = projects (wdb w) @ [row']" using s(6) m(5) ch(2) d3 by auto
  moreover have "migration_log (wdb w') = migration_log (wdb w5)" using s(6) by auto
  ultimately show ?thesis
    using parent c(2-4) ch(1) m p(2) by (intro exI [of _ prow] exI [of _ row'] exI [of _ m])
      (auto simp: row'_def project_columns_def)
qed

section \<open>Witnesses\<close>

definition docs_table :: "trow list \<Rightarrow> ttable" where
  "docs_table rows = \<lparr>tt_cols = [(''id'', None), (''data'', None)], tt_uniq = [[''id'']], tt_rows = rows, tt_refs = []\<rparr>"

definition emb_table :: "trow list \<Rightarrow> ttable" where
  "emb_table rows = \<lparr>tt_cols = [(''id'', None), (''doc_id'', None)], tt_uniq = [[''id''], [''doc_id'']],
     tt_rows = rows, tt_refs = []\<rparr>"

definition demo_fork :: project_row where
  "demo_fork = demo_project\<lparr>p_id := 8, p_name := ''fork'', p_slug := ''fork'', p_role := ''p_fork'', p_schema := ''p_fork'',
     p_parent := Some 7\<rparr>"

definition fork_pg :: pg where
  "fork_pg = empty_pg\<lparr>pg_tables := (\<lambda>_ _. None)
     (''p_demo'' := [''pwrap_documents'' \<mapsto> docs_table [[Some ''1'', Some ''a''], [Some ''2'', Some ''b'']],
        ''pwrap_embeddings'' \<mapsto> emb_table [[Some ''1'', Some ''doc'']]],
      ''p_fork'' := [''pwrap_documents'' \<mapsto> docs_table [[Some ''2'', Some ''old'']],
        ''pwrap_embeddings'' \<mapsto> emb_table [[Some ''7'', Some ''doc'']]])\<rparr>"

definition fork_world :: world where
  "fork_world = world_of (empty_db\<lparr>projects := [demo_project, demo_fork], pg := fork_pg\<rparr>)"

lemma demo_triggers: "triggers_ok demo_env"
  by (simp add: triggers_ok_def demo_env_def)

lemma fork_schemas: "two_schemas ''p_demo'' ''p_fork''"
  by (simp add: two_schemas_def)

lemma valid_names: "validateIdent ''pwrap_documents'' = Inr ()" "validateIdent ''pwrap_embeddings'' = Inr ()"
  by (simp_all add: validateIdent_ok ident_char_def)

lemma fork_pg_tables:
  "pg (wdb fork_world) = fork_pg"
  "pg_tables fork_pg ''p_demo'' ''pwrap_documents'' = Some (docs_table [[Some ''1'', Some ''a''], [Some ''2'', Some ''b'']])"
  "pg_tables fork_pg ''p_fork'' ''pwrap_documents'' = Some (docs_table [[Some ''2'', Some ''old'']])"
  "pg_tables fork_pg ''p_demo'' ''pwrap_embeddings'' = Some (emb_table [[Some ''1'', Some ''doc'']])"
  "pg_tables fork_pg ''p_fork'' ''pwrap_embeddings'' = Some (emb_table [[Some ''7'', Some ''doc'']])"
  by (simp_all add: fork_world_def world_of_def fork_pg_def)

lemma fork_tables_refs: "pg_tables fork_pg s t = Some tbl \<Longrightarrow> tt_refs tbl = []"
  by (auto simp: fork_pg_def docs_table_def emb_table_def empty_pg_def split: if_splits)

lemma demo_on_pg: "f (pg (wdb w)) = Inr c \<Longrightarrow> on_pg demo_env f w = (Inr (), w\<lparr>tick := Suc (tick w), wdb := (wdb w)\<lparr>pg := c\<rparr>\<rparr>)"
  by (simp add: on_pg_Inr)

lemma demo_copy_one:
  assumes "pg_tables (pg (wdb w)) ''p_demo'' ''pwrap_documents'' = Some (docs_table rs)"
    and "pg_tables (pg (wdb w)) ''p_fork'' ''pwrap_documents'' = Some a" "exec_copy demo_env ''p_fork'' ''pwrap_documents''
      ''p_demo'' ''id'' (pg (wdb w)) = Inr c"
  shows "\<exists>w'. copyData demo_env ''p_demo'' ''p_fork'' [''pwrap_documents''] w = (Inr (), w')"
proof -
  have "tableExistsInBoth demo_env ''p_demo'' ''p_fork'' ''pwrap_documents'' w = (Inr True, w\<lparr>tick := Suc (tick w)\<rparr>)"
    using assms(1,2) by (simp add: both_iff in_both_def)
  with assms(3) show ?thesis by (simp add: valid_names demo_on_pg conflictCol_def)
qed

lemma fork_truncate:
  assumes "pg (wdb w) = fork_pg"
  shows "\<exists>w'. truncate_tables demo_env ''p_fork'' [''pwrap_documents''] w = (Inr (), w') \<and>
     pg_tables (pg (wdb w')) ''p_demo'' ''pwrap_documents'' = pg_tables fork_pg ''p_demo'' ''pwrap_documents'' \<and>
     pg_tables (pg (wdb w')) ''p_fork'' ''pwrap_documents'' = Some (docs_table [])"
proof -
  have o: "own_refs fork_pg" using fork_tables_refs by (auto simp: own_refs_def)
  obtain c where c: "exec_truncate ''p_fork'' ''pwrap_documents'' fork_pg = Inr c"
    by (simp add: exec_truncate_def trunc_def fork_pg_tables)
  from exec_truncate_emptied [OF c o] have "emptied ''p_fork'' {''pwrap_documents''} fork_pg c" by simp
  from emptiedD(1) [OF this, of "''p_demo''" "''pwrap_documents''"] emptiedD(3) [OF this, of "''pwrap_documents''"]
  have t: "pg_tables c ''p_demo'' ''pwrap_documents'' = pg_tables fork_pg ''p_demo'' ''pwrap_documents''"
    "pg_tables c ''p_fork'' ''pwrap_documents'' = Some (docs_table [])"
    by (simp_all add: fork_pg_tables docs_table_def)
  have "tableExists demo_env ''p_fork'' ''pwrap_documents'' w = (Inr True, w\<lparr>tick := Suc (tick w)\<rparr>)"
    by (simp add: tableExists_def query_Inr fork_pg_tables assms)
  with c t show ?thesis by (simp add: valid_names demo_on_pg assms)
qed

definition demo_sync :: sync_opts where
  "demo_sync = \<lparr>so_tables = [''pwrap_documents''], so_truncate = True\<rparr>"

lemma fork_gets:
  "projects_Get demo_env 8 fork_world = (Inr (project_columns demo_fork), fork_world\<lparr>tick := Suc 0\<rparr>)"
  "projects_Get demo_env 7 (fork_world\<lparr>tick := Suc 0\<rparr>) = (Inr (project_columns demo_project), fork_world\<lparr>tick := 2\<rparr>)"
  by (simp_all add: projects_Get_Inr fork_world_def world_of_def select_one_def demo_fork_def demo_project_def)

lemma fork_sync: "\<exists>w'. branch_Sync demo_env 8 demo_sync fork_world = (Inr (), w')"
proof -
  have "pg (wdb (fork_world\<lparr>tick := 2\<rparr>)) = fork_pg" by (simp add: fork_pg_tables)
  from fork_truncate [OF this] obtain w2 where
    t: "truncate_tables demo_env ''p_fork'' [''pwrap_documents''] (fork_world\<lparr>tick := 2\<rparr>) = (Inr (), w2)"
    and d: "pg_tables (pg (wdb w2)) ''p_demo'' ''pwrap_documents'' = pg_tables fork_pg ''p_demo'' ''pwrap_documents''"
      "pg_tables (pg (wdb w2)) ''p_fork'' ''pwrap_documents'' = Some (docs_table [])" by blast
  have "\<exists>w'. copyData demo_env ''p_demo'' ''p_fork'' [''pwrap_documents''] w2 = (Inr (), w')"
    by (rule demo_copy_one [OF _ d(2)]) (simp_all add: d fork_pg_tables exec_copy_def trunc_def docs_table_def fill_def
        conflict_def field_def demo_env_def)
  moreover have "pr_schema (project_columns demo_project) = ''p_demo''" "pr_schema (project_columns demo_fork) = ''p_fork''"
    "pr_parent (project_columns demo_fork) = Some 7"
    by (simp_all add: project_columns_def demo_fork_def demo_project_def)
  ultimately show ?thesis using t
    by (simp add: branch_Sync_def fork_gets demo_sync_def tables_or_default_def
        del: copyData.simps truncate_tables.simps)
qed

lemma fork_clean: "clean ''p_demo'' ''p_fork'' ''pwrap_documents'' fork_pg"
  by (simp add: clean_def fork_pg_tables docs_table_def conflict_def field_def fill_def)


end
