(* ===== verification/Frame.thy ===== *)
theory Frame
  imports Sql_Apply Branches
begin

text \<open>
  What the management operations leave alone: a small calculus for "this step keeps a part of the
  database", one rule per way the code composes steps, and its instances. No operation of the projects,
  keys, branches, migrations and SQL components touches the admin tokens or the audit log, so a privilege is
  given only through the token endpoints, and the log has only the rows of the audit middleware.
\<close>

definition keeps :: "(db \<Rightarrow> 'b) \<Rightarrow> world \<Rightarrow> 'a \<times> world \<Rightarrow> bool" where
  "keeps P w r \<longleftrightarrow> P (wdb (snd r)) = P (wdb w)"

named_theorems keeps_intro "rules of the frame calculus"

section \<open>The rules\<close>

lemma keeps_ret [keeps_intro]: "keeps P w (x, w)"
  by (simp add: keeps_def)

lemma keeps_snd [keeps_intro]: "keeps P w r \<Longrightarrow> keeps P w (x, snd r)"
  by (simp add: keeps_def)

lemma keeps_if [keeps_intro]: "keeps P w r \<Longrightarrow> keeps P w r' \<Longrightarrow> keeps P w (if b then r else r')"
  by simp

lemma keeps_if_world [keeps_intro]:
  "keeps P w (x, w1) \<Longrightarrow> keeps P w (x, w2) \<Longrightarrow> keeps P w (x, if b then w1 else w2)"
  by simp

lemma keeps_option [keeps_intro]:
  "(x = None \<Longrightarrow> keeps P w r) \<Longrightarrow> (\<And>y. keeps P w (f y)) \<Longrightarrow> keeps P w (case x of None \<Rightarrow> r | Some y \<Rightarrow> f y)"
  by (cases x) auto

lemma keeps_sum [keeps_intro]:
  "(\<And>e. keeps P w (f e)) \<Longrightarrow> (\<And>y. keeps P w (g y)) \<Longrightarrow> keeps P w (case x of Inl e \<Rightarrow> f e | Inr y \<Rightarrow> g y)"
  by (cases x) auto

lemma keeps_prod [keeps_intro]: "keeps P w r \<Longrightarrow> (\<And>a w'. keeps P w' (f a w')) \<Longrightarrow> keeps P w (case r of (a, w') \<Rightarrow> f a w')"
proof -
  assume "keeps P w r" "\<And>a w'. keeps P w' (f a w')"
  then show ?thesis unfolding keeps_def by (cases r) simp
qed

lemma keeps_prod_app [keeps_intro]: "(\<And>a b. keeps P w (f a b w')) \<Longrightarrow> keeps P w ((case x of (a, b) \<Rightarrow> f a b) w')"
  by (cases x) simp

text \<open>A pair that holds no world.\<close>

lemma keeps_val:
  fixes x :: "'b \<times> 'c"
  assumes "\<And>a b. keeps P w (f a b)"
  shows "keeps P w (case x of (a, b) \<Rightarrow> f a b)"
  using assms by (cases x) simp

lemmas keeps_vals [keeps_intro] =
  keeps_val [where ?'c = "'z list"] keeps_val [where ?'c = "'z option"] keeps_val [where ?'c = "'y \<times> 'z"]
  keeps_val [where ?'c = bool] keeps_val [where ?'c = int]

lemma keeps_let [keeps_intro]: "keeps P w (f x) \<Longrightarrow> keeps P w (Let x f)"
  by simp

lemma keeps_and_then [keeps_intro]:
  "keeps P w r \<Longrightarrow> (\<And>x w'. keeps P w' (f x w')) \<Longrightarrow> keeps P w (and_then r f)"
  by (cases r; cases "fst r") (auto simp: keeps_def and_then_def)

lemma keeps_wrap [keeps_intro]: "keeps P w r \<Longrightarrow> keeps P w (wrap_err s r)"
  by (cases r; cases "fst r") (auto simp: keeps_def wrap_err_def)

lemma keeps_sql [keeps_intro]: "(\<And>d x d'. q d = Inr (x, d') \<Longrightarrow> P d' = P d) \<Longrightarrow> keeps P w (sql E q w)"
  by (auto simp: keeps_def sql_def split: option.split sum.split)

lemma keeps_query [keeps_intro]: "keeps P w (query E q w)"
  unfolding query_def by (rule keeps_sql) simp

lemma keeps_tenant_sql [keeps_intro]: "(\<And>d c. P (d\<lparr>pg := c\<rparr>) = P d) \<Longrightarrow> keeps P w (tenant_sql E f w)"
  by (auto simp: keeps_def tenant_sql_def Let_def split: option.split prod.split)

lemma keeps_rand [keeps_intro]: "keeps P w (rand_read E n w)"
  by (auto simp: keeps_def rand_read_def split: sum.split)

lemma keeps_in_tx [keeps_intro]: "(\<And>w'. keeps P w' (body w')) \<Longrightarrow> keeps P w (in_tx E body w)"
proof -
  assume body: "\<And>w'. keeps P w' (body w')"
  obtain r w' where r: "in_tx E body w = (r, w')" by fastforce
  show ?thesis
  proof (cases r)
    case (Inl e)
    with r have "wdb w' = wdb w" using in_tx_Inl_wdb by fast
    with r show ?thesis by (simp add: keeps_def)
  next
    case (Inr x)
    with r obtain w2 where "body (w\<lparr>tick := Suc (tick w)\<rparr>) = (Inr x, w2)" "w' = w2\<lparr>tick := Suc (tick w2)\<rparr>"
      by (auto simp: in_tx_Inr)
    with body [of "w\<lparr>tick := Suc (tick w)\<rparr>"] r show ?thesis by (simp add: keeps_def)
  qed
qed

lemma keeps_write [keeps_intro]:
  "keeps P w ((), w') \<Longrightarrow> keeps P w (write_err st m w')" "keeps P w ((), w') \<Longrightarrow> keeps P w (write_ok st x w')"
  by (simp_all add: keeps_def)

section \<open>The operations\<close>

text \<open>What the management operations must not touch: the audit log and the admin tokens.\<close>

definition ledger :: "db \<Rightarrow> audit_row list \<times> token_row list" where
  "ledger d = (audit_log d, admin_tokens d)"

lemma ledger_updates [simp]:
  "ledger (d\<lparr>pg := c\<rparr>) = ledger d" "ledger (d\<lparr>projects := ps\<rparr>) = ledger d" "ledger (d\<lparr>api_keys := ks\<rparr>) = ledger d"
  "ledger (d\<lparr>migration_log := ms\<rparr>) = ledger d" "ledger (d\<lparr>mig_seq := n\<rparr>) = ledger d"
  "ledger (d\<lparr>ephemeral_roles := es\<rparr>) = ledger d"
  by (simp_all add: ledger_def)

lemma keeps_exec [keeps_intro]:
  assumes "keeps ledger w ((), w1)"
  shows "keeps ledger w (exec E s w1)"
proof -
  have "keeps ledger w1 (exec E s w1)"
    unfolding exec_def by (rule keeps_intro) (auto split: sum.splits)
  with assms show ?thesis by (simp add: keeps_def)
qed

lemma keeps_exec_all [keeps_intro]: "keeps ledger w (exec_all E ss w)"
  by (induction ss arbitrary: w) (auto intro!: keeps_intro)

lemma keeps_on_pg [keeps_intro]: "keeps ledger w (on_pg E f w)"
  unfolding on_pg_def by (rule keeps_intro) (auto split: sum.splits)

lemma keeps_Encrypt [keeps_intro]: "keeps ledger w (Encrypt E c s w)"
  by (cases c) (auto simp: aes_Encrypt_def intro!: keeps_intro)

lemma keeps_Rebuild [keeps_intro]: "keeps ledger w (RebuildSchemasList E a w)"
  unfolding RebuildSchemasList_def
  by (intro keeps_intro)

lemma keeps_insert_project [keeps_intro]: "keeps ledger w (insert_project E n s r sc p w)"
  unfolding insert_project_def by (rule keeps_intro) (auto simp: Let_def split: if_splits)

lemma keeps_create_tx [keeps_intro]: "keeps ledger w (create_tx E S n s r sc p q w)"
  unfolding create_tx_def GrantTenant_def by (intro keeps_intro)

lemma keeps_projects_Create [keeps_intro]: "keeps ledger w (projects_Create E S n w)"
  unfolding projects_Create_def randomPassword_def by (intro keeps_intro)

lemma keeps_projects_Get [keeps_intro]: "keeps ledger w (projects_Get E i w)"
  unfolding projects_Get_def by (intro keeps_intro)

lemma keeps_projects_List [keeps_intro]: "keeps ledger w (projects_List E w)"
  unfolding projects_List_def by (intro keeps_intro)

lemma keeps_delete_tx [keeps_intro]: "keeps ledger w (delete_tx E S i p w)"
  unfolding delete_tx_def RevokeTenant_def ephemeralRoleNames_def by (intro keeps_intro) auto

lemma keeps_projects_Delete [keeps_intro]: "keeps ledger w (projects_Delete E S i w)"
  unfolding projects_Delete_def by (intro keeps_intro)

lemma keeps_GetCredentials [keeps_intro]: "keeps ledger w (GetCredentials E S i w)"
  unfolding GetCredentials_def by (intro keeps_intro)

lemma keeps_keys [keeps_intro]:
  "keeps ledger w (insert_key E i p h n w)" "keeps ledger w (keys_List E i w)" "keeps ledger w (keys_Revoke E i k w)"
  unfolding insert_key_def keys_List_def keys_Revoke_def
  by (intro keeps_intro; auto simp: Let_def split: if_splits)+

lemma keeps_Generate [keeps_intro]: "keeps P w (GenerateWithPrefix E p w)" "keeps P w (Generate E w)"
  unfolding Generate_def GenerateWithPrefix_def by (intro keeps_intro)+

lemma keeps_Hash [keeps_intro]: "keeps P w (Hash E s w)"
  unfolding Hash_def by (intro keeps_intro)

lemma keeps_keys_Issue [keeps_intro]: "keeps ledger w (keys_Issue E i n w)"
  unfolding keys_Issue_def by (intro keeps_intro)

lemma keeps_create_extensions [keeps_intro]: "keeps ledger w (create_extensions E xs w)"
  by (induction xs arbitrary: w) (auto intro!: keeps_intro)

lemma keeps_grant_graphql [keeps_intro]: "keeps ledger w (grant_graphql E ns w)"
  by (induction ns arbitrary: w) (auto intro!: keeps_intro)

lemma keeps_applyAll [keeps_intro]: "keeps ledger w (applyAll E R r p b w)"
  unfolding applyAll_def by (intro keeps_intro) simp_all

lemma keeps_log_steps [keeps_intro]:
  "keeps ledger w (isApplied E i v c w)" "keeps ledger w (insert_pending E i c w)" "keeps ledger w (finish_log E n e w)"
  unfolding isApplied_def insert_pending_def finish_log_def
  by (intro keeps_intro; auto simp: Let_def split: if_splits)+

lemma keeps_mig_Apply [keeps_intro]: "keeps ledger w (mig_Apply E R i w)"
  unfolding mig_Apply_def by (intro keeps_intro)

lemma keeps_mig_Status [keeps_intro]: "keeps ledger w (mig_Status E i w)"
  unfolding mig_Status_def by (intro keeps_intro)

lemma keeps_copyData [keeps_intro]: "keeps ledger w (copyData E a b ts w)"
  by (induction ts arbitrary: w) (auto simp: tableExistsInBoth_def intro!: keeps_intro)

lemma keeps_truncate [keeps_intro]: "keeps ledger w (truncate_tables E s ts w)"
  by (induction ts arbitrary: w) (auto simp: tableExists_def intro!: keeps_intro)

lemma keeps_set_parent [keeps_intro]: "keeps ledger w (set_parent E i j w)"
  unfolding set_parent_def by (rule keeps_intro) auto

lemma keeps_branch_ops [keeps_intro]:
  "keeps ledger w (branch_Create E B i co w)" "keeps ledger w (branch_Sync E i so w)" "keeps ledger w (branch_List E i w)"
  unfolding branch_Create_def branch_Sync_def branch_List_def apply_migrations_def by (intro keeps_intro)+

lemma keeps_withTx [keeps_intro]: "keeps ledger w (withTx E fn w)"
proof -
  obtain r w' where t: "withTx E fn w = (r, w')" by fastforce
  show ?thesis
  proof (cases r)
    case (Inl e)
    with t withTx_Inl have "wdb w' = wdb w \<or> (\<exists>c. wdb w' = (wdb w)\<lparr>pg := c\<rparr>)" by blast
    with t show ?thesis by (auto simp: keeps_def)
  next
    case (Inr u)
    with t withTx_Inr have "\<exists>c. wdb w' = (wdb w)\<lparr>pg := c\<rparr>" by blast
    with t show ?thesis by (auto simp: keeps_def)
  qed
qed

section \<open>The handlers\<close>

lemma keeps_handlers [keeps_intro]:
  "keeps ledger w (projects_create_h E S r w)" "keeps ledger w (projects_list_h E r w)"
  "keeps ledger w (projects_get_h E r w)" "keeps ledger w (projects_delete_h E S r w)"
  "keeps ledger w (keys_issue_h E r w)" "keeps ledger w (keys_list_h E r w)" "keeps ledger w (keys_revoke_h E r w)"
  "keeps ledger w (branch_create_h E B r w)" "keeps ledger w (branch_list_h E r w)" "keeps ledger w (branch_sync_h E r w)"
  "keeps ledger w (mig_apply_h E R r w)" "keeps ledger w (mig_status_h E r w)" "keeps ledger w (sql_apply_h E X H r w)"
  unfolding projects_create_h_def projects_list_h_def projects_get_h_def projects_delete_h_def keys_issue_h_def
    keys_list_h_def keys_revoke_h_def branch_create_h_def branch_list_h_def branch_sync_h_def mig_apply_h_def
    mig_status_h_def sql_apply_h_def
  by (intro keeps_intro)+

text \<open>The token endpoints write tokens, not the log.\<close>

lemma keeps_token_ops [keeps_intro]:
  "keeps audit_log w (insert_token E p h n sc x w)" "keeps audit_log w (tokens_List E w)" "keeps audit_log w (tokens_Revoke E i w)"
  unfolding insert_token_def tokens_List_def tokens_Revoke_def
  by (intro keeps_intro; auto simp: Let_def split: if_splits)+

lemma keeps_tokens_Issue [keeps_intro]: "keeps audit_log w (tokens_Issue E n sc d w)"
  unfolding tokens_Issue_def by (intro keeps_intro)

lemma keeps_token_handlers [keeps_intro]:
  "keeps audit_log w (tokens_issue_h E r w)" "keeps audit_log w (tokens_list_h E r w)" "keeps audit_log w (tokens_revoke_h E r w)"
  unfolding tokens_issue_h_def tokens_list_h_def tokens_revoke_h_def by (intro keeps_intro)+

lemma keeps_ledger: "keeps ledger w r \<Longrightarrow> keeps audit_log w r \<and> keeps admin_tokens w r"
  by (simp add: keeps_def ledger_def)

end
