(* ===== verification/Realtime.thy ===== *)
theory Realtime
  imports Branches
begin

text \<open>
  \<^verbatim>\<open>internal/controlplane/realtime\<close>: the hub that listens for change notifications, fetches the
  change from the tenant's log and fans it out to subscribers over bounded channels (hub.go), and the
  WebSocket endpoint (handler.go). The hub's operations run under its mutex, so each is one atomic step; a
  goroutine is a sequence of steps. The lemmas: what is in a channel matches its filter and never exceeds
  the channel's capacity, each event is delivered or counted as dropped, a channel is a bounded first-in
  first-out queue of the matching events.
\<close>

section \<open>Events, filters, subscribers\<close>

text \<open>The JSON texts of the row before and after, and the creation time, as Postgres renders them.\<close>

record change_event =
  ev_log_id :: int
  ev_schema :: string
  ev_table :: string
  ev_op :: string
  ev_row_id :: string
  ev_user_id :: string
  ev_before :: "string option"
  ev_after :: "string option"
  ev_created :: string

record filter_rec =
  f_schema :: string
  f_table :: string
  f_user_id :: string

definition matches :: "filter_rec \<Rightarrow> change_event \<Rightarrow> bool" where
  "matches f ev =
     (if f_schema f \<noteq> ev_schema ev then False
      else if f_table f \<noteq> [] \<and> f_table f \<noteq> ev_table ev then False
      else if f_user_id f \<noteq> [] \<and> f_user_id f \<noteq> ev_user_id ev then False
      else True)"

text \<open>A subscriber: its filter and its channel, a buffer of bounded capacity.\<close>

record subscriber =
  sb_filter :: filter_rec
  sb_cap :: nat
  sb_events :: "change_event list"

text \<open>
  The hub: its subscribers by identity (the map's keys are pointers), the counter of dropped events
  (an \<^verbatim>\<open>atomic.Int64\<close>), and the life cycle of its goroutine: \<^verbatim>\<open>started\<close>, the cancel function
  set, the done channel (made, closed), the once of \<^verbatim>\<open>Stop\<close>.
\<close>

record hub =
  hb_subs :: "(nat \<times> subscriber) list"
  hb_drops :: "64 word"
  hb_started :: bool
  hb_cancelled :: "bool option"
  hb_done :: "bool option"
  hb_stopped :: bool

definition NewHub :: hub where
  "NewHub = \<lparr>hb_subs = [], hb_drops = 0, hb_started = False, hb_cancelled = None, hb_done = None, hb_stopped = False\<rparr>"

section \<open>Operations under the mutex\<close>

definition hub_Subscribe :: "nat \<Rightarrow> subscriber \<Rightarrow> hub \<Rightarrow> hub" where
  "hub_Subscribe i s h = h\<lparr>hb_subs := AList.update i s (hb_subs h)\<rparr>"

definition hub_unsubscribe :: "nat \<Rightarrow> hub \<Rightarrow> hub" where
  "hub_unsubscribe i h = h\<lparr>hb_subs := AList.delete i (hb_subs h)\<rparr>"

definition Stats :: "hub \<Rightarrow> nat \<times> int" where
  "Stats h = (length (hb_subs h), sint (hb_drops h))"

text \<open>
  One subscriber's turn in \<^verbatim>\<open>fanout\<close>: skipped, sent without blocking, or dropped and counted.
\<close>

definition offer :: "change_event \<Rightarrow> subscriber \<Rightarrow> subscriber \<times> nat" where
  "offer ev s = (if \<not> matches (sb_filter s) ev then (s, 0)
     else if length (sb_events s) < sb_cap s then (s\<lparr>sb_events := sb_events s @ [ev]\<rparr>, 0) else (s, 1))"

fun fanout_loop :: "change_event \<Rightarrow> (nat \<times> subscriber) list \<Rightarrow> (nat \<times> subscriber) list \<times> nat" where
  "fanout_loop ev [] = ([], 0)"
| "fanout_loop ev ((i, s) # subs) =
     (let (s', d) = offer ev s; (subs', n) = fanout_loop ev subs in ((i, s') # subs', d + n))"

definition fanout :: "change_event \<Rightarrow> hub \<Rightarrow> hub" where
  "fanout ev h = (let (subs, n) = fanout_loop ev (hb_subs h)
     in h\<lparr>hb_subs := subs, hb_drops := hb_drops h + of_nat n\<rparr>)"

text \<open>A receive from a subscriber's channel.\<close>

definition receive :: "nat \<Rightarrow> hub \<Rightarrow> (change_event \<times> hub) option" where
  "receive i h = (case map_of (hb_subs h) i of
      Some s \<Rightarrow> (case sb_events s of
          [] \<Rightarrow> None
        | ev # evs \<Rightarrow> Some (ev, h\<lparr>hb_subs := AList.update i (s\<lparr>sb_events := evs\<rparr>) (hb_subs h)\<rparr>))
    | None \<Rightarrow> None)"

text \<open>The steps of the goroutines that share the hub, and a run of them with what is received.\<close>

datatype hub_op = OpSubscribe nat subscriber | OpUnsubscribe nat | OpFanout change_event | OpReceive nat

fun hub_op_step :: "hub_op \<Rightarrow> hub \<Rightarrow> (nat \<times> change_event) list \<times> hub" where
  "hub_op_step (OpSubscribe i s) h = ([], hub_Subscribe i s h)"
| "hub_op_step (OpUnsubscribe i) h = ([], hub_unsubscribe i h)"
| "hub_op_step (OpFanout ev) h = ([], fanout ev h)"
| "hub_op_step (OpReceive i) h = (case receive i h of None \<Rightarrow> ([], h) | Some (ev, h) \<Rightarrow> ([(i, ev)], h))"

fun hub_run :: "hub_op list \<Rightarrow> hub \<Rightarrow> (nat \<times> change_event) list \<times> hub" where
  "hub_run [] h = ([], h)"
| "hub_run (op1 # ops) h = (let (out, h) = hub_op_step op1 h; (outs, h) = hub_run ops h in (out @ outs, h))"

section \<open>From a notification to an event\<close>

record notify_payload =
  np_log_id :: int
  np_schema :: string
  np_table :: string
  np_op :: string
  np_row_id :: string
  np_user_id :: string

text \<open>
  \<open>rt_json\<close> is \<^verbatim>\<open>json.Unmarshal\<close> into the payload struct, \<open>rt_acquire\<close> the error of
  acquiring a connection, if any.
\<close>

record rt_env =
  rt_json :: "string \<Rightarrow> string + notify_payload"
  rt_acquire :: "string option"

definition fetch_log :: "string \<Rightarrow> int \<Rightarrow> db \<Rightarrow> (string option \<times> string option \<times> string) option" where
  "fetch_log schema logID d = (case pg_tables (pg d) (trunc schema) change_log of
      None \<Rightarrow> None
    | Some tbl \<Rightarrow> (case select_one (\<lambda>r. field tbl r ''id'' = Some (show_int logID)) (tt_rows tbl) of
        None \<Rightarrow> None
      | Some r \<Rightarrow> Some (field tbl r ''before'', field tbl r ''after'', nullStr (field tbl r ''created_at''))))"

definition hydrate :: "env \<Rightarrow> rt_env \<Rightarrow> string \<Rightarrow> world \<Rightarrow> change_event res" where
  "hydrate E RT raw w = (case rt_json RT raw of
      Inl e \<Rightarrow> (Inl (Wrap ''decode payload: '' (Ext e)), w)
    | Inr p \<Rightarrow>
       if np_schema p = [] then (Inl (Msg ''payload missing schema''), w)
       else and_then (wrap_err (''fetch log id='' @ show_int (np_log_id p) @ '': '')
              (sql E (\<lambda>d. case fetch_log (np_schema p) (np_log_id p) d of
                 None \<Rightarrow> Inl ''no rows in result set'' | Some x \<Rightarrow> Inr (x, d)) w)) (\<lambda>(before, after, createdAt) w.
            (Inr \<lparr>ev_log_id = np_log_id p, ev_schema = np_schema p, ev_table = np_table p, ev_op = np_op p,
                  ev_row_id = np_row_id p, ev_user_id = np_user_id p, ev_before = before, ev_after = after,
                  ev_created = createdAt\<rparr>, w)))"

section \<open>The listen loop\<close>

text \<open>
  What \<^verbatim>\<open>WaitForNotification\<close> returns, one after the other. The loop over a finite history of
  them has not returned when the history ends (\<open>None\<close>).
\<close>

datatype wait = Note string | WaitErr goerr

fun listen_loop :: "env \<Rightarrow> rt_env \<Rightarrow> wait list \<Rightarrow> hub \<Rightarrow> world \<Rightarrow> goerr option \<times> hub \<times> world" where
  "listen_loop E RT [] h w = (None, h, w)"
| "listen_loop E RT (WaitErr e # ns) h w = (Some e, h, w)"
| "listen_loop E RT (Note payload # ns) h w = (case hydrate E RT payload w of
      (Inl e, w) \<Rightarrow> listen_loop E RT ns h w
    | (Inr ev, w) \<Rightarrow> listen_loop E RT ns (fanout ev h) w)"

definition runOnce :: "env \<Rightarrow> rt_env \<Rightarrow> wait list \<Rightarrow> hub \<Rightarrow> world \<Rightarrow> goerr option \<times> hub \<times> world" where
  "runOnce E RT ns h w = (case rt_acquire RT of
      Some e \<Rightarrow> (Some (Wrap ''acquire: '' (Ext e)), h, w)
    | None \<Rightarrow> (case query E (\<lambda>_. ()) w of
        (Inl e, w) \<Rightarrow> (Some (Wrap ''LISTEN: '' e), h, w)
      | (Inr _, w) \<Rightarrow> listen_loop E RT ns h w))"

text \<open>
  The goroutine of \<^verbatim>\<open>Start\<close> over the histories of its connections; the flag of a history says
  whether the context is done during the pause after it. \<open>True\<close>: the goroutine has returned.
\<close>

fun listen_goroutine :: "env \<Rightarrow> (rt_env \<times> wait list \<times> bool) list \<Rightarrow> hub \<Rightarrow> world \<Rightarrow> bool \<times> hub \<times> world" where
  "listen_goroutine E [] h w = (False, h, w)"
| "listen_goroutine E ((RT, ns, ctx_done) # cs) h w = (case runOnce E RT ns h w of
      (None, h, w) \<Rightarrow> (False, h, w)
    | (Some e, h, w) \<Rightarrow>
        if errors_is e ErrCanceled \<or> errors_is e ErrDeadlineExceeded then (True, h\<lparr>hb_done := Some True\<rparr>, w)
        else if ctx_done then (True, h\<lparr>hb_done := Some True\<rparr>, w)
        else listen_goroutine E cs h w)"

definition Start :: "hub \<Rightarrow> bool \<times> hub" where
  "Start h = (if hb_started h then (False, h)
     else (True, h\<lparr>hb_started := True, hb_cancelled := Some False, hb_done := Some False\<rparr>))"

text \<open>
  \<^verbatim>\<open>Stop\<close>: the once, the cancel function when there is one, and whether it then waits for the
  goroutine (\<open>True\<close> when the done channel exists and is still open).
\<close>

definition Stop :: "hub \<Rightarrow> bool \<times> hub" where
  "Stop h = (if hb_stopped h then (False, h)
     else (hb_done h = Some False, h\<lparr>hb_stopped := True, hb_cancelled := map_option (\<lambda>_. True) (hb_cancelled h)\<rparr>))"

section \<open>handler.go\<close>

definition bearerOrQuery :: "request \<Rightarrow> string" where
  "bearerOrQuery r = (case ExtractBearer r of
      Inr tok \<Rightarrow> tok
    | Inl e \<Rightarrow> if \<not> errors_is e ErrNoBearer then [] else rq_query r ''api_key'')"

text \<open>
  \<^verbatim>\<open>Subscribe\<close> up to the session: a refusal before the upgrade, an upgrade that fails
  (\<open>accept\<close> is \<^verbatim>\<open>websocket.Accept\<close>), or a registered subscriber with its filter; its identity
  \<open>i\<close> is that of the allocated struct.
\<close>

datatype upgraded = Refused nat string | NotUpgraded | Subscribed filter_rec

definition subscribe_h :: "env \<Rightarrow> bool \<Rightarrow> nat \<Rightarrow> request \<Rightarrow> hub \<Rightarrow> world \<Rightarrow> upgraded \<times> hub \<times> world" where
  "subscribe_h E accept i r h w =
     (let apiKey = bearerOrQuery r in
      if apiKey = [] then (Refused 401 ''missing api key'', h, w)
      else case keys_Verify E apiKey w of
        (Inl e, w) \<Rightarrow> (Refused 401 ''invalid api key'', h, w)
      | (Inr (projectID, _), w) \<Rightarrow> (case projects_Get E projectID w of
          (Inl e, w) \<Rightarrow> (Refused 404 ''project not found'', h, w)
        | (Inr proj, w) \<Rightarrow>
            if \<not> accept then (NotUpgraded, h, w)
            else let f = \<lparr>f_schema = pr_schema proj, f_table = rq_query r ''table'', f_user_id = rq_query r ''user_id''\<rparr>
              in (Subscribed f, hub_Subscribe i \<lparr>sb_filter = f, sb_cap = 64, sb_events = []\<rparr> h, w)))"

text \<open>
  The session: the cases of its \<^verbatim>\<open>select\<close> as they become ready, with whether the write or the ping
  succeeds, and the steps of other goroutines in between. It returns the events written and whether it has ended; the deferred deregistration runs then.
\<close>

datatype ready = CtxDone | ReadDone | EventReady bool | PingTick bool | Meanwhile hub_op

fun session_loop :: "nat \<Rightarrow> ready list \<Rightarrow> hub \<Rightarrow> change_event list \<times> bool \<times> hub" where
  "session_loop i [] h = ([], False, h)"
| "session_loop i (CtxDone # rs) h = ([], True, hub_unsubscribe i h)"
| "session_loop i (ReadDone # rs) h = ([], True, hub_unsubscribe i h)"
| "session_loop i (EventReady ok # rs) h = (case receive i h of
      None \<Rightarrow> session_loop i rs h
    | Some (ev, h) \<Rightarrow> if \<not> ok then ([], True, hub_unsubscribe i h)
        else let (evs, ended, h) = session_loop i rs h in (ev # evs, ended, h))"
| "session_loop i (PingTick ok # rs) h =
     (if \<not> ok then ([], True, hub_unsubscribe i h) else session_loop i rs h)"
| "session_loop i (Meanwhile op1 # rs) h = session_loop i rs (snd (hub_op_step op1 h))"

text \<open>After the upgrade: the hello frame (\<open>hello_ok\<close>: whether its write succeeds), then the loop.\<close>

definition session :: "nat \<Rightarrow> bool \<Rightarrow> ready list \<Rightarrow> hub \<Rightarrow> change_event list \<times> bool \<times> hub" where
  "session i hello_ok rs h = (if \<not> hello_ok then ([], True, hub_unsubscribe i h) else session_loop i rs h)"

section \<open>Lemmas\<close>

text \<open>What \<^verbatim>\<open>fanout\<close> does to each subscriber, and the number of drops.\<close>

definition accepts :: "change_event \<Rightarrow> subscriber \<Rightarrow> bool" where
  "accepts ev s \<longleftrightarrow> matches (sb_filter s) ev \<and> length (sb_events s) < sb_cap s"

definition full :: "change_event \<Rightarrow> subscriber \<Rightarrow> bool" where
  "full ev s \<longleftrightarrow> matches (sb_filter s) ev \<and> sb_cap s \<le> length (sb_events s)"

definition delivered :: "change_event \<Rightarrow> subscriber \<Rightarrow> subscriber" where
  "delivered ev s = (if accepts ev s then s\<lparr>sb_events := sb_events s @ [ev]\<rparr> else s)"

lemma offer_eq: "offer ev s = (delivered ev s, if full ev s then 1 else 0)"
  by (simp add: offer_def delivered_def accepts_def full_def)

lemma fanout_loop_eq:
  "fanout_loop ev subs = (map (\<lambda>(i, s). (i, delivered ev s)) subs, length (filter (\<lambda>(i, s). full ev s) subs))"
  by (induction subs) (auto simp: offer_eq)

lemma fanout_subs: "hb_subs (fanout ev h) = map (\<lambda>(i, s). (i, delivered ev s)) (hb_subs h)"
  by (simp add: fanout_def fanout_loop_eq)

lemma fanout_drops: "hb_drops (fanout ev h) = hb_drops h + of_nat (length (filter (\<lambda>(i, s). full ev s) (hb_subs h)))"
  by (simp add: fanout_def fanout_loop_eq)

lemma map_of_delivered: "map_of (map (\<lambda>(i, s). (i, delivered ev s)) subs) i = map_option (delivered ev) (map_of subs i)"
  by (induction subs) auto

section \<open>Each channel is a bounded queue\<close>

text \<open>
  The abstract view of one subscriber: a bounded queue that other subscribers do not touch. It
  returns what is received, what is left in the queue, and the number of events dropped.
\<close>

fun fifo :: "nat \<Rightarrow> filter_rec \<Rightarrow> nat \<Rightarrow> hub_op list \<Rightarrow> change_event list \<Rightarrow> change_event list \<times> change_event list \<times> nat" where
  "fifo i f cap [] q = ([], q, 0)"
| "fifo i f cap (OpFanout ev # ops) q =
     (if \<not> matches f ev then fifo i f cap ops q
      else if length q < cap then fifo i f cap ops (q @ [ev])
      else let (out, q, d) = fifo i f cap ops q in (out, q, Suc d))"
| "fifo i f cap (OpReceive j # ops) q =
     (if j = i \<and> q \<noteq> [] then let (out, q', d) = fifo i f cap ops (tl q) in (hd q # out, q', d)
      else fifo i f cap ops q)"
| "fifo i f cap (OpSubscribe j s # ops) q = fifo i f cap ops q"
| "fifo i f cap (OpUnsubscribe j # ops) q = fifo i f cap ops q"

fun about :: "nat \<Rightarrow> hub_op \<Rightarrow> bool" where
  "about i (OpSubscribe j s) = (j = i)"
| "about i (OpUnsubscribe j) = (j = i)"
| "about i _ = False"

fun fanned :: "hub_op list \<Rightarrow> change_event list" where
  "fanned [] = []"
| "fanned (OpFanout ev # ops) = ev # fanned ops"
| "fanned (_ # ops) = fanned ops"

lemma receive_Some:
  "receive i h = Some (ev, h') \<longleftrightarrow> (\<exists>s evs. map_of (hb_subs h) i = Some s \<and> sb_events s = ev # evs \<and>
     h' = h\<lparr>hb_subs := AList.update i (s\<lparr>sb_events := evs\<rparr>) (hb_subs h)\<rparr>)"
  by (auto simp: receive_def split: option.splits list.splits)

lemma hub_run_fifo:
  assumes "map_of (hb_subs h) i = Some s" "list_all (\<lambda>op1. \<not> about i op1) ops"
    and "hub_run ops h = (out, h')" "fifo i (sb_filter s) (sb_cap s) ops (sb_events s) = (evs, q, d)"
  shows "map_of (hb_subs h') i = Some (s\<lparr>sb_events := q\<rparr>) \<and> map snd (filter (\<lambda>x. fst x = i) out) = evs"
  using assms
proof (induction ops arbitrary: h s out evs q d)
  case (Cons op1 ops)
  obtain o1 h1 where s1: "hub_op_step op1 h = (o1, h1)" by fastforce
  obtain o2 where r: "hub_run ops h1 = (o2, h')" "out = o1 @ o2"
    using Cons.prems(3) s1 by (auto split: prod.splits)
  have ops: "list_all (\<lambda>op1. \<not> about i op1) ops" using Cons.prems(2) by simp
  show ?case
  proof (cases op1)
    case (OpSubscribe j x)
    with Cons.prems s1 have "map_of (hb_subs h1) i = Some s" "o1 = []"
      by (auto simp: hub_Subscribe_def update_conv')
    from Cons.IH [OF this(1) ops r(1)] Cons.prems(4) OpSubscribe r(2) this(2) show ?thesis by simp
  next
    case (OpUnsubscribe j)
    with Cons.prems s1 have "map_of (hb_subs h1) i = Some s" "o1 = []"
      by (auto simp: hub_unsubscribe_def delete_conv')
    from Cons.IH [OF this(1) ops r(1)] Cons.prems(4) OpUnsubscribe r(2) this(2) show ?thesis by simp
  next
    case (OpFanout ev)
    with Cons.prems(1) s1 have m: "map_of (hb_subs h1) i = Some (delivered ev s)" "o1 = []"
      by (auto simp: fanout_subs map_of_delivered)
    have "sb_filter (delivered ev s) = sb_filter s" "sb_cap (delivered ev s) = sb_cap s"
      "(delivered ev s)\<lparr>sb_events := q\<rparr> = s\<lparr>sb_events := q\<rparr>" by (simp_all add: delivered_def)
    moreover obtain evs' q' d' where f: "fifo i (sb_filter s) (sb_cap s) ops (sb_events (delivered ev s)) = (evs', q', d')"
      by (metis prod_cases3)
    moreover from f Cons.prems(4) OpFanout have "evs' = evs" "q' = q"
      by (auto simp: delivered_def accepts_def split: if_splits prod.splits)
    ultimately show ?thesis using Cons.IH [OF m(1) ops r(1), of evs q d'] r(2) m(2) by simp
  next
    case (OpReceive j)
    show ?thesis
    proof (cases "receive j h")
      case None
      with s1 OpReceive have "h1 = h" "o1 = []" by auto
      moreover have "j = i \<Longrightarrow> sb_events s = []"
        using None Cons.prems(1) by (auto simp: receive_def split: list.splits)
      ultimately show ?thesis using Cons.IH [OF Cons.prems(1) ops, of o2 evs q d] r Cons.prems(4) OpReceive
        by (auto split: if_splits)
    next
      case (Some x)
      obtain ev h0 where x: "x = (ev, h0)" by (cases x)
      with Some s1 OpReceive have o1: "o1 = [(j, ev)]" "h1 = h0" by auto
      from Some x obtain sj evsj where sj: "map_of (hb_subs h) j = Some sj" "sb_events sj = ev # evsj"
        "h0 = h\<lparr>hb_subs := AList.update j (sj\<lparr>sb_events := evsj\<rparr>) (hb_subs h)\<rparr>"
        by (auto simp: receive_Some)
      show ?thesis
      proof (cases "j = i")
        case True
        with sj Cons.prems(1) have m: "map_of (hb_subs h1) i = Some (s\<lparr>sb_events := evsj\<rparr>)" "sb_events s = ev # evsj"
          using o1(2) by (auto simp: update_conv')
        obtain evs' q' d' where f: "fifo i (sb_filter s) (sb_cap s) ops evsj = (evs', q', d')" by (metis prod_cases3)
        with Cons.prems(4) OpReceive True m(2) have "evs = ev # evs'" "q = q'" by auto
        with Cons.IH [OF m(1) ops r(1), of evs' q' d'] f r(2) o1(1) True show ?thesis by simp
      next
        case False
        with sj Cons.prems(1) o1(2) have "map_of (hb_subs h1) i = Some s" by (simp add: update_conv')
        from Cons.IH [OF this ops r(1), of evs q d] Cons.prems(4) OpReceive False r(2) o1(1) show ?thesis by simp
      qed
    qed
  qed
qed simp

text \<open>Without a drop the queue loses nothing and keeps the order.\<close>

lemma fifo_order:
  "fifo i f cap ops q = (evs, q', d) \<Longrightarrow> d = 0 \<Longrightarrow> evs @ q' = q @ filter (matches f) (fanned ops)"
  by (induction i f cap ops q arbitrary: evs q' d rule: fifo.induct) (auto split: if_splits prod.splits)

lemma fifo_sound:
  "fifo i f cap ops q = (evs, q', d) \<Longrightarrow> set (evs @ q') \<subseteq> set q \<union> {ev \<in> set (fanned ops). matches f ev}"
proof (induction i f cap ops q arbitrary: evs q' d rule: fifo.induct)
  case (3 i f cap j ops q)
  then show ?case by (cases q) (fastforce split: if_splits prod.splits)+
qed (fastforce split: if_splits prod.splits)+

section \<open>Sessions\<close>

text \<open>What another goroutine may do: anything but to register, deregister or drain this subscriber.\<close>

fun foreign :: "nat \<Rightarrow> ready \<Rightarrow> bool" where
  "foreign i (Meanwhile (OpSubscribe j s)) = (j \<noteq> i)"
| "foreign i (Meanwhile (OpUnsubscribe j)) = (j \<noteq> i)"
| "foreign i (Meanwhile (OpReceive j)) = (j \<noteq> i)"
| "foreign i _ = True"

definition holds_matching :: "nat \<Rightarrow> filter_rec \<Rightarrow> hub \<Rightarrow> bool" where
  "holds_matching i f h \<longleftrightarrow> (\<exists>s. map_of (hb_subs h) i = Some s \<and> sb_filter s = f \<and> list_all (matches f) (sb_events s))"

lemma holds_foreign:
  assumes "holds_matching i f h" "foreign i (Meanwhile op1)"
  shows "holds_matching i f (snd (hub_op_step op1 h))"
proof (cases op1)
  case (OpSubscribe j s)
  with assms show ?thesis by (simp add: holds_matching_def hub_Subscribe_def update_conv')
next
  case (OpUnsubscribe j)
  with assms show ?thesis by (simp add: holds_matching_def hub_unsubscribe_def delete_conv')
next
  case (OpFanout ev)
  from assms(1) obtain s where s: "map_of (hb_subs h) i = Some s" "sb_filter s = f" "list_all (matches f) (sb_events s)"
    by (auto simp: holds_matching_def)
  then have "map_of (hb_subs (fanout ev h)) i = Some (delivered ev s)" by (simp add: fanout_subs map_of_delivered)
  moreover have "sb_filter (delivered ev s) = f" "list_all (matches f) (sb_events (delivered ev s))"
    using s(2,3) by (auto simp: delivered_def accepts_def)
  ultimately show ?thesis using OpFanout by (simp add: holds_matching_def)
next
  case (OpReceive j)
  with assms(2) have "j \<noteq> i" by simp
  with assms(1) OpReceive show ?thesis
    by (cases "receive j h") (auto simp: holds_matching_def receive_Some update_conv')
qed

lemma holds_receive:
  assumes "holds_matching i f h" "receive i h = Some (ev, h')"
  shows "holds_matching i f h' \<and> matches f ev"
  using assms by (auto simp: holds_matching_def receive_Some update_conv')

lemma session_loop_matching:
  assumes "holds_matching i f h" "list_all (foreign i) rs" "session_loop i rs h = (evs, ended, h')"
  shows "list_all (matches f) evs \<and> (if ended then map_of (hb_subs h') i = None else holds_matching i f h')"
  using assms
proof (induction i rs h arbitrary: evs ended h' rule: session_loop.induct)
  case (4 i ok rs h)
  show ?case
  proof (cases "receive i h")
    case None
    with 4 show ?thesis by simp
  next
    case (Some x)
    obtain ev h1 where x: "x = (ev, h1)" by (cases x)
    note hold = holds_receive [OF "4.prems"(1) Some [unfolded x]]
    show ?thesis
    proof (cases ok)
      case False
      with Some x "4.prems"(3) show ?thesis by (auto simp: hub_unsubscribe_def delete_conv')
    next
      case True
      obtain evs1 e1 h2 where r: "session_loop i rs h1 = (evs1, e1, h2)" by (metis prod_cases3)
      from "4.IH"(2) [OF Some x [symmetric] _ _ _ r] True hold "4.prems" Some x r show ?thesis by auto
    qed
  qed
next
  case (6 i op1 rs h)
  then have "foreign i (Meanwhile op1)" by simp
  from holds_foreign [OF "6.prems"(1) this] 6 show ?case by simp
qed (auto simp: hub_unsubscribe_def delete_conv' split: if_splits)

section \<open>Properties\<close>

text \<open>
  Property C31. The hub implements one bounded queue per subscriber: whatever is fanned out, received
  and registered elsewhere, what a registered subscriber receives and still has in its channel is what its own
  bounded queue gives, so a slow subscriber costs no other subscriber an event; and as long as its queue drops
  nothing it gets exactly the events that match its filter, in their order.
\<close>

theorem hub_refines_queues:
  assumes "map_of (hb_subs h) i = Some s" "list_all (\<lambda>op1. \<not> about i op1) ops"
  shows "case hub_run ops h of (out, h') \<Rightarrow>
    case fifo i (sb_filter s) (sb_cap s) ops (sb_events s) of (evs, q, d) \<Rightarrow>
      map_of (hb_subs h') i = Some (s\<lparr>sb_events := q\<rparr>) \<and> map snd (filter (\<lambda>x. fst x = i) out) = evs \<and>
      set (evs @ q) \<subseteq> set (sb_events s) \<union> {ev \<in> set (fanned ops). matches (sb_filter s) ev} \<and>
      (d = 0 \<longrightarrow> evs @ q = sb_events s @ filter (matches (sb_filter s)) (fanned ops))"
proof -
  obtain out h' where r: "hub_run ops h = (out, h')" by fastforce
  obtain evs q d where f: "fifo i (sb_filter s) (sb_cap s) ops (sb_events s) = (evs, q, d)" by (metis prod_cases3)
  from hub_run_fifo [OF assms r f] fifo_sound [OF f] fifo_order [OF f] r f show ?thesis by simp
qed

text \<open>What a subscription was opened for.\<close>

lemma subscribe_h_Subscribed:
  assumes "subscribe_h E accept i r h w = (Subscribed f, h1, w1)"
  shows "\<exists>k p. k \<in> set (api_keys (wdb w)) \<and> k_revoked k = None \<and> Verify E (bearerOrQuery r) (k_hash k) = Inr () \<and>
    p \<in> set (projects (wdb w)) \<and> p_id p = k_project k \<and> p_deleted p = None \<and>
    f = \<lparr>f_schema = p_schema p, f_table = rq_query r ''table'', f_user_id = rq_query r ''user_id''\<rparr> \<and>
    h1 = hub_Subscribe i \<lparr>sb_filter = f, sb_cap = 64, sb_events = []\<rparr> h"
proof -
  obtain v w0 where v: "keys_Verify E (bearerOrQuery r) w = (v, w0)" by fastforce
  from assms v obtain pid kid where v': "v = Inr (pid, kid)"
    by (cases v) (auto simp: subscribe_h_def Let_def split: if_splits)
  obtain g w2 where g: "projects_Get E pid w0 = (g, w2)" by fastforce
  from assms v v' g obtain proj where g': "g = Inr proj"
    by (cases g) (auto simp: subscribe_h_def Let_def split: if_splits)
  from assms have f: "f = \<lparr>f_schema = pr_schema proj, f_table = rq_query r ''table'', f_user_id = rq_query r ''user_id''\<rparr>"
    and h1: "h1 = hub_Subscribe i \<lparr>sb_filter = f, sb_cap = 64, sb_events = []\<rparr> h"
    by (auto simp: subscribe_h_def Let_def v v' g g' split: if_splits)
  from v v' obtain k :: key_row where k: "k \<in> set (api_keys (wdb w))" "k_project k = pid" "k_revoked k = None"
    "Verify E (bearerOrQuery r) (k_hash k) = Inr ()"
    by (auto simp: keys_Verify_Inr dest: select_one_Some)
  from keys_Verify_frame [OF v] have "projects (wdb w0) = projects (wdb w)" by auto
  with g g' obtain p where p: "select_one (\<lambda>p. p_id p = pid \<and> p_deleted p = None) (projects (wdb w)) = Some p"
    "proj = project_columns p" by (auto simp: projects_Get_Inr)
  note p' = select_one_Some [OF p(1)]
  have "pr_schema proj = p_schema p" using p(2) by (simp add: project_columns_def)
  with k p' f h1 show ?thesis by (intro exI [of _ k] exI [of _ p]) simp
qed

text \<open>
  Property C32. A subscription shows its holder the changes of one project only: it is opened for a
  live key of a live project, every event written to it carries this project's schema, and the table and the
  user asked for, if any; when the session ends, however it ends, the hub has forgotten the subscriber.
\<close>

theorem subscription_isolated:
  assumes "subscribe_h E True i r h w = (Subscribed f, h1, w1)" "session i hello_ok rs h1 = (evs, ended, h2)"
    and "list_all (foreign i) rs"
  shows "(\<exists>k p. k \<in> set (api_keys (wdb w)) \<and> k_revoked k = None \<and> Verify E (bearerOrQuery r) (k_hash k) = Inr () \<and>
      p \<in> set (projects (wdb w)) \<and> p_id p = k_project k \<and> p_deleted p = None \<and> f_schema f = p_schema p) \<and>
    f_table f = rq_query r ''table'' \<and> f_user_id f = rq_query r ''user_id'' \<and>
    (\<forall>ev \<in> set evs. ev_schema ev = f_schema f \<and> (f_table f = [] \<or> ev_table ev = f_table f) \<and>
       (f_user_id f = [] \<or> ev_user_id ev = f_user_id f)) \<and>
    (ended \<longrightarrow> map_of (hb_subs h2) i = None)"
proof -
  from subscribe_h_Subscribed [OF assms(1)] obtain k p where
    k: "k \<in> set (api_keys (wdb w))" "k_revoked k = None" "Verify E (bearerOrQuery r) (k_hash k) = Inr ()"
    and p: "p \<in> set (projects (wdb w))" "p_id p = k_project k" "p_deleted p = None"
    and f: "f = \<lparr>f_schema = p_schema p, f_table = rq_query r ''table'', f_user_id = rq_query r ''user_id''\<rparr>"
    and h1: "h1 = hub_Subscribe i \<lparr>sb_filter = f, sb_cap = 64, sb_events = []\<rparr> h" by blast
  have hold: "holds_matching i f h1" by (simp add: holds_matching_def h1 hub_Subscribe_def update_conv')
  have s: "list_all (matches f) evs \<and> (if ended then map_of (hb_subs h2) i = None else holds_matching i f h2)"
  proof (cases hello_ok)
    case True
    with assms(2) have "session_loop i rs h1 = (evs, ended, h2)" by (simp add: session_def)
    from session_loop_matching [OF hold assms(3) this] show ?thesis .
  next
    case False
    with assms(2) show ?thesis by (auto simp: session_def hub_unsubscribe_def delete_conv')
  qed
  have ev: "ev_schema ev = f_schema f \<and> (f_table f = [] \<or> ev_table ev = f_table f) \<and>
      (f_user_id f = [] \<or> ev_user_id ev = f_user_id f)" if "ev \<in> set evs" for ev
    using s that by (auto simp: list_all_iff matches_def split: if_splits)
  from f k p ev s show ?thesis by auto
qed

text \<open>
  The life of the hub's goroutine: a second \<^verbatim>\<open>Start\<close> does nothing; \<^verbatim>\<open>Stop\<close>
  cancels its context and waits for it, once; it returns, closing its done channel, when its wait reports the
  cancellation, whatever notifications came before. A \<^verbatim>\<open>Stop\<close> that comes before \<^verbatim>\<open>Start\<close> uses up
  the once: the goroutine started after it is never cancelled.
\<close>

lemma hub_lifecycle:
  assumes "\<not> hb_started h" "\<not> hb_stopped h" "hb_cancelled h = None" "rt_acquire RT = None" "\<forall>n. flt E n = None"
    and "errors_is e ErrCanceled"
  shows "Start (snd (Start h)) = (False, snd (Start h)) \<and>
    fst (Stop (snd (Start h))) \<and> hb_cancelled (snd (Stop (snd (Start h)))) = Some True \<and>
    Stop (snd (Stop (snd (Start h)))) = (False, snd (Stop (snd (Start h)))) \<and>
    (\<exists>h' w'. listen_goroutine E ((RT, map Note ns @ [WaitErr e], c) # cs) g w = (True, h', w') \<and> hb_done h' = Some True) \<and>
    hb_cancelled (snd (Stop (snd (Start (snd (Stop h)))))) = Some False"
proof -
  have loop: "\<exists>h' w'. listen_loop E RT (map Note ns @ [WaitErr e]) g w = (Some e, h', w')" for g w
  proof (induction ns arbitrary: g w)
    case (Cons n ns)
    obtain x w1 where x: "hydrate E RT n w = (x, w1)" by fastforce
    with Cons.IH [of g w1] Cons.IH show ?case by (cases x) auto
  qed simp
  have q: "query E (\<lambda>_. ()) w = (Inr (), w\<lparr>tick := Suc (tick w)\<rparr>)" using assms(5) by (simp add: query_Inr)
  obtain h' w' where l: "listen_loop E RT (map Note ns @ [WaitErr e]) g (w\<lparr>tick := Suc (tick w)\<rparr>) = (Some e, h', w')"
    using loop by blast
  then have "listen_goroutine E ((RT, map Note ns @ [WaitErr e], c) # cs) g w = (True, h'\<lparr>hb_done := Some True\<rparr>, w')"
    using assms(4,6) q by (simp add: runOnce_def)
  then have "\<exists>h' w'. listen_goroutine E ((RT, map Note ns @ [WaitErr e], c) # cs) g w = (True, h', w') \<and> hb_done h' = Some True"
    by fastforce
  with assms(1-3) show ?thesis by (simp add: Start_def Stop_def)
qed

section \<open>Witnesses\<close>

definition demo_event :: "string \<Rightarrow> change_event" where
  "demo_event schema = \<lparr>ev_log_id = 1, ev_schema = schema, ev_table = ''t'', ev_op = ''INSERT'', ev_row_id = [], ev_user_id = [],
     ev_before = None, ev_after = Some ''{}'', ev_created = ''2026-01-01''\<rparr>"

definition demo_filter :: filter_rec where
  "demo_filter = \<lparr>f_schema = ''p_demo'', f_table = [], f_user_id = []\<rparr>"

lemma hub_refines_queues_witness:
  "\<exists>h'. hub_run [OpFanout (demo_event ''p_demo''), OpFanout (demo_event ''p_fork''), OpReceive 5]
     (hub_Subscribe 5 \<lparr>sb_filter = demo_filter, sb_cap = 64, sb_events = []\<rparr> NewHub) = ([(5, demo_event ''p_demo'')], h') \<and>
     (\<exists>s. map_of (hb_subs h') 5 = Some s \<and> sb_events s = [])"
proof -
  let ?s = "\<lparr>sb_filter = demo_filter, sb_cap = 64, sb_events = []\<rparr>"
  let ?ops = "[OpFanout (demo_event ''p_demo''), OpFanout (demo_event ''p_fork''), OpReceive 5]"
  have m: "map_of (hb_subs (hub_Subscribe 5 ?s NewHub)) 5 = Some ?s" by (simp add: hub_Subscribe_def update_conv')
  have "fifo 5 demo_filter 64 ?ops [] = ([demo_event ''p_demo''], [], 0)"
    by (simp add: matches_def demo_filter_def demo_event_def)
  with hub_refines_queues [OF m, of ?ops] have "case hub_run ?ops (hub_Subscribe 5 ?s NewHub) of (out, h') \<Rightarrow>
      (\<exists>s. map_of (hb_subs h') 5 = Some s \<and> sb_events s = [])" by (auto split: prod.splits)
  moreover have "\<exists>h'. hub_run ?ops (hub_Subscribe 5 ?s NewHub) = ([(5, demo_event ''p_demo'')], h')"
    by (simp add: hub_Subscribe_def NewHub_def fanout_def Let_def offer_def matches_def demo_filter_def demo_event_def receive_def)
  ultimately show ?thesis by auto
qed

lemma subscription_isolated_witness:
  "\<exists>r w f h1 w1 ended h2. subscribe_h demo_env True 5 r NewHub w = (Subscribed f, h1, w1) \<and>
     session 5 True [Meanwhile (OpFanout (demo_event ''p_demo'')), Meanwhile (OpFanout (demo_event ''p_fork'')),
       EventReady True, EventReady True, ReadDone] h1 = ([demo_event ''p_demo''], ended, h2) \<and> map_of (hb_subs h2) 5 = None"
proof -
  obtain k :: issued_key and w1 where i: "keys_Issue demo_env 7 ''ci'' (world_of demo_db) = (Inr k, w1)"
    and v: "fst (keys_Verify demo_env (ik_plaintext k) w1) = Inr (7, ak_id (ik_key k))"
    using demo_key_verifies by blast
  from v obtain w2 where v2: "keys_Verify demo_env (ik_plaintext k) w1 = (Inr (7, ak_id (ik_key k)), w2)"
    by (cases "keys_Verify demo_env (ik_plaintext k) w1") auto
  from keys_Issue_frame [OF i] have "projects (wdb w1) = [demo_project]" by (auto simp: world_of_def demo_db_def)
  with keys_Verify_frame [OF v2] have "projects (wdb w2) = [demo_project]" by auto
  then have g: "projects_Get demo_env 7 w2 = (Inr (project_columns demo_project), w2\<lparr>tick := Suc (tick w2)\<rparr>)"
    by (simp add: projects_Get_Inr select_one_def demo_project_def)
  define r where "r = demo_request\<lparr>rq_auth := ''Bearer '' @ ik_plaintext k\<rparr>"
  have "ExtractBearer r = Inr (ik_plaintext k)" by (rule issued_bearer [OF i]) (simp add: r_def)
  then have key: "bearerOrQuery r = ik_plaintext k" by (simp add: bearerOrQuery_def)
  have ne: "ik_plaintext k \<noteq> []" using keys_Issue_plaintext [OF i] by (auto simp: KeyPrefix_def)
  let ?s = "\<lparr>sb_filter = demo_filter, sb_cap = 64, sb_events = []\<rparr>"
  have sub: "subscribe_h demo_env True 5 r NewHub w1 =
      (Subscribed demo_filter, hub_Subscribe 5 ?s NewHub, w2\<lparr>tick := Suc (tick w2)\<rparr>)"
    by (simp add: subscribe_h_def key ne v2 g Let_def)
      (simp add: project_columns_def demo_project_def demo_filter_def r_def demo_request_def)
  let ?rs = "[Meanwhile (OpFanout (demo_event ''p_demo'')), Meanwhile (OpFanout (demo_event ''p_fork'')),
       EventReady True, EventReady True, ReadDone]"
  have run: "\<exists>h2. session 5 True ?rs (hub_Subscribe 5 ?s NewHub) = ([demo_event ''p_demo''], True, h2)"
    by (simp add: session_def hub_Subscribe_def NewHub_def fanout_def Let_def offer_def matches_def demo_filter_def
        demo_event_def receive_def)
  then obtain h2 where run: "session 5 True ?rs (hub_Subscribe 5 ?s NewHub) = ([demo_event ''p_demo''], True, h2)" by blast
  from subscription_isolated [OF sub run] sub run show ?thesis by fastforce
qed

end
