(* ===== verification/Rest_Tokens.thy ===== *)
theory Rest_Tokens
  imports Projects Config
begin

text \<open>
  The PostgREST hand-off: the JWT signer (\<^verbatim>\<open>internal/controlplane/authjwt/jwt.go\<close>) and
  \<^verbatim>\<open>POST /v1/rest/token\<close> (\<^verbatim>\<open>internal/controlplane/rest/handlers.go\<close>). The JWT
  library is a parameter \<open>J\<close>, with its documented behaviour in \<open>jwt_ok\<close>.
\<close>

section \<open>The JWT library\<close>

text \<open>
  The registered claims are whole seconds since the epoch
  (\<^verbatim>\<open>jwt.NewNumericDate\<close> truncates to \<^verbatim>\<open>jwt.TimePrecision\<close>, a second).
\<close>

record claims =
  c_role :: string
  c_project :: uuid
  c_user :: string
  c_issuer :: string
  c_iat :: "int option"
  c_exp :: "int option"

definition NewNumericDate :: "instant \<Rightarrow> int" where
  "NewNumericDate t = t div 1000000000"

datatype jwt_alg = HMAC string | OtherAlg string

fun alg_name :: "jwt_alg \<Rightarrow> string" where
  "alg_name (HMAC a) = a"
| "alg_name (OtherAlg a) = a"

text \<open>
  \<open>jl_sign\<close> is \<^verbatim>\<open>NewWithClaims(SigningMethodHS256, claims).SignedString(secret)\<close>,
  \<open>jl_parse\<close> is \<^verbatim>\<open>ParseWithClaims\<close> at an instant with a key function, \<open>jl_alg\<close> the
  method a token's header names and \<open>jl_mac\<close> whether its signature verifies under a key.
\<close>

record jwt_lib =
  jl_sign :: "string \<Rightarrow> claims \<Rightarrow> string + string"
  jl_parse :: "instant \<Rightarrow> (jwt_alg \<Rightarrow> string result) \<Rightarrow> string \<Rightarrow> claims result"
  jl_alg :: "string \<Rightarrow> jwt_alg option"
  jl_mac :: "jwt_alg \<Rightarrow> string \<Rightarrow> string \<Rightarrow> bool"

definition unexpired :: "instant \<Rightarrow> claims \<Rightarrow> bool" where
  "unexpired now c = (case c_exp c of None \<Rightarrow> True | Some e \<Rightarrow> now < e * 1000000000)"

text \<open>
  The documented behaviour: what is accepted has a method the key function has a key for, a
  signature that verifies under this key, and has not expired; what is signed and has not expired is
  accepted under the same secret and gives back the claims.
\<close>

definition jwt_sound :: "jwt_lib \<Rightarrow> bool" where
  "jwt_sound J \<longleftrightarrow> (\<forall>now kf t c. jl_parse J now kf t = Inr c \<longrightarrow> unexpired now c \<and>
     (\<exists>m s. jl_alg J t = Some m \<and> kf m = Inr s \<and> jl_mac J m s t))"

definition jwt_complete :: "jwt_lib \<Rightarrow> bool" where
  "jwt_complete J \<longleftrightarrow> (\<forall>s c t now kf. jl_sign J s c = Inr t \<longrightarrow> utf8_valid (c_role c) \<longrightarrow>
     utf8_valid (c_user c) \<longrightarrow> unexpired now c \<longrightarrow> kf (HMAC ''HS256'') = Inr s \<longrightarrow> jl_parse J now kf t = Inr c)"

definition jwt_expires :: "jwt_lib \<Rightarrow> bool" where
  "jwt_expires J \<longleftrightarrow> (\<forall>s c t now kf. jl_sign J s c = Inr t \<longrightarrow> \<not> unexpired now c \<longrightarrow>
     (\<exists>e. jl_parse J now kf t = Inl e))"

definition jwt_ok :: "jwt_lib \<Rightarrow> bool" where
  "jwt_ok J \<longleftrightarrow> jwt_sound J \<and> jwt_complete J \<and> jwt_expires J"

section \<open>jwt.go\<close>

record signer = sg_secret :: string

definition NewSigner :: "string \<Rightarrow> signer result" where
  "NewSigner secret = (if length secret < 16 then Inl (Msg ''jwt secret must be at least 16 chars'')
     else Inr \<lparr>sg_secret = secret\<rparr>)"

record issue_opts =
  io_role :: string
  io_project :: uuid
  io_user :: string
  io_ttl :: duration

text \<open>\<open>now\<close> is \<^verbatim>\<open>time.Now()\<close>.\<close>

definition Issue :: "jwt_lib \<Rightarrow> instant \<Rightarrow> signer \<Rightarrow> issue_opts \<Rightarrow> (string \<times> instant) result" where
  "Issue J now S o1 =
     (if io_role o1 = [] then Inl (Msg ''role is required'')
      else let o2 = (if io_ttl o1 <=s 0 then o1\<lparr>io_ttl := hour\<rparr> else o1);
               ex = time_add now (io_ttl o2);
               c = \<lparr>c_role = io_role o2, c_project = io_project o2, c_user = io_user o2, c_issuer = ''pwrap'',
                    c_iat = Some (NewNumericDate now), c_exp = Some (NewNumericDate ex)\<rparr>
        in case jl_sign J (sg_secret S) c of
          Inl e \<Rightarrow> Inl (Wrap ''sign: '' (Ext e))
        | Inr tok \<Rightarrow> Inr (tok, ex))"

definition key_func :: "signer \<Rightarrow> jwt_alg \<Rightarrow> string result" where
  "key_func S m = (case m of HMAC _ \<Rightarrow> Inr (sg_secret S)
     | OtherAlg a \<Rightarrow> Inl (Msg (''unexpected signing method: '' @ a)))"

definition signer_Verify :: "jwt_lib \<Rightarrow> instant \<Rightarrow> signer \<Rightarrow> string \<Rightarrow> claims result" where
  "signer_Verify J now S t = (case jl_parse J now (key_func S) t of Inl e \<Rightarrow> Inl e | Inr c \<Rightarrow> Inr c)"

section \<open>rest/handlers.go\<close>

record rest_handler =
  rh_signer :: "signer option"
  rh_cfg :: config

record issue_resp =
  ir_token :: string
  ir_url :: string
  ir_role :: string
  ir_expires :: instant

text \<open>\<open>pid\<close> is what \<^verbatim>\<open>auth.ProjectID\<close> finds in the request's context.\<close>

definition rest_ttl :: "config \<Rightarrow> int \<Rightarrow> duration" where
  "rest_ttl cfg n = (let ttl = dur_mul n second in
     if ttl <=s 0 then dur_mul (RestTokenTTLSeconds cfg) second else ttl)"

definition IssueToken :: "env \<Rightarrow> jwt_lib \<Rightarrow> rest_handler \<Rightarrow> uuid option \<Rightarrow> request \<Rightarrow> issue_resp handler" where
  "IssueToken E J H ctx r w = (case rh_signer H of
      None \<Rightarrow> write_err 503 ''REST integration disabled (PWRAP_JWT_SECRET not set)'' w
    | Some S \<Rightarrow> (case ctx of
        None \<Rightarrow> write_err 401 ''no project'' w
      | Some pid \<Rightarrow>
         let (user, secs) = (case rq_body r of None \<Rightarrow> ([], 0) | Some b \<Rightarrow> snd (json_rest E b));
             ttl = rest_ttl (rh_cfg H) secs
         in (case projects_Get E pid w of
            (Inl e, w) \<Rightarrow> if errors_is e ErrProjectNotFound then write_err 404 ''project not found'' w
                            else write_err 500 (err_text e) w
          | (Inr proj, w) \<Rightarrow>
             (case Issue J (go_now E) S \<lparr>io_role = pr_role proj, io_project = pr_id proj, io_user = user, io_ttl = ttl\<rparr> of
                Inl e \<Rightarrow> write_err 500 (err_text e) w
              | Inr (tok, ex) \<Rightarrow> write_ok 200 \<lparr>ir_token = tok, ir_url = RestExternalURL (rh_cfg H),
                  ir_role = pr_role proj, ir_expires = ex\<rparr> w))))"

text \<open>The route: \<^verbatim>\<open>APIKeyAuth\<close> puts the key's project into the context.\<close>

definition rest_token_route :: "env \<Rightarrow> jwt_lib \<Rightarrow> rest_handler \<Rightarrow> request \<Rightarrow> issue_resp handler" where
  "rest_token_route E J H r = APIKeyAuth E r (\<lambda>pid kid. IssueToken E J H (Some pid) r)"

section \<open>Lemmas\<close>

lemma Issue_Inr:
  "Issue J now S o1 = Inr (t, ex) \<Longrightarrow> io_role o1 \<noteq> [] \<and>
     ex = time_add now (if io_ttl o1 <=s 0 then hour else io_ttl o1) \<and>
     jl_sign J (sg_secret S) \<lparr>c_role = io_role o1, c_project = io_project o1, c_user = io_user o1,
       c_issuer = ''pwrap'', c_iat = Some (NewNumericDate now), c_exp = Some (NewNumericDate ex)\<rparr> = Inr t"
  by (auto simp: Issue_def Let_def split: if_splits sum.splits)

lemma jwt_ok_sound:
  "jwt_ok J \<Longrightarrow> jl_parse J now kf t = Inr c \<Longrightarrow> unexpired now c \<and>
     (\<exists>m s. jl_alg J t = Some m \<and> kf m = Inr s \<and> jl_mac J m s t)"
  unfolding jwt_ok_def jwt_sound_def by blast

lemma jwt_ok_complete:
  "jwt_ok J \<Longrightarrow> jl_sign J s c = Inr t \<Longrightarrow> utf8_valid (c_role c) \<Longrightarrow> utf8_valid (c_user c) \<Longrightarrow>
     unexpired now c \<Longrightarrow> kf (HMAC ''HS256'') = Inr s \<Longrightarrow> jl_parse J now kf t = Inr c"
  unfolding jwt_ok_def jwt_complete_def by blast

lemma jwt_ok_expired:
  "jwt_ok J \<Longrightarrow> jl_sign J s c = Inr t \<Longrightarrow> \<not> unexpired now c \<Longrightarrow> \<exists>e. jl_parse J now kf t = Inl e"
  unfolding jwt_ok_def jwt_expires_def by blast

lemma IssueToken_200:
  assumes "IssueToken E J H ctx r w = ((st, Inr resp), w')"
  obtains S pid p secs user where "rh_signer H = Some S" "ctx = Some pid" "st = 200"
    "select_one (\<lambda>p. p_id p = pid \<and> p_deleted p = None) (projects (wdb w)) = Some p"
    "(user, secs) = (case rq_body r of None \<Rightarrow> ([], 0) | Some b \<Rightarrow> snd (json_rest E b))"
    "Issue J (go_now E) S \<lparr>io_role = p_role p, io_project = p_id p, io_user = user,
       io_ttl = rest_ttl (rh_cfg H) secs\<rparr> = Inr (ir_token resp, ir_expires resp)"
    "ir_role resp = p_role p" "ir_url resp = RestExternalURL (rh_cfg H)"
    "w' = w\<lparr>tick := Suc (tick w)\<rparr>"
proof -
  obtain user secs where b: "(case rq_body r of None \<Rightarrow> ([], 0) | Some b \<Rightarrow> snd (json_rest E b)) = (user, secs)"
    by fastforce
  from assms obtain S pid where S: "rh_signer H = Some S" "ctx = Some pid"
    by (auto simp: IssueToken_def split: option.splits)
  obtain g w1 where g: "projects_Get E pid w = (g, w1)" by fastforce
  from assms S b g obtain proj where p: "g = Inr proj"
    by (cases g) (auto simp: IssueToken_def Let_def split: if_splits)
  from g p obtain p where row: "select_one (\<lambda>p. p_id p = pid \<and> p_deleted p = None) (projects (wdb w)) = Some p"
    "proj = project_columns p" "w1 = w\<lparr>tick := Suc (tick w)\<rparr>"
    by (auto simp: projects_Get_Inr)
  let ?i = "Issue J (go_now E) S \<lparr>io_role = p_role p, io_project = p_id p, io_user = user,
      io_ttl = rest_ttl (rh_cfg H) secs\<rparr>"
  from assms have "(case ?i of Inl e \<Rightarrow> write_err 500 (err_text e) w1
      | Inr (tok, ex) \<Rightarrow> write_ok 200 \<lparr>ir_token = tok, ir_url = RestExternalURL (rh_cfg H),
          ir_role = p_role p, ir_expires = ex\<rparr> w1) = ((st, Inr resp), w')"
    unfolding IssueToken_def S option.case b prod.case Let_def g p row
    by (simp add: project_columns_def cong: sum.case_cong)
  then have "?i = Inr (ir_token resp, ir_expires resp)" "st = 200" "ir_role resp = p_role p"
    "ir_url resp = RestExternalURL (rh_cfg H)" "w' = w1"
    by (auto split: sum.splits prod.splits)
  then show ?thesis using that [OF S _ row(1) b [symmetric]] row(3) by simp
qed

lemma NewNumericDate_bounds: "NewNumericDate t * 1000000000 \<le> t" "t < NewNumericDate t * 1000000000 + 1000000000"
  by (simp_all add: NewNumericDate_def)

text \<open>An issued token verifies with its claims until its last whole second, and never from there on.\<close>

lemma Issue_verifies:
  assumes "jwt_ok J" "Issue J now S o1 = Inr (t, ex)" "utf8_valid (io_role o1)" "utf8_valid (io_user o1)"
  shows "if at < NewNumericDate ex * 1000000000 then signer_Verify J at S t = Inr \<lparr>c_role = io_role o1,
      c_project = io_project o1, c_user = io_user o1, c_issuer = ''pwrap'',
      c_iat = Some (NewNumericDate now), c_exp = Some (NewNumericDate ex)\<rparr>
    else \<exists>e. signer_Verify J at S t = Inl e"
proof -
  let ?c = "\<lparr>c_role = io_role o1, c_project = io_project o1, c_user = io_user o1, c_issuer = ''pwrap'',
    c_iat = Some (NewNumericDate now), c_exp = Some (NewNumericDate ex)\<rparr>"
  from Issue_Inr [OF assms(2)] have s: "jl_sign J (sg_secret S) ?c = Inr t" by blast
  have k: "key_func S (HMAC ''HS256'') = Inr (sg_secret S)" by (simp add: key_func_def)
  have u: "unexpired at ?c \<longleftrightarrow> at < NewNumericDate ex * 1000000000" by (simp add: unexpired_def)
  have "jl_parse J at (key_func S) t = Inr ?c" if "at < NewNumericDate ex * 1000000000"
    by (rule jwt_ok_complete [where s = "sg_secret S"]) (use assms s k u that in simp_all)
  moreover have "\<exists>e. jl_parse J at (key_func S) t = Inl e" if "\<not> at < NewNumericDate ex * 1000000000"
    by (rule jwt_ok_expired [where s = "sg_secret S"]) (use assms s u that in simp_all)
  ultimately show ?thesis by (auto simp: signer_Verify_def)
qed

lemma rest_ttl_seconds:
  "1 \<le> n \<Longrightarrow> n \<le> 9223372036 \<Longrightarrow> sint (rest_ttl cfg n) = n * 1000000000"
  "- 9223372036 \<le> n \<Longrightarrow> n \<le> 0 \<Longrightarrow> rest_ttl cfg n = dur_mul (RestTokenTTLSeconds cfg) second"
  using sint_dur_mul [of n 1000000000] by (simp_all add: rest_ttl_def Let_def word_sle_eq)

section \<open>Properties\<close>

text \<open>
  Property C26. A token handed out by \<^verbatim>\<open>/v1/rest/token\<close> is bound to the API key presented: the
  key is live, its project is live, and the token verifies, until the last whole second before the returned
  expiry and not after, as the role and id of exactly this project.
\<close>

theorem rest_token_bound_to_key:
  assumes "rest_token_route E J H r w = ((st, Inr resp), w')" "jwt_ok J"
    and "\<forall>p \<in> set (projects (wdb w)). utf8_valid (p_role p)" "\<forall>b. utf8_valid (fst (snd (json_rest E b)))"
  shows "st = 200 \<and> (\<exists>S k p x c T. rh_signer H = Some S \<and> ExtractBearer r = Inr x \<and>
    k \<in> set (api_keys (wdb w)) \<and> k_revoked k = None \<and> Verify E x (k_hash k) = Inr () \<and>
    p \<in> set (projects (wdb w)) \<and> p_id p = k_project k \<and> p_deleted p = None \<and> ir_role resp = p_role p \<and>
    c_role c = p_role p \<and> c_project c = k_project k \<and> c_issuer c = ''pwrap'' \<and>
    ir_expires resp - 1000000000 < T \<and> T \<le> ir_expires resp \<and>
    (\<forall>at. if at < T then signer_Verify J at S (ir_token resp) = Inr c
          else \<exists>e. signer_Verify J at S (ir_token resp) = Inl e))"
proof -
  from assms(1) obtain x pid kid w1 where x: "ExtractBearer r = Inr x" "keys_Verify E x w = (Inr (pid, kid), w1)"
    "IssueToken E J H (Some pid) r w1 = ((st, Inr resp), w')"
    by (auto simp: rest_token_route_def APIKeyAuth_def split: sum.splits prod.splits if_splits)
  from x(2) obtain k :: key_row where k: "k \<in> set (api_keys (wdb w))"
    "k_project k = pid" "k_revoked k = None" "Verify E x (k_hash k) = Inr ()"
    by (auto simp: keys_Verify_Inr dest: select_one_Some)
  from keys_Verify_frame [OF x(2)] have w1: "projects (wdb w1) = projects (wdb w)" by auto
  obtain S pid' and p :: project_row and secs user where i: "rh_signer H = Some S" "Some pid = Some pid'" "st = 200"
    "select_one (\<lambda>p. p_id p = pid' \<and> p_deleted p = None) (projects (wdb w1)) = Some p"
    "(user, secs) = (case rq_body r of None \<Rightarrow> ([], 0) | Some b \<Rightarrow> snd (json_rest E b))"
    "Issue J (go_now E) S \<lparr>io_role = p_role p, io_project = p_id p, io_user = user,
       io_ttl = rest_ttl (rh_cfg H) secs\<rparr> = Inr (ir_token resp, ir_expires resp)"
    "ir_role resp = p_role p" "ir_url resp = RestExternalURL (rh_cfg H)" "w' = w1\<lparr>tick := Suc (tick w1)\<rparr>"
    by (rule IssueToken_200 [OF x(3)])
  from select_one_Some [OF i(4)] w1 i(2) have p: "p \<in> set (projects (wdb w))" "p_id p = pid" "p_deleted p = None"
    by auto
  from i(5) have "user = (case rq_body r of None \<Rightarrow> [] | Some b \<Rightarrow> fst (snd (json_rest E b)))"
    by (cases "rq_body r") (simp_all add: prod_eq_iff)
  with assms(4) have "utf8_valid user" by (cases "rq_body r") simp_all
  then have "utf8_valid (io_role \<lparr>io_role = p_role p, io_project = p_id p, io_user = user,
       io_ttl = rest_ttl (rh_cfg H) secs\<rparr>)" "utf8_valid (io_user \<lparr>io_role = p_role p, io_project = p_id p,
       io_user = user, io_ttl = rest_ttl (rh_cfg H) secs\<rparr>)"
    using assms(3) p(1) by simp_all
  note v = Issue_verifies [OF assms(2) i(6) this]
  show ?thesis
    by (intro conjI i(3) exI [of _ S] exI [of _ k] exI [of _ p] exI [of _ x] exI [of _ "\<lparr>c_role = p_role p,
      c_project = p_id p, c_user = user, c_issuer = ''pwrap'', c_iat = Some (NewNumericDate (go_now E)),
      c_exp = Some (NewNumericDate (ir_expires resp))\<rparr>"] exI [of _ "NewNumericDate (ir_expires resp) * 1000000000"])
      (use v i(1,7) x(1) k p NewNumericDate_bounds [of "ir_expires resp"] in simp_all)
qed

text \<open>
  Property C27. \<^verbatim>\<open>Verify\<close> accepts only what an HMAC method signs under the signer's own secret
  and what has not expired: a token whose header names another algorithm is refused.
\<close>

theorem signer_Verify_sound:
  assumes "jwt_ok J" "signer_Verify J now S t = Inr c"
  shows "unexpired now c \<and> (\<exists>a. jl_alg J t = Some (HMAC a) \<and> jl_mac J (HMAC a) (sg_secret S) t)"
proof -
  from assms(2) have p: "jl_parse J now (key_func S) t = Inr c"
    by (simp add: signer_Verify_def split: sum.splits)
  from jwt_ok_sound [OF assms(1) p] obtain m s where m: "unexpired now c" "jl_alg J t = Some m"
    "key_func S m = Inr s" "jl_mac J m s t" by blast
  then show ?thesis by (cases m) (auto simp: key_func_def)
qed

text \<open>
  The lifetime of a token: a positive number of seconds in the request is taken as
  it is, up to 9223372036 (292 years: the server sets no bound of its own); zero and negative numbers give
  the configured lifetime, and a configured lifetime of zero or less gives an hour.
\<close>

lemma rest_token_lifetime:
  assumes "IssueToken E J H ctx r w = ((st, Inr resp), w')" "rq_body r = Some b"
    "json_rest E b = (ok, user, n)" "- 9223372036 \<le> n" "n \<le> 9223372036"
    "- 9223372036 \<le> RestTokenTTLSeconds (rh_cfg H)" "RestTokenTTLSeconds (rh_cfg H) \<le> 9223372036"
  shows "ir_expires resp = go_now E + 1000000000 *
     (if 1 \<le> n then n else if 1 \<le> RestTokenTTLSeconds (rh_cfg H) then RestTokenTTLSeconds (rh_cfg H) else 3600)"
proof -
  obtain S pid and p :: project_row and secs usr where i: "rh_signer H = Some S" "ctx = Some pid" "st = 200"
    "select_one (\<lambda>p. p_id p = pid \<and> p_deleted p = None) (projects (wdb w)) = Some p"
    "(usr, secs) = (case rq_body r of None \<Rightarrow> ([], 0) | Some b \<Rightarrow> snd (json_rest E b))"
    "Issue J (go_now E) S \<lparr>io_role = p_role p, io_project = p_id p, io_user = usr,
       io_ttl = rest_ttl (rh_cfg H) secs\<rparr> = Inr (ir_token resp, ir_expires resp)"
    "ir_role resp = p_role p" "ir_url resp = RestExternalURL (rh_cfg H)" "w' = w\<lparr>tick := Suc (tick w)\<rparr>"
    by (rule IssueToken_200 [OF assms(1)])
  have secs: "secs = n" using i(5) assms(2,3) by simp
  have cfg: "sint (dur_mul (RestTokenTTLSeconds (rh_cfg H)) second) = RestTokenTTLSeconds (rh_cfg H) * 1000000000"
    using sint_dur_mul [of "RestTokenTTLSeconds (rh_cfg H)" 1000000000] assms(6,7) by simp
  have h: "sint (hour :: duration) = 3600 * 1000000000" by code_simp
  from Issue_Inr [OF i(6)] have "ir_expires resp = time_add (go_now E)
      (if rest_ttl (rh_cfg H) n <=s 0 then hour else rest_ttl (rh_cfg H) n)" using secs by simp
  then show ?thesis
    using rest_ttl_seconds [of n "rh_cfg H"] assms(4,5) cfg h by (auto simp: time_add_def word_sle_eq)
qed

section \<open>Witnesses\<close>

text \<open>
  A library that meets the documented behaviour: a token is the secret and the claims, each string
  with its length in unary before it.
\<close>

definition enc_nat :: "nat \<Rightarrow> string" where
  "enc_nat n = replicate n CHR ''1'' @ ''0''"

definition dec_nat :: "string \<Rightarrow> nat \<times> string" where
  "dec_nat s = (length (takeWhile (\<lambda>c. c = CHR ''1'') s), drop 1 (dropWhile (\<lambda>c. c = CHR ''1'') s))"

definition enc_str :: "string \<Rightarrow> string" where
  "enc_str s = enc_nat (length s) @ s"

definition dec_str :: "string \<Rightarrow> string \<times> string" where
  "dec_str s = (let (n, r) = dec_nat s in (take n r, drop n r))"

definition enc_int :: "int \<Rightarrow> string" where
  "enc_int i = enc_nat (nat i) @ enc_nat (nat (- i))"

definition dec_int :: "string \<Rightarrow> int \<times> string" where
  "dec_int s = (let (a, r) = dec_nat s; (b, r) = dec_nat r in (int a - int b, r))"

definition enc_opt :: "int option \<Rightarrow> string" where
  "enc_opt x = (case x of None \<Rightarrow> ''-'' | Some i \<Rightarrow> ''+'' @ enc_int i)"

definition dec_opt :: "string \<Rightarrow> int option \<times> string" where
  "dec_opt s = (if take 1 s = ''-'' then (None, drop 1 s) else let (i, r) = dec_int (drop 1 s) in (Some i, r))"

lemma dec_nat_enc [simp]: "dec_nat (enc_nat n @ r) = (n, r)"
  by (induction n) (simp_all add: dec_nat_def enc_nat_def)

lemma dec_str_enc [simp]: "dec_str (enc_str s @ r) = (s, r)"
  by (simp add: dec_str_def enc_str_def)

lemma dec_int_enc [simp]: "dec_int (enc_int i @ r) = (i, r)"
  by (simp add: dec_int_def enc_int_def)

lemma dec_opt_enc [simp]: "dec_opt (enc_opt x @ r) = (x, r)"
  by (cases x) (simp_all add: dec_opt_def enc_opt_def)

definition enc_claims :: "claims \<Rightarrow> string" where
  "enc_claims c = enc_str (c_role c) @ enc_int (uint (c_project c)) @ enc_str (c_user c) @
     enc_str (c_issuer c) @ enc_opt (c_iat c) @ enc_opt (c_exp c)"

definition dec_claims :: "string \<Rightarrow> claims" where
  "dec_claims s = (let (role, s) = dec_str s; (pid, s) = dec_int s; (user, s) = dec_str s;
     (iss, s) = dec_str s; (iat, s) = dec_opt s; (ex, s) = dec_opt s in
     \<lparr>c_role = role, c_project = word_of_int pid, c_user = user, c_issuer = iss, c_iat = iat, c_exp = ex\<rparr>)"

lemma dec_claims_enc: "dec_claims (enc_claims c) = c"
proof -
  have "dec_opt (enc_opt x) = (x, [])" for x using dec_opt_enc [of x "[]"] by simp
  then show ?thesis by (cases c) (simp add: dec_claims_def enc_claims_def)
qed

definition demo_jwt :: jwt_lib where
  "demo_jwt = \<lparr>jl_sign = (\<lambda>s c. Inr (enc_str s @ enc_claims c)),
     jl_parse = (\<lambda>now kf t. case kf (HMAC ''HS256'') of Inl e \<Rightarrow> Inl e
       | Inr s \<Rightarrow> if fst (dec_str t) \<noteq> s then Inl (Ext ''token signature is invalid'')
           else if \<not> unexpired now (dec_claims (snd (dec_str t))) then Inl (Ext ''token is expired'')
           else Inr (dec_claims (snd (dec_str t)))),
     jl_alg = (\<lambda>t. Some (HMAC ''HS256'')), jl_mac = (\<lambda>m s t. fst (dec_str t) = s)\<rparr>"

lemma demo_jwt_ok: "jwt_ok demo_jwt"
  by (auto simp: jwt_ok_def jwt_sound_def jwt_complete_def jwt_expires_def demo_jwt_def dec_claims_enc
      split: sum.splits if_splits)

definition demo_rest :: rest_handler where
  "demo_rest = \<lparr>rh_signer = Some \<lparr>sg_secret = ''sixteen-chars-ok''\<rparr>, rh_cfg = demo_config\<rparr>"

lemma demo_IssueToken:
  assumes "projects (wdb w) = [demo_project]"
  shows "\<exists>resp w'. IssueToken demo_env demo_jwt demo_rest (Some 7) r w = ((200, Inr resp), w')"
proof -
  have g: "projects_Get demo_env 7 w = (Inr (project_columns demo_project), w\<lparr>tick := Suc (tick w)\<rparr>)"
    using assms by (simp add: projects_Get_Inr select_one_def demo_project_def)
  show ?thesis
    by (simp add: IssueToken_def demo_rest_def g Let_def Issue_def demo_jwt_def project_columns_def
        demo_project_def split: prod.splits option.splits)
qed

lemma rest_token_bound_to_key_witness:
  "\<exists>r w resp w' e. rest_token_route demo_env demo_jwt demo_rest r w = ((200, Inr resp), w') \<and>
     ir_role resp = ''p_demo'' \<and>
     signer_Verify demo_jwt (ir_expires resp) \<lparr>sg_secret = ''sixteen-chars-ok''\<rparr> (ir_token resp) = Inl e"
proof -
  obtain k :: issued_key and w1 where i: "keys_Issue demo_env 7 ''ci'' (world_of demo_db) = (Inr k, w1)"
    and v: "fst (keys_Verify demo_env (ik_plaintext k) w1) = Inr (7, ak_id (ik_key k))"
    using demo_key_verifies by blast
  from v obtain w2 where v2: "keys_Verify demo_env (ik_plaintext k) w1 = (Inr (7, ak_id (ik_key k)), w2)"
    by (cases "keys_Verify demo_env (ik_plaintext k) w1") auto
  from keys_Issue_frame [OF i] have p1: "projects (wdb w1) = [demo_project]" by (auto simp: world_of_def demo_db_def)
  with keys_Verify_frame [OF v2] have p2: "projects (wdb w2) = [demo_project]" by auto
  define r where "r = demo_request\<lparr>rq_auth := ''Bearer '' @ ik_plaintext k\<rparr>"
  have x: "ExtractBearer r = Inr (ik_plaintext k)" by (rule issued_bearer [OF i]) (simp add: r_def)
  from demo_IssueToken [OF p2] obtain resp :: issue_resp and w3
    where t: "IssueToken demo_env demo_jwt demo_rest (Some 7) r w2 = ((200, Inr resp), w3)" by blast
  have run: "rest_token_route demo_env demo_jwt demo_rest r w1 = ((200, Inr resp), w3)"
    by (simp add: rest_token_route_def APIKeyAuth_def x v2 t)
  have u: "utf8_valid ''p_demo''" by code_simp
  then have "\<forall>p \<in> set (projects (wdb w1)). utf8_valid (p_role p)" by (simp add: p1 demo_project_def)
  moreover have "\<forall>b. utf8_valid (fst (snd (json_rest demo_env b)))" by (simp add: demo_env_def)
  ultimately obtain S k' p x c T where "rh_signer demo_rest = Some S" "p \<in> set (projects (wdb w1))"
    "ir_role resp = p_role p" "T \<le> ir_expires resp" and acc: "\<forall>at. if at < T
      then signer_Verify demo_jwt at S (ir_token resp) = Inr c
      else \<exists>e. signer_Verify demo_jwt at S (ir_token resp) = Inl e"
    using rest_token_bound_to_key [OF run demo_jwt_ok] by blast
  moreover from this obtain e where "signer_Verify demo_jwt (ir_expires resp) S (ir_token resp) = Inl e"
    by (metis not_le)
  ultimately show ?thesis using run p1 by (auto simp: demo_rest_def demo_project_def)
qed

lemma signer_Verify_sound_witness:
  "\<exists>t c. Issue demo_jwt 0 \<lparr>sg_secret = ''sixteen-chars-ok''\<rparr> \<lparr>io_role = ''p_demo'', io_project = 7, io_user = [],
      io_ttl = 0\<rparr> = Inr (t, 3600000000000) \<and>
    signer_Verify demo_jwt 0 \<lparr>sg_secret = ''sixteen-chars-ok''\<rparr> t = Inr c \<and>
    (\<exists>a. jl_alg demo_jwt t = Some (HMAC a) \<and> jl_mac demo_jwt (HMAC a) ''sixteen-chars-ok'' t)"
proof -
  let ?S = "\<lparr>sg_secret = ''sixteen-chars-ok''\<rparr>"
  have h: "sint (hour :: duration) = 3600000000000" by code_simp
  have "\<exists>t. Issue demo_jwt 0 ?S \<lparr>io_role = ''p_demo'', io_project = 7, io_user = [], io_ttl = 0\<rparr> = Inr (t, 3600000000000)"
    by (simp add: Issue_def Let_def demo_jwt_def time_add_def h)
  then obtain t where i: "Issue demo_jwt 0 ?S \<lparr>io_role = ''p_demo'', io_project = 7, io_user = [], io_ttl = 0\<rparr> =
      Inr (t, 3600000000000)" by blast
  have "utf8_valid ''p_demo''" "utf8_valid []" by code_simp+
  with Issue_verifies [OF demo_jwt_ok i, of 0] have "\<exists>c. signer_Verify demo_jwt 0 ?S t = Inr c"
    by (simp add: NewNumericDate_def)
  then obtain c :: claims where v: "signer_Verify demo_jwt 0 ?S t = Inr c" by blast
  from signer_Verify_sound [OF demo_jwt_ok v]
  have "\<exists>a. jl_alg demo_jwt t = Some (HMAC a) \<and> jl_mac demo_jwt (HMAC a) ''sixteen-chars-ok'' t" by simp
  with i v show ?thesis by blast
qed

end
