(* ===== verification/Server.thy ===== *)
theory Server
  imports Frame Realtime Rest_Tokens
begin

text \<open>
  \<^verbatim>\<open>internal/controlplane/server.go\<close>: how the services are put together, and the routes
  with their guards. chi finds the route of a request (\<^verbatim>\<open>rq_pattern\<close>, empty when no pattern
  matches); the middlewares for tracing, request ids, recovery and the timeout do not change a request that
  the handlers answer in time. The model of the routes is for a server with a pool; without one only the
  wiring is modelled.
\<close>

section \<open>NewServer\<close>

definition buildCipher :: "(string \<Rightarrow> aead) \<Rightarrow> config \<Rightarrow> cipher result" where
  "buildCipher gcm cfg = (if EncryptionKey cfg = [] then Inr Noop else NewFromBase64Key gcm (EncryptionKey cfg))"

text \<open>The services of keys and of admin tokens have no state but the pool.\<close>

record 'l server =
  srv_cfg :: config
  srv_projects :: service
  srv_tenancy :: tenancy_service
  srv_migrations :: runner
  srv_signer :: "signer option"
  srv_hub :: "hub option"
  srv_limiter :: "(int, 'l) limiter"

definition NewServer :: "(string \<Rightarrow> aead) \<Rightarrow> (string \<Rightarrow> string result) \<Rightarrow> bool \<Rightarrow> config \<Rightarrow> 'l server" where
  "NewServer gcm fs has_pool cfg =
     (let ps = (if RestEnabled cfg then NewServiceWithAuth (AuthenticatorRole cfg) else NewService);
          ps = (case buildCipher gcm cfg of Inr c \<Rightarrow> WithCipher ps (Some c) | Inl _ \<Rightarrow> ps);
          ts = tenancy_NewService ps cfg;
          mr = \<lparr>rn_projects = ps, rn_cfg = cfg, rn_fs = fs\<rparr>;
          signer = (if RestEnabled cfg then (case NewSigner (JWTSecret cfg) of Inl _ \<Rightarrow> None | Inr s \<Rightarrow> Some s) else None);
          hub = (if has_pool then Some (snd (Start NewHub)) else None)
      in \<lparr>srv_cfg = cfg, srv_projects = ps, srv_tenancy = ts, srv_migrations = mr, srv_signer = signer,
          srv_hub = hub, srv_limiter = NewLimiter 10 20\<rparr>)"

text \<open>The flag: whether it waits for the hub's goroutine.\<close>

definition StopHub :: "'l server \<Rightarrow> bool \<times> 'l server" where
  "StopHub s = (case srv_hub s of None \<Rightarrow> (False, s)
     | Some h \<Rightarrow> (let (waits, h) = Stop h in (waits, s\<lparr>srv_hub := Some h\<rparr>)))"

section \<open>Routes\<close>

datatype endpoint = Healthz | Readyz | TokensIssue | TokensList | TokensRevoke
  | ProjectsCreate | ProjectsList | ProjectsGet | ProjectsDelete
  | BranchesCreate | BranchesList | BranchesSync | KeysIssue | KeysList | KeysRevoke
  | MigrationsApply | MigrationsStatus | SqlApply | Connection | RestToken | SubscribeWS

type_synonym route = "string \<times> string \<times> endpoint"

definition token_routes :: "route list" where
  "token_routes = [(''POST'', ''/admin/tokens'', TokensIssue), (''GET'', ''/admin/tokens'', TokensList),
     (''DELETE'', ''/admin/tokens/{tokenID}'', TokensRevoke)]"

definition project_routes :: "route list" where
  "project_routes = [(''POST'', ''/projects'', ProjectsCreate), (''GET'', ''/projects'', ProjectsList),
     (''GET'', ''/projects/{id}'', ProjectsGet), (''DELETE'', ''/projects/{id}'', ProjectsDelete)]"

definition branch_routes :: "route list" where
  "branch_routes = [(''POST'', ''/projects/{id}/branches'', BranchesCreate),
     (''GET'', ''/projects/{id}/branches'', BranchesList), (''POST'', ''/projects/{id}/sync'', BranchesSync)]"

definition key_routes :: "route list" where
  "key_routes = [(''POST'', ''/projects/{id}/keys'', KeysIssue), (''GET'', ''/projects/{id}/keys'', KeysList),
     (''DELETE'', ''/projects/{id}/keys/{keyID}'', KeysRevoke)]"

definition migration_routes :: "route list" where
  "migration_routes = [(''POST'', ''/projects/{id}/migrations'', MigrationsApply),
     (''GET'', ''/projects/{id}/migrations'', MigrationsStatus)]"

definition sql_routes :: "route list" where
  "sql_routes = [(''POST'', ''/projects/{id}/sql'', SqlApply)]"

text \<open>The middlewares of a group of routes.\<close>

datatype guard = Open | Bootstrap | Scoped scope | ApiKey | Socket

definition route_groups :: "'l server \<Rightarrow> (guard \<times> route list) list" where
  "route_groups s =
     [(Open, [(''GET'', ''/healthz'', Healthz), (''GET'', ''/readyz'', Readyz)]),
      (Bootstrap, token_routes),
      (Scoped ScopeProjects, project_routes @ branch_routes),
      (Scoped ScopeKeys, key_routes),
      (Scoped ScopeMigrate, migration_routes),
      (Scoped ScopeSQL, sql_routes),
      (ApiKey, (''POST'', ''/connection'', Connection) #
         (if srv_signer s \<noteq> None then [(''POST'', ''/rest/token'', RestToken)] else []))] @
     (if srv_hub s \<noteq> None then [(Socket, [(''GET'', ''/subscribe'', SubscribeWS)])] else [])"

definition mounted :: "'l server \<Rightarrow> (string \<times> string \<times> guard \<times> endpoint) list" where
  "mounted s = concat (map (\<lambda>(g, rs). map (\<lambda>(m, p, e). (m, ''/v1'' @ p, g, e)) rs) (route_groups s))"

definition lookup_route :: "'l server \<Rightarrow> request \<Rightarrow> (guard \<times> endpoint) option" where
  "lookup_route s r = map_option (\<lambda>(m, p, g, e). (g, e))
     (find (\<lambda>(m, p, g, e). m = rq_method r \<and> p = rq_pattern r) (mounted s))"

section \<open>The handlers behind the routes\<close>

datatype payload = PHealth string | PProject project | PProjects "project list"
  | PToken issued_token | PTokens "token list" | PKey issued_key | PKeys "apikey list"
  | PMigration mig_entry | PStatus mig_status | PApplied bool
  | PConnection connection | PRest issue_resp | PUpgraded filter_rec | PNone

text \<open>
  What the handlers use beside the database: the JWT library, SQL in a transaction, the token
  bucket, the outcome of the WebSocket upgrade (the reply the library has sent when it fails), and the
  identity of the new subscriber.
\<close>

record 'l srv_env =
  x_jwt :: jwt_lib
  x_sql :: sql_env
  x_bucket :: "(int, 'l) bucket"
  x_upgrade :: "(nat \<times> string) option"
  x_sub :: nat

definition reply_map :: "('a \<Rightarrow> 'b) \<Rightarrow> 'a handler \<Rightarrow> 'b handler" where
  "reply_map f h w = (case h w of ((st, rep), w) \<Rightarrow> ((st, map_sum id f rep), w))"

definition handleHealthz :: "string handler" where
  "handleHealthz w = write_ok 200 ''ok'' w"

definition handleReadyz :: "env \<Rightarrow> string handler" where
  "handleReadyz E w = (case query E (\<lambda>_. ()) w of
      (Inl e, w) \<Rightarrow> write_err 503 (err_text e) w
    | (Inr _, w) \<Rightarrow> write_ok 200 ''ready'' w)"

text \<open>\<open>ctx\<close> is the project id the key middleware has put into the context.\<close>

fun endpoint_h :: "env \<Rightarrow> 'l srv_env \<Rightarrow> 'l server \<Rightarrow> uuid option \<Rightarrow> request \<Rightarrow> endpoint \<Rightarrow> payload handler" where
  "endpoint_h E X s ctx r Healthz = reply_map PHealth handleHealthz"
| "endpoint_h E X s ctx r Readyz = reply_map PHealth (handleReadyz E)"
| "endpoint_h E X s ctx r TokensIssue = reply_map PToken (tokens_issue_h E r)"
| "endpoint_h E X s ctx r TokensList = reply_map PTokens (tokens_list_h E r)"
| "endpoint_h E X s ctx r TokensRevoke = reply_map (\<lambda>_. PNone) (tokens_revoke_h E r)"
| "endpoint_h E X s ctx r ProjectsCreate = reply_map PProject (projects_create_h E (srv_projects s) r)"
| "endpoint_h E X s ctx r ProjectsList = reply_map PProjects (projects_list_h E r)"
| "endpoint_h E X s ctx r ProjectsGet = reply_map PProject (projects_get_h E r)"
| "endpoint_h E X s ctx r ProjectsDelete = reply_map (\<lambda>_. PNone) (projects_delete_h E (srv_projects s) r)"
| "endpoint_h E X s ctx r BranchesCreate = reply_map PProject
     (branch_create_h E \<lparr>bs_projects = srv_projects s, bs_migrations = srv_migrations s\<rparr> r)"
| "endpoint_h E X s ctx r BranchesList = reply_map PProjects (branch_list_h E r)"
| "endpoint_h E X s ctx r BranchesSync = reply_map (\<lambda>_. PNone) (branch_sync_h E r)"
| "endpoint_h E X s ctx r KeysIssue = reply_map PKey (keys_issue_h E r)"
| "endpoint_h E X s ctx r KeysList = reply_map PKeys (keys_list_h E r)"
| "endpoint_h E X s ctx r KeysRevoke = reply_map (\<lambda>_. PNone) (keys_revoke_h E r)"
| "endpoint_h E X s ctx r MigrationsApply = reply_map PMigration (mig_apply_h E (srv_migrations s) r)"
| "endpoint_h E X s ctx r MigrationsStatus = reply_map PStatus (mig_status_h E r)"
| "endpoint_h E X s ctx r SqlApply = reply_map PApplied
     (sql_apply_h E (x_sql X) \<lparr>sh_projects = srv_projects s, sh_cfg = srv_cfg s\<rparr> r)"
| "endpoint_h E X s ctx r Connection = (\<lambda>w. case ctx of
      None \<Rightarrow> write_err 401 ''no project'' w
    | Some pid \<Rightarrow> reply_map PConnection (Connection_h E (srv_tenancy s) pid) w)"
| "endpoint_h E X s ctx r RestToken = reply_map PRest
     (IssueToken E (x_jwt X) \<lparr>rh_signer = srv_signer s, rh_cfg = srv_cfg s\<rparr> ctx r)"
| "endpoint_h E X s ctx r SubscribeWS = write_err 404 []"

text \<open>The upgrade, with the hub as it leaves it; a refusal leaves it as it was.\<close>

definition subscribe_route :: "env \<Rightarrow> 'l srv_env \<Rightarrow> request \<Rightarrow> hub \<Rightarrow> (payload \<times> hub) handler" where
  "subscribe_route E X r h w = (case subscribe_h E (x_upgrade X = None) (x_sub X) r h w of
      (Refused st msg, _, w) \<Rightarrow> write_err st msg w
    | (NotUpgraded, _, w) \<Rightarrow> (case x_upgrade X of Some (st, msg) \<Rightarrow> write_err st msg w | None \<Rightarrow> write_err 500 [] w)
    | (Subscribed f, h, w) \<Rightarrow> write_ok 101 (PUpgraded f, h) w)"

section \<open>Router\<close>

definition Router :: "env \<Rightarrow> 'l srv_env \<Rightarrow> request \<Rightarrow> 'l server \<Rightarrow> world \<Rightarrow> payload reply \<times> 'l server \<times> world" where
  "Router E X r s w = (case lookup_route s r of
      None \<Rightarrow> ((if \<exists>x \<in> set (mounted s). fst (snd x) = rq_pattern r then 405 else 404, Inl []), s, w)
    | Some (g, ep) \<Rightarrow> (case g of
        Open \<Rightarrow> (let (rep, w) = endpoint_h E X s None r ep w in (rep, s, w))
      | Bootstrap \<Rightarrow>
          (let (rep, w) = Audit E r (\<lambda>entry w.
             let (rep, w) = AdminOnly (BootstrapToken (srv_cfg s)) r (endpoint_h E X s None r ep) w in (rep, entry, w)) w
           in (rep, s, w))
      | Scoped scope \<Rightarrow>
          (let (rep, w) = Audit E r (RequireScope E scope r (\<lambda>_. endpoint_h E X s None r ep)) w in (rep, s, w))
      | ApiKey \<Rightarrow>
          (let ((rep, w), l) = RateLimit (x_bucket X) (go_now E) BearerKey r
             (APIKeyAuth E r (\<lambda>pid _. endpoint_h E X s (Some pid) r ep)) (srv_limiter s) w
           in (rep, s\<lparr>srv_limiter := l\<rparr>, w))
      | Socket \<Rightarrow> (case srv_hub s of
          None \<Rightarrow> ((404, Inl []), s, w)
        | Some h \<Rightarrow>
          (let (((st, rep), w), l) = RateLimit (x_bucket X) (go_now E) BearerKey r (subscribe_route E X r h) (srv_limiter s) w;
               s = s\<lparr>srv_limiter := l\<rparr>
           in case rep of Inl msg \<Rightarrow> ((st, Inl msg), s, w)
              | Inr (p, h) \<Rightarrow> ((st, Inr p), s\<lparr>srv_hub := Some h\<rparr>, w)))))"

section \<open>The guard of a path\<close>

text \<open>The guard the documentation gives a path, independent of the order and the number of routes.\<close>

definition guard_for :: "string \<Rightarrow> guard" where
  "guard_for p =
     (if has_prefix ''/v1/admin/tokens'' p then Bootstrap
      else if has_prefix ''/v1/projects/{id}/keys'' p then Scoped ScopeKeys
      else if has_prefix ''/v1/projects/{id}/migrations'' p then Scoped ScopeMigrate
      else if has_prefix ''/v1/projects/{id}/sql'' p then Scoped ScopeSQL
      else if has_prefix ''/v1/projects'' p then Scoped ScopeProjects
      else if p = ''/v1/subscribe'' then Socket
      else if p = ''/v1/connection'' \<or> p = ''/v1/rest/token'' then ApiKey
      else Open)"

text \<open>The routes by whether there is a signer and a hub, so that they are closed terms.\<close>

definition routes_with :: "bool \<Rightarrow> bool \<Rightarrow> (string \<times> string \<times> guard \<times> endpoint) list" where
  "routes_with signer hub = concat (map (\<lambda>(g, rs). map (\<lambda>(m, p, e). (m, ''/v1'' @ p, g, e)) rs)
     ([(Open, [(''GET'', ''/healthz'', Healthz), (''GET'', ''/readyz'', Readyz)]),
      (Bootstrap, token_routes),
      (Scoped ScopeProjects, project_routes @ branch_routes),
      (Scoped ScopeKeys, key_routes),
      (Scoped ScopeMigrate, migration_routes),
      (Scoped ScopeSQL, sql_routes),
      (ApiKey, (''POST'', ''/connection'', Connection) #
         (if signer then [(''POST'', ''/rest/token'', RestToken)] else []))] @
     (if hub then [(Socket, [(''GET'', ''/subscribe'', SubscribeWS)])] else [])))"

lemma mounted_with: "mounted s = routes_with (srv_signer s \<noteq> None) (srv_hub s \<noteq> None)"
  by (simp only: mounted_def route_groups_def routes_with_def)

lemma routes_with_guards:
  "list_all (\<lambda>(m, p, g, e). g = guard_for p \<and> (g = Socket \<longrightarrow> hub) \<and> m \<noteq> ''HEAD'' \<and> p \<noteq> [] \<and>
     (e \<in> set [TokensIssue, TokensList, TokensRevoke] \<longleftrightarrow> g = Bootstrap) \<and>
     (e \<in> set [Connection, RestToken] \<longleftrightarrow> g = ApiKey)) (routes_with signer hub)"
proof -
  have "\<forall>signer \<in> {True, False}. \<forall>hub \<in> {True, False}.
      list_all (\<lambda>(m, p, g, e). g = guard_for p \<and> (g = Socket \<longrightarrow> hub) \<and> m \<noteq> ''HEAD'' \<and> p \<noteq> [] \<and>
     (e \<in> set [TokensIssue, TokensList, TokensRevoke] \<longleftrightarrow> g = Bootstrap) \<and>
     (e \<in> set [Connection, RestToken] \<longleftrightarrow> g = ApiKey)) (routes_with signer hub)"
    by code_simp
  then show ?thesis by (cases signer; cases hub) simp_all
qed

lemma lookup_mounted:
  assumes "lookup_route s r = Some (g, e)"
  shows "(rq_method r, rq_pattern r, g, e) \<in> set (mounted s)"
  using assms by (auto simp: lookup_route_def find_Some_iff dest: nth_mem)

lemma lookup_guard: "lookup_route s r = Some (g, e) \<Longrightarrow> g = guard_for (rq_pattern r)"
  using routes_with_guards by (fastforce dest!: lookup_mounted simp: mounted_with list_all_iff)

lemma lookup_facts:
  assumes "lookup_route s r = Some (g, e)"
  shows "g = Socket \<longrightarrow> srv_hub s \<noteq> None" "rq_method r \<noteq> ''HEAD''" "rq_pattern r \<noteq> []"
    "e \<in> {TokensIssue, TokensList, TokensRevoke} \<longleftrightarrow> g = Bootstrap" "e \<in> {Connection, RestToken} \<longleftrightarrow> g = ApiKey"
proof -
  from bspec [OF routes_with_guards [unfolded list_all_iff] lookup_mounted [OF assms, unfolded mounted_with]]
  have "(g = Socket \<longrightarrow> srv_hub s \<noteq> None) \<and> rq_method r \<noteq> ''HEAD'' \<and> rq_pattern r \<noteq> [] \<and>
     (e \<in> set [TokensIssue, TokensList, TokensRevoke] \<longleftrightarrow> g = Bootstrap) \<and>
     (e \<in> set [Connection, RestToken] \<longleftrightarrow> g = ApiKey)" by (simp only: prod.case) blast
  then show "g = Socket \<longrightarrow> srv_hub s \<noteq> None" "rq_method r \<noteq> ''HEAD''" "rq_pattern r \<noteq> []"
    "e \<in> {TokensIssue, TokensList, TokensRevoke} \<longleftrightarrow> g = Bootstrap" "e \<in> {Connection, RestToken} \<longleftrightarrow> g = ApiKey"
    unfolding list.set by blast+
qed

section \<open>Wiring\<close>

text \<open>Encryption is on exactly for a key that decodes to 32 bytes; a malformed key is as none.\<close>

lemma malformed_key_cleartext:
  "NewFromBase64Key gcm (EncryptionKey cfg) = Inl e \<Longrightarrow> sv_cipher (srv_projects (NewServer gcm fs b cfg)) = Noop"
  by (auto simp: NewServer_def Let_def NewService_def NewServiceWithAuth_def buildCipher_def WithCipher_def)

text \<open>The route for REST tokens is there exactly when REST is configured with a long enough secret.\<close>

lemma rest_route_mounted:
  "srv_signer (NewServer gcm fs b cfg) \<noteq> None \<longleftrightarrow> RestEnabled cfg \<and> 16 \<le> length (JWTSecret cfg)"
  by (simp add: NewServer_def Let_def NewSigner_def)

text \<open>A request to the socket without a bearer is never limited, whatever its key in the query.\<close>

lemma subscribe_not_limited:
  assumes "lookup_route s r = Some (Socket, ep)" "rq_auth r = []" "Router E X r s w = ((st, rep), s', w')"
  shows "srv_limiter s' = srv_limiter s \<and> (st = 429 \<longrightarrow> x_upgrade X \<noteq> None)"
proof -
  from lookup_facts(1) [OF assms(1)] obtain h where h: "srv_hub s = Some h" by auto
  have "BearerKey r = []" using assms(2) by (simp add: BearerKey_def)
  then have l: "RateLimit (x_bucket X) (go_now E) BearerKey r (subscribe_route E X r h) (srv_limiter s) w =
      (subscribe_route E X r h w, srv_limiter s)"
    by (simp add: RateLimit_def Allow_def)
  obtain st0 rep0 w0 where q: "subscribe_route E X r h w = ((st0, rep0), w0)" by (metis prod.exhaust)
  have "st0 = 429 \<longrightarrow> x_upgrade X \<noteq> None"
    using q by (auto simp: subscribe_route_def subscribe_h_def Let_def split: sum.splits if_splits prod.splits option.splits)
  with assms(1,3) h l q show ?thesis
    by (auto simp: Router_def Let_def split: sum.splits prod.splits)
qed

section \<open>What the guards let through\<close>

text \<open>The bearer may use the path: the bootstrap token for the token endpoints, a live token with the path's scope for the others.\<close>

definition authorised :: "env \<Rightarrow> config \<Rightarrow> request \<Rightarrow> db \<Rightarrow> bool" where
  "authorised E cfg r d = (case guard_for (rq_pattern r) of
      Bootstrap \<Rightarrow> BootstrapToken cfg \<noteq> [] \<and> ExtractBearer r = Inr (BootstrapToken cfg)
    | Scoped scope \<Rightarrow> carries E r scope d
    | _ \<Rightarrow> True)"

text \<open>The changes a refused request leaves: the last use of tokens, and a row of the log without a token.\<close>

definition only_logged :: "nat \<Rightarrow> db \<Rightarrow> db \<Rightarrow> bool" where
  "only_logged st d d' \<longleftrightarrow> (\<exists>ts log. d' = d\<lparr>admin_tokens := ts, audit_log := log\<rparr> \<and>
     map token_core ts = map token_core (admin_tokens d) \<and>
     (log = audit_log d \<or> (\<exists>row. log = audit_log d @ [row] \<and> a_status row = st \<and> a_prefix row = None)))"

lemma only_logged_refl [simp]: "only_logged st d d"
proof -
  have "d = d\<lparr>admin_tokens := admin_tokens d, audit_log := audit_log d\<rparr>" by simp
  then show ?thesis unfolding only_logged_def by blast
qed

lemma Audit_refused:
  assumes inner: "\<And>entry. \<exists>st msg w1 ts. inner entry w = ((st, Inl msg), entry, w1) \<and> st \<in> S \<and>
      wdb w1 = (wdb w)\<lparr>admin_tokens := ts\<rparr> \<and> map token_core ts = map token_core (admin_tokens (wdb w))"
  shows "\<exists>st msg w'. Audit E r inner w = ((st, Inl msg), w') \<and> st \<in> S \<and> only_logged st (wdb w) (wdb w')"
proof (cases "rq_method r = ''GET'' \<or> rq_method r = ''HEAD''")
  case True
  from inner obtain st msg w1 ts where i: "inner None w = ((st, Inl msg), None, w1)" "st \<in> S"
    "wdb w1 = (wdb w)\<lparr>admin_tokens := ts\<rparr>" "map token_core ts = map token_core (admin_tokens (wdb w))" by blast
  have "only_logged st (wdb w) (wdb w1)"
    unfolding only_logged_def by (intro exI [of _ ts] exI [of _ "audit_log (wdb w)"]) (simp add: i)
  with True i show ?thesis by (auto simp: Audit_def)
next
  case False
  from inner obtain st msg w1 ts where i: "inner (Some None) w = ((st, Inl msg), Some None, w1)" "st \<in> S"
    "wdb w1 = (wdb w)\<lparr>admin_tokens := ts\<rparr>" "map token_core ts = map token_core (admin_tokens (wdb w))" by blast
  let ?row = "audit_row_of E r None st"
  obtain u w2 where a: "sql E (\<lambda>d. Inr ((), d\<lparr>audit_log := audit_log d @ [?row]\<rparr>)) w1 = (u, w2)" by fastforce
  have "only_logged st (wdb w) (wdb w2)"
  proof (cases u)
    case (Inl e)
    with a sql_Inl_wdb have "wdb w2 = wdb w1" by fast
    with i show ?thesis
      unfolding only_logged_def by (intro exI [of _ ts] exI [of _ "audit_log (wdb w)"]) simp
  next
    case (Inr x)
    with a i have "wdb w2 = (wdb w)\<lparr>admin_tokens := ts, audit_log := audit_log (wdb w) @ [?row]\<rparr>"
      by (auto simp: sql_Inr)
    with i show ?thesis
      unfolding only_logged_def
      by (intro exI [of _ ts] exI [of _ "audit_log (wdb w) @ [?row]"]) (auto simp: audit_row_of_def)
  qed
  with False i a show ?thesis by (auto simp: Audit_def)
qed

lemma AdminOnly_refuses:
  assumes "token = [] \<or> ExtractBearer r \<noteq> Inr token"
  shows "\<exists>st msg w1 ts. (let (rep, w1) = AdminOnly token r h w in (rep, entry, w1)) = ((st, Inl msg), entry, w1) \<and>
    st \<in> {401, 403, 500} \<and> wdb w1 = (wdb w)\<lparr>admin_tokens := ts\<rparr> \<and> map token_core ts = map token_core (admin_tokens (wdb w))"
proof -
  from AdminOnly_refuse [OF assms] obtain st msg where "AdminOnly token r h w = ((st, Inl msg), w)" "st = 401 \<or> st = 403"
    by blast
  then show ?thesis
    by (intro exI [of _ st] exI [of _ msg] exI [of _ w] exI [of _ "admin_tokens (wdb w)"]) auto
qed

section \<open>What the handlers leave alone\<close>

lemma keeps_reply_map [keeps_intro]: "keeps P w (h w) \<Longrightarrow> keeps P w (reply_map f h w)"
  by (auto simp: reply_map_def keeps_def split: prod.splits)

lemma endpoint_keeps_ledger:
  "e \<notin> {TokensIssue, TokensList, TokensRevoke} \<Longrightarrow> e \<notin> {Connection, RestToken} \<Longrightarrow>
     keeps ledger w (endpoint_h E X s ctx r e w)"
  by (cases e) (auto simp: handleHealthz_def handleReadyz_def simp del: write_simps intro!: keeps_intro)

lemma endpoint_keeps_log: "e \<notin> {Connection, RestToken} \<Longrightarrow> keeps audit_log w (endpoint_h E X s ctx r e w)"
proof (cases "e \<in> {TokensIssue, TokensList, TokensRevoke}")
  case True
  then show ?thesis by (auto intro!: keeps_intro)
next
  case False
  assume "e \<notin> {Connection, RestToken}"
  with endpoint_keeps_ledger [OF False] keeps_ledger show ?thesis by blast
qed

lemma RequireScope_keeps_tokens:
  assumes "RequireScope E scope r inner entry w = (rep, entry', w')"
    and "\<And>tok w. admin_tokens (wdb (snd (inner tok w))) = admin_tokens (wdb w)"
  shows "map token_core (admin_tokens (wdb w')) = map token_core (admin_tokens (wdb w))"
proof (cases "ExtractBearer r")
  case (Inl e)
  with assms(1) show ?thesis by (auto simp: RequireScope_def Let_def)
next
  case (Inr raw)
  obtain v w1 where v: "tokens_Verify E raw w = (v, w1)" by fastforce
  from tokens_Verify_frame [OF v] have t: "map token_core (admin_tokens (wdb w1)) = map token_core (admin_tokens (wdb w))"
    by auto
  have "wdb w' = wdb w1 \<or> (\<exists>tok. w' = snd (inner tok w1))"
    using assms(1) Inr v by (cases v) (auto simp: RequireScope_def Let_def split: if_splits prod.splits, metis snd_conv)
  with t assms(2) show ?thesis by auto
qed

lemma Audit_keeps_tokens:
  assumes "Audit E r inner w = (rep, w')"
  shows "\<exists>entry rep0 entry' w1. inner entry w = (rep0, entry', w1) \<and> admin_tokens (wdb w') = admin_tokens (wdb w1)"
proof (cases "rq_method r = ''GET'' \<or> rq_method r = ''HEAD''")
  case True
  obtain rep0 entry' w1 where i: "inner None w = (rep0, entry', w1)" by (metis prod_cases3)
  with assms True have "w' = w1" by (auto simp: Audit_def)
  with i show ?thesis by blast
next
  case False
  obtain rep0 entry' w1 where i: "inner (Some None) w = (rep0, entry', w1)" by (metis prod_cases3)
  with assms False have "admin_tokens (wdb w') = admin_tokens (wdb w1)"
    by (auto simp: Audit_def Let_def sql_def split: option.splits)
  with i show ?thesis by blast
qed

lemma Audit_AdminOnly:
  assumes "rq_method r \<noteq> ''GET''" "rq_method r \<noteq> ''HEAD''"
    and "Audit E r (\<lambda>entry w. let (rep, w) = AdminOnly token r h w in (rep, entry, w)) w = (rep, w')"
    and "flt E (tick w' - 1) = None" "\<And>w. audit_log (wdb (snd (h w))) = audit_log (wdb w)"
  shows "\<exists>row. audit_log (wdb w') = audit_log (wdb w) @ [row] \<and> a_status row = fst rep \<and> a_method row = rq_method r \<and>
    a_path row = rq_path r \<and> a_action row = rq_method r @ '' '' @ routePattern r \<and> a_prefix row = None"
proof -
  obtain rep0 w2 where q: "AdminOnly token r h w = (rep0, w2)" by fastforce
  have log: "audit_log (wdb w2) = audit_log (wdb w)"
    using q assms(5) [of w] by (auto simp: AdminOnly_def split: sum.splits if_splits)
  show ?thesis
    using assms(1-4) q log
    by (auto simp: Audit_def Let_def sql_def audit_row_of_def split: option.splits)
qed

section \<open>Properties\<close>

text \<open>
  Property C1. No way around the guards: on every path of the management API a request whose bearer
  is not authorised for the path (for the token endpoints the bootstrap token, for the others a live admin
  token with the path's own scope) is refused before its handler runs; nothing changes but the last use of a
  token and at most one row of the audit log, which has the status and names no token.
\<close>

theorem management_guarded:
  assumes "\<not> authorised E (srv_cfg s) r (wdb w)"
  shows "\<exists>st msg w'. Router E X r s w = ((st, Inl msg), s, w') \<and> st \<in> {401, 403, 404, 405, 500} \<and>
    only_logged st (wdb w) (wdb w')"
proof (cases "lookup_route s r")
  case None
  then show ?thesis by (auto simp: Router_def)
next
  case (Some ge)
  obtain g ep where ge: "ge = (g, ep)" by fastforce
  note g = lookup_guard [OF Some [unfolded ge]]
  let ?S = "{401, 403, 500} :: nat set"
  show ?thesis
  proof (cases g)
    case Bootstrap
    have "\<exists>st msg w'. Audit E r (\<lambda>entry w. let (rep, w) = AdminOnly (BootstrapToken (srv_cfg s)) r
        (endpoint_h E X s None r ep) w in (rep, entry, w)) w = ((st, Inl msg), w') \<and> st \<in> ?S \<and> only_logged st (wdb w) (wdb w')"
      by (rule Audit_refused, rule AdminOnly_refuses) (use assms g Bootstrap in \<open>auto simp: authorised_def\<close>)
    with Some ge Bootstrap show ?thesis by (auto simp: Router_def)
  next
    case (Scoped scope)
    have "\<exists>st msg w'. Audit E r (RequireScope E scope r (\<lambda>_. endpoint_h E X s None r ep)) w = ((st, Inl msg), w') \<and>
        st \<in> ?S \<and> only_logged st (wdb w) (wdb w')"
      using assms by (intro Audit_refused RequireScope_refuses) (simp add: authorised_def Scoped flip: g)
    with Some ge Scoped show ?thesis by (auto simp: Router_def)
  qed (use assms g in \<open>auto simp: authorised_def\<close>)
qed

text \<open>
  Property C2. Every mutating request that reaches a management route leaves exactly one row in the
  audit log, whoever sent it and whatever came of it, if the last round trip, the write of the row, succeeds:
  the row has the status of the reply, the method, the path and the route, and the prefix of the admin
  token exactly when it is live and has the route's scope. Only the token endpoints change what a token may do.
\<close>

theorem management_audited:
  assumes "lookup_route s r = Some (g, ep)" "g = Bootstrap \<or> g = Scoped scope" "rq_method r \<noteq> ''GET''"
    and "Router E X r s w = (rep, s', w')" "flt E (tick w' - 1) = None"
  shows "\<exists>row. audit_log (wdb w') = audit_log (wdb w) @ [row] \<and> a_status row = fst rep \<and>
      a_method row = rq_method r \<and> a_path row = rq_path r \<and> a_action row = rq_method r @ '' '' @ rq_pattern r \<and>
      a_prefix row = (if g = Bootstrap then None else case ExtractBearer r of Inl _ \<Rightarrow> None | Inr raw \<Rightarrow>
        (case fst (tokens_Verify E raw w) of Inl _ \<Rightarrow> None
         | Inr (tok, scopes) \<Rightarrow> if scope \<in> set scopes then Some (tk_prefix tok) else None)) \<and>
      (g \<noteq> Bootstrap \<longrightarrow> map token_core (admin_tokens (wdb w')) = map token_core (admin_tokens (wdb w)))"
proof -
  note f = lookup_facts [OF assms(1)]
  have pat: "routePattern r = rq_pattern r" using f(3) by (simp add: routePattern_def)
  have log: "audit_log (wdb (snd (endpoint_h E X s None r ep w))) = audit_log (wdb w)" for w
  proof -
    have "ep \<notin> {Connection, RestToken}" using f(5) assms(2) by auto
    from endpoint_keeps_log [OF this] show ?thesis by (simp add: keeps_def)
  qed
  show ?thesis
  proof (cases "g = Bootstrap")
    case True
    with assms(1,4) have "Audit E r (\<lambda>entry w. let (rep, w) = AdminOnly (BootstrapToken (srv_cfg s)) r
        (endpoint_h E X s None r ep) w in (rep, entry, w)) w = (rep, w')"
      by (auto simp: Router_def split: prod.splits)
    from Audit_AdminOnly [OF assms(3) f(2) this assms(5) log] True pat show ?thesis by auto
  next
    case False
    with assms(1,2,4) have a: "Audit E r (RequireScope E scope r (\<lambda>_. endpoint_h E X s None r ep)) w = (rep, w')"
      by (auto simp: Router_def split: prod.splits)
    have tok: "admin_tokens (wdb (snd (endpoint_h E X s None r ep w))) = admin_tokens (wdb w)" for w
    proof -
      have "ep \<notin> {TokensIssue, TokensList, TokensRevoke}" "ep \<notin> {Connection, RestToken}" using f(4,5) False assms(2) by auto
      from keeps_ledger [OF endpoint_keeps_ledger [OF this]]
      have "keeps admin_tokens w (endpoint_h E X s None r ep w)" by blast
      then show ?thesis by (simp add: keeps_def)
    qed
    from Audit_keeps_tokens [OF a] obtain entry rep0 entry' w1
      where q: "RequireScope E scope r (\<lambda>_. endpoint_h E X s None r ep) entry w = (rep0, entry', w1)"
        "admin_tokens (wdb w') = admin_tokens (wdb w1)" by blast
    have "map token_core (admin_tokens (wdb w')) = map token_core (admin_tokens (wdb w))"
      using RequireScope_keeps_tokens [OF q(1) tok] q(2) by simp
    moreover from Audit_RequireScope [OF assms(3) f(2) a assms(5) log] obtain row where row:
      "audit_log (wdb w') = audit_log (wdb w) @ [row]" "a_status row = fst rep" "a_method row = rq_method r"
      "a_path row = rq_path r" "a_action row = rq_method r @ '' '' @ routePattern r"
      "a_prefix row = (case ExtractBearer r of Inl _ \<Rightarrow> None | Inr raw \<Rightarrow>
        (case fst (tokens_Verify E raw w) of Inl _ \<Rightarrow> None
         | Inr (tok, scopes) \<Rightarrow> if scope \<in> set scopes then Some (tk_prefix tok) else None))" by blast
    ultimately show ?thesis using False pat by (intro exI [of _ row]) simp
  qed
qed

section \<open>Witnesses\<close>

definition demo_server :: "unit server" where
  "demo_server = NewServer (\<lambda>_. demo_aead) (\<lambda>_. Inr []) True demo_config"

lemma demo_server_parts:
  "srv_signer demo_server = None" "srv_hub demo_server \<noteq> None" "srv_cfg demo_server = demo_config"
  by (simp_all add: demo_server_def NewServer_def Let_def RestEnabled_def demo_config_def)

lemma demo_lookup: "lookup_route demo_server demo_request = Some (Scoped ScopeProjects, ProjectsCreate)"
proof -
  have "find (\<lambda>(m, p, g, e). m = ''POST'' \<and> p = ''/v1/projects'') (routes_with False True) =
      Some (''POST'', ''/v1/projects'', Scoped ScopeProjects, ProjectsCreate)" by code_simp
  then show ?thesis by (simp add: lookup_route_def mounted_with demo_server_parts demo_request_def)
qed

lemma management_guarded_witness:
  "\<forall>X. \<exists>st msg w'. Router demo_env X demo_request demo_server (world_of empty_db) = ((st, Inl msg), demo_server, w') \<and>
     projects (wdb w') = []"
proof
  fix X :: "unit srv_env"
  have "guard_for (rq_pattern demo_request) = Scoped ScopeProjects" using lookup_guard [OF demo_lookup] by simp
  then have "\<not> authorised demo_env (srv_cfg demo_server) demo_request (wdb (world_of empty_db))"
    by (simp add: authorised_def carries_def world_of_def empty_db_def)
  from management_guarded [OF this, of X] show "\<exists>st msg w'. Router demo_env X demo_request demo_server (world_of empty_db) =
      ((st, Inl msg), demo_server, w') \<and> projects (wdb w') = []"
    by (auto simp: only_logged_def world_of_def empty_db_def)
qed

lemma management_audited_witness:
  "\<forall>X. \<exists>rep w' row. Router demo_env X demo_request demo_server (world_of empty_db) = (rep, demo_server, w') \<and>
     audit_log (wdb w') = [row] \<and> a_action row = ''POST /v1/projects''"
proof
  fix X :: "unit srv_env"
  obtain rep s' w' where r: "Router demo_env X demo_request demo_server (world_of empty_db) = (rep, s', w')"
    by (metis prod_cases3)
  have s': "s' = demo_server" using r demo_lookup by (auto simp: Router_def split: prod.splits)
  have m: "rq_method demo_request \<noteq> ''GET''" "rq_method demo_request = ''POST''" "rq_pattern demo_request = ''/v1/projects''"
    by (simp_all add: demo_request_def)
  from management_audited [OF demo_lookup disjI2 [OF refl] m(1) r demo_flt] obtain row where
    "audit_log (wdb w') = audit_log (wdb (world_of empty_db)) @ [row]" "a_action row = ''POST'' @ '' '' @ ''/v1/projects''"
    using m by auto
  moreover have "audit_log (wdb (world_of empty_db)) = []" by (simp add: world_of_def empty_db_def)
  ultimately show "\<exists>rep w' row. Router demo_env X demo_request demo_server (world_of empty_db) = (rep, demo_server, w') \<and>
     audit_log (wdb w') = [row] \<and> a_action row = ''POST /v1/projects''" using r s' by auto
qed

end
