(* ===== verification/Telemetry.thy ===== *)
theory Telemetry
  imports Database Complex_Main
begin

text \<open>
  \<^verbatim>\<open>internal/telemetry/otel.go\<close> and \<^verbatim>\<open>internal/store\<close>: the optional exporters, what
  \<^verbatim>\<open>Shutdown\<close> closes and in which order, the cut of traced statements, and the pool pwrapd opens. The
  OpenTelemetry SDK and pgx are parameters: only whether their constructors fail matters here.
\<close>

section \<open>otel.go\<close>

text \<open>\<open>to_rate\<close>: the sample rate, a rational for the \<^verbatim>\<open>float64\<close>.\<close>

record options =
  to_service :: string
  to_version :: string
  to_environment :: string
  to_endpoint :: string
  to_insecure :: bool
  to_rate :: rat
  to_prometheus :: string

definition normalise :: "options \<Rightarrow> options" where
  "normalise opts = opts\<lparr>
     to_service := (if to_service opts = [] then ''pwrapd'' else to_service opts),
     to_version := (if to_version opts = [] then ''dev'' else to_version opts),
     to_environment := (if to_environment opts = [] then ''development'' else to_environment opts),
     to_rate := (let r = (if to_rate opts < 0 then 0 else to_rate opts) in if r > 1 then 1 else r)\<rparr>"

text \<open>\<^verbatim>\<open>len(s) > len(p) && s[:len(p)] == p\<close> for each of the two schemes, in order.\<close>

fun strip_loop :: "string list \<Rightarrow> string \<Rightarrow> string" where
  "strip_loop [] s = s"
| "strip_loop (p # ps) s =
     (if length p < length s \<and> take (length p) s = p then drop (length p) s else strip_loop ps s)"

definition stripScheme :: "string \<Rightarrow> string" where
  "stripScheme s = strip_loop [''https://'', ''http://''] s"

text \<open>What \<^verbatim>\<open>Shutdown\<close> has to close.\<close>

datatype closer = TraceExporter | TracerProvider | MetricExporter | MeterProvider

record providers =
  pv_tracer :: bool
  pv_meter :: bool
  pv_prom :: "string option"
  pv_funcs :: "closer list"

text \<open>
  The constructors of the SDK: the error of merging the resource, of the two OTLP exporters for an
  authority and the insecure flag, and of the Prometheus exporter, if any.
\<close>

record otel_sdk =
  sdk_resource :: "string option"
  sdk_trace :: "string \<Rightarrow> bool \<Rightarrow> string option"
  sdk_metric :: "string \<Rightarrow> bool \<Rightarrow> string option"
  sdk_prom :: "string option"

definition newTraceExporter :: "otel_sdk \<Rightarrow> options \<Rightarrow> string option" where
  "newTraceExporter S opts = sdk_trace S (stripScheme (to_endpoint opts)) (to_insecure opts)"

definition newMetricExporter :: "otel_sdk \<Rightarrow> options \<Rightarrow> string option" where
  "newMetricExporter S opts = sdk_metric S (stripScheme (to_endpoint opts)) (to_insecure opts)"

definition Init :: "otel_sdk \<Rightarrow> options \<Rightarrow> providers \<times> goerr option" where
  "Init S opts =
     (let opts = normalise opts; none = \<lparr>pv_tracer = False, pv_meter = False, pv_prom = None, pv_funcs = []\<rparr> in
      case sdk_resource S of Some e \<Rightarrow> (none, Some (Wrap ''otel resource: '' (Ext e)))
      | None \<Rightarrow>
        let otlp = to_endpoint opts \<noteq> [];
            p = (if otlp \<and> newTraceExporter S opts = None then none\<lparr>pv_funcs := [TraceExporter]\<rparr> else none);
            p = p\<lparr>pv_tracer := True, pv_funcs := pv_funcs p @ [TracerProvider]\<rparr>;
            p = (if otlp \<and> newMetricExporter S opts = None
                 then p\<lparr>pv_funcs := pv_funcs p @ [MetricExporter]\<rparr> else p);
            p = (if to_prometheus opts \<noteq> [] \<and> sdk_prom S = None then p\<lparr>pv_prom := Some (to_prometheus opts)\<rparr> else p);
            p = p\<lparr>pv_meter := True, pv_funcs := pv_funcs p @ [MeterProvider]\<rparr>
        in (p, None))"

text \<open>
  The errors of the closers, last one first, and of the metrics server (\<open>close\<close> and
  \<open>prom\<close>); with it the order in which they are called. \<^verbatim>\<open>errors.Join\<close> of no error is nil.
\<close>

fun close_loop :: "(closer \<Rightarrow> string option) \<Rightarrow> closer list \<Rightarrow> string list" where
  "close_loop close [] = []"
| "close_loop close (f # fs) = (case close f of Some e \<Rightarrow> e # close_loop close fs | None \<Rightarrow> close_loop close fs)"

definition Shutdown :: "(closer \<Rightarrow> string option) \<Rightarrow> (string \<Rightarrow> string option) \<Rightarrow> providers option \<Rightarrow> closer list \<times> string list" where
  "Shutdown close prom p = (case p of
      None \<Rightarrow> ([], [])
    | Some p \<Rightarrow>
       let order = rev (pv_funcs p);
           errs = close_loop close order;
           errs = errs @ (case pv_prom p of None \<Rightarrow> [] | Some addr \<Rightarrow> (case prom addr of Some e \<Rightarrow> [e] | None \<Rightarrow> []))
       in (order, errs))"

section \<open>store\<close>

definition truncateStatement :: "string \<Rightarrow> string" where
  "truncateStatement s = (if length s \<le> 1024 then s else take 1024 s @ [CHR 0xE2, CHR 0x80, CHR 0xA6])"

text \<open>\<^verbatim>\<open>pgxpool.ParseConfig\<close> and \<^verbatim>\<open>NewWithConfig\<close>: their errors, if any.\<close>

definition NewPool :: "env \<Rightarrow> (string \<Rightarrow> string option) \<Rightarrow> (string \<Rightarrow> string option) \<Rightarrow> string \<Rightarrow> world \<Rightarrow> unit res" where
  "NewPool E parse new dsn w = (case parse dsn of
      Some e \<Rightarrow> (Inl (Wrap ''parse dsn: '' (Ext e)), w)
    | None \<Rightarrow> (case new dsn of
        Some e \<Rightarrow> (Inl (Wrap ''new pool: '' (Ext e)), w)
      | None \<Rightarrow> wrap_err ''ping: '' (query E (\<lambda>_. ()) w)))"

section \<open>Lemmas\<close>

lemma normalise_bounds:
  "0 \<le> to_rate (normalise opts) \<and> to_rate (normalise opts) \<le> 1 \<and> to_service (normalise opts) \<noteq> [] \<and>
   to_version (normalise opts) \<noteq> [] \<and> to_environment (normalise opts) \<noteq> []"
  by (simp add: normalise_def Let_def)

lemma normalise_idem: "normalise (normalise opts) = normalise opts"
  by (simp add: normalise_def Let_def)

text \<open>The bundle is complete unless the resource fails; the providers close before the exporters they feed.\<close>

lemma Init_parts:
  assumes "sdk_resource S = None"
  shows "snd (Init S opts) = None" "pv_tracer (fst (Init S opts))" "pv_meter (fst (Init S opts))"
    "pv_funcs (fst (Init S opts)) =
      (if to_endpoint (normalise opts) \<noteq> [] \<and> newTraceExporter S (normalise opts) = None then [TraceExporter] else []) @ [TracerProvider] @
      (if to_endpoint (normalise opts) \<noteq> [] \<and> newMetricExporter S (normalise opts) = None then [MetricExporter] else []) @ [MeterProvider]"
  using assms by (simp_all add: Init_def Let_def del: not_None_eq)

lemma Init_funcs:
  assumes "snd (Init S opts) = None"
  shows "\<exists>t m. pv_funcs (fst (Init S opts)) = (if t then [TraceExporter] else []) @ [TracerProvider] @
    (if m then [MetricExporter] else []) @ [MeterProvider]"
proof -
  have "sdk_resource S = None" using assms by (cases "sdk_resource S") (simp_all add: Init_def Let_def)
  from Init_parts(4) [OF this] show ?thesis by blast
qed

lemma close_loop_all: "close_loop close fs = map (\<lambda>f. the (close f)) (filter (\<lambda>f. close f \<noteq> None) fs)"
  by (induction fs) (auto split: option.splits)

lemma Shutdown_closes_all:
  "Shutdown close prom (Some p) = (order, errs) \<Longrightarrow> set order = set (pv_funcs p) \<and>
     (errs = [] \<longleftrightarrow> (\<forall>f \<in> set (pv_funcs p). close f = None) \<and> (\<forall>a. pv_prom p = Some a \<longrightarrow> prom a = None))"
  by (auto simp: Shutdown_def Let_def close_loop_all filter_empty_conv split: option.splits)

lemma Shutdown_order:
  assumes "Init S opts = (p, None)"
  shows "\<exists>t m. fst (Shutdown close prom (Some p)) =
    MeterProvider # (if m then [MetricExporter] else []) @ TracerProvider # (if t then [TraceExporter] else [])"
proof -
  from Init_funcs [of S opts] assms obtain t m where "pv_funcs p = (if t then [TraceExporter] else []) @ [TracerProvider] @
    (if m then [MetricExporter] else []) @ [MeterProvider]" by auto
  then have "rev (pv_funcs p) = MeterProvider # (if m then [MetricExporter] else []) @ TracerProvider #
    (if t then [TraceExporter] else [])" by simp
  moreover have "fst (Shutdown close prom (Some p)) = rev (pv_funcs p)" by (simp add: Shutdown_def Let_def)
  ultimately show ?thesis by auto
qed

lemma truncate_bound: "length (truncateStatement s) \<le> 1027"
  by (simp add: truncateStatement_def)

lemma strip_loop_cases: "strip_loop ps s = s \<or> (\<exists>p \<in> set ps. s = p @ strip_loop ps s)"
proof (induction ps)
  case (Cons p ps)
  show ?case
  proof (cases "length p < length s \<and> take (length p) s = p")
    case True
    then have "s = p @ drop (length p) s" by (metis append_take_drop_id)
    with True show ?thesis by simp
  next
    case False
    with Cons show ?thesis by auto
  qed
qed simp

lemma NewPool_wdb: "wdb (snd (NewPool E parse new dsn w)) = wdb w"
  by (simp add: NewPool_def wrap_err_def query_def sql_def split: option.split sum.split)

end
