(* ===== verification/Daemon.thy ===== *)
theory Daemon
  imports Server Telemetry
begin

text \<open>
  \<^verbatim>\<open>cmd/pwrapd/main.go\<close>: the order of the start-up, the housekeeping timer, and the shutdown.
  Telemetry (theory \<open>Telemetry\<close>) never keeps the daemon from starting and is left out here. The control-plane
  DDL changes nothing on a schema that is current, so it is one round trip. The lemmas: what holds of the
  database once the daemon is up, and when the process ends.
\<close>

section \<open>Start-up\<close>

text \<open>
  The environment variables and the parameters of \<^verbatim>\<open>config.Load\<close> (theory \<open>Config\<close>), the
  errors of \<^verbatim>\<open>pgxpool\<close>, the AEAD of a key, the embedded files.
\<close>

record daemon_env =
  de_os :: "string \<Rightarrow> string"
  de_lower :: "string \<Rightarrow> string"
  de_url :: "string \<Rightarrow> (string \<times> string \<times> string) option"
  de_parse :: "string \<Rightarrow> string option"
  de_pool :: "string \<Rightarrow> string option"
  de_gcm :: "string \<Rightarrow> aead"
  de_fs :: "string \<Rightarrow> string result"

text \<open>The errors of the sweep, of the schemas list and of the re-encryption are only logged.\<close>

definition start_rest :: "env \<Rightarrow> config \<Rightarrow> world \<Rightarrow> unit res" where
  "start_rest E cfg w =
     (if RestEnabled cfg then
        and_then (EnsureRoles E (AuthenticatorRole cfg) (AuthenticatorPassword cfg) (AnonRole cfg) (JWTSecret cfg) w) (\<lambda>_ w.
        (Inr (), snd (RebuildSchemasList E (AuthenticatorRole cfg) w)))
      else (Inr (), w))"

definition start_up :: "env \<Rightarrow> daemon_env \<Rightarrow> config \<Rightarrow> world \<Rightarrow> 'l server res" where
  "start_up E D cfg w =
     and_then (NewPool E (de_parse D) (de_pool D) (DatabaseURL cfg) w) (\<lambda>_ w.
     and_then (wrap_err ''bootstrap control plane schema: '' (query E (\<lambda>_. ()) w)) (\<lambda>_ w.
     let w = snd (SweepStale E (dur_mul 5 minute) w) in
     and_then (start_rest E cfg w) (\<lambda>_ w.
     let srv = NewServer (de_gcm D) (de_fs D) True cfg;
         w = snd (ReencryptAll E (srv_projects srv) w)
     in (Inr srv, w))))"

section \<open>Housekeeping\<close>

definition retention :: "config \<Rightarrow> duration" where
  "retention cfg = word_of_int (AuditRetentionDays cfg) * 24 * hour"

definition housekeeping_tick :: "env \<Rightarrow> config \<Rightarrow> world \<Rightarrow> world" where
  "housekeeping_tick E cfg w = (let w = snd (Sweep E w); w = snd (PruneAudit E (retention cfg) w) in w)"

text \<open>The rounds of the timer until its context is done, each with the clock of its time; the first at once.\<close>

fun housekeeping :: "config \<Rightarrow> env list \<Rightarrow> world \<Rightarrow> world" where
  "housekeeping cfg [] w = w"
| "housekeeping cfg (E # Es) w = housekeeping cfg Es (housekeeping_tick E cfg w)"

section \<open>Shutdown\<close>

text \<open>What the \<^verbatim>\<open>select\<close> of \<^verbatim>\<open>run\<close> receives: a signal, or the error of the listener.\<close>

datatype wake = Signal | ServeFailed goerr | ServeClosed

text \<open>
  The deferred \<^verbatim>\<open>pool.Close\<close> waits for every connection. The hub's goroutine gives its own back only
  when its context is cancelled; \<open>listening\<close>: it has one at that time.
\<close>

definition close_returns :: "bool \<Rightarrow> 'l server \<Rightarrow> bool" where
  "close_returns listening srv = (case srv_hub srv of
      None \<Rightarrow> True
    | Some h \<Rightarrow> \<not> (listening \<and> hb_started h \<and> hb_cancelled h \<noteq> Some True))"

definition serve :: "wake \<Rightarrow> string option \<Rightarrow> 'l server \<Rightarrow> goerr option \<times> 'l server" where
  "serve wk shutdown_err srv = (case wk of
      ServeFailed e \<Rightarrow> (Some e, srv)
    | _ \<Rightarrow> let srv = snd (StopHub srv) in (map_option Ext shutdown_err, srv))"

text \<open>\<open>None\<close>: the process does not end. Otherwise its error, and with it the exit status of \<^verbatim>\<open>main\<close>.\<close>

definition run :: "env \<Rightarrow> daemon_env \<Rightarrow> wake \<Rightarrow> string option \<Rightarrow> bool \<Rightarrow> world \<Rightarrow> goerr option option" where
  "run E D wk shutdown_err listening w = (case Load (de_lower D) (de_url D) (de_os D) of
      Inl e \<Rightarrow> Some (Some e)
    | Inr cfg \<Rightarrow> (case start_up E D cfg w :: unit server res of
        (Inl e, _) \<Rightarrow> Some (Some e)
      | (Inr srv, _) \<Rightarrow>
          let (err, srv) = serve wk shutdown_err srv
          in if close_returns listening srv then Some err else None))"

definition exit_code :: "goerr option option \<Rightarrow> nat option" where
  "exit_code r = map_option (\<lambda>err. if err = None then 0 else 1) r"

section \<open>Lemmas\<close>

lemma EnsureRoles_Inr:
  assumes "EnsureRoles E a ap an secret w = (Inr u, w')"
  shows "\<exists>c i. wdb w' = (wdb w)\<lparr>pg := c\<rparr> \<and> pg_roles c (trunc a) = Some i \<and>
    (secret \<noteq> [] \<longrightarrow> map_of (ri_settings i) ''pgrst.jwt_secret'' = Some secret)"
proof -
  from assms obtain w1 w2 where
    w1: "ensureRole E an False [] w = (Inr (), w1)" and w2: "ensureRole E a True ap w1 = (Inr (), w2)"
    and rest: "and_then (wrap_err ''grant anon: '' (exec E (GrantRole an a) w2)) (\<lambda>_ w.
     if secret \<noteq> [] then
       and_then (wrap_err ''set jwt_secret: '' (exec E (SetSetting a ''pgrst.jwt_secret'' secret) w)) (\<lambda>_ w.
       wrap_err ''set jwt_secret_is_base64: '' (exec E (SetSetting a ''pgrst.jwt_secret_is_base64'' ''false'') w))
     else (Inr (), w)) = (Inr u, w')"
    by (auto simp: EnsureRoles_def res_elims)
  have frame: "\<exists>c. wdb w' = (wdb w)\<lparr>pg := c\<rparr>" if "ensureRole E n l p w = (Inr (), w')" for n l p w w'
    using that by (auto simp: ensureRole_def res_elims query_Inr exec_Inr split: if_splits)
      (metis (full_types) db.surjective db.update_convs(8))+
  from frame [OF w1] frame [OF w2] obtain c2 where c2: "wdb w2 = (wdb w)\<lparr>pg := c2\<rparr>" by auto
  from rest obtain w3 c3 where g: "exec_stmt (GrantRole an a) c2 = Inr c3" "w3 = w2\<lparr>tick := Suc (tick w2), wdb := (wdb w2)\<lparr>pg := c3\<rparr>\<rparr>"
    and rest: "(if secret \<noteq> [] then
       and_then (wrap_err ''set jwt_secret: '' (exec E (SetSetting a ''pgrst.jwt_secret'' secret) w3)) (\<lambda>_ w.
       wrap_err ''set jwt_secret_is_base64: '' (exec E (SetSetting a ''pgrst.jwt_secret_is_base64'' ''false'') w))
     else (Inr (), w3)) = (Inr u, w')"
    using c2 by (auto simp: res_elims exec_Inr simp del: exec_stmt.simps)
  from g(1) obtain i where i: "pg_roles c3 (trunc a) = Some i"
    by (auto simp: need_role_def upd_role_def split: if_splits option.splits)
  show ?thesis
  proof (cases "secret = []")
    case True
    with rest g c2 i show ?thesis by auto
  next
    case False
    with rest obtain c4 c5 where c4: "exec_stmt (SetSetting a ''pgrst.jwt_secret'' secret) c3 = Inr c4"
      and c5: "exec_stmt (SetSetting a ''pgrst.jwt_secret_is_base64'' ''false'') c4 = Inr c5"
      and w': "wdb w' = (wdb w)\<lparr>pg := c5\<rparr>"
      using c2 g(2) by (auto simp: res_elims exec_Inr simp del: exec_stmt.simps)
    from c4 i have c4': "c4 = c3\<lparr>pg_roles := (pg_roles c3)(trunc a \<mapsto>
        i\<lparr>ri_settings := AList.update ''pgrst.jwt_secret'' secret (ri_settings i)\<rparr>)\<rparr>"
      by (simp add: upd_role_def)
    have ne: "''pgrst.jwt_secret_is_base64'' \<noteq> ''pgrst.jwt_secret''" by simp
    from c5 c4' have "\<exists>i'. pg_roles c5 (trunc a) = Some i' \<and> map_of (ri_settings i') ''pgrst.jwt_secret'' = Some secret"
      using ne by (auto simp: upd_role_def update_conv')
    with w' show ?thesis by auto
  qed
qed

text \<open>With a server and a random source that work, the best-effort steps succeed.\<close>

definition healthy :: "env \<Rightarrow> bool" where
  "healthy E \<longleftrightarrow> (\<forall>n. flt E n = None) \<and> (\<forall>k n. \<exists>b. rnd E k n = Inr b)"

lemma Rebuild_healthy:
  assumes "healthy E" "pg_roles (pg (wdb w)) (trunc a) = Some i"
  shows "\<exists>w'. RebuildSchemasList E a w = (Inr (), w')"
  using assms
  by (simp add: RebuildSchemasList_def healthy_def query_def sql_def exec_def upd_role_def wrap_err_def Let_def)

lemma reencrypt_rows_healthy:
  assumes "healthy E"
  shows "\<exists>m w'. reencrypt_rows E c n rs w = (Inr m, w')"
proof (induction rs arbitrary: n w)
  case (Cons x rs)
  obtain i stored where x: "x = (i, stored)" by fastforce
  have "\<forall>k n. \<exists>b. rnd E k n = Inr b" using assms by (simp add: healthy_def)
  from Encrypt_total [OF this] obtain ct w1 where "Encrypt E c stored w = (Inr ct, w1)" by blast
  with Cons assms x show ?case by (simp add: healthy_def sql_def wrap_err_def)
qed simp

lemma ReencryptAll_healthy: "healthy E \<Longrightarrow> \<exists>n w'. ReencryptAll E S w = (Inr n, w')"
  using reencrypt_rows_healthy by (auto simp: ReencryptAll_def healthy_def query_def sql_def wrap_err_def)

lemma reencrypt_rows_disabled_frame: "\<not> Enabled (sv_cipher S) \<Longrightarrow> snd (ReencryptAll E S w) = w"
  by (simp add: ReencryptAll_def)

lemma five_minutes: "whole_secs (dur_mul 5 minute) = 300"
  unfolding whole_secs_def dur_mul_def by code_simp

text \<open>The cipher of the server.\<close>

lemma NewServer_cipher:
  "sv_cipher (srv_projects (NewServer gcm fs b cfg)) = (case buildCipher gcm cfg of Inr c \<Rightarrow> c | Inl _ \<Rightarrow> Noop)"
  by (simp add: NewServer_def Let_def WithCipher_def NewService_def NewServiceWithAuth_def split: sum.split)

text \<open>The hub is up, and one stop of it waits and lets the pool close.\<close>

lemma NewServer_hub: "srv_hub (NewServer gcm fs True cfg) = Some (snd (Start NewHub))"
  by (simp add: NewServer_def Let_def)

lemma serve_signal_closes:
  assumes "srv_hub srv = Some (snd (Start NewHub))"
  shows "wk = Signal \<or> wk = ServeClosed \<Longrightarrow> close_returns listening (snd (serve wk sd srv)) \<and>
      fst (serve wk sd srv) = map_option Ext sd"
    and "close_returns listening (snd (serve (ServeFailed e) sd srv)) \<longleftrightarrow> \<not> listening"
  using assms
  by (auto simp: serve_def StopHub_def Stop_def Start_def NewHub_def close_returns_def)

lemma start_up_Inr:
  assumes "start_up E D cfg w = (Inr srv, w')"
  shows "srv = NewServer (de_gcm D) (de_fs D) True cfg \<and> (\<exists>w1 w2. wdb w1 = wdb w \<and>
     start_rest E cfg (snd (SweepStale E (dur_mul 5 minute) w1)) = (Inr (), w2) \<and>
     w' = snd (ReencryptAll E (srv_projects srv) w2))"
proof -
  obtain p w0 where np: "NewPool E (de_parse D) (de_pool D) (DatabaseURL cfg) w = (p, w0)" by fastforce
  from NewPool_wdb [of E "de_parse D" "de_pool D" "DatabaseURL cfg" w] np have w0: "wdb w0 = wdb w" by simp
  have "and_then (query E (\<lambda>_. ()) w0) (\<lambda>_ w1.
      and_then (start_rest E cfg (snd (SweepStale E (dur_mul 5 minute) w1))) (\<lambda>_ w.
        let srv = NewServer (de_gcm D) (de_fs D) True cfg
        in (Inr srv, snd (ReencryptAll E (srv_projects srv) w)))) = (Inr srv, w')"
    using assms np by (auto simp: start_up_def res_elims Let_def)
  then obtain w1 w2 where "query E (\<lambda>_. ()) w0 = (Inr (), w1)"
    "start_rest E cfg (snd (SweepStale E (dur_mul 5 minute) w1)) = (Inr (), w2)"
    "srv = NewServer (de_gcm D) (de_fs D) True cfg" "w' = snd (ReencryptAll E (srv_projects srv) w2)"
    by (auto simp: and_then_Inr Let_def)
  moreover from this(1) w0 have "wdb w1 = wdb w" by (auto simp: query_Inr)
  ultimately show ?thesis by blast
qed

lemma start_rest_settles:
  assumes "start_rest E cfg w = (Inr (), w')" "healthy E"
  shows "\<exists>c. wdb w' = (wdb w)\<lparr>pg := c\<rparr> \<and> (RestEnabled cfg \<longrightarrow> (\<exists>i. pg_roles c (trunc (AuthenticatorRole cfg)) = Some i \<and>
    map_of (ri_settings i) ''pgrst.db_schemas'' = Some (join '','' (''public'' # live_schemas (wdb w))) \<and>
    map_of (ri_settings i) ''pgrst.jwt_secret'' = Some (JWTSecret cfg)))"
proof (cases "RestEnabled cfg")
  case False
  with assms(1) show ?thesis by (auto simp: start_rest_def intro: exI [of _ "pg (wdb w)"])
next
  case True
  let ?a = "AuthenticatorRole cfg"
  from True assms(1) obtain w1 where e: "EnsureRoles E ?a (AuthenticatorPassword cfg) (AnonRole cfg) (JWTSecret cfg) w = (Inr (), w1)"
    and w': "w' = snd (RebuildSchemasList E ?a w1)" by (auto simp: start_rest_def res_elims)
  from True have "JWTSecret cfg \<noteq> []" by (simp add: RestEnabled_def)
  with EnsureRoles_Inr [OF e] obtain c i where c: "wdb w1 = (wdb w)\<lparr>pg := c\<rparr>" "pg_roles c (trunc ?a) = Some i"
    "map_of (ri_settings i) ''pgrst.jwt_secret'' = Some (JWTSecret cfg)" by blast
  from c have "pg_roles (pg (wdb w1)) (trunc ?a) = Some i" by simp
  from Rebuild_healthy [OF assms(2) this] w' have r: "RebuildSchemasList E ?a w1 = (Inr (), w')" by auto
  have ne: "''pgrst.db_schemas'' \<noteq> ''pgrst.jwt_secret''" by simp
  from RebuildSchemasList_Inr [OF r] c have "wdb w' = (wdb w)\<lparr>pg := c\<lparr>pg_roles := (pg_roles c)(trunc ?a \<mapsto>
      i\<lparr>ri_settings := AList.update ''pgrst.db_schemas'' (join '','' (''public'' # live_schemas (wdb w))) (ri_settings i)\<rparr>)\<rparr>\<rparr>"
    by auto
  with c(3) ne show ?thesis by (auto simp: update_conv')
qed

lemma sweep_settles:
  assumes "healthy E"
  shows "\<exists>log. wdb (snd (SweepStale E (dur_mul 5 minute) w)) = (wdb w)\<lparr>migration_log := log\<rparr> \<and>
    map m_id log = map m_id (migration_log (wdb w)) \<and>
    (\<forall>m \<in> set log. m_state m = ''pending'' \<longrightarrow> db_now E - 300000000000 \<le> m_started m)"
proof -
  obtain r w' where s: "SweepStale E (dur_mul 5 minute) w = (r, w')" by fastforce
  have "flt E (tick w) = None" using assms by (simp add: healthy_def)
  then have "w' = w\<lparr>tick := Suc (tick w), wdb := (wdb w)\<lparr>migration_log :=
      update_where (stale E 300) (orphaned E) (migration_log (wdb w))\<rparr>\<rparr>"
    using s five_minutes by (simp add: SweepStale_def wrap_err_def sql_def Let_def orphaned_def [abs_def])
  moreover have "map m_id (update_where (stale E 300) (orphaned E) l) = map m_id l" for l
    by (rule map_update_where) (simp add: orphaned_def)
  moreover have "m_state m = ''pending'' \<longrightarrow> db_now E - 300000000000 \<le> m_started m"
    if "m \<in> set (update_where (stale E 300) (orphaned E) l)" for m l
    using that by (auto simp: update_where_def stale_def orphaned_def split: if_splits)
  ultimately show ?thesis using s by auto
qed

lemma same_schemas:
  assumes "list_all2 (\<lambda>p p'. p' = p\<lparr>p_password := p_password p'\<rparr> \<and> Q p p') ps ps'"
  shows "map p_schema (filter (\<lambda>p. p_deleted p = None) ps') = map p_schema (filter (\<lambda>p. p_deleted p = None) ps)"
  using assms
proof (induction rule: list_all2_induct)
  case (Cons p ps p' ps')
  then have e: "p' = p\<lparr>p_password := p_password p'\<rparr>" by blast
  have "p_deleted p' = p_deleted p" by (subst e) simp
  moreover have "p_schema p' = p_schema p" by (subst e) simp
  ultimately show ?case using Cons by simp
qed simp

section \<open>Properties\<close>

lemma NewServer_trusted:
  assumes "\<And>k. aead_ok (de_gcm D k)"
  shows "trusted (sv_cipher (srv_projects (NewServer (de_gcm D) fs loopback cfg)))"
  using assms by (auto simp: NewServer_cipher buildCipher_def NewFromBase64Key_def NewFromKey_def Let_def
      split: sum.splits if_splits option.splits)

lemma ReencryptAll_settles:
  assumes "healthy E" "trusted (sv_cipher S)" "rand_length E" and w': "w' = snd (ReencryptAll E S w)"
  shows "\<exists>ps. wdb w' = (wdb w)\<lparr>projects := ps\<rparr> \<and> live_schemas (wdb w') = live_schemas (wdb w) \<and>
    (if Enabled (sv_cipher S) then list_all2 (\<lambda>p p'. p' = p\<lparr>p_password := p_password p'\<rparr> \<and>
        Decrypt (sv_cipher S) (p_password p') = Decrypt (sv_cipher S) (p_password p) \<and>
        (p_deleted p = None \<longrightarrow> IsEnvelope (p_password p') \<or> p_password p' = [])) (projects (wdb w)) ps
     else ps = projects (wdb w))"
proof (cases "Enabled (sv_cipher S)")
  case False
  with w' show ?thesis by (auto simp: reencrypt_rows_disabled_frame intro: exI [of _ "projects (wdb w)"])
next
  case True
  from ReencryptAll_healthy [OF assms(1)] w' obtain n where "ReencryptAll E S w = (Inr n, w')"
    by (metis snd_conv)
  from ReencryptAll_Inr [OF this True assms(2,3)] obtain ps where ps: "wdb w' = (wdb w)\<lparr>projects := ps\<rparr>"
    and enc: "list_all2 (\<lambda>p p'. p' = p\<lparr>p_password := p_password p'\<rparr> \<and>
       Decrypt (sv_cipher S) (p_password p') = Decrypt (sv_cipher S) (p_password p) \<and>
       (p_deleted p = None \<longrightarrow> IsEnvelope (p_password p') \<or> p_password p' = [])) (projects (wdb w)) ps"
    by auto
  then have "live_schemas (wdb w') = live_schemas (wdb w)"
    using same_schemas [OF enc] by (simp add: live_schemas_def)
  with True ps enc show ?thesis by (intro exI [of _ ps]) simp
qed


text \<open>
  Property C35. The process ends in every case but one: a signal always ends it, and so does every
  failure of the configuration or of the start-up; when the listener fails while the hub holds its
  connection, the deferred close of the pool waits for a connection that nobody gives back. It ends with
  status 0 exactly after a clean shutdown.
\<close>

theorem daemon_ends:
  "(run E D wk sd listening w = None \<longleftrightarrow> listening \<and> (\<exists>e. wk = ServeFailed e) \<and>
      (\<exists>cfg (srv :: unit server) w'. Load (de_lower D) (de_url D) (de_os D) = Inr cfg \<and> start_up E D cfg w = (Inr srv, w'))) \<and>
   (exit_code (run E D wk sd listening w) = Some 0 \<longleftrightarrow> sd = None \<and> wk \<in> {Signal, ServeClosed} \<and>
      (\<exists>cfg (srv :: unit server) w'. Load (de_lower D) (de_url D) (de_os D) = Inr cfg \<and> start_up E D cfg w = (Inr srv, w')))"
proof (cases "Load (de_lower D) (de_url D) (de_os D)")
  case (Inl e)
  then show ?thesis by (simp add: run_def exit_code_def)
next
  case (Inr cfg)
  obtain v :: "goerr + unit server" and w' where v: "start_up E D cfg w = (v, w')" by fastforce
  show ?thesis
  proof (cases v)
    case (Inl e)
    with Inr v show ?thesis by (auto simp: run_def exit_code_def)
  next
    case Inr': (Inr srv)
    from start_up_Inr v Inr' NewServer_hub have hub: "srv_hub srv = Some (snd (Start NewHub))" by metis
    have r: "run E D wk sd listening w =
        (if close_returns listening (snd (serve wk sd srv)) then Some (fst (serve wk sd srv)) else None)"
      using Inr Inr' v by (simp add: run_def split: prod.split)
    note c = serve_signal_closes [OF hub]
    show ?thesis
    proof (cases wk)
      case (ServeFailed e)
      with r c(2) [of listening e sd] Inr Inr' v show ?thesis by (auto simp: exit_code_def serve_def)
    qed (use r c(1) [of wk listening sd] Inr Inr' v in \<open>auto simp: exit_code_def\<close>)
  qed
qed

section \<open>The retention of the audit log\<close>

text \<open>
  Up to 106751 days the window is what the configuration says; one day more and it is negative, so
  nothing is pruned; at 213504 days it has wrapped around to less than half an hour, and the timer deletes
  all older rows.
\<close>

lemma retention_exact:
  assumes "0 \<le> AuditRetentionDays cfg" "AuditRetentionDays cfg \<le> 106751"
  shows "sint (retention cfg) = AuditRetentionDays cfg * 86400000000000"
proof -
  have "retention cfg = dur_mul (AuditRetentionDays cfg) (word_of_int 86400000000000)"
    by (simp add: retention_def dur_mul_def)
  with sint_dur_mul [of "AuditRetentionDays cfg" 86400000000000] assms show ?thesis by simp
qed

lemma retention_wraps:
  "AuditRetentionDays cfg = 106752 \<Longrightarrow> sint (retention cfg) < 0"
  "AuditRetentionDays cfg = 213504 \<Longrightarrow> sint (retention cfg) = 1526290448384"
  unfolding retention_def by (simp only:, code_simp)+

section \<open>Witnesses\<close>

definition rest_config :: config where
  "rest_config = demo_config\<lparr>AuthenticatorPassword := ''apw'', JWTSecret := ''0123456789abcdef''\<rparr>"

definition demo_daemon :: daemon_env where
  "demo_daemon = \<lparr>de_os = (\<lambda>_. []), de_lower = id, de_url = (\<lambda>_. None), de_parse = (\<lambda>_. None), de_pool = (\<lambda>_. None),
     de_gcm = (\<lambda>_. demo_aead), de_fs = (\<lambda>_. Inr [])\<rparr>"

definition stale_mig :: mig_row where
  "stale_mig = \<lparr>m_id = 1, m_project = 7, m_version = ''v'', m_source = ''embedded'', m_checksum = [], m_state = ''pending'',
     m_error = None, m_started = - 400000000000, m_completed = None\<rparr>"

lemma demo_healthy: "healthy demo_env"
  by (simp add: healthy_def demo_env_def)

lemma demo_roles:
  assumes "pg (wdb w) = empty_pg"
  shows "\<exists>w'. EnsureRoles demo_env ''auth'' ''apw'' ''anon'' secret w = (Inr (), w')"
  using assms
  by (simp add: EnsureRoles_def ensureRole_def query_def sql_def exec_def wrap_err_def add_role_def role_exists_def
      need_role_def upd_role_def trunc_def empty_pg_def)

lemma demo_start:
  "\<exists>(srv :: unit server) w'. start_up demo_env demo_daemon rest_config
    (world_of (demo_db\<lparr>migration_log := [stale_mig]\<rparr>)) = (Inr srv, w')"
proof -
  let ?w = "(world_of (demo_db\<lparr>migration_log := [stale_mig]\<rparr>))
    \<lparr>wdb := demo_db\<lparr>migration_log := [stale_mig]\<rparr>, tick := Suc (Suc 0)\<rparr>"
  have n: "de_parse demo_daemon x = None" "de_pool demo_daemon x = None" for x by (simp_all add: demo_daemon_def)
  have c: "AuthenticatorRole rest_config = ''auth''" "AuthenticatorPassword rest_config = ''apw''"
    "AnonRole rest_config = ''anon''" "RestEnabled rest_config"
    by (simp_all add: rest_config_def demo_config_def RestEnabled_def)
  have "pg (wdb ?w) = empty_pg" by (simp add: world_of_def demo_db_def empty_db_def)
  with sweep_settles [OF demo_healthy, of ?w] have "pg (wdb (snd (SweepStale demo_env (dur_mul 5 minute) ?w))) = empty_pg"
    by auto
  from demo_roles [OF this, of "JWTSecret rest_config"] c
  have "\<exists>w'. start_rest demo_env rest_config (snd (SweepStale demo_env (dur_mul 5 minute) ?w)) = (Inr (), w')"
    by (auto simp: start_rest_def)
  then obtain w2 where "start_rest demo_env rest_config (snd (SweepStale demo_env (dur_mul 5 minute) ?w)) = (Inr (), w2)" ..
  then show ?thesis
    by (simp add: start_up_def NewPool_def n query_def sql_def wrap_err_def world_sel Let_def)
qed


end
