(* ===== verification/Tracer.thy ===== *)
theory Tracer
  imports Telemetry Postgres
begin

text \<open>
  \<^verbatim>\<open>internal/store/otel.go\<close>: the tracer of the pool, one span for each query. The spans of the provider are a
  list in the order they were started. The lemmas: what a run of queries leaves, how long a traced text is, and that
  the passwords of the roles pwrapd creates are in the traces.
\<close>

section \<open>The tracer\<close>

record span =
  sp_name :: string
  sp_attrs :: "(string \<times> string) list"
  sp_status :: "string option"
  sp_events :: "string list"
  sp_ended :: bool

text \<open>The context carries the span a query was started with, by its place in the list.\<close>

definition TraceQueryStart :: "string \<Rightarrow> span list \<Rightarrow> nat option \<times> span list" where
  "TraceQueryStart s spans = (Some (length spans), spans @ [\<lparr>sp_name = ''pgx.Query'',
     sp_attrs = [(''db.system'', ''postgresql''), (''db.statement'', truncateStatement s)],
     sp_status = None, sp_events = [], sp_ended = False\<rparr>])"

text \<open>\<open>err\<close> is the query's error, if any, \<open>tag\<close> its command tag.\<close>

definition TraceQueryEnd :: "nat option \<Rightarrow> string option \<Rightarrow> string \<Rightarrow> span list \<Rightarrow> span list" where
  "TraceQueryEnd ctx err tag spans = (case ctx of None \<Rightarrow> spans
     | Some i \<Rightarrow> (if length spans \<le> i then spans
         else let sp = spans ! i;
                  sp = (case err of None \<Rightarrow> sp | Some e \<Rightarrow> sp\<lparr>sp_status := Some e, sp_events := sp_events sp @ [e]\<rparr>);
                  sp = sp\<lparr>sp_attrs := sp_attrs sp @ [(''db.tag'', tag)]\<rparr>
              in spans[i := sp\<lparr>sp_ended := True\<rparr>]))"

text \<open>A query as pgx traces it; queries of several connections overlap.\<close>

datatype traced = QueryStart nat string | QueryEnd nat "string option" string

fun trace_step :: "traced \<Rightarrow> (nat \<Rightarrow> nat option) \<times> span list \<Rightarrow> (nat \<Rightarrow> nat option) \<times> span list" where
  "trace_step (QueryStart q s) (ctx, spans) = (case TraceQueryStart s spans of (c, spans) \<Rightarrow> (ctx(q := c), spans))"
| "trace_step (QueryEnd q err tag) (ctx, spans) = (ctx, TraceQueryEnd (ctx q) err tag spans)"

definition trace_run :: "traced list \<Rightarrow> (nat \<Rightarrow> nat option) \<times> span list \<Rightarrow> (nat \<Rightarrow> nat option) \<times> span list" where
  "trace_run = fold trace_step"

section \<open>Lemmas\<close>

text \<open>The traced text: at most 1024 bytes and an ellipsis; a shorter one is the whole text.\<close>

definition statement_of :: "span \<Rightarrow> string option" where
  "statement_of sp = map_of (sp_attrs sp) ''db.statement''"

lemma start_statement:
  "statement_of (last (snd (TraceQueryStart s spans))) = Some (truncateStatement s)"
  by (simp add: TraceQueryStart_def statement_of_def)

lemma end_statements:
  assumes "\<forall>sp \<in> set spans. statement_of sp \<noteq> None"
  shows "map statement_of (TraceQueryEnd ctx err tag spans) = map statement_of spans"
proof (cases ctx)
  case (Some i)
  show ?thesis
  proof (cases "i < length spans")
    case True
    then have "statement_of (spans ! i) \<noteq> None" using assms by simp
    with True Some show ?thesis
      by (auto simp: TraceQueryEnd_def Let_def statement_of_def map_update map_add_def list_update_same_conv split: option.splits)
  qed (simp add: Some TraceQueryEnd_def)
qed (simp add: TraceQueryEnd_def)

text \<open>Over any run, overlapping queries included, each query that was started has its span with its text, in order.\<close>

lemma run_statements:
  assumes "\<forall>sp \<in> set spans. statement_of sp \<noteq> None"
  shows "map statement_of (snd (trace_run ts (ctx, spans))) = map statement_of spans @
    concat (map (\<lambda>t. case t of QueryStart _ s \<Rightarrow> [Some (truncateStatement s)] | QueryEnd _ _ _ \<Rightarrow> []) ts)"
  using assms
proof (induction ts arbitrary: ctx spans)
  case (Cons t ts)
  show ?case
  proof (cases t)
    case (QueryStart q s)
    have st: "map statement_of (snd (TraceQueryStart s spans)) = map statement_of spans @ [Some (truncateStatement s)]"
      by (simp add: TraceQueryStart_def statement_of_def)
    then have "\<forall>sp \<in> set (snd (TraceQueryStart s spans)). statement_of sp \<noteq> None"
      using Cons.prems by (auto simp: TraceQueryStart_def statement_of_def)
    from Cons.IH [OF this] st QueryStart show ?thesis by (simp add: trace_run_def split_beta)
  next
    case (QueryEnd q err tag)
    have st: "map statement_of (TraceQueryEnd (ctx q) err tag spans) = map statement_of spans"
      by (rule end_statements [OF Cons.prems])
    then have "\<forall>sp \<in> set (TraceQueryEnd (ctx q) err tag spans). statement_of sp \<noteq> None"
      using Cons.prems by (metis (mono_tags, lifting) image_iff list.set_map)
    from Cons.IH [OF this] st QueryEnd show ?thesis by (simp add: trace_run_def)
  qed
qed (simp add: trace_run_def)

text \<open>
  The statements that create a role carry its password, so that the trace of a tenant's creation, and of every exchange
  of a key, holds the credential in clear.
\<close>

lemma password_traced:
  assumes "length (render ft st) \<le> 1024" "st \<in> {CreateTenantRole r pw, CreateEphemeralRole r pw t tn}"
  shows "\<exists>a b. snd (trace_run [QueryStart q (render ft st), QueryEnd q None tag] (ctx, [])) \<noteq> [] \<and>
    statement_of (hd (snd (trace_run [QueryStart q (render ft st), QueryEnd q None tag] (ctx, [])))) =
      Some (a @ quoteLiteral pw @ b)"
proof -
  have "map statement_of (snd (trace_run [QueryStart q (render ft st), QueryEnd q None tag] (ctx, []))) = [Some (render ft st)]"
    using run_statements [of "[]"] assms(1) by (simp add: truncateStatement_def)
  moreover have "\<exists>a b. render ft st = a @ quoteLiteral pw @ b"
  proof (cases "st = CreateTenantRole r pw")
    case True
    show ?thesis unfolding True
      by (rule exI [of _ "''CREATE ROLE '' @ quoteIdent r @ '' WITH LOGIN PASSWORD ''"], rule exI [of _ "[]"]) simp
  next
    case False
    with assms(2) have "st = CreateEphemeralRole r pw t tn" by simp
    then show ?thesis
      by (intro exI [of _ "''CREATE ROLE '' @ quoteIdent r @ '' WITH LOGIN INHERIT PASSWORD ''"]
            exI [of _ "'' VALID UNTIL '' @ quoteLiteral (ft t) @ '' IN ROLE '' @ quoteIdent tn"]) simp
  qed
  ultimately show ?thesis by (metis (no_types, lifting) list.map_disc_iff list.map_sel(1) list.sel(1) not_Cons_self2)
qed

end
