(* ===== verification/Go_Flag.thy ===== *)
theory Go_Flag
  imports Go_Strings "HOL-Library.AList"
begin

text \<open>
  The package \<^verbatim>\<open>flag\<close> as the command line uses it: \<^verbatim>\<open>FlagSet.Parse\<close> of string, boolean and
  integer flags with \<^verbatim>\<open>ExitOnError\<close>, and the parsers of \<^verbatim>\<open>strconv\<close> behind them. What it writes to
  standard error is left out. The lemmas: the spellings of a flag, what is left of the arguments.
\<close>

section \<open>strconv\<close>

definition ParseBool :: "string \<Rightarrow> bool option" where
  "ParseBool s =
     (if s \<in> set [''1'', ''t'', ''T'', ''true'', ''TRUE'', ''True''] then Some True
      else if s \<in> set [''0'', ''f'', ''F'', ''false'', ''FALSE'', ''False''] then Some False else None)"

text \<open>
  \<^verbatim>\<open>ParseInt(s, 0, 64)\<close>: a sign, a prefix for the base, digits with underscores between them.
\<close>

definition digit_in :: "char \<Rightarrow> nat option" where
  "digit_in c = (let l = ascii_lower c in
     if is_digit c then Some (digit_val c)
     else if (97 :: nat) \<le> of_char l \<and> of_char l \<le> (122 :: nat) then Some (of_char l - 87) else None)"

fun base_of :: "string \<Rightarrow> nat \<times> string" where
  "base_of (z # x # d # s) =
     (if z \<noteq> CHR ''0'' then (10, z # x # d # s)
      else if ascii_lower x = CHR ''b'' then (2, d # s)
      else if ascii_lower x = CHR ''o'' then (8, d # s)
      else if ascii_lower x = CHR ''x'' then (16, d # s)
      else (8, x # d # s))"
| "base_of (z # s) = (if z = CHR ''0'' then (8, s) else (10, z # s))"
| "base_of [] = (10, [])"

fun read_in :: "nat \<Rightarrow> nat \<Rightarrow> string \<Rightarrow> nat option" where
  "read_in b n [] = Some n"
| "read_in b n (c # s) =
     (if c = CHR ''_'' then read_in b n s
      else case digit_in c of None \<Rightarrow> None | Some d \<Rightarrow> if b \<le> d then None else read_in b (b * n + d) s)"

text \<open>
  \<^verbatim>\<open>underscoreOK\<close>; \<open>saw\<close> is the kind of the last character: start, digit, underscore, other.
\<close>

datatype saw = Start | Digit | Underscore | Other

fun underscore_loop :: "bool \<Rightarrow> saw \<Rightarrow> string \<Rightarrow> bool" where
  "underscore_loop hex saw [] = (saw \<noteq> Underscore)"
| "underscore_loop hex saw (c # s) =
     (if is_digit c \<or> (hex \<and> ascii_lower c \<in> set ''abcdef'') then underscore_loop hex Digit s
      else if c = CHR ''_'' then (if saw \<noteq> Digit then False else underscore_loop hex Underscore s)
      else if saw = Underscore then False
      else underscore_loop hex Other s)"

fun underscoreOK :: "string \<Rightarrow> bool" where
  "underscoreOK (z # x # s) =
     (if z = CHR ''0'' \<and> ascii_lower x \<in> set ''box'' then underscore_loop (ascii_lower x = CHR ''x'') Digit s
      else underscore_loop False Start (z # x # s))"
| "underscoreOK s = underscore_loop False Start s"

definition ParseInt :: "string \<Rightarrow> int option" where
  "ParseInt s =
     (let neg = (s \<noteq> [] \<and> hd s = CHR ''-'');
          u = (if s \<noteq> [] \<and> (hd s = CHR ''-'' \<or> hd s = CHR ''+'') then tl s else s) in
      if u = [] then None
      else case read_in (fst (base_of u)) 0 (snd (base_of u)) of None \<Rightarrow> None
      | Some n \<Rightarrow>
          if CHR ''_'' \<in> set u \<and> \<not> underscoreOK u then None
          else if neg then (if 2 ^ 63 < n then None else Some (- int n))
          else (if 2 ^ 63 \<le> n then None else Some (int n)))"

section \<open>FlagSet\<close>

text \<open>The flags by name, each with its value so far (at first the default), which also says its kind.\<close>

datatype flag_val = VStr string | VBool bool | VInt int

type_synonym flag_set = "(string \<times> flag_val) list"

datatype parsed = Parsed flag_set "string list" | HelpExit | ErrorExit

fun set_flag :: "flag_val \<Rightarrow> string \<Rightarrow> flag_val option" where
  "set_flag (VStr _) s = Some (VStr s)"
| "set_flag (VBool _) s = map_option VBool (ParseBool s)"
| "set_flag (VInt _) s = map_option VInt (ParseInt s)"

fun is_bool :: "flag_val \<Rightarrow> bool" where
  "is_bool (VBool _) = True"
| "is_bool _ = False"

text \<open>\<^verbatim>\<open>parseOne\<close>, until it sees no flag.\<close>

fun parse_flags :: "flag_set \<Rightarrow> string list \<Rightarrow> parsed" where
  "parse_flags fs [] = Parsed fs []"
| "parse_flags fs (s # args) =
     (if length s < 2 \<or> hd s \<noteq> CHR ''-'' then Parsed fs (s # args)
      else if s = ''--'' then Parsed fs args
      else
       (let name = (if s ! 1 = CHR ''-'' then drop 2 s else drop 1 s) in
        if name = [] \<or> hd name = CHR ''-'' \<or> hd name = CHR ''='' then ErrorExit
        else
         (let n = takeWhile (\<lambda>c. c \<noteq> CHR ''='') name;
              val = (if CHR ''='' \<in> set name then Some (drop 1 (dropWhile (\<lambda>c. c \<noteq> CHR ''='') name)) else None) in
          case map_of fs n of
            None \<Rightarrow> if n = ''help'' \<or> n = ''h'' then HelpExit else ErrorExit
          | Some old \<Rightarrow> (case val of
              Some v \<Rightarrow> (case set_flag old v of None \<Rightarrow> ErrorExit | Some x \<Rightarrow> parse_flags (AList.update n x fs) args)
            | None \<Rightarrow>
                if is_bool old then parse_flags (AList.update n (VBool True) fs) args
                else (case args of [] \<Rightarrow> ErrorExit
                  | v # args' \<Rightarrow> (case set_flag old v of None \<Rightarrow> ErrorExit
                      | Some x \<Rightarrow> parse_flags (AList.update n x fs) args'))))))"

fun str_of :: "flag_val option \<Rightarrow> string" where
  "str_of (Some (VStr s)) = s"
| "str_of _ = []"

fun bool_of :: "flag_val option \<Rightarrow> bool" where
  "bool_of (Some (VBool b)) = b"
| "bool_of _ = False"

fun int_of :: "flag_val option \<Rightarrow> int" where
  "int_of (Some (VInt i)) = i"
| "int_of _ = 0"

section \<open>Lemmas\<close>

text \<open>A flag with its value as the next argument, or after an equals sign, with one or two minus signs.\<close>

lemma flag_name_split:
  assumes "CHR ''='' \<notin> set n"
  shows "takeWhile (\<lambda>c. c \<noteq> CHR ''='') (n @ CHR ''='' # v) = n"
    "dropWhile (\<lambda>c. c \<noteq> CHR ''='') (n @ CHR ''='' # v) = CHR ''='' # v"
    "takeWhile (\<lambda>c. c \<noteq> CHR ''='') n = n"
  using assms by (induction n) auto

lemma flag_spellings:
  assumes "CHR ''='' \<notin> set n" "n \<noteq> []" "hd n \<noteq> CHR ''-''" "map_of fs n = Some old" "\<not> is_bool old"
  shows "parse_flags fs ((''-'' @ n) # v # args) = parse_flags fs ((''--'' @ n) # v # args)"
    "parse_flags fs ((''--'' @ n @ ''='' @ v) # args) = parse_flags fs ((''--'' @ n) # v # args)"
    "parse_flags fs ((''-'' @ n @ ''='' @ v) # args) = parse_flags fs ((''--'' @ n) # v # args)"
proof -
  obtain c t where n: "n = c # t" "c \<noteq> CHR ''-''" "c \<noteq> CHR ''=''" "CHR ''='' \<notin> set t" using assms(1-3) by (cases n) auto
  note s = flag_name_split [OF n(4)]
  show "parse_flags fs ((''-'' @ n) # v # args) = parse_flags fs ((''--'' @ n) # v # args)"
    using assms(4,5) n by (simp add: Let_def s)
  show "parse_flags fs ((''--'' @ n @ ''='' @ v) # args) = parse_flags fs ((''--'' @ n) # v # args)"
    using assms(4,5) n by (simp add: Let_def s)
  show "parse_flags fs ((''-'' @ n @ ''='' @ v) # args) = parse_flags fs ((''--'' @ n) # v # args)"
    using assms(4,5) n by (simp add: Let_def s)
qed

end
