(* ===== verification/Neon.thy ===== *)
theory Neon
  imports Go_Strings
begin

text \<open>
  \<^verbatim>\<open>internal/neon/client.go\<close>: the client of the Neon API, for operators who script
  preview branches. The HTTP transport with the service behind it is a parameter with a state of its own; so
  are JSON in both directions and the check of a URL by \<^verbatim>\<open>http.NewRequest\<close>. The lemmas: when a
  call succeeds and with what, what each status becomes, deleting twice is as deleting once.
\<close>

section \<open>Types\<close>

definition DefaultBaseURL :: string where
  "DefaultBaseURL = ''https://console.neon.tech/api/v2''"

record client =
  cl_base :: string
  cl_key :: string

definition NewClientWithBaseURL :: "string \<Rightarrow> string \<Rightarrow> client" where
  "NewClientWithBaseURL apiKey baseURL =
     \<lparr>cl_base = trim_right CHR ''/'' baseURL, cl_key = apiKey\<rparr>"

definition NewClient :: "string \<Rightarrow> client" where
  "NewClient apiKey = NewClientWithBaseURL apiKey DefaultBaseURL"

text \<open>The times of a branch as the API writes them.\<close>

record neon_branch =
  nb_id :: string
  nb_project :: string
  nb_parent :: string
  nb_parent_lsn :: string
  nb_name :: string
  nb_default :: bool
  nb_protected :: bool
  nb_state :: string
  nb_created :: string
  nb_updated :: string
  nb_last_reset :: string
  nb_size :: int

definition zero_branch :: neon_branch where
  "zero_branch = \<lparr>nb_id = [], nb_project = [], nb_parent = [], nb_parent_lsn = [], nb_name = [], nb_default = False,
     nb_protected = False, nb_state = [], nb_created = [], nb_updated = [], nb_last_reset = [], nb_size = 0\<rparr>"

record neon_endpoint =
  ne_id :: string
  ne_host :: string
  ne_branch :: string
  ne_project :: string
  ne_type :: string
  ne_state :: string

record create_branch_req =
  cb_parent :: string
  cb_name :: string
  cb_endpoint :: bool

record create_branch_payload =
  bp_parent :: string
  bp_name :: string
  bp_endpoints :: "string list"

record uri_req =
  ur_branch :: string
  ur_role :: string
  ur_database :: string
  ur_pooled :: bool

text \<open>A request on the wire; the body \<open>None\<close> when there is none.\<close>

record wire_req =
  wr_method :: string
  wr_url :: string
  wr_auth :: string
  wr_accept :: string
  wr_ctype :: string
  wr_body :: "string option"

text \<open>
  \<open>nv_do\<close> is \<^verbatim>\<open>http.Client.Do\<close> and the service: the error, or the status and the
  body. \<open>nv_new\<close> is the error of \<^verbatim>\<open>http.NewRequestWithContext\<close> on a URL, if any; the others
  are \<^verbatim>\<open>json.Marshal\<close>, \<^verbatim>\<open>json.Decode\<close> into the response structs, and the message a body has
  when it is decoded as an error.
\<close>

record 's neon_env =
  nv_do :: "wire_req \<Rightarrow> 's \<Rightarrow> (string + nat \<times> string) \<times> 's"
  nv_new :: "string \<Rightarrow> string option"
  nv_marshal :: "create_branch_payload \<Rightarrow> string + string"
  nv_created :: "string \<Rightarrow> string + (neon_branch \<times> neon_endpoint list)"
  nv_branches :: "string \<Rightarrow> string + neon_branch list"
  nv_uri :: "string \<Rightarrow> string + string"
  nv_message :: "string \<Rightarrow> string"

section \<open>Errors and do\<close>

record api_error =
  ae_status :: nat
  ae_body :: string
  ae_message :: string

definition APIError_Error :: "api_error \<Rightarrow> string" where
  "APIError_Error e =
     (if ae_message e \<noteq> [] then ''neon: '' @ show_nat (ae_status e) @ '' '' @ ae_message e
      else ''neon: '' @ show_nat (ae_status e) @ '' '' @ ae_body e)"

text \<open>
  \<open>body\<close> is the marshalled body or the error of marshalling it; \<open>out\<close> decodes the response
  (\<open>None\<close>: the caller passes nil). The result \<open>Inr None\<close>: no error, and nothing was decoded.
\<close>

definition neon_do :: "'s neon_env \<Rightarrow> client \<Rightarrow> string \<Rightarrow> string \<Rightarrow> (string + string) option \<Rightarrow>
    (string \<Rightarrow> string + 'o) option \<Rightarrow> 's \<Rightarrow> (goerr + 'o option) \<times> 's" where
  "neon_do V c method path body out s =
     (case body of Some (Inl e) \<Rightarrow> (Inl (Ext e), s)
      | _ \<Rightarrow>
       let rdr = (case body of Some (Inr b) \<Rightarrow> Some b | _ \<Rightarrow> None) in
       case nv_new V (cl_base c @ path) of Some e \<Rightarrow> (Inl (Ext e), s)
       | None \<Rightarrow>
         let req = \<lparr>wr_method = method, wr_url = cl_base c @ path, wr_auth = ''Bearer '' @ cl_key c,
               wr_accept = ''application/json'', wr_ctype = (if body \<noteq> None then ''application/json'' else []),
               wr_body = rdr\<rparr>;
             (resp, s) = nv_do V req s
         in case resp of Inl e \<Rightarrow> (Inl (Wrap ''neon: do: '' (Ext e)), s)
            | Inr (status, b) \<Rightarrow>
                if status = 404 then (Inl (Sentinel ErrNeonNotFound), s)
                else if 400 \<le> status then
                  (Inl (Msg (APIError_Error \<lparr>ae_status = status, ae_body = b, ae_message = nv_message V b\<rparr>)), s)
                else (case out of
                    Some dec \<Rightarrow> if status \<noteq> 204 then
                        (case dec b of Inl e \<Rightarrow> (Inl (Ext e), s) | Inr x \<Rightarrow> (Inr (Some x), s))
                      else (Inr None, s)
                  | None \<Rightarrow> (Inr None, s)))"

section \<open>Public methods\<close>

definition CreateBranch :: "'s neon_env \<Rightarrow> client \<Rightarrow> string \<Rightarrow> create_branch_req \<Rightarrow> 's \<Rightarrow>
    (goerr + neon_branch \<times> neon_endpoint list) \<times> 's" where
  "CreateBranch V c projectID req s =
     (if projectID = [] then (Inl (Msg ''projectID is required''), s)
      else if cb_name req = [] then (Inl (Msg ''name is required''), s)
      else let body = \<lparr>bp_parent = cb_parent req, bp_name = cb_name req,
                bp_endpoints = (if cb_endpoint req then [''read_write''] else [])\<rparr>
        in case neon_do V c ''POST'' (''/projects/'' @ projectID @ ''/branches'') (Some (nv_marshal V body)) (Some (nv_created V)) s of
             (Inl e, s) \<Rightarrow> (Inl e, s)
           | (Inr resp, s) \<Rightarrow> (Inr (case resp of Some x \<Rightarrow> x | None \<Rightarrow> (zero_branch, [])), s))"

definition DeleteBranch :: "'s neon_env \<Rightarrow> client \<Rightarrow> string \<Rightarrow> string \<Rightarrow> 's \<Rightarrow> (goerr + unit) \<times> 's" where
  "DeleteBranch V c projectID branchID s =
     (if projectID = [] \<or> branchID = [] then (Inl (Msg ''projectID and branchID are required''), s)
      else case neon_do V c ''DELETE'' (''/projects/'' @ projectID @ ''/branches/'' @ branchID) None
             (None :: (string \<Rightarrow> string + unit) option) s of
          (Inl e, s) \<Rightarrow> if errors_is e ErrNeonNotFound then (Inr (), s) else (Inl e, s)
        | (Inr _, s) \<Rightarrow> (Inr (), s))"

definition ListBranches :: "'s neon_env \<Rightarrow> client \<Rightarrow> string \<Rightarrow> 's \<Rightarrow> (goerr + neon_branch list) \<times> 's" where
  "ListBranches V c projectID s =
     (case neon_do V c ''GET'' (''/projects/'' @ projectID @ ''/branches'') None (Some (nv_branches V)) s of
        (Inl e, s) \<Rightarrow> (Inl e, s)
      | (Inr resp, s) \<Rightarrow> (Inr (case resp of Some x \<Rightarrow> x | None \<Rightarrow> []), s))"

definition uri_path :: "string \<Rightarrow> uri_req \<Rightarrow> string" where
  "uri_path projectID req = ''/projects/'' @ projectID @ ''/connection_uri?branch_id='' @ ur_branch req @
     ''&role_name='' @ ur_role req @ ''&database_name='' @ ur_database req @
     ''&pooled='' @ (if ur_pooled req then ''true'' else ''false'')"

definition GetConnectionURI :: "'s neon_env \<Rightarrow> client \<Rightarrow> string \<Rightarrow> uri_req \<Rightarrow> 's \<Rightarrow> (goerr + string) \<times> 's" where
  "GetConnectionURI V c projectID req s =
     (if projectID = [] \<or> ur_branch req = [] \<or> ur_role req = [] \<or> ur_database req = []
      then (Inl (Msg ''projectID, BranchID, RoleName, and DatabaseName are required''), s)
      else case neon_do V c ''GET'' (uri_path projectID req) None (Some (nv_uri V)) s of
          (Inl e, s) \<Rightarrow> (Inl e, s)
        | (Inr resp, s) \<Rightarrow> (Inr (case resp of Some x \<Rightarrow> x | None \<Rightarrow> []), s))"

section \<open>Lemmas\<close>

lemma neon_do_sends:
  "body \<noteq> Some (Inl e) \<Longrightarrow> nv_new V (cl_base c @ path) = Some e' \<Longrightarrow> snd (neon_do V c m path body out s) = s"
  by (auto simp: neon_do_def split: option.splits sum.splits)

text \<open>What a call to delete returns, by what the service answers.\<close>

definition delete_req :: "client \<Rightarrow> string \<Rightarrow> string \<Rightarrow> wire_req" where
  "delete_req c projectID branchID = \<lparr>wr_method = ''DELETE'',
     wr_url = cl_base c @ ''/projects/'' @ projectID @ ''/branches/'' @ branchID, wr_auth = ''Bearer '' @ cl_key c,
     wr_accept = ''application/json'', wr_ctype = [], wr_body = None\<rparr>"

lemma DeleteBranch_answer:
  assumes "projectID \<noteq> []" "branchID \<noteq> []" "nv_new V (wr_url (delete_req c projectID branchID)) = None"
    and "nv_do V (delete_req c projectID branchID) s = (r, s')"
  shows "snd (DeleteBranch V c projectID branchID s) = s' \<and>
    (fst (DeleteBranch V c projectID branchID s) = Inr () \<longleftrightarrow> (\<exists>status b. r = Inr (status, b) \<and> (status < 400 \<or> status = 404)))"
proof -
  note req = assms(3,4) [unfolded delete_req_def wire_req.simps]
  let ?d = "neon_do V c ''DELETE'' (''/projects/'' @ projectID @ ''/branches/'' @ branchID) None
    (None :: (string \<Rightarrow> string + unit) option) s"
  have d: "?d = (case r of Inl e \<Rightarrow> (Inl (Wrap ''neon: do: '' (Ext e)), s')
      | Inr (status, b) \<Rightarrow> if status = 404 then (Inl (Sentinel ErrNeonNotFound), s')
          else if 400 \<le> status then
            (Inl (Msg (APIError_Error \<lparr>ae_status = status, ae_body = b, ae_message = nv_message V b\<rparr>)), s')
          else (Inr None, s'))"
    unfolding neon_do_def Let_def using req by (simp split: sum.split prod.split)
  then have "snd ?d = s'" by (cases r) (auto split: prod.splits)
  with d assms(1,2) show ?thesis
    unfolding DeleteBranch_def by (cases r) (auto split: prod.splits if_splits)
qed

text \<open>
  The values go into the query as they are: a role name with an ampersand asks for another
  database than the request names.
\<close>

lemma uri_not_escaped:
  "uri_path p \<lparr>ur_branch = b, ur_role = r @ ''&database_name='' @ d, ur_database = d', ur_pooled = pooled\<rparr> =
   uri_path p \<lparr>ur_branch = b, ur_role = r, ur_database = d @ ''&database_name='' @ d', ur_pooled = pooled\<rparr>"
  by (simp add: uri_path_def)

end
