(* ===== verification/Tenant_Data.thy ===== *)
theory Tenant_Data
  imports Database Complex_Main "HOL-Library.AList"
begin

text \<open>
  A tenant's database as the Go SDK sees it: JSON values with the \<^verbatim>\<open>jsonb\<close> operators the SDK's
  statements use, the baseline tables of \<^verbatim>\<open>migrations/tenant/0001_init.up.sql\<close>, and sessions: single
  statements and transactions, with faults.
\<close>

section \<open>JSON\<close>

datatype json = JNull | JBool bool | JNum rat | JStr string | JArr "json list" | JObj "(string \<times> json) list"

text \<open>A text becomes \<^verbatim>\<open>jsonb\<close>: of equal keys the last one stays; a NUL character is refused.\<close>

definition dedup :: "(string \<times> json) list \<Rightarrow> (string \<times> json) list" where
  "dedup kvs = fold (\<lambda>(k, v). AList.update k v) kvs []"

fun jsonb :: "json \<Rightarrow> json" where
  "jsonb (JArr xs) = JArr (map jsonb xs)"
| "jsonb (JObj kvs) = JObj (dedup (map (\<lambda>(k, v). (k, jsonb v)) kvs))"
| "jsonb j = j"

fun has_nul :: "json \<Rightarrow> bool" where
  "has_nul (JStr s) = (CHR 0x00 \<in> set s)"
| "has_nul (JArr xs) = list_ex has_nul xs"
| "has_nul (JObj kvs) = list_ex (\<lambda>(k, v). CHR 0x00 \<in> set k \<or> has_nul v) kvs"
| "has_nul j = False"

definition to_jsonb :: "json \<Rightarrow> string + json" where
  "to_jsonb j = (if has_nul j then Inl (pg_error ''unsupported Unicode escape sequence'' ''22P05'') else Inr (jsonb j))"

text \<open>
  Containment \<^verbatim>\<open>a @> b\<close>, and concatenation \<^verbatim>\<open>a || b\<close>: two objects are merged; otherwise
  each side that is no array becomes an array of one. (The exception by which an array contains a scalar at
  the top cannot arise: the SDK's filters are objects.)
\<close>

fun jcontains :: "json \<Rightarrow> json \<Rightarrow> bool" where
  "jcontains (JObj a) (JObj b) = list_all (\<lambda>(k, v). list_ex (\<lambda>(k', v'). k' = k \<and> jcontains v' v) a) b"
| "jcontains (JArr a) (JArr b) = list_all (\<lambda>y. list_ex (\<lambda>x. jcontains x y) a) b"
| "jcontains a b = (a = b)"

fun elems :: "json \<Rightarrow> json list" where
  "elems (JArr xs) = xs"
| "elems j = [j]"

fun jconcat :: "json \<Rightarrow> json \<Rightarrow> json" where
  "jconcat (JObj a) (JObj b) = JObj (AList.merge a b)"
| "jconcat a b = JArr (elems a @ elems b)"

text \<open>
  \<^verbatim>\<open>json.Unmarshal\<close> into a \<^verbatim>\<open>map[string]any\<close> (\<open>None\<close> is the nil map): numbers become
  \<^verbatim>\<open>float64\<close>, by \<open>fl\<close>.
\<close>

fun go_value :: "(rat \<Rightarrow> rat) \<Rightarrow> json \<Rightarrow> json" where
  "go_value fl (JNum n) = JNum (fl n)"
| "go_value fl (JArr xs) = JArr (map (go_value fl) xs)"
| "go_value fl (JObj kvs) = JObj (map (\<lambda>(k, v). (k, go_value fl v)) kvs)"
| "go_value fl j = j"

type_synonym go_map = "(string \<times> json) list option"

definition unmarshal_map :: "(rat \<Rightarrow> rat) \<Rightarrow> json \<Rightarrow> string + go_map" where
  "unmarshal_map fl j = (case j of
      JObj kvs \<Rightarrow> Inr (Some (map (\<lambda>(k, v). (k, go_value fl v)) kvs))
    | JNull \<Rightarrow> Inr None
    | _ \<Rightarrow> Inl ''json: cannot unmarshal into Go value of type map[string]interface {}'')"

text \<open>\<^verbatim>\<open>json.Marshal\<close> of such a map; the nil map is \<^verbatim>\<open>null\<close>.\<close>

fun marshal_map :: "go_map \<Rightarrow> json" where
  "marshal_map None = JNull"
| "marshal_map (Some kvs) = JObj kvs"

section \<open>Tables\<close>

record doc_row =
  d_coll :: string
  d_id :: uuid
  d_data :: json
  d_created :: instant
  d_updated :: instant

text \<open>A row of \<^verbatim>\<open>pwrap_change_log\<close> with the document before and after.\<close>

record clog_row =
  cl_id :: nat
  cl_table :: string
  cl_op :: string
  cl_row :: uuid
  cl_user :: "string option"
  cl_before :: "doc_row option"
  cl_after :: "doc_row option"

record job_row =
  jb_id :: nat
  jb_kind :: string
  jb_args :: json
  jb_queue :: string
  jb_priority :: int
  jb_attempts :: int
  jb_state :: string

text \<open>Rows of \<^verbatim>\<open>pwrap_embeddings\<close> and \<^verbatim>\<open>pwrap_geo\<close>; a geometry is known by its canonical text.\<close>

record emb_row =
  em_coll :: string
  em_id :: uuid
  em_doc :: string
  em_vec :: "rat list"
  em_meta :: json
  em_created :: instant

type_synonym geometry = string

record geo_row =
  ge_coll :: string
  ge_id :: uuid
  ge_geom :: geometry
  ge_meta :: json
  ge_created :: instant
  ge_updated :: instant

text \<open>A materialized view of the tenant's schema, and its row of \<^verbatim>\<open>pwrap_matviews\<close>.\<close>

record view_row =
  vw_name :: string
  vw_query :: string
  vw_owner :: string
  vw_populated :: bool

record matview_row =
  mv_name :: string
  mv_definition :: string
  mv_checksum :: string
  mv_last_refresh :: "instant option"
  mv_last_error :: "string option"
  mv_enabled :: bool
  mv_created :: instant
  mv_updated :: instant

text \<open>
  \<open>tn_owner\<close> is the owner of the schema, \<open>tn_tables\<close> the names of its tables, \<open>tn_triggers\<close> the
  triggers that run \<^verbatim>\<open>pwrap_capture_change\<close>, each with its table.
\<close>

record tenant =
  tn_owner :: string
  tn_tables :: "string list"
  tn_triggers :: "(string \<times> string) list"
  tn_docs :: "doc_row list"
  tn_log :: "clog_row list"
  tn_seq :: nat
  tn_jobs :: "job_row list"
  tn_job_seq :: nat
  tn_embs :: "emb_row list"
  tn_geo :: "geo_row list"
  tn_views :: "view_row list"
  tn_matviews :: "matview_row list"

text \<open>
  The triggers of a change of a row of \<^verbatim>\<open>pwrap_documents\<close>: each writes a log row, with the user of
  the session's claims. (Their notifications are sent when the transaction commits, one for each new log row.)
\<close>

fun change_id :: "doc_row option \<times> doc_row option \<Rightarrow> uuid" where
  "change_id (_, Some r) = d_id r"
| "change_id (Some r, None) = d_id r"
| "change_id (None, None) = 0"

definition log_change :: "string option \<Rightarrow> string \<Rightarrow> doc_row option \<times> doc_row option \<Rightarrow> tenant \<Rightarrow> tenant" where
  "log_change user tg_op ba d =
     d\<lparr>tn_seq := Suc (tn_seq d), tn_log := tn_log d @ [\<lparr>cl_id = Suc (tn_seq d), cl_table = ''pwrap_documents'',
       cl_op = tg_op, cl_row = change_id ba,
       cl_user = user, cl_before = fst ba, cl_after = snd ba\<rparr>]\<rparr>"

definition doc_triggers :: "tenant \<Rightarrow> (string \<times> string) list" where
  "doc_triggers d = filter (\<lambda>(g, t). t = ''pwrap_documents'') (tn_triggers d)"

definition capture :: "string option \<Rightarrow> string \<Rightarrow> doc_row option \<times> doc_row option \<Rightarrow> tenant \<Rightarrow> tenant" where
  "capture user tg_op ba d = fold (\<lambda>_. log_change user tg_op ba) (doc_triggers d) d"

definition capture_rows ::
  "string option \<Rightarrow> string \<Rightarrow> (doc_row option \<times> doc_row option) list \<Rightarrow> tenant \<Rightarrow> tenant" where
  "capture_rows user tg_op bas d = fold (capture user tg_op) bas d"

section \<open>Sessions\<close>

text \<open>
  \<open>te_flt n\<close> is the error of the \<open>n\<close>-th round trip, if it fails; \<open>te_id n k\<close> the \<open>k\<close>-th
  \<^verbatim>\<open>gen_random_uuid()\<close> in it; \<open>te_clock n\<close> the server's clock then; \<open>te_fl\<close> and \<open>te_fl32\<close>
  the \<^verbatim>\<open>float64\<close> and the \<^verbatim>\<open>float32\<close> nearest to a number.
\<close>

record tenv =
  te_flt :: "nat \<Rightarrow> string option"
  te_id :: "nat \<Rightarrow> nat \<Rightarrow> uuid"
  te_clock :: "nat \<Rightarrow> instant"
  te_fl :: "rat \<Rightarrow> rat"
  te_fl32 :: "rat \<Rightarrow> rat"

record tworld =
  tw_db :: tenant
  tw_tick :: nat

text \<open>
  A \<^verbatim>\<open>querier\<close>: the pool, or a transaction with the user of its \<^verbatim>\<open>request.jwt.claims\<close> and the round
  trip of its \<^verbatim>\<open>Begin\<close>, at which its \<^verbatim>\<open>now()\<close> stands still.
\<close>

datatype querier = Pool_q | Tx_q "string option" nat

fun q_user :: "querier \<Rightarrow> string option" where
  "q_user Pool_q = None"
| "q_user (Tx_q u _) = u"

fun q_now :: "tenv \<Rightarrow> querier \<Rightarrow> tworld \<Rightarrow> instant" where
  "q_now E Pool_q w = te_clock E (tw_tick w)"
| "q_now E (Tx_q _ b) w = te_clock E b"

type_synonym 'a tres = "(goerr + 'a) \<times> tworld"

definition t_then :: "'a tres \<Rightarrow> ('a \<Rightarrow> tworld \<Rightarrow> 'b tres) \<Rightarrow> 'b tres" where
  "t_then r f = (case r of (Inl e, w) \<Rightarrow> (Inl e, w) | (Inr x, w) \<Rightarrow> f x w)"

definition t_wrap :: "string \<Rightarrow> 'a tres \<Rightarrow> 'a tres" where
  "t_wrap s r = (case r of (Inl e, w) \<Rightarrow> (Inl (Wrap s e), w) | (Inr x, w) \<Rightarrow> (Inr x, w))"

definition t_sql :: "tenv \<Rightarrow> (tenant \<Rightarrow> string + ('a \<times> tenant)) \<Rightarrow> tworld \<Rightarrow> 'a tres" where
  "t_sql E q w = (case te_flt E (tw_tick w) of
      Some e \<Rightarrow> (Inl (Ext e), w\<lparr>tw_tick := Suc (tw_tick w)\<rparr>)
    | None \<Rightarrow> (case q (tw_db w) of
        Inl e \<Rightarrow> (Inl (Ext e), w\<lparr>tw_tick := Suc (tw_tick w)\<rparr>)
      | Inr (x, d) \<Rightarrow> (Inr x, w\<lparr>tw_tick := Suc (tw_tick w), tw_db := d\<rparr>)))"

text \<open>A text parameter must be valid UTF-8 without a NUL character.\<close>

definition pg_text :: "string \<Rightarrow> bool" where
  "pg_text s \<longleftrightarrow> utf8_valid s \<and> CHR 0x00 \<notin> set s"

definition texts :: "string list \<Rightarrow> (tenant \<Rightarrow> string + 'a \<times> tenant) \<Rightarrow> tenant \<Rightarrow> string + 'a \<times> tenant" where
  "texts ss q d = (if list_all pg_text ss then q d
     else Inl (pg_error ''invalid byte sequence for encoding \"UTF8\"'' ''22021''))"

text \<open>A round trip that changes nothing, and a transaction of the pool, as in theory Database.\<close>

definition t_query :: "tenv \<Rightarrow> (tenant \<Rightarrow> 'a) \<Rightarrow> tworld \<Rightarrow> 'a tres" where
  "t_query E q = t_sql E (\<lambda>d. Inr (q d, d))"

definition t_tx :: "tenv \<Rightarrow> (tworld \<Rightarrow> 'a tres) \<Rightarrow> tworld \<Rightarrow> 'a tres" where
  "t_tx E body w = t_then (t_query E (\<lambda>_. ()) w) (\<lambda>_ w1. case body w1 of
      (Inl e, w2) \<Rightarrow> (Inl e, w2\<lparr>tw_db := tw_db w1, tw_tick := Suc (tw_tick w2)\<rparr>)
    | (Inr x, w2) \<Rightarrow> (case t_query E (\<lambda>_. ()) w2 of
        (Inl e, w3) \<Rightarrow> (Inl e, w3\<lparr>tw_db := tw_db w1, tw_tick := Suc (tw_tick w3)\<rparr>)
      | (Inr _, w3) \<Rightarrow> (Inr x, w3)))"

lemma t_then_simps [simp]: "t_then (Inl e, w) f = (Inl e, w)" "t_then (Inr x, w) f = f x w"
  by (simp_all add: t_then_def)

lemma t_then_Inr: "t_then r f = (Inr y, w') \<longleftrightarrow> (\<exists>x w. r = (Inr x, w) \<and> f x w = (Inr y, w'))"
  by (cases r; cases "fst r") (auto simp: t_then_def)

lemma t_then_Inl: "t_then r f = (Inl e, w') \<longleftrightarrow> r = (Inl e, w') \<or> (\<exists>x w. r = (Inr x, w) \<and> f x w = (Inl e, w'))"
  by (cases r; cases "fst r") (auto simp: t_then_def)

lemma t_wrap_Inr: "t_wrap s r = (Inr x, w) \<longleftrightarrow> r = (Inr x, w)"
  by (cases r; cases "fst r") (auto simp: t_wrap_def)

lemma t_wrap_Inl: "t_wrap s r = (Inl e, w) \<longleftrightarrow> (\<exists>e0. e = Wrap s e0 \<and> r = (Inl e0, w))"
  by (cases r; cases "fst r") (auto simp: t_wrap_def)

lemmas t_elims = t_then_Inr t_then_Inl t_wrap_Inr t_wrap_Inl

lemma t_sql_Inr:
  "t_sql E q w = (Inr x, w') \<longleftrightarrow> te_flt E (tw_tick w) = None \<and>
     (\<exists>d. q (tw_db w) = Inr (x, d) \<and> w' = w\<lparr>tw_tick := Suc (tw_tick w), tw_db := d\<rparr>)"
  by (auto simp: t_sql_def split: option.splits sum.splits)

lemma t_sql_Inl:
  "t_sql E q w = (Inl e, w') \<longleftrightarrow> w' = w\<lparr>tw_tick := Suc (tw_tick w)\<rparr> \<and>
     ((\<exists>s. te_flt E (tw_tick w) = Some s \<and> e = Ext s) \<or>
      (te_flt E (tw_tick w) = None \<and> (\<exists>s. q (tw_db w) = Inl s \<and> e = Ext s)))"
  by (auto simp: t_sql_def split: option.splits sum.splits)

lemma texts_Inr: "texts ss q d = Inr x \<longleftrightarrow> list_all pg_text ss \<and> q d = Inr x"
  by (auto simp: texts_def)

lemma t_query_Inr:
  "t_query E q w = (Inr x, w') \<longleftrightarrow> te_flt E (tw_tick w) = None \<and> x = q (tw_db w) \<and> w' = w\<lparr>tw_tick := Suc (tw_tick w)\<rparr>"
  by (auto simp: t_query_def t_sql_Inr)

lemma t_query_Inl:
  "t_query E q w = (Inl e, w') \<longleftrightarrow> w' = w\<lparr>tw_tick := Suc (tw_tick w)\<rparr> \<and> (\<exists>s. te_flt E (tw_tick w) = Some s \<and> e = Ext s)"
  by (auto simp: t_query_def t_sql_Inl)

text \<open>A statement or a transaction that fails leaves the database as it was.\<close>

lemma t_sql_Inl_db: "t_sql E q w = (Inl e, w') \<Longrightarrow> tw_db w' = tw_db w"
  by (auto simp: t_sql_Inl)

lemma t_tx_Inl_db: "t_tx E body w = (Inl e, w') \<Longrightarrow> tw_db w' = tw_db w"
  by (auto simp: t_tx_def t_elims t_query_Inr t_query_Inl split: prod.splits sum.splits)

lemma t_tx_Inr:
  "t_tx E body w = (Inr x, w') \<longleftrightarrow> te_flt E (tw_tick w) = None \<and>
     (\<exists>w2. body (w\<lparr>tw_tick := Suc (tw_tick w)\<rparr>) = (Inr x, w2) \<and> te_flt E (tw_tick w2) = None \<and>
        w' = w2\<lparr>tw_tick := Suc (tw_tick w2)\<rparr>)"
  by (auto simp: t_tx_def t_elims t_query_Inr t_query_Inl split: prod.splits sum.splits)

text \<open>Steps that change nothing, and steps that change nothing when they fail.\<close>

named_theorems step_intros "how steps that read, or that fail without effect, compose"

definition readonly :: "(tworld \<Rightarrow> 'a tres) \<Rightarrow> bool" where
  "readonly f \<longleftrightarrow> (\<forall>w r w'. f w = (r, w') \<longrightarrow> tw_db w' = tw_db w)"

definition atomic :: "(tworld \<Rightarrow> 'a tres) \<Rightarrow> bool" where
  "atomic f \<longleftrightarrow> (\<forall>w e w'. f w = (Inl e, w') \<longrightarrow> tw_db w' = tw_db w)"

lemma readonlyD: "readonly f \<Longrightarrow> f w = (r, w') \<Longrightarrow> tw_db w' = tw_db w"
  by (simp add: readonly_def)

lemma atomicD: "atomic f \<Longrightarrow> f w = (Inl e, w') \<Longrightarrow> tw_db w' = tw_db w"
  by (simp add: atomic_def)

lemma atomic_holds:
  assumes "atomic f" "Q (tw_db w)" "\<And>x w'. f w = (Inr x, w') \<Longrightarrow> Q (tw_db w')"
  shows "Q (tw_db (snd (f w)))"
proof (cases "f w")
  case (Pair r w')
  with assms show ?thesis by (cases r) (auto dest: atomicD)
qed

lemma readonly_atomic: "readonly f \<Longrightarrow> atomic f"
  by (simp add: readonly_def atomic_def)

lemma readonly_sql [step_intros]:
  "(\<And>w d x d'. q w d = Inr (x, d') \<Longrightarrow> d' = d) \<Longrightarrow> readonly (\<lambda>w. t_sql E (q w) w)"
  by (auto simp: readonly_def t_sql_def split: option.splits sum.splits)

lemma readonly_query [step_intros]: "readonly (t_query E q)"
  by (auto simp: readonly_def t_query_def t_sql_def split: option.splits)

lemma readonly_ret [step_intros]: "readonly (\<lambda>w. (r, w))"
  by (simp add: readonly_def)

lemma readonly_then [step_intros]: "readonly f \<Longrightarrow> (\<And>x. readonly (g x)) \<Longrightarrow> readonly (\<lambda>w. t_then (f w) g)"
  unfolding readonly_def
proof (intro allI impI)
  fix w r w'
  assume f: "\<forall>w r w'. f w = (r, w') \<longrightarrow> tw_db w' = tw_db w" and g: "\<And>x. \<forall>w r w'. g x w = (r, w') \<longrightarrow> tw_db w' = tw_db w"
    and r: "t_then (f w) g = (r, w')"
  obtain y w1 where y: "f w = (y, w1)" by fastforce
  with f have "tw_db w1 = tw_db w" by blast
  with y r g show "tw_db w' = tw_db w" by (cases y) auto
qed

lemma readonly_wrap [step_intros]: "readonly f \<Longrightarrow> readonly (\<lambda>w. t_wrap s (f w))"
  unfolding readonly_def by (auto simp: t_wrap_def split: prod.splits sum.splits)

lemma readonly_cases [step_intros]:
  "(\<And>e. readonly (f1 e)) \<Longrightarrow> (\<And>x. readonly (g1 x)) \<Longrightarrow> readonly (\<lambda>w. case s of Inl e \<Rightarrow> f1 e w | Inr x \<Rightarrow> g1 x w)"
  "readonly f2 \<Longrightarrow> (\<And>x. readonly (g2 x)) \<Longrightarrow> readonly (\<lambda>w. case r of None \<Rightarrow> f2 w | Some x \<Rightarrow> g2 x w)"
  "readonly f3 \<Longrightarrow> readonly g3 \<Longrightarrow> readonly (\<lambda>w. if b then f3 w else g3 w)"
  by ((cases s; simp), (cases r; simp), (cases b; simp))

lemma atomic_sql [step_intros]: "atomic (\<lambda>w. t_sql E (q w) w)"
  by (auto simp: atomic_def t_sql_Inl)

lemma atomic_tx [step_intros]: "atomic (t_tx E body)"
  by (auto simp: atomic_def dest: t_tx_Inl_db)

lemma atomic_ret [step_intros]: "atomic (\<lambda>w. (r, w))"
  by (simp add: atomic_def)

lemma atomic_wrap [step_intros]: "atomic f \<Longrightarrow> atomic (\<lambda>w. t_wrap s (f w))"
  by (auto simp: atomic_def t_wrap_Inl)

text \<open>After a step that reads, any atomic step; after an atomic step, one that cannot fail.\<close>

lemma atomic_after_read: "readonly f \<Longrightarrow> (\<And>x. atomic (g x)) \<Longrightarrow> atomic (\<lambda>w. t_then (f w) g)"
  unfolding readonly_def atomic_def by (metis t_then_Inl)

lemma atomic_then_ret [step_intros]: "atomic f \<Longrightarrow> atomic (\<lambda>w. t_then (f w) (\<lambda>x w. (Inr (h x), w)))"
  by (auto simp: atomic_def t_then_Inl)

lemma atomic_cases [step_intros]:
  "(\<And>e. atomic (f1 e)) \<Longrightarrow> (\<And>x. atomic (g1 x)) \<Longrightarrow> atomic (\<lambda>w. case s of Inl e \<Rightarrow> f1 e w | Inr x \<Rightarrow> g1 x w)"
  "atomic f3 \<Longrightarrow> atomic g3 \<Longrightarrow> atomic (\<lambda>w. if b then f3 w else g3 w)"
  by ((cases s; simp), (cases b; simp))

section \<open>Lemmas on JSON\<close>

text \<open>The keys of every object are distinct, as in a stored value.\<close>

fun wf_json :: "json \<Rightarrow> bool" where
  "wf_json (JArr xs) = list_all wf_json xs"
| "wf_json (JObj kvs) = (distinct (map fst kvs) \<and> list_all (\<lambda>(k, v). wf_json v) kvs)"
| "wf_json j = True"

lemma fold_update_fresh:
  "distinct (map fst (acc @ kvs)) \<Longrightarrow> fold (\<lambda>(k, v). AList.update k v) kvs acc = acc @ (kvs :: (string \<times> json) list)"
proof (induction kvs arbitrary: acc)
  case (Cons p kvs)
  obtain k v where p: "p = (k, v)" by fastforce
  have "k \<notin> fst ` set acc" using Cons.prems p by auto
  then have "AList.update k v acc = acc @ [(k, v)]" by (induction acc) auto
  with Cons p show ?case by simp
qed simp

lemma dedup_distinct: "distinct (map fst kvs) \<Longrightarrow> dedup kvs = kvs"
  unfolding dedup_def using fold_update_fresh [of "[]" kvs] by simp

lemma distinct_dedup: "distinct (map fst (dedup kvs))"
proof -
  have "distinct (map fst acc) \<Longrightarrow> distinct (map fst (fold (\<lambda>(k, v). AList.update k v) kvs acc))" for acc :: "(string \<times> json) list"
    by (induction kvs arbitrary: acc) (auto simp: distinct_update)
  then show ?thesis by (simp add: dedup_def)
qed

lemma set_dedup: "set (dedup kvs) \<subseteq> set kvs"
proof -
  have u: "set (AList.update k v al) \<subseteq> insert (k, v) (set al)" for k :: string and v :: json and al
    by (induction al) auto
  have "set (fold (\<lambda>(k, v). AList.update k v) kvs acc) \<subseteq> set acc \<union> set kvs" for acc :: "(string \<times> json) list"
    by (induction kvs arbitrary: acc) (use u in fastforce)+
  then show ?thesis by (force simp: dedup_def)
qed

lemma jsonb_wf: "wf_json (jsonb j)"
proof (induction j rule: jsonb.induct)
  case (2 kvs)
  have "wf_json v" if "(k, v) \<in> set (dedup (map (\<lambda>(k, v). (k, jsonb v)) kvs))" for k v
    using that set_dedup [of "map (\<lambda>(k, v). (k, jsonb v)) kvs"] 2 by fastforce
  then show ?case by (auto simp: distinct_dedup list_all_iff)
qed (auto simp: list_all_iff)

text \<open>Storing a value whose keys are distinct does not change it.\<close>

lemma jsonb_id: "wf_json j \<Longrightarrow> jsonb j = j"
proof (induction j rule: jsonb.induct)
  case (1 xs)
  then show ?case by (auto simp: list_all_iff intro: map_idI)
next
  case (2 kvs)
  then have "map (\<lambda>(k, v). (k, jsonb v)) kvs = kvs" by (auto simp: list_all_iff intro!: map_idI)
  with 2(2) show ?case by (simp add: dedup_distinct)
qed auto

lemma jcontains_refl: "wf_json j \<Longrightarrow> jcontains j j"
proof (induction j)
  case (JArr xs)
  then show ?case by (auto simp: list_all_iff list_ex_iff)
next
  case (JObj kvs)
  have "jcontains v v" if "(k, v) \<in> set kvs" for k v
    using JObj.IH [of "(k, v)" v] JObj.prems that by (auto simp: list_all_iff)
  then show ?case by (fastforce simp: list_all_iff list_ex_iff)
qed auto

lemma jcontains_empty: "jcontains j (JObj []) \<longleftrightarrow> (\<exists>kvs. j = JObj kvs)"
  by (cases j) auto

lemma jcontains_object: "jcontains j (JObj f) \<Longrightarrow> \<exists>kvs. j = JObj kvs"
  by (cases j) auto

end
