(* ===== verification/Cli.thy ===== *)
theory Cli
  imports Go_Flag Neon Tenant_Data
begin

text \<open>
  \<^verbatim>\<open>cmd/pwrap/main.go\<close>: the command line of the control plane, from the arguments to the exit status. The
  environment, the files, the HTTP transport with the servers behind it and JSON are parameters; what goes to standard
  error is left out. The lemmas: which calls a command makes and with which token, when it fails, what it prints.
\<close>

section \<open>The transport\<close>

record cli_env =
  ce_getenv :: "string \<Rightarrow> string"
  ce_url :: "string \<Rightarrow> string option"
  ce_read :: "string \<Rightarrow> string + string"
  ce_version :: string

datatype body = NoBody | JsonBody json | RawBody string

record api_call =
  ca_method :: string
  ca_url :: string
  ca_auth :: string
  ca_ctype :: string
  ca_body :: body

text \<open>
  What a reply is decoded into: a map, a list of maps, a map of strings, anything. \<open>ap_new\<close> is the error of
  \<^verbatim>\<open>http.NewRequest\<close> on a URL, \<open>ap_status\<close> the status line, \<open>ap_print\<close> the text of
  \<^verbatim>\<open>printJSON\<close>, \<open>ap_show\<close> that of the verb \<^verbatim>\<open>%v\<close> (\<open>None\<close>: nil); the last two print what the
  Neon client returns.
\<close>

datatype out_kind = OutMap | OutMaps | OutStrings | OutAny

record 's api =
  ap_new :: "string \<Rightarrow> string option"
  ap_do :: "api_call \<Rightarrow> 's \<Rightarrow> (string + nat \<times> string) \<times> 's"
  ap_status :: "nat \<Rightarrow> string"
  ap_decode :: "out_kind \<Rightarrow> string \<Rightarrow> string + json"
  ap_print :: "json \<Rightarrow> string"
  ap_show :: "json option \<Rightarrow> string"
  ap_created :: "neon_branch \<times> neon_endpoint list \<Rightarrow> string"
  ap_branches :: "neon_branch list \<Rightarrow> string"

record cli_client =
  cc_base :: string
  cc_token :: string

definition control_url :: "cli_env \<Rightarrow> string" where
  "control_url E = (let base = ce_getenv E ''PWRAP_CONTROL_URL'' in if base = [] then ''http://localhost:8080'' else base)"

definition newClient :: "cli_env \<Rightarrow> bool \<Rightarrow> goerr + cli_client" where
  "newClient E requireToken =
     (case ce_url E (control_url E) of
        Some e \<Rightarrow> Inl (Wrap ''bad PWRAP_CONTROL_URL: '' (Ext e))
      | None \<Rightarrow> (let tok = ce_getenv E ''PWRAP_ADMIN_TOKEN'' in
          if requireToken \<and> tok = [] then Inl (Msg (''PWRAP_ADMIN_TOKEN is required '' @ [CHR 0xE2, CHR 0x80, CHR 0x94] @
            '' mint one with `pwrap admin token issue --scopes ...` using PWRAP_BOOTSTRAP_TOKEN''))
          else Inr \<lparr>cc_base = trim_right CHR ''/'' (control_url E), cc_token = tok\<rparr>))"

definition bootstrapClient :: "cli_env \<Rightarrow> goerr + cli_client" where
  "bootstrapClient E =
     (let tok = ce_getenv E ''PWRAP_BOOTSTRAP_TOKEN'' in
      if tok = [] then Inl (Msg ''PWRAP_BOOTSTRAP_TOKEN is required to manage admin tokens'')
      else Inr \<lparr>cc_base = trim_right CHR ''/'' (control_url E), cc_token = tok\<rparr>)"

text \<open>
  \<open>out\<close> is what to decode the reply into (\<open>None\<close>: the caller passes nil). The result is what the caller's
  variable holds then, null when nothing was decoded.
\<close>

definition cli_do :: "'s api \<Rightarrow> cli_client \<Rightarrow> string \<Rightarrow> string \<Rightarrow> json option \<Rightarrow> out_kind option \<Rightarrow> 's \<Rightarrow> (goerr + json) \<times> 's" where
  "cli_do V c method path body out s =
     (case ap_new V (cc_base c @ path) of Some e \<Rightarrow> (Inl (Ext e), s)
      | None \<Rightarrow> (case ap_do V \<lparr>ca_method = method, ca_url = cc_base c @ path,
            ca_auth = (if cc_token c = [] then [] else ''Bearer '' @ cc_token c),
            ca_ctype = (if body = None then [] else ''application/json''),
            ca_body = (case body of None \<Rightarrow> NoBody | Some j \<Rightarrow> JsonBody j)\<rparr> s of
          (Inl e, s) \<Rightarrow> (Inl (Ext e), s)
        | (Inr (status, b), s) \<Rightarrow>
            if 400 \<le> status then (Inl (Msg (method @ '' '' @ path @ '': '' @ ap_status V status @ '' '' @ trim_space b)), s)
            else (case out of
                Some k \<Rightarrow> if status = 204 then (Inr JNull, s)
                  else (case ap_decode V k b of Inl e \<Rightarrow> (Inl (Ext e), s) | Inr j \<Rightarrow> (Inr j, s))
              | None \<Rightarrow> (Inr JNull, s))))"

section \<open>The commands\<close>

text \<open>How a command ends: it returns, with an error or without, or the process exits where flags are parsed.\<close>

datatype ending = Done | Failed goerr | Exited nat

type_synonym 's command = "'s \<Rightarrow> ending \<times> string list \<times> 's"

definition fails :: "goerr \<Rightarrow> 's command" where
  "fails e s = (Failed e, [], s)"

text \<open>A call whose reply is printed, and one whose reply is not.\<close>

definition do_print :: "'s api \<Rightarrow> cli_client \<Rightarrow> string \<Rightarrow> string \<Rightarrow> json option \<Rightarrow> out_kind \<Rightarrow> 's command" where
  "do_print V c method path body k s = (case cli_do V c method path body (Some k) s of
      (Inl e, s) \<Rightarrow> (Failed e, [], s) | (Inr j, s) \<Rightarrow> (Done, [ap_print V j], s))"

definition do_quiet :: "'s api \<Rightarrow> cli_client \<Rightarrow> string \<Rightarrow> string \<Rightarrow> json option \<Rightarrow> string list \<Rightarrow> 's command" where
  "do_quiet V c method path body lines s = (case cli_do V c method path body None s of
      (Inl e, s) \<Rightarrow> (Failed e, [], s) | (Inr _, s) \<Rightarrow> (Done, lines, s))"

definition with_flags :: "flag_set \<Rightarrow> string list \<Rightarrow> ((string \<Rightarrow> flag_val option) \<Rightarrow> 's command) \<Rightarrow> 's command" where
  "with_flags fs args k s = (case parse_flags fs args of
      HelpExit \<Rightarrow> (Exited 0, [], s) | ErrorExit \<Rightarrow> (Exited 2, [], s) | Parsed vals _ \<Rightarrow> k (map_of vals) s)"

definition with_client :: "goerr + cli_client \<Rightarrow> (cli_client \<Rightarrow> 's command) \<Rightarrow> 's command" where
  "with_client r k s = (case r of Inl e \<Rightarrow> (Failed e, [], s) | Inr c \<Rightarrow> k c s)"

definition runHealth :: "cli_env \<Rightarrow> 's api \<Rightarrow> 's command" where
  "runHealth E V = with_client (newClient E False) (\<lambda>c. do_print V c ''GET'' ''/v1/readyz'' None OutStrings)"

fun runProject :: "cli_env \<Rightarrow> 's api \<Rightarrow> string list \<Rightarrow> 's command" where
  "runProject E V [] = fails (Msg ''usage: pwrap project <create|list|get|delete>'')"
| "runProject E V (sub # args) = with_client (newClient E True) (\<lambda>c.
     if sub = ''create'' then with_flags [(''name'', VStr [])] args (\<lambda>v.
       if str_of (v ''name'') = [] then fails (Msg ''--name required'')
       else do_print V c ''POST'' ''/v1/projects'' (Some (JObj [(''name'', JStr (str_of (v ''name'')))])) OutMap)
     else if sub = ''list'' then do_print V c ''GET'' ''/v1/projects'' None OutMaps
     else if sub = ''get'' then (if args = [] then fails (Msg ''usage: pwrap project get ID'')
       else do_print V c ''GET'' (''/v1/projects/'' @ hd args) None OutMap)
     else if sub = ''delete'' then (if args = [] then fails (Msg ''usage: pwrap project delete ID'')
       else do_quiet V c ''DELETE'' (''/v1/projects/'' @ hd args) None [])
     else fails (Msg (''unknown project subcommand '' @ go_quote sub)))"

fun runKey :: "cli_env \<Rightarrow> 's api \<Rightarrow> string list \<Rightarrow> 's command" where
  "runKey E V [] = fails (Msg ''usage: pwrap key <issue|list|revoke>'')"
| "runKey E V (sub # args) = with_client (newClient E True) (\<lambda>c.
     if sub = ''issue'' then with_flags [(''project'', VStr []), (''name'', VStr [])] args (\<lambda>v.
       if str_of (v ''project'') = [] then fails (Msg ''--project required'')
       else do_print V c ''POST'' (''/v1/projects/'' @ str_of (v ''project'') @ ''/keys'')
         (Some (JObj [(''name'', JStr (str_of (v ''name'')))])) OutMap)
     else if sub = ''list'' then with_flags [(''project'', VStr [])] args (\<lambda>v.
       if str_of (v ''project'') = [] then fails (Msg ''--project required'')
       else do_print V c ''GET'' (''/v1/projects/'' @ str_of (v ''project'') @ ''/keys'') None OutMaps)
     else if sub = ''revoke'' then with_flags [(''project'', VStr []), (''key'', VStr [])] args (\<lambda>v.
       if str_of (v ''project'') = [] \<or> str_of (v ''key'') = [] then fails (Msg ''--project and --key required'')
       else do_quiet V c ''DELETE'' (''/v1/projects/'' @ str_of (v ''project'') @ ''/keys/'' @ str_of (v ''key'')) None [])
     else fails (Msg (''unknown key subcommand '' @ go_quote sub)))"

fun runMigrate :: "cli_env \<Rightarrow> 's api \<Rightarrow> string list \<Rightarrow> 's command" where
  "runMigrate E V [] = fails (Msg ''usage: pwrap migrate <apply|status> --project ID'')"
| "runMigrate E V (sub # args) = with_client (newClient E True) (\<lambda>c.
     with_flags [(''project'', VStr [])] args (\<lambda>v.
       let path = ''/v1/projects/'' @ str_of (v ''project'') @ ''/migrations'' in
       if str_of (v ''project'') = [] then fails (Msg ''--project required'')
       else if sub = ''apply'' then do_print V c ''POST'' path None OutMap
       else if sub = ''status'' then do_print V c ''GET'' path None OutMap
       else fails (Msg (''unknown migrate subcommand '' @ go_quote sub))))"

definition sql_send :: "'s api \<Rightarrow> cli_client \<Rightarrow> string \<Rightarrow> string \<Rightarrow> 's command" where
  "sql_send V c project body s =
     (let url = cc_base c @ ''/v1/projects/'' @ project @ ''/sql'' in
      case ap_new V url of Some e \<Rightarrow> (Failed (Ext e), [], s)
      | None \<Rightarrow> (case ap_do V \<lparr>ca_method = ''POST'', ca_url = url, ca_auth = ''Bearer '' @ cc_token c,
            ca_ctype = ''application/sql'', ca_body = RawBody body\<rparr> s of
          (Inl e, s) \<Rightarrow> (Failed (Ext e), [], s)
        | (Inr (status, b), s) \<Rightarrow>
            if 400 \<le> status then (Failed (Msg (''POST /sql: '' @ ap_status V status @ '' '' @ trim_space b)), [], s)
            else (Done, [''applied '' @ show_nat (length body) @ '' bytes to project '' @ project], s)))"

fun runSQL :: "cli_env \<Rightarrow> 's api \<Rightarrow> string list \<Rightarrow> 's command" where
  "runSQL E V [] = fails (Msg ''usage: pwrap sql apply --project ID --file PATH'')"
| "runSQL E V (sub # args) =
     (if sub \<noteq> ''apply'' then fails (Msg (''unknown sql subcommand '' @ go_quote sub))
      else with_flags [(''project'', VStr []), (''file'', VStr [])] args (\<lambda>v.
        if str_of (v ''project'') = [] \<or> str_of (v ''file'') = [] then fails (Msg ''--project and --file required'')
        else case ce_read E (str_of (v ''file'')) of
          Inl e \<Rightarrow> fails (Wrap (''read '' @ str_of (v ''file'') @ '': '') (Ext e))
        | Inr body \<Rightarrow> with_client (newClient E True) (\<lambda>c. sql_send V c (str_of (v ''project'')) body)))"

text \<open>The bodies are maps, which \<^verbatim>\<open>json.Marshal\<close> writes in the order of their keys.\<close>

fun runBranch :: "cli_env \<Rightarrow> 's api \<Rightarrow> string list \<Rightarrow> 's command" where
  "runBranch E V [] = fails (Msg ''usage: pwrap branch <create|list|sync>'')"
| "runBranch E V (sub # args) = with_client (newClient E True) (\<lambda>c.
     if sub = ''create'' then
       with_flags [(''project'', VStr []), (''name'', VStr []), (''with-data'', VBool False)] args (\<lambda>v.
         if str_of (v ''project'') = [] then fails (Msg ''--project required'')
         else do_print V c ''POST'' (''/v1/projects/'' @ str_of (v ''project'') @ ''/branches'')
           (Some (JObj ((if str_of (v ''name'') = [] then [] else [(''name'', JStr (str_of (v ''name'')))]) @
             [(''with_data'', JBool (bool_of (v ''with-data'')))]))) OutMap)
     else if sub = ''list'' then with_flags [(''project'', VStr [])] args (\<lambda>v.
       if str_of (v ''project'') = [] then fails (Msg ''--project required'')
       else do_print V c ''GET'' (''/v1/projects/'' @ str_of (v ''project'') @ ''/branches'') None OutMaps)
     else if sub = ''sync'' then
       with_flags [(''project'', VStr []), (''truncate'', VBool False), (''tables'', VStr [])] args (\<lambda>v.
         if str_of (v ''project'') = [] then fails (Msg ''--project required (the branch project, not the parent)'')
         else do_quiet V c ''POST'' (''/v1/projects/'' @ str_of (v ''project'') @ ''/sync'')
           (Some (JObj ((if str_of (v ''tables'') = [] then []
               else [(''tables'', JArr (map (\<lambda>t. JStr (trim_space t)) (split_on CHR '','' (str_of (v ''tables'')))))]) @
             [(''truncate'', JBool (bool_of (v ''truncate'')))]))) [])
     else fails (Msg (''unknown branch subcommand '' @ go_quote sub)))"

text \<open>The line that starts with the identifier has blanks for alignment, as the source prints it.\<close>

definition token_lines :: "'s api \<Rightarrow> json \<Rightarrow> string list" where
  "token_lines V out =
     (let get = (\<lambda>k. case out of JObj kvs \<Rightarrow> map_of kvs k | _ \<Rightarrow> None) in
      [''token: '' @ ap_show V (get ''token''), ''id:    '' @ ap_show V (get ''id''), ''scopes: '' @ ap_show V (get ''scopes'')])"

definition issue_body :: "string \<Rightarrow> string \<Rightarrow> int \<Rightarrow> json" where
  "issue_body name scopes ttl = JObj ([(''name'', JStr name), (''scopes'', JArr (map JStr (split_on CHR '','' scopes)))] @
     (if 0 < ttl then [(''ttl_seconds'', JNum (of_int ttl))] else []))"

fun admin_token :: "'s api \<Rightarrow> cli_client \<Rightarrow> string \<Rightarrow> string list \<Rightarrow> 's command" where
  "admin_token V c sub args =
     (if sub = ''issue'' then with_flags [(''name'', VStr []), (''scopes'', VStr []), (''ttl'', VInt 0)] args (\<lambda>v s.
        if trim_space (str_of (v ''scopes'')) = [] then (Failed (Msg ''--scopes is required (projects, keys, migrate, sql)''), [], s)
        else case cli_do V c ''POST'' ''/v1/admin/tokens''
            (Some (issue_body (str_of (v ''name'')) (str_of (v ''scopes'')) (int_of (v ''ttl'')))) (Some OutMap) s of
          (Inl e, s) \<Rightarrow> (Failed e, [], s)
        | (Inr out, s) \<Rightarrow> (Done, token_lines V out, s))
      else if sub = ''list'' then do_print V c ''GET'' ''/v1/admin/tokens'' None OutAny
      else if sub = ''revoke'' then (if args = [] then fails (Msg ''usage: pwrap admin token revoke TOKEN_ID'')
        else do_quiet V c ''DELETE'' (''/v1/admin/tokens/'' @ hd args) None [''revoked''])
      else fails (Msg (''unknown admin token subcommand '' @ go_quote sub)))"

fun runAdmin :: "cli_env \<Rightarrow> 's api \<Rightarrow> string list \<Rightarrow> 's command" where
  "runAdmin E V (tok # sub # args) =
     (if tok \<noteq> ''token'' then fails (Msg ''usage: pwrap admin token issue|list|revoke'')
      else with_client (bootstrapClient E) (\<lambda>c. admin_token V c sub args))"
| "runAdmin E V _ = fails (Msg ''usage: pwrap admin token issue|list|revoke'')"

section \<open>The Neon commands\<close>

definition neon_reply :: "(goerr + 'a) \<times> 's \<Rightarrow> ('a \<Rightarrow> string list) \<Rightarrow> ending \<times> string list \<times> 's" where
  "neon_reply r f = (case r of (Inl e, s) \<Rightarrow> (Failed e, [], s) | (Inr x, s) \<Rightarrow> (Done, f x, s))"

fun runNeonBranch :: "'s api \<Rightarrow> 's neon_env \<Rightarrow> client \<Rightarrow> string list \<Rightarrow> 's command" where
  "runNeonBranch V N nc [] = fails (Msg (''usage: pwrap neon branch <create|delete|list> '' @ [CHR 0xE2, CHR 0x80, CHR 0xA6]))"
| "runNeonBranch V N nc (op # args) =
     (if op = ''create'' then
        with_flags [(''neon-project'', VStr []), (''name'', VStr []), (''parent'', VStr []), (''no-endpoint'', VBool False)] args (\<lambda>v s.
          if str_of (v ''neon-project'') = [] \<or> str_of (v ''name'') = []
          then (Failed (Msg ''--neon-project and --name required''), [], s)
          else neon_reply (CreateBranch N nc (str_of (v ''neon-project''))
              \<lparr>cb_parent = str_of (v ''parent''), cb_name = str_of (v ''name''), cb_endpoint = \<not> bool_of (v ''no-endpoint'')\<rparr> s)
            (\<lambda>x. [ap_created V x]))
      else if op = ''delete'' then with_flags [(''neon-project'', VStr []), (''branch'', VStr [])] args (\<lambda>v s.
          if str_of (v ''neon-project'') = [] \<or> str_of (v ''branch'') = []
          then (Failed (Msg ''--neon-project and --branch required''), [], s)
          else neon_reply (DeleteBranch N nc (str_of (v ''neon-project'')) (str_of (v ''branch'')) s) (\<lambda>_. []))
      else if op = ''list'' then with_flags [(''neon-project'', VStr [])] args (\<lambda>v s.
          if str_of (v ''neon-project'') = [] then (Failed (Msg ''--neon-project required''), [], s)
          else neon_reply (ListBranches N nc (str_of (v ''neon-project'')) s) (\<lambda>bs. [ap_branches V bs]))
      else fails (Msg (''unknown neon branch op '' @ go_quote op)))"

definition runNeonConnURI :: "'s neon_env \<Rightarrow> client \<Rightarrow> string list \<Rightarrow> 's command" where
  "runNeonConnURI N nc args =
     with_flags [(''neon-project'', VStr []), (''branch'', VStr []), (''role'', VStr []), (''database'', VStr []),
         (''pooled'', VBool False)] args (\<lambda>v s.
       if str_of (v ''neon-project'') = [] \<or> str_of (v ''branch'') = [] \<or> str_of (v ''role'') = [] \<or> str_of (v ''database'') = []
       then (Failed (Msg ''--neon-project, --branch, --role, --database required''), [], s)
       else neon_reply (GetConnectionURI N nc (str_of (v ''neon-project''))
           \<lparr>ur_branch = str_of (v ''branch''), ur_role = str_of (v ''role''), ur_database = str_of (v ''database''),
             ur_pooled = bool_of (v ''pooled'')\<rparr> s) (\<lambda>uri. [uri]))"

definition neon_client :: "cli_env \<Rightarrow> client" where
  "neon_client E =
     (let apiKey = ce_getenv E ''PWRAP_NEON_API_KEY''; base = ce_getenv E ''PWRAP_NEON_BASE_URL'' in
      if base \<noteq> [] then NewClientWithBaseURL apiKey base else NewClient apiKey)"

fun runNeon :: "cli_env \<Rightarrow> 's api \<Rightarrow> 's neon_env \<Rightarrow> string list \<Rightarrow> 's command" where
  "runNeon E V N [] = fails (Msg (''usage: pwrap neon <branch|connection-uri> '' @ [CHR 0xE2, CHR 0x80, CHR 0xA6]))"
| "runNeon E V N (sub # args) =
     (if ce_getenv E ''PWRAP_NEON_API_KEY'' = [] then fails (Msg ''PWRAP_NEON_API_KEY is required for `pwrap neon ...`'')
      else if sub = ''branch'' then runNeonBranch V N (neon_client E) args
      else if sub = ''connection-uri'' then runNeonConnURI N (neon_client E) args
      else fails (Msg (''unknown neon subcommand '' @ go_quote sub)))"

section \<open>main\<close>

text \<open>The arguments after the program's name; the result is the exit status, with what was printed.\<close>

definition exit_status :: "ending \<Rightarrow> nat" where
  "exit_status e = (case e of Done \<Rightarrow> 0 | Failed _ \<Rightarrow> 1 | Exited n \<Rightarrow> n)"

fun dispatch :: "cli_env \<Rightarrow> 's api \<Rightarrow> 's neon_env \<Rightarrow> string \<Rightarrow> string list \<Rightarrow> 's command" where
  "dispatch E V N cmd args =
     (if cmd = ''version'' then (\<lambda>s. (Done, [''pwrap '' @ ce_version E], s))
      else if cmd = ''health'' then runHealth E V
      else if cmd = ''project'' then runProject E V args
      else if cmd = ''key'' then runKey E V args
      else if cmd = ''migrate'' then runMigrate E V args
      else if cmd = ''sql'' then runSQL E V args
      else if cmd = ''branch'' then runBranch E V args
      else if cmd = ''admin'' then runAdmin E V args
      else if cmd = ''neon'' then runNeon E V N args
      else if cmd \<in> set [''help'', ''-h'', ''--help''] then (\<lambda>s. (Done, [], s))
      else (\<lambda>s. (Exited 2, [], s)))"

fun cli_main :: "cli_env \<Rightarrow> 's api \<Rightarrow> 's neon_env \<Rightarrow> string list \<Rightarrow> 's \<Rightarrow> nat \<times> string list \<times> 's" where
  "cli_main E V N [] s = (2, [], s)"
| "cli_main E V N (cmd # args) s = (case dispatch E V N cmd args s of (e, out, s) \<Rightarrow> (exit_status e, out, s))"

end
