(* ===== verification/Cli_Server.thy ===== *)
theory Cli_Server
  imports Cli Server
begin

text \<open>
  The command line against the routes of this repository's server: which request a command sends, under which route
  and with which token, and its exit status by the answer. \<open>behaves\<close> is what every command promises, with one
  rule for each way the commands are put together.
\<close>

named_theorems cli_intros "what the parts of a command promise of the whole"

section \<open>Calls\<close>

text \<open>The transport with the calls made so far; the Neon API is another server.\<close>

definition logged :: "'s api \<Rightarrow> (api_call list \<times> 's) api" where
  "logged V = \<lparr>ap_new = ap_new V, ap_do = (\<lambda>c (cs, s). case ap_do V c s of (r, s) \<Rightarrow> (r, (cs @ [c], s))),
     ap_status = ap_status V, ap_decode = ap_decode V, ap_print = ap_print V, ap_show = ap_show V,
     ap_created = ap_created V, ap_branches = ap_branches V\<rparr>"

definition beside :: "'s neon_env \<Rightarrow> (api_call list \<times> 's) neon_env" where
  "beside N = \<lparr>nv_do = (\<lambda>r (cs, s). case nv_do N r s of (x, s) \<Rightarrow> (x, (cs, s))), nv_new = nv_new N,
     nv_marshal = nv_marshal N, nv_created = nv_created N, nv_branches = nv_branches N, nv_uri = nv_uri N,
     nv_message = nv_message N\<rparr>"

lemma logged_simps [simp]:
  "ap_new (logged V) = ap_new V" "ap_status (logged V) = ap_status V" "ap_decode (logged V) = ap_decode V"
  "ap_print (logged V) = ap_print V" "ap_show (logged V) = ap_show V"
  "ap_do (logged V) c (cs, s) = (case ap_do V c s of (r, s) \<Rightarrow> (r, (cs @ [c], s)))"
  by (simp_all add: logged_def)

text \<open>The path of a pattern with the identifiers in place of its parameters.\<close>

fun subst_ids :: "string list \<Rightarrow> string list \<Rightarrow> string list" where
  "subst_ids ids [] = []"
| "subst_ids ids (p # ps) =
     (if p \<noteq> [] \<and> hd p = CHR ''{'' then (case ids of [] \<Rightarrow> p # subst_ids [] ps | i # is \<Rightarrow> i # subst_ids is ps)
      else p # subst_ids ids ps)"

definition fill_path :: "string list \<Rightarrow> string \<Rightarrow> string" where
  "fill_path ids p = join ''/'' (subst_ids ids (split_on CHR ''/'' p))"

text \<open>A call to a mounted route, with the credential its guard asks for.\<close>

definition routed :: "'l server \<Rightarrow> cli_env \<Rightarrow> api_call \<Rightarrow> bool" where
  "routed srv E c \<longleftrightarrow> (\<exists>m p g e ids. (m, p, g, e) \<in> set (mounted srv) \<and> ca_method c = m \<and>
     ca_url c = trim_right CHR ''/'' (control_url E) @ fill_path ids p \<and>
     (case g of Open \<Rightarrow> True
      | Bootstrap \<Rightarrow> ca_auth c = ''Bearer '' @ ce_getenv E ''PWRAP_BOOTSTRAP_TOKEN''
      | Scoped _ \<Rightarrow> ca_auth c = ''Bearer '' @ ce_getenv E ''PWRAP_ADMIN_TOKEN''
      | _ \<Rightarrow> False))"

definition refused :: "string + nat \<times> string \<Rightarrow> bool" where
  "refused r = (case r of Inl _ \<Rightarrow> True | Inr (st, _) \<Rightarrow> 400 \<le> st)"

text \<open>
  What a command promises: at most one call, of the kind \<open>P\<close>; an error when that call is refused; nothing printed
  unless it succeeds.
\<close>

definition behaves :: "'s api \<Rightarrow> (api_call \<Rightarrow> bool) \<Rightarrow> (api_call list \<times> 's) command \<Rightarrow> bool" where
  "behaves V P f \<longleftrightarrow> (\<forall>cs s e out cs' s'. f (cs, s) = (e, out, (cs', s')) \<longrightarrow>
     (e \<noteq> Done \<longrightarrow> out = []) \<and> e \<notin> Exited ` (- {0, 2}) \<and>
     (cs' = cs \<or> (\<exists>c. cs' = cs @ [c] \<and> P c \<and> (refused (fst (ap_do V c s)) \<longrightarrow> (\<exists>err. e = Failed err)))))"

lemma behaves_fails [cli_intros]: "behaves V P (fails e)"
  by (auto simp: behaves_def fails_def)

lemma behaves_const [cli_intros]: "n \<in> {0, 2} \<Longrightarrow> behaves V P (\<lambda>s. (Exited n, [], s))" "behaves V P (\<lambda>s. (Done, out, s))"
  by (auto simp: behaves_def)

lemma behaves_if [cli_intros]:
  "(b \<Longrightarrow> behaves V P f) \<Longrightarrow> (\<not> b \<Longrightarrow> behaves V P g) \<Longrightarrow> behaves V P (if b then f else g)"
  by simp

lemma behaves_flags [cli_intros]: "(\<And>v. behaves V P (k v)) \<Longrightarrow> behaves V P (with_flags fs args k)"
  by (auto simp: behaves_def with_flags_def split: parsed.splits)

lemma behaves_client [cli_intros]: "(\<And>c. r = Inr c \<Longrightarrow> behaves V P (k c)) \<Longrightarrow> behaves V P (with_client r k)"
  by (auto simp: behaves_def with_client_def split: sum.splits)

text \<open>The call that \<^verbatim>\<open>client.do\<close> makes.\<close>

definition the_call :: "cli_client \<Rightarrow> string \<Rightarrow> string \<Rightarrow> json option \<Rightarrow> api_call" where
  "the_call c method path body = \<lparr>ca_method = method, ca_url = cc_base c @ path,
     ca_auth = (if cc_token c = [] then [] else ''Bearer '' @ cc_token c),
     ca_ctype = (if body = None then [] else ''application/json''),
     ca_body = (case body of None \<Rightarrow> NoBody | Some j \<Rightarrow> JsonBody j)\<rparr>"

lemma cli_do_logged:
  assumes "cli_do (logged V) c method path body k (cs, s) = (r, (cs', s'))"
  shows "(cs' = cs \<and> (\<exists>e. r = Inl e)) \<or>
    (cs' = cs @ [the_call c method path body] \<and> (refused (fst (ap_do V (the_call c method path body) s)) \<longrightarrow> (\<exists>e. r = Inl e)))"
  using assms unfolding cli_do_def the_call_def [symmetric]
  by (auto simp: refused_def split: option.splits prod.splits sum.splits if_splits)

lemma behaves_print [cli_intros]:
  assumes "P (the_call c method path body)"
  shows "behaves V P (do_print (logged V) c method path body k)"
  unfolding behaves_def
proof (intro allI impI)
  fix cs s e out cs' s' assume d: "do_print (logged V) c method path body k (cs, s) = (e, out, cs', s')"
  obtain r cs1 s1 where c: "cli_do (logged V) c method path body (Some k) (cs, s) = (r, (cs1, s1))" by (metis prod_cases3)
  from cli_do_logged [OF c] c d assms
  show "(e \<noteq> Done \<longrightarrow> out = []) \<and> e \<notin> Exited ` (- {0, 2}) \<and> (cs' = cs \<or> (\<exists>c. cs' = cs @ [c] \<and> P c \<and>
      (refused (fst (ap_do V c s)) \<longrightarrow> (\<exists>err. e = Failed err))))"
    by (cases r) (auto simp: do_print_def)
qed

lemma behaves_quiet [cli_intros]:
  assumes "P (the_call c method path body)"
  shows "behaves V P (do_quiet (logged V) c method path body lines)"
  unfolding behaves_def
proof (intro allI impI)
  fix cs s e out cs' s' assume d: "do_quiet (logged V) c method path body lines (cs, s) = (e, out, cs', s')"
  obtain r cs1 s1 where c: "cli_do (logged V) c method path body None (cs, s) = (r, (cs1, s1))" by (metis prod_cases3)
  from cli_do_logged [OF c] c d assms
  show "(e \<noteq> Done \<longrightarrow> out = []) \<and> e \<notin> Exited ` (- {0, 2}) \<and> (cs' = cs \<or> (\<exists>c. cs' = cs @ [c] \<and> P c \<and>
      (refused (fst (ap_do V c s)) \<longrightarrow> (\<exists>err. e = Failed err))))"
    by (cases r) (auto simp: do_quiet_def)
qed

lemma behaves_sql [cli_intros]:
  assumes "P \<lparr>ca_method = ''POST'', ca_url = cc_base c @ ''/v1/projects/'' @ project @ ''/sql'', ca_auth = ''Bearer '' @ cc_token c,
     ca_ctype = ''application/sql'', ca_body = RawBody body\<rparr>"
  shows "behaves V P (sql_send (logged V) c project body)"
  unfolding behaves_def
proof (intro allI impI)
  fix cs s e out cs' s' assume d: "sql_send (logged V) c project body (cs, s) = (e, out, cs', s')"
  define q where "q = \<lparr>ca_method = ''POST'', ca_url = cc_base c @ ''/v1/projects/'' @ project @ ''/sql'', ca_auth = ''Bearer '' @ cc_token c,
     ca_ctype = ''application/sql'', ca_body = RawBody body\<rparr>"
  obtain r s1 where c: "ap_do V q s = (r, s1)" by fastforce
  from d [unfolded sql_send_def Let_def, folded q_def] c assms [folded q_def]
  show "(e \<noteq> Done \<longrightarrow> out = []) \<and> e \<notin> Exited ` (- {0, 2}) \<and> (cs' = cs \<or> (\<exists>c. cs' = cs @ [c] \<and> P c \<and>
      (refused (fst (ap_do V c s)) \<longrightarrow> (\<exists>err. e = Failed err))))"
    by (cases r) (auto simp: refused_def split: option.splits if_splits, blast)
qed

text \<open>The commands of the Neon API make no call to the control plane.\<close>

lemma neon_do_beside:
  "neon_do (beside N) c m p b out (cs, s) = (r, (cs', s')) \<Longrightarrow> cs' = cs"
  unfolding neon_do_def beside_def Let_def
  by (cases b rule: option.exhaust; auto split: option.splits sum.splits prod.splits if_splits)

lemma behaves_neon [cli_intros]:
  assumes "\<And>cs s r cs' s'. f (cs, s) = (r, (cs', s')) \<Longrightarrow> cs' = cs"
  shows "behaves V P (\<lambda>s. neon_reply (f s) g)"
  using assms by (auto simp: behaves_def neon_reply_def split: sum.splits prod.splits)

lemma neon_ops:
  "CreateBranch (beside N) nc p req (cs, s) = (r1, (cs1, s1)) \<Longrightarrow> cs1 = cs"
  "DeleteBranch (beside N) nc p br (cs, s) = (r2, (cs2, s2)) \<Longrightarrow> cs2 = cs"
  "ListBranches (beside N) nc p (cs, s) = (r3, (cs3, s3)) \<Longrightarrow> cs3 = cs"
  "GetConnectionURI (beside N) nc p ur (cs, s) = (r4, (cs4, s4)) \<Longrightarrow> cs4 = cs"
  unfolding CreateBranch_def DeleteBranch_def ListBranches_def GetConnectionURI_def Let_def
  by (auto split: if_splits prod.splits sum.splits dest!: neon_do_beside)

section \<open>Every command\<close>

lemma behaves_issue [cli_intros]:
  assumes "P (the_call c ''POST'' ''/v1/admin/tokens'' (Some body))"
  shows "behaves V P (\<lambda>s. case cli_do (logged V) c ''POST'' ''/v1/admin/tokens'' (Some body) (Some OutMap) s of
      (Inl e, s) \<Rightarrow> (Failed e, [], s) | (Inr out, s) \<Rightarrow> (Done, token_lines (logged V) out, s))"
  unfolding behaves_def
proof (intro allI impI)
  fix cs s e out cs' s'
  assume d: "(case cli_do (logged V) c ''POST'' ''/v1/admin/tokens'' (Some body) (Some OutMap) (cs, s) of
      (Inl e, s) \<Rightarrow> (Failed e, [], s) | (Inr out, s) \<Rightarrow> (Done, token_lines (logged V) out, s)) = (e, out, cs', s')"
  obtain r cs1 s1 where c: "cli_do (logged V) c ''POST'' ''/v1/admin/tokens'' (Some body) (Some OutMap) (cs, s) = (r, (cs1, s1))"
    by (metis prod_cases3)
  from cli_do_logged [OF c] c d assms
  show "(e \<noteq> Done \<longrightarrow> out = []) \<and> e \<notin> Exited ` (- {0, 2}) \<and> (cs' = cs \<or> (\<exists>c. cs' = cs @ [c] \<and> P c \<and>
      (refused (fst (ap_do V c s)) \<longrightarrow> (\<exists>err. e = Failed err))))"
    by (cases r) auto
qed

text \<open>The calls, route by route.\<close>

lemmas mounted_routes = mounted_def route_groups_def token_routes_def project_routes_def branch_routes_def key_routes_def
  migration_routes_def sql_routes_def

lemma fill_join:
  "\<forall>p \<in> set ps. CHR ''/'' \<notin> set p \<Longrightarrow> ps \<noteq> [] \<Longrightarrow> fill_path ids (join ''/'' ps) = join ''/'' (subst_ids ids ps)"
  by (simp add: fill_path_def split_join)

lemma fills:
  "fill_path [i] ''/v1/projects/{id}'' = ''/v1/projects/'' @ i"
  "fill_path [i] ''/v1/projects/{id}/keys'' = ''/v1/projects/'' @ i @ ''/keys''"
  "fill_path [i, k] ''/v1/projects/{id}/keys/{keyID}'' = ''/v1/projects/'' @ i @ ''/keys/'' @ k"
  "fill_path [i] ''/v1/projects/{id}/migrations'' = ''/v1/projects/'' @ i @ ''/migrations''"
  "fill_path [i] ''/v1/projects/{id}/sql'' = ''/v1/projects/'' @ i @ ''/sql''"
  "fill_path [i] ''/v1/projects/{id}/branches'' = ''/v1/projects/'' @ i @ ''/branches''"
  "fill_path [i] ''/v1/projects/{id}/sync'' = ''/v1/projects/'' @ i @ ''/sync''"
  "fill_path [k] ''/v1/admin/tokens/{tokenID}'' = ''/v1/admin/tokens/'' @ k"
  "fill_path [] ''/v1/projects'' = ''/v1/projects''"
  "fill_path [] ''/v1/admin/tokens'' = ''/v1/admin/tokens''"
  "fill_path [] ''/v1/readyz'' = ''/v1/readyz''"
  subgoal using fill_join [of "[[], ''v1'', ''projects'', ''{id}'']" "[i]"] by simp
  subgoal using fill_join [of "[[], ''v1'', ''projects'', ''{id}'', ''keys'']" "[i]"] by simp
  subgoal using fill_join [of "[[], ''v1'', ''projects'', ''{id}'', ''keys'', ''{keyID}'']" "[i, k]"] by simp
  subgoal using fill_join [of "[[], ''v1'', ''projects'', ''{id}'', ''migrations'']" "[i]"] by simp
  subgoal using fill_join [of "[[], ''v1'', ''projects'', ''{id}'', ''sql'']" "[i]"] by simp
  subgoal using fill_join [of "[[], ''v1'', ''projects'', ''{id}'', ''branches'']" "[i]"] by simp
  subgoal using fill_join [of "[[], ''v1'', ''projects'', ''{id}'', ''sync'']" "[i]"] by simp
  subgoal using fill_join [of "[[], ''v1'', ''admin'', ''tokens'', ''{tokenID}'']" "[k]"] by simp
  subgoal using fill_join [of "[[], ''v1'', ''projects'']" "[]"] by simp
  subgoal using fill_join [of "[[], ''v1'', ''admin'', ''tokens'']" "[]"] by simp
  subgoal using fill_join [of "[[], ''v1'', ''readyz'']" "[]"] by simp
  done

lemma newClient_Inr: "newClient E t = Inr c \<Longrightarrow> cc_base c = trim_right CHR ''/'' (control_url E) \<and>
    cc_token c = ce_getenv E ''PWRAP_ADMIN_TOKEN'' \<and> (t \<longrightarrow> cc_token c \<noteq> [])"
  by (auto simp: newClient_def Let_def split: option.splits if_splits)

lemma bootstrapClient_Inr: "bootstrapClient E = Inr c \<Longrightarrow> cc_base c = trim_right CHR ''/'' (control_url E) \<and>
    cc_token c = ce_getenv E ''PWRAP_BOOTSTRAP_TOKEN'' \<and> cc_token c \<noteq> []"
  by (auto simp: bootstrapClient_def Let_def split: if_splits)

lemma routedI:
  assumes "(m, p, g, e) \<in> set (mounted srv)" "ca_method c = m" "ca_url c = trim_right CHR ''/'' (control_url E) @ fill_path ids p"
    and "case g of Open \<Rightarrow> True | Bootstrap \<Rightarrow> ca_auth c = ''Bearer '' @ ce_getenv E ''PWRAP_BOOTSTRAP_TOKEN''
      | Scoped _ \<Rightarrow> ca_auth c = ''Bearer '' @ ce_getenv E ''PWRAP_ADMIN_TOKEN'' | _ \<Rightarrow> False"
  shows "routed srv E c"
  unfolding routed_def using assms by blast

lemma routed_admin:
  assumes "newClient E True = Inr c" "(m, p, Scoped g, e) \<in> set (mounted srv)" "fill_path ids p = path"
  shows "routed srv E (the_call c m path body)"
  by (rule routedI [OF assms(2), where ids = ids]) (use newClient_Inr [OF assms(1)] assms(3) in \<open>auto simp: the_call_def\<close>)

lemma routed_bootstrap:
  assumes "bootstrapClient E = Inr c" "(m, p, Bootstrap, e) \<in> set (mounted srv)" "fill_path ids p = path"
  shows "routed srv E (the_call c m path body)"
  by (rule routedI [OF assms(2), where ids = ids]) (use bootstrapClient_Inr [OF assms(1)] assms(3) in \<open>auto simp: the_call_def\<close>)

lemma mounted_paths:
  "(''GET'', ''/v1/readyz'', Open, Readyz) \<in> set (mounted srv)"
  "(''POST'', ''/v1/admin/tokens'', Bootstrap, TokensIssue) \<in> set (mounted srv)"
  "(''GET'', ''/v1/admin/tokens'', Bootstrap, TokensList) \<in> set (mounted srv)"
  "(''DELETE'', ''/v1/admin/tokens/{tokenID}'', Bootstrap, TokensRevoke) \<in> set (mounted srv)"
  "(''POST'', ''/v1/projects'', Scoped ScopeProjects, ProjectsCreate) \<in> set (mounted srv)"
  "(''GET'', ''/v1/projects'', Scoped ScopeProjects, ProjectsList) \<in> set (mounted srv)"
  "(''GET'', ''/v1/projects/{id}'', Scoped ScopeProjects, ProjectsGet) \<in> set (mounted srv)"
  "(''DELETE'', ''/v1/projects/{id}'', Scoped ScopeProjects, ProjectsDelete) \<in> set (mounted srv)"
  "(''POST'', ''/v1/projects/{id}/branches'', Scoped ScopeProjects, BranchesCreate) \<in> set (mounted srv)"
  "(''GET'', ''/v1/projects/{id}/branches'', Scoped ScopeProjects, BranchesList) \<in> set (mounted srv)"
  "(''POST'', ''/v1/projects/{id}/sync'', Scoped ScopeProjects, BranchesSync) \<in> set (mounted srv)"
  "(''POST'', ''/v1/projects/{id}/keys'', Scoped ScopeKeys, KeysIssue) \<in> set (mounted srv)"
  "(''GET'', ''/v1/projects/{id}/keys'', Scoped ScopeKeys, KeysList) \<in> set (mounted srv)"
  "(''DELETE'', ''/v1/projects/{id}/keys/{keyID}'', Scoped ScopeKeys, KeysRevoke) \<in> set (mounted srv)"
  "(''POST'', ''/v1/projects/{id}/migrations'', Scoped ScopeMigrate, MigrationsApply) \<in> set (mounted srv)"
  "(''GET'', ''/v1/projects/{id}/migrations'', Scoped ScopeMigrate, MigrationsStatus) \<in> set (mounted srv)"
  "(''POST'', ''/v1/projects/{id}/sql'', Scoped ScopeSQL, SqlApply) \<in> set (mounted srv)"
  by (simp_all add: mounted_routes)

lemma routed_sql:
  assumes "newClient E True = Inr c"
  shows "routed srv E \<lparr>ca_method = ''POST'', ca_url = cc_base c @ ''/v1/projects/'' @ project @ ''/sql'',
    ca_auth = ''Bearer '' @ cc_token c, ca_ctype = ''application/sql'', ca_body = RawBody body\<rparr>"
  by (rule routedI [OF mounted_paths(17), where ids = "[project]"])
    (use newClient_Inr [OF assms] in \<open>simp_all add: fills(5)\<close>)

lemma routed_health:
  assumes "newClient E False = Inr c"
  shows "routed srv E (the_call c ''GET'' ''/v1/readyz'' None)"
  by (rule routedI [OF mounted_paths(1), where ids = "[]"])
    (use newClient_Inr [OF assms] in \<open>simp_all add: the_call_def fills(11)\<close>)

lemmas admin_calls [cli_intros] = routed_sql routed_health
  routed_admin [OF _ mounted_paths(5) fills(9)] routed_admin [OF _ mounted_paths(6) fills(9)]
  routed_admin [OF _ mounted_paths(7) fills(1)] routed_admin [OF _ mounted_paths(8) fills(1)]
  routed_admin [OF _ mounted_paths(9) fills(6)] routed_admin [OF _ mounted_paths(10) fills(6)]
  routed_admin [OF _ mounted_paths(11) fills(7)] routed_admin [OF _ mounted_paths(12) fills(2)]
  routed_admin [OF _ mounted_paths(13) fills(2)] routed_admin [OF _ mounted_paths(14) fills(3)]
  routed_admin [OF _ mounted_paths(15) fills(4)] routed_admin [OF _ mounted_paths(16) fills(4)]
  routed_bootstrap [OF _ mounted_paths(2) fills(10)] routed_bootstrap [OF _ mounted_paths(3) fills(10)]
  routed_bootstrap [OF _ mounted_paths(4) fills(8)]

lemma runHealth_behaves: "behaves V (routed srv E) (runHealth E (logged V))"
  unfolding runHealth_def by (intro cli_intros)

lemma runProject_behaves: "behaves V (routed srv E) (runProject E (logged V) args)"
  by (cases args) (simp_all only: runProject.simps, (intro cli_intros; assumption?)+)

lemma runKey_behaves: "behaves V (routed srv E) (runKey E (logged V) args)"
  by (cases args) (simp_all only: runKey.simps, (intro cli_intros; assumption?)+)

lemma runMigrate_behaves: "behaves V (routed srv E) (runMigrate E (logged V) args)"
  by (cases args) (simp_all only: runMigrate.simps Let_def, (intro cli_intros; assumption?)+)

lemma runSQL_behaves: "behaves V (routed srv E) (runSQL E (logged V) args)"
proof (cases args)
  case (Cons sub rest)
  have "behaves V (routed srv E) (case ce_read E f of Inl e \<Rightarrow> fails (Wrap m (Ext e))
      | Inr body \<Rightarrow> with_client (newClient E True) (\<lambda>c. sql_send (logged V) c project body))" for f m project
    by (cases "ce_read E f") (simp_all only: sum.case, (intro cli_intros; assumption?)+)
  then show ?thesis unfolding Cons runSQL.simps by (intro cli_intros)
qed (simp only: runSQL.simps, intro cli_intros)

lemma runBranch_behaves: "behaves V (routed srv E) (runBranch E (logged V) args)"
  by (cases args) (simp_all only: runBranch.simps, (intro cli_intros; assumption?)+)

lemma behaves_if_state [cli_intros]:
  "(b \<Longrightarrow> behaves V P f) \<Longrightarrow> (\<not> b \<Longrightarrow> behaves V P g) \<Longrightarrow> behaves V P (\<lambda>s. if b then f s else g s)"
  by (cases b) simp_all

lemma behaves_failed [cli_intros]: "behaves V P (\<lambda>s. (Failed e, [], s))"
  by (auto simp: behaves_def)

lemma runAdmin_behaves: "behaves V (routed srv E) (runAdmin E (logged V) args)"
  by (cases "(E, V, args)" rule: runAdmin.cases)
    (simp_all only: runAdmin.simps prod.inject admin_token.simps, (intro cli_intros; assumption?)+)

lemma runNeon_behaves: "behaves V P (runNeon E (logged V) (beside N) args)"
proof (cases args)
  case (Cons sub rest)
  have b: "behaves V P (runNeonBranch (logged V) (beside N) nc as)" for nc as
    by (cases as) (simp_all only: runNeonBranch.simps, (intro cli_intros; erule neon_ops)+)
  have "behaves V P (runNeonConnURI (beside N) nc as)" for nc as
    unfolding runNeonConnURI_def by (intro cli_intros; erule neon_ops)
  with b show ?thesis unfolding Cons runNeon.simps by (intro cli_intros)
qed (simp only: runNeon.simps, intro cli_intros)

lemma dispatch_behaves: "behaves V (routed srv E) (dispatch E (logged V) (beside N) cmd args)"
  unfolding dispatch.simps
  by (intro cli_intros runHealth_behaves runProject_behaves runKey_behaves runMigrate_behaves runSQL_behaves
      runBranch_behaves runAdmin_behaves runNeon_behaves) simp_all

section \<open>Properties\<close>


text \<open>
  Property C37. The exit status tells what happened: it is 0, 1 or 2; when the server cannot be reached or answers with
  400 or more it is 1; and whenever it is not 0 nothing was written to standard output, so that what a script reads
  there is always a result.
\<close>

theorem cli_exit_status:
  assumes "cli_main E (logged V) (beside N) args ([], s) = (code, out, (calls, s'))"
  shows "code \<in> {0, 1, 2} \<and> (code \<noteq> 0 \<longrightarrow> out = []) \<and>
    (\<forall>c \<in> set calls. refused (fst (ap_do V c s)) \<longrightarrow> code = 1)"
proof (cases args)
  case Nil
  with assms show ?thesis by simp
next
  case (Cons cmd rest)
  from assms obtain e where d: "dispatch E (logged V) (beside N) cmd rest ([], s) = (e, out, (calls, s'))"
    and e: "code = exit_status e" unfolding Cons cli_main.simps by (auto split: prod.splits)
  from dispatch_behaves [of V undefined E N cmd rest] d
  have "(e \<noteq> Done \<longrightarrow> out = []) \<and> e \<notin> Exited ` (- {0, 2}) \<and> (calls = [] \<or> (\<exists>c. calls = [c] \<and>
      (refused (fst (ap_do V c s)) \<longrightarrow> (\<exists>err. e = Failed err))))" unfolding behaves_def by fastforce
  with e show ?thesis by (cases e) (auto simp: exit_status_def)
qed

section \<open>Witnesses\<close>

definition demo_cli :: cli_env where
  "demo_cli = \<lparr>ce_getenv = (\<lambda>k. if k = ''PWRAP_ADMIN_TOKEN'' then ''pwa_x'' else []), ce_url = (\<lambda>_. None),
     ce_read = (\<lambda>_. Inl ''no such file''), ce_version = ''dev''\<rparr>"

definition demo_api :: "unit api" where
  "demo_api = \<lparr>ap_new = (\<lambda>_. None), ap_do = (\<lambda>c s. (Inr (404, ''key not found''), s)), ap_status = (\<lambda>_. ''404 Not Found''),
     ap_decode = (\<lambda>_ _. Inl ''unexpected end of JSON input''), ap_print = (\<lambda>_. []), ap_show = (\<lambda>_. []),
     ap_created = (\<lambda>_. []), ap_branches = (\<lambda>_. [])\<rparr>"

definition demo_neon :: "unit neon_env" where
  "demo_neon = \<lparr>nv_do = (\<lambda>_ s. (Inl ''down'', s)), nv_new = (\<lambda>_. None), nv_marshal = (\<lambda>_. Inr []),
     nv_created = (\<lambda>_. Inl []), nv_branches = (\<lambda>_. Inl []), nv_uri = (\<lambda>_. Inl []), nv_message = id\<rparr>"

definition demo_revoke :: api_call where
  "demo_revoke = \<lparr>ca_method = ''DELETE'', ca_url = ''http://localhost:8080/v1/projects/7/keys/3'', ca_auth = ''Bearer pwa_x'',
     ca_ctype = [], ca_body = NoBody\<rparr>"

lemma demo_command:
  "cli_main demo_cli (logged demo_api) (beside demo_neon) [''key'', ''revoke'', ''--project'', ''7'', ''-key=3''] ([], ()) =
     (1, [], ([demo_revoke], ()))"
  by code_simp


lemma cli_exit_status_witness:
  "refused (fst (ap_do demo_api demo_revoke ())) \<and>
   fst (cli_main demo_cli (logged demo_api) (beside demo_neon) [''key'', ''revoke'', ''--project'', ''7'', ''-key=3''] ([], ())) = 1"
proof -
  have "refused (fst (ap_do demo_api demo_revoke ()))" by (simp add: demo_api_def refused_def)
  with cli_exit_status [OF demo_command] demo_command show ?thesis by simp
qed

end
