(* ===== verification/Sdk_Client.thy ===== *)
theory Sdk_Client
  imports Tenancy Tenant_Data
begin

text \<open>
  \<^verbatim>\<open>sdk/go/pwrap/client.go\<close> and \<^verbatim>\<open>rest.go\<close>: the exchange of the API key for a login, the client with
  its derived clients, the background refresh of the login, how an operation runs for a user, and the REST
  token. The control plane behind HTTP and the tenant's server behind the pools are parameters with a state
  of their own. The lemmas: what a failed refresh leaves, when a refresh happens, which pools are open, what
  a failed operation leaves.
\<close>

section \<open>Configuration and the exchange\<close>

definition SchemaVersion :: string where "SchemaVersion = ''0001_init''"

definition refreshLead :: duration where "refreshLead = 2 * minute"

record sdk_config =
  cf_url :: string
  cf_key :: string

text \<open>
  \<open>tp_new\<close> is the error of \<^verbatim>\<open>http.NewRequestWithContext\<close> on a URL, \<open>tp_do\<close> the
  client's \<^verbatim>\<open>Do\<close> for a method, URL, authorization and body: the error, or the status and the body;
  \<open>tp_status\<close> the status line, \<open>tp_conn\<close> the decoded reply. \<open>tp_open\<close> is the error of
  \<^verbatim>\<open>pgxpool.New\<close> on a DSN, \<open>tp_ping\<close> that of the first connection.
\<close>

record 's transport =
  tp_new :: "string \<Rightarrow> string option"
  tp_do :: "string \<Rightarrow> string \<Rightarrow> string \<Rightarrow> string option \<Rightarrow> 's \<Rightarrow> (string + nat \<times> string) \<times> 's"
  tp_status :: "nat \<Rightarrow> string"
  tp_conn :: "string \<Rightarrow> string + connection"
  tp_open :: "string \<Rightarrow> string option"
  tp_ping :: "string \<Rightarrow> 's \<Rightarrow> string option \<times> 's"

definition exchange :: "'s transport \<Rightarrow> sdk_config \<Rightarrow> 's \<Rightarrow> (goerr + connection) \<times> 's" where
  "exchange V cfg s =
     (let url = trim_right CHR ''/'' (cf_url cfg) @ ''/v1/connection'' in
      case tp_new V url of Some e \<Rightarrow> (Inl (Ext e), s)
      | None \<Rightarrow> (case tp_do V ''POST'' url (''Bearer '' @ cf_key cfg) None s of
          (Inl e, s) \<Rightarrow> (Inl (Wrap ''pwrap: control plane: '' (Ext e)), s)
        | (Inr (status, b), s) \<Rightarrow>
            if 400 \<le> status
            then (Inl (Msg (''pwrap: /v1/connection: '' @ tp_status V status @ '' '' @ trim_space b)), s)
            else (case tp_conn V b of
                Inl e \<Rightarrow> (Inl (Wrap ''pwrap: decode connection: '' (Ext e)), s)
              | Inr out \<Rightarrow> (Inr out, s))))"

definition em_dash :: string where "em_dash = [CHR 0xE2, CHR 0x80, CHR 0x94]"

text \<open>Strings compare by their bytes, as in Go.\<close>

definition checkSchemaVersion :: "string \<Rightarrow> unit result" where
  "checkSchemaVersion serverVersion =
     (if serverVersion = [] then Inl (Msg (''pwrap: project has no migrations applied '' @ em_dash @
          '' run `pwrap migrate apply --project <id>`''))
      else if serverVersion < SchemaVersion then Inl (Msg (''pwrap: tenant schema is '' @ go_quote serverVersion @
          '' but this SDK requires '' @ go_quote SchemaVersion @ '' '' @ em_dash @
          '' run `pwrap migrate apply --project <id>` to upgrade''))
      else Inr ())"

section \<open>The client\<close>

text \<open>
  What a client and its clones share by pointer: the live pool (by identity), the DSN and its
  expiry, with the pools that are open and those about to be closed; and the root's refresh loop.
\<close>

record shared =
  sh_pool :: nat
  sh_dsn :: string
  sh_expires :: instant
  sh_next :: nat
  sh_open :: "nat list"
  sh_closing :: "nat list"
  sh_cancelled :: bool
  sh_done :: bool

text \<open>A client: \<open>sd_root\<close> says whether it has the handles of the refresh loop.\<close>

record sdk_client =
  sd_cfg :: sdk_config
  sd_schema :: string
  sd_user :: string
  sd_root :: bool

definition New :: "'s transport \<Rightarrow> sdk_config \<Rightarrow> 's \<Rightarrow> (goerr + sdk_client \<times> shared) \<times> 's" where
  "New V cfg s =
     (let cfg = (if cf_url cfg = [] then cfg\<lparr>cf_url := ''http://localhost:8080''\<rparr> else cfg) in
      if cf_key cfg = [] then (Inl (Msg ''pwrap: APIKey is required''), s)
      else case exchange V cfg s of
        (Inl e, s) \<Rightarrow> (Inl e, s)
      | (Inr conn, s) \<Rightarrow> (case checkSchemaVersion (cn_version conn) of
          Inl e \<Rightarrow> (Inl e, s)
        | Inr _ \<Rightarrow> (case tp_open V (cn_dsn conn) of
            Some e \<Rightarrow> (Inl (Wrap ''pwrap: open pool: '' (Ext e)), s)
          | None \<Rightarrow> (case tp_ping V (cn_dsn conn) s of
              (Some e, s) \<Rightarrow> (Inl (Wrap ''pwrap: ping: '' (Ext e)), s)
            | (None, s) \<Rightarrow>
                (Inr (\<lparr>sd_cfg = cfg, sd_schema = cn_schema conn, sd_user = [], sd_root = True\<rparr>,
                      \<lparr>sh_pool = 0, sh_dsn = cn_dsn conn, sh_expires = cn_expires conn, sh_next = 1,
                       sh_open = [0], sh_closing = [], sh_cancelled = False, sh_done = False\<rparr>), s)))))"

definition WithUser :: "string \<Rightarrow> sdk_client \<Rightarrow> sdk_client" where
  "WithUser userID c = c\<lparr>sd_user := userID, sd_root := False\<rparr>"

text \<open>The flag: whether it waits for the refresh loop.\<close>

definition Close :: "sdk_client \<Rightarrow> shared \<Rightarrow> bool \<times> shared" where
  "Close c sh =
     (if sd_user c \<noteq> [] then (False, sh)
      else let sh' = (if sd_root c then sh\<lparr>sh_cancelled := True\<rparr> else sh)
        in (sd_root c, sh'\<lparr>sh_open := removeAll (sh_pool sh') (sh_open sh')\<rparr>))"

section \<open>The refresh loop\<close>

definition sdk_refresh :: "'s transport \<Rightarrow> sdk_client \<Rightarrow> shared \<Rightarrow> 's \<Rightarrow> goerr option \<times> shared \<times> 's" where
  "sdk_refresh V c sh s = (case exchange V (sd_cfg c) s of
      (Inl e, s) \<Rightarrow> (Some e, sh, s)
    | (Inr conn, s) \<Rightarrow> (case tp_open V (cn_dsn conn) of
        Some e \<Rightarrow> (Some (Ext e), sh, s)
      | None \<Rightarrow> (case tp_ping V (cn_dsn conn) s of
          (Some e, s) \<Rightarrow> (Some (Ext e), sh, s)
        | (None, s) \<Rightarrow>
            (None, sh\<lparr>sh_pool := sh_next sh, sh_next := Suc (sh_next sh), sh_dsn := cn_dsn conn,
               sh_expires := cn_expires conn, sh_open := sh_next sh # sh_open sh,
               sh_closing := sh_pool sh # sh_closing sh\<rparr>, s))))"

text \<open>The goroutine that closes an old pool after its grace period.\<close>

definition close_old :: "nat \<Rightarrow> shared \<Rightarrow> shared" where
  "close_old p sh = (if p \<in> set (sh_closing sh) then sh\<lparr>sh_closing := removeAll p (sh_closing sh),
     sh_open := removeAll p (sh_open sh)\<rparr> else sh)"

text \<open>The pause before a refresh: \<^verbatim>\<open>time.Until\<close> saturates at the largest duration.\<close>

definition wake_after :: "instant \<Rightarrow> instant \<Rightarrow> int" where
  "wake_after now expiresAt =
     (let wake = min (expiresAt + sint (- refreshLead) - now) (2 ^ 63 - 1)
      in if wake < 30000000000 then 30000000000 else wake)"

text \<open>
  A round of the loop: the clock at its head, whether the timer fires or the context is done, and
  likewise in the pause after a failure. The loop over the rounds that have happened returns whether it has
  returned, and the pauses it made.
\<close>

datatype pause = Elapsed | Cancelled

record round =
  rd_now :: instant
  rd_wait :: pause
  rd_retry :: pause

fun refreshLoop :: "'s transport \<Rightarrow> sdk_client \<Rightarrow> round list \<Rightarrow> shared \<Rightarrow> 's \<Rightarrow> bool \<times> int list \<times> shared \<times> 's" where
  "refreshLoop V c [] sh s = (False, [], sh, s)"
| "refreshLoop V c (r # rs) sh s =
     (let wake = wake_after (rd_now r) (sh_expires sh) in
      if rd_wait r = Cancelled then (True, [wake], sh\<lparr>sh_done := True\<rparr>, s)
      else case sdk_refresh V c sh s of
        (None, sh, s) \<Rightarrow> (let (ret, ws, sh, s) = refreshLoop V c rs sh s in (ret, wake # ws, sh, s))
      | (Some e, sh, s) \<Rightarrow>
          if rd_retry r = Cancelled then (True, [wake], sh\<lparr>sh_done := True\<rparr>, s)
          else (let (ret, ws, sh, s) = refreshLoop V c rs sh s in (ret, wake # 60000000000 # ws, sh, s)))"

section \<open>run\<close>

text \<open>
  The user the trigger reads from the claims \<^verbatim>\<open>{"user_id": u}\<close>: \<^verbatim>\<open>json.Marshal\<close> cleans the
  bytes; a text with a NUL character is no \<^verbatim>\<open>jsonb\<close>, and the trigger then records no user.
\<close>

definition claims_user :: "string \<Rightarrow> string option" where
  "claims_user u = (if CHR 0x00 \<in> set u then None else Some (utf8_clean u))"

definition sdk_run :: "tenv \<Rightarrow> sdk_client \<Rightarrow> (querier \<Rightarrow> tworld \<Rightarrow> 'a tres) \<Rightarrow> tworld \<Rightarrow> 'a tres" where
  "sdk_run E c fn w =
     (if sd_user c = [] then fn Pool_q w
      else t_tx E (\<lambda>w1. t_then (t_wrap ''pwrap: set_config: '' (t_query E (\<lambda>_. ()) w1)) (\<lambda>_ w2.
        t_wrap ''pwrap: body: '' (fn (Tx_q (claims_user (sd_user c)) (tw_tick w)) w2))) w)"

section \<open>rest.go\<close>

record rest_token =
  rt_token :: string
  rt_url :: string
  rt_role :: string
  rt_expires :: instant

text \<open>\<open>body\<close> renders the request's JSON, \<open>decode\<close> reads the reply's.\<close>

definition IssueRestToken ::
  "'s transport \<Rightarrow> (string \<Rightarrow> int \<Rightarrow> string) \<Rightarrow> (string \<Rightarrow> string + rest_token) \<Rightarrow> sdk_client \<Rightarrow> string \<Rightarrow> int \<Rightarrow> 's \<Rightarrow>
     (goerr + rest_token) \<times> 's" where
  "IssueRestToken V body decode c userID ttlSeconds s =
     (let url = trim_right CHR ''/'' (cf_url (sd_cfg c)) @ ''/v1/rest/token'' in
      case tp_new V url of Some e \<Rightarrow> (Inl (Ext e), s)
      | None \<Rightarrow> (case tp_do V ''POST'' url (''Bearer '' @ cf_key (sd_cfg c)) (Some (body userID ttlSeconds)) s of
          (Inl e, s) \<Rightarrow> (Inl (Wrap ''pwrap: rest token: '' (Ext e)), s)
        | (Inr (status, b), s) \<Rightarrow>
            if status = 503 then (Inl (Sentinel ErrRestDisabled), s)
            else if 400 \<le> status
            then (Inl (Msg (''pwrap: /v1/rest/token: '' @ tp_status V status @ '' '' @ trim_space b)), s)
            else (case decode b of Inl e \<Rightarrow> (Inl (Ext e), s) | Inr out \<Rightarrow> (Inr out, s))))"

section \<open>Lemmas\<close>

lemma checkSchemaVersion_ok: "checkSchemaVersion v = Inr () \<longleftrightarrow> v \<noteq> [] \<and> SchemaVersion \<le> v"
  by (auto simp: checkSchemaVersion_def)

lemma lead_nanos: "sint (- refreshLead) = - 120000000000"
  unfolding refreshLead_def by code_simp

text \<open>The pause is at least half a minute, and otherwise ends two minutes before the expiry.\<close>

lemma wake_bounds:
  "30000000000 \<le> wake_after now ex"
  "now + 150000000000 \<le> ex \<Longrightarrow> ex - now < 2 ^ 63 \<Longrightarrow> now + wake_after now ex = ex - 120000000000"
  by (auto simp: wake_after_def lead_nanos Let_def min_def)

text \<open>A login that outlives the lead by half a minute gets two attempts before it expires.\<close>

lemma two_attempts:
  assumes "now + 150000000000 \<le> ex" "ex - now < 2 ^ 63"
  defines "first_try \<equiv> now + wake_after now ex"
  defines "second_try \<equiv> first_try + 60000000000 + wake_after (first_try + 60000000000) ex"
  shows "first_try < second_try \<and> second_try < ex"
proof -
  have f: "first_try = ex - 120000000000" unfolding first_try_def using wake_bounds(2) assms(1,2) by simp
  have "wake_after (first_try + 60000000000) ex = 30000000000"
    unfolding f by (simp add: wake_after_def lead_nanos)
  with f show ?thesis by (simp add: second_try_def)
qed

text \<open>A refresh that fails changes nothing the client uses; one that succeeds swaps everything at once.\<close>

lemma sdk_refresh_cases:
  "sdk_refresh V c sh s = (r, sh', s') \<Longrightarrow> (r \<noteq> None \<and> sh' = sh) \<or>
     (r = None \<and> (\<exists>conn. fst (exchange V (sd_cfg c) s) = Inr conn \<and> sh' = sh\<lparr>sh_pool := sh_next sh,
        sh_next := Suc (sh_next sh), sh_dsn := cn_dsn conn, sh_expires := cn_expires conn,
        sh_open := sh_next sh # sh_open sh, sh_closing := sh_pool sh # sh_closing sh\<rparr>))"
  by (auto simp: sdk_refresh_def split: prod.splits sum.splits option.splits)

text \<open>The pools: distinct identities below the counter; open are the live one and those about to close.\<close>

definition pools_ok :: "shared \<Rightarrow> bool" where
  "pools_ok sh \<longleftrightarrow> distinct (sh_open sh) \<and> (\<forall>p \<in> set (sh_open sh). p < sh_next sh) \<and> sh_pool sh < sh_next sh \<and>
     sh_pool sh \<notin> set (sh_closing sh) \<and> set (sh_open sh) = insert (sh_pool sh) (set (sh_closing sh))"

lemma New_pools: "New V cfg s = (Inr (c, sh), s') \<Longrightarrow> pools_ok sh \<and> sd_root c \<and> sd_user c = []"
  by (auto simp: New_def pools_ok_def Let_def split: prod.splits sum.splits option.splits if_splits)

lemma refresh_pools: "sdk_refresh V c sh s = (r, sh', s') \<Longrightarrow> pools_ok sh \<Longrightarrow> pools_ok sh'"
  using sdk_refresh_cases [of V c sh s r sh' s'] by (fastforce simp: pools_ok_def)

lemma close_old_pools: "pools_ok sh \<Longrightarrow> pools_ok (close_old p sh) \<and> sh_pool (close_old p sh) = sh_pool sh"
  by (auto simp: pools_ok_def close_old_def distinct_removeAll)

lemma refreshLoop_pools: "refreshLoop V c rs sh s = (ret, ws, sh', s') \<Longrightarrow> pools_ok sh \<Longrightarrow> pools_ok sh'"
proof (induction rs arbitrary: sh s ret ws)
  case (Cons r rs)
  obtain e sh1 s1 where f: "sdk_refresh V c sh s = (e, sh1, s1)" by (metis prod_cases3)
  from refresh_pools [OF f Cons.prems(2)] have ok: "pools_ok sh1" .
  have ok': "pools_ok (sh\<lparr>sh_done := True\<rparr>)" "pools_ok (sh1\<lparr>sh_done := True\<rparr>)"
    using Cons.prems(2) ok by (simp_all add: pools_ok_def)
  show ?case
    using Cons.prems(1) f ok ok' Cons.IH
    by (cases e) (auto simp: Let_def split: if_splits prod.splits)
qed simp

lemma refreshLoop_pauses: "refreshLoop V c rs sh s = (ret, ws, sh', s') \<Longrightarrow> \<forall>x \<in> set ws. 30000000000 \<le> x"
proof (induction rs arbitrary: sh s ret ws sh' s')
  case (Cons r rs)
  obtain e sh1 s1 where f: "sdk_refresh V c sh s = (e, sh1, s1)" by (metis prod_cases3)
  obtain ret1 ws1 sh2 s2 where l: "refreshLoop V c rs sh1 s1 = (ret1, ws1, sh2, s2)" by (metis prod_cases4)
  show ?case
    using Cons.prems f l Cons.IH [OF l] wake_bounds(1) by (cases e) (auto simp: Let_def split: if_splits)
qed simp

text \<open>Closing the root client closes the live pool; when the grace periods are over no pool is open.\<close>

lemma Close_closes:
  assumes "pools_ok sh" "sd_user c = []"
  shows "set (sh_open (snd (Close c sh))) = set (sh_closing sh)"
  using assms by (auto simp: Close_def pools_ok_def Let_def)

lemma Close_clone: "sd_user c \<noteq> [] \<Longrightarrow> snd (Close c sh) = sh"
  by (simp add: Close_def)

text \<open>
  \<open>run\<close> adds no effect of its own: it succeeds exactly when its body does (with a user, also its
  three round trips), and with a user a failure leaves the database as it was.
\<close>

lemma sdk_run_Inr:
  "sdk_run E c fn w = (Inr x, w') \<Longrightarrow> \<exists>q w1 w2. fn q w1 = (Inr x, w2) \<and> tw_db w1 = tw_db w \<and> tw_db w' = tw_db w2 \<and>
     (if sd_user c = [] then q = Pool_q else q = Tx_q (claims_user (sd_user c)) (tw_tick w))"
  by (cases "sd_user c = []") (fastforce simp: sdk_run_def t_tx_Inr t_elims t_query_Inr)+

lemma atomic_run [step_intros]: "(\<And>q. atomic (fn q)) \<Longrightarrow> atomic (sdk_run E c fn)"
  by (auto simp: atomic_def sdk_run_def split: if_splits dest: t_tx_Inl_db)

lemma readonly_run [step_intros]:
  assumes "\<And>q. readonly (fn q)"
  shows "readonly (sdk_run E c fn)"
  unfolding readonly_def
proof (intro allI impI)
  fix w r w' assume r: "sdk_run E c fn w = (r, w')"
  show "tw_db w' = tw_db w"
  proof (cases r)
    case (Inl e)
    with r atomicD [OF atomic_run] readonly_atomic [OF assms] show ?thesis by blast
  next
    case (Inr y)
    with r sdk_run_Inr [of E c fn w y w'] readonlyD [OF assms] show ?thesis by metis
  qed
qed

text \<open>From here on the server answers.\<close>

definition healthy :: "tenv \<Rightarrow> tworld \<Rightarrow> bool" where
  "healthy E w \<longleftrightarrow> (\<forall>n. tw_tick w \<le> n \<longrightarrow> te_flt E n = None)"

lemma healthy_later: "healthy E w \<Longrightarrow> tw_tick w \<le> tw_tick w' \<Longrightarrow> healthy E w'"
  by (simp add: healthy_def)

lemma t_sql_healthy: "healthy E w \<Longrightarrow> t_sql E q w = (case q (tw_db w) of
    Inl e \<Rightarrow> (Inl (Ext e), w\<lparr>tw_tick := Suc (tw_tick w)\<rparr>)
  | Inr (x, d) \<Rightarrow> (Inr x, w\<lparr>tw_tick := Suc (tw_tick w), tw_db := d\<rparr>))"
  by (simp add: healthy_def t_sql_def)

lemma t_query_healthy: "healthy E w \<Longrightarrow> t_query E q w = (Inr (q (tw_db w)), w\<lparr>tw_tick := Suc (tw_tick w)\<rparr>)"
  by (simp add: t_query_def t_sql_healthy)

text \<open>Then an operation answers what its body answers, an error up to how it is wrapped.\<close>

lemma sdk_run_healthy:
  assumes "healthy E w"
  obtains q w1 where "tw_db w1 = tw_db w" "healthy E w1" "tw_tick w \<le> tw_tick w1"
    "\<And>r w2. fn q w1 = (r, w2) \<Longrightarrow> tw_tick w1 \<le> tw_tick w2 \<Longrightarrow>
       (case r of Inr x \<Rightarrow> fst (sdk_run E c fn w) = Inr x
        | Inl e \<Rightarrow> (\<exists>e'. fst (sdk_run E c fn w) = Inl e' \<and> errors_is e' = errors_is e))"
proof (cases "sd_user c = []")
  case True
  show ?thesis by (rule that [of w Pool_q]) (use assms True in \<open>auto simp: sdk_run_def split: sum.splits\<close>)
next
  case False
  let ?w1 = "w\<lparr>tw_tick := Suc (Suc (tw_tick w))\<rparr>"
  let ?q = "Tx_q (claims_user (sd_user c)) (tw_tick w)"
  have h: "healthy E (w\<lparr>tw_tick := Suc (tw_tick w)\<rparr>)" "healthy E ?w1"
    using assms by (auto intro: healthy_later)
  show ?thesis
  proof (rule that [of ?w1 ?q])
    fix r w2 assume r: "fn ?q ?w1 = (r, w2)" and "tw_tick ?w1 \<le> tw_tick w2"
    then have "healthy E w2" using h(2) healthy_later by blast
    with r h assms False show "case r of Inr x \<Rightarrow> fst (sdk_run E c fn w) = Inr x
        | Inl e \<Rightarrow> (\<exists>e'. fst (sdk_run E c fn w) = Inl e' \<and> errors_is e' = errors_is e)"
      by (cases r) (simp_all add: sdk_run_def t_tx_def t_query_healthy t_wrap_def fun_eq_iff)
  qed (use h in simp_all)
qed

text \<open>A result computed from the body's is computed from the operation's.\<close>

lemma sdk_run_map:
  "sdk_run E c (\<lambda>q w. t_then (fn q w) (\<lambda>x w. (Inr (h x), w))) w = t_then (sdk_run E c fn w) (\<lambda>x w. (Inr (h x), w))"
  by (auto simp: sdk_run_def t_tx_def t_then_def t_wrap_def split: prod.splits sum.splits)

end
