(* ===== verification/Sdk_Connect.thy ===== *)
theory Sdk_Connect
  imports Sdk_Client Server
begin

text \<open>
  The SDK's client against the server of this repository: \<^verbatim>\<open>New\<close> and the refresh with the exchange answered by
  \<^verbatim>\<open>Router\<close>. The lemmas: what an exchange that succeeded was answered with, the login a client holds.
\<close>

section \<open>The server as the transport\<close>

text \<open>
  The request the SDK sends, and the transport it is answered by: \<open>base\<close> is what the configured URL is resolved
  to, \<open>out\<close> the bytes of a reply, \<open>decode\<close> the client's JSON decoder; the pools connect if
  \<open>dial\<close> gives no error.
\<close>

definition sdk_request :: "string \<Rightarrow> string \<Rightarrow> string \<Rightarrow> string option \<Rightarrow> request" where
  "sdk_request m path auth body = \<lparr>rq_method = m, rq_path = path, rq_pattern = path, rq_param = (\<lambda>_. []), rq_auth = auth,
     rq_query = (\<lambda>_. []), rq_body = body\<rparr>"

definition served_by :: "env \<Rightarrow> 'l srv_env \<Rightarrow> string \<Rightarrow> (payload reply \<Rightarrow> string) \<Rightarrow> (string \<Rightarrow> string + connection) \<Rightarrow>
    (string \<Rightarrow> string option) \<Rightarrow> (nat \<Rightarrow> string) \<Rightarrow> ('l server \<times> world) transport" where
  "served_by E X base out decode dial line = \<lparr>tp_new = (\<lambda>_. None),
     tp_do = (\<lambda>m url auth body (s, w). case Router E X (sdk_request m (drop (length base) url) auth body) s w of
        (rep, s, w) \<Rightarrow> (Inr (fst rep, out rep), (s, w))),
     tp_status = line, tp_conn = decode, tp_open = dial, tp_ping = (\<lambda>dsn s. (dial dsn, s))\<rparr>"

section \<open>Lemmas\<close>

lemma lookup_connection:
  "lookup_route s (sdk_request ''POST'' ''/v1/connection'' a b) = Some (ApiKey, Connection)"
proof -
  have "find (\<lambda>(m, p, g, e). m = ''POST'' \<and> p = ''/v1/connection'') (routes_with x y) =
      Some (''POST'', ''/v1/connection'', ApiKey, Connection)" for x y by (cases x; cases y) code_simp+
  then show ?thesis by (simp add: lookup_route_def mounted_with sdk_request_def)
qed

text \<open>A connection answered with less than 400: a key that verifies, and an exchange for its project.\<close>

lemma Router_connection:
  assumes "Router E X (sdk_request ''POST'' ''/v1/connection'' (''Bearer '' @ key) b) s w = ((st, rep), s', w')" "st < 400"
  shows "\<exists>pid kid c w1. keys_Verify E (trim_space key) w = (Inr (pid, kid), w1) \<and>
    Exchange E (srv_tenancy s) pid w1 = (Inr c, w') \<and> st = 200 \<and> rep = Inr (PConnection c) \<and>
    srv_tenancy s' = srv_tenancy s"
proof -
  let ?r = "sdk_request ''POST'' ''/v1/connection'' (''Bearer '' @ key) b"
  have b: "ExtractBearer ?r = (if trim_space key = [] then Inl (Sentinel ErrNoBearer) else Inr (trim_space key))"
    by (simp add: ExtractBearer_def sdk_request_def has_prefix_def Let_def)
  show ?thesis using assms b
    by (auto simp: Router_def lookup_connection RateLimit_def APIKeyAuth_def Connection_h_def reply_map_def Let_def
        split: prod.splits sum.splits if_splits)
qed


lemma exchange_served:
  assumes "exchange (served_by E X (trim_right CHR ''/'' (cf_url cfg)) out decode dial line) cfg (s, w) = (Inr c, (s', w'))"
    and "\<forall>c x. decode (out (200, Inr (PConnection c))) = Inr x \<longrightarrow> x = c"
  shows "\<exists>pid kid w1. keys_Verify E (trim_space (cf_key cfg)) w = (Inr (pid, kid), w1) \<and>
    Exchange E (srv_tenancy s) pid w1 = (Inr c, w') \<and> srv_tenancy s' = srv_tenancy s"
proof -
  let ?r = "sdk_request ''POST'' ''/v1/connection'' (''Bearer '' @ cf_key cfg) None"
  obtain st rep s2 w2 where r: "Router E X ?r s w = ((st, rep), s2, w2)" by (metis prod.exhaust)
  from assms(1) r have st: "st < 400" "decode (out (st, rep)) = Inr c" "s' = s2" "w' = w2"
    by (auto simp: exchange_def served_by_def Let_def split: if_splits sum.splits)
  from Router_connection [OF r st(1)] st(2-4) assms(2) show ?thesis by blast
qed

text \<open>The login in an answer to an exchange: a live key, its live project, a new login role.\<close>

definition fresh_login :: "env \<Rightarrow> string \<Rightarrow> tenancy_service \<Rightarrow> world \<Rightarrow> world \<Rightarrow> string \<Rightarrow> string \<Rightarrow> instant \<Rightarrow> bool" where
  "fresh_login E key T w w' schema dsn expires \<longleftrightarrow> (\<exists>k row i d.
     k \<in> set (api_keys (wdb w)) \<and> k_revoked k = None \<and> Verify E (trim_space key) (k_hash k) = Inr () \<and>
     row \<in> set (projects (wdb w)) \<and> p_id row = k_project k \<and> p_deleted row = None \<and> schema = p_schema row \<and>
     read_dsn dsn = Some d \<and> pg_roles (pg (wdb w)) (d_user d) = None \<and> pg_roles (pg (wdb w')) (d_user d) = Some i \<and>
     ri_login i \<and> ri_password i = Some (d_password d) \<and> ri_member_of i = [trunc (p_role row)] \<and>
     ri_valid_until i = Some (whole_seconds expires) \<and> expires = go_now E + sint (ts_ttl T))"

lemma exchange_fresh:
  assumes "exchange (served_by E X (trim_right CHR ''/'' (cf_url cfg)) out decode dial line) cfg (s, w) = (Inr c, (s', w'))"
    and "\<forall>c x. decode (out (200, Inr (PConnection c))) = Inr x \<longrightarrow> x = c" "rand_length E"
  shows "fresh_login E (cf_key cfg) (srv_tenancy s) w w' (cn_schema c) (cn_dsn c) (cn_expires c)"
proof -
  from exchange_served [OF assms(1,2)] obtain pid kid w1 where v: "keys_Verify E (trim_space (cf_key cfg)) w = (Inr (pid, kid), w1)"
    and e: "Exchange E (srv_tenancy s) pid w1 = (Inr c, w')" by blast
  from v obtain k :: key_row where k: "k \<in> set (api_keys (wdb w))" "k_project k = pid" "k_revoked k = None"
    "Verify E (trim_space (cf_key cfg)) (k_hash k) = Inr ()"
    by (auto simp: keys_Verify_Inr dest: select_one_Some)
  from keys_Verify_frame [OF v] have f: "projects (wdb w1) = projects (wdb w)" "pg (wdb w1) = pg (wdb w)" by auto
  from Exchange_login [OF e assms(3)] f k show ?thesis unfolding fresh_login_def
    by (fastforce dest: select_one_Some)
qed

text \<open>The version in an answer is that of an applied migration.\<close>

lemma Exchange_version:
  assumes "Exchange E T pid w = (Inr c, w')" "cn_version c \<noteq> []"
  shows "\<exists>m \<in> set (migration_log (wdb w)). m_project m = pid \<and> m_state m = ''applied'' \<and> m_version m = cn_version c"
proof -
  obtain v w2 where v: "LatestAppliedVersion E pid (w\<lparr>tick := Suc (tick w)\<rparr>) = (v, w2)" by fastforce
  with assms have "v = Inr (cn_version c)"
    by (cases v) (auto simp: Exchange_def GetCredentials_def query_Inr res_elims Let_def split: sum.splits option.splits)
  with v assms(2) show ?thesis
    by (auto simp: LatestAppliedVersion_def res_elims query_Inr dest!: select_one_Some split: option.splits)
qed

lemma New_served:
  fixes cfg :: sdk_config
  defines "url \<equiv> (if cf_url cfg = [] then ''http://localhost:8080'' else cf_url cfg)"
  assumes "New (served_by E X (trim_right CHR ''/'' url) out decode dial line) cfg (s, w) = (Inr (c, sh), (s', w'))"
  shows "\<exists>conn. exchange (served_by E X (trim_right CHR ''/'' (cf_url (sd_cfg c))) out decode dial line) (sd_cfg c) (s, w) =
      (Inr conn, (s', w')) \<and> sd_cfg c = cfg\<lparr>cf_url := url\<rparr> \<and> checkSchemaVersion (cn_version conn) = Inr () \<and> sd_schema c = cn_schema conn \<and>
    sh_dsn sh = cn_dsn conn \<and> sh_expires sh = cn_expires conn"
  using assms(2) unfolding New_def url_def
  by (auto simp: Let_def served_by_def split: prod.splits sum.splits option.splits if_splits)

section \<open>Properties\<close>

text \<open>
  Property C7. A client that connects holds what its key entitles it to: the key is a live one of a live project, the
  schema is that project's and has a migration applied that is at least the one the SDK needs, and the DSN reads back as
  a new login role, a member of the project's role only, which the server accepts until less than a second before the
  expiry the client goes by. The server is this repository's; JSON values come back as they were sent.
\<close>

theorem connect_spec:
  fixes cfg :: sdk_config
  defines "url \<equiv> (if cf_url cfg = [] then ''http://localhost:8080'' else cf_url cfg)"
  assumes "New (served_by E X (trim_right CHR ''/'' url) out decode dial line) cfg (s, w) = (Inr (c, sh), (s', w'))"
    and "\<forall>c x. decode (out (200, Inr (PConnection c))) = Inr x \<longrightarrow> x = c" "rand_length E"
  shows "fresh_login E (cf_key cfg) (srv_tenancy s) w w' (sd_schema c) (sh_dsn sh) (sh_expires sh) \<and>
    (\<exists>m p k. m \<in> set (migration_log (wdb w)) \<and> m_state m = ''applied'' \<and> SchemaVersion \<le> m_version m \<and>
      k \<in> set (api_keys (wdb w)) \<and> Verify E (trim_space (cf_key cfg)) (k_hash k) = Inr () \<and> m_project m = k_project k \<and>
      p \<in> set (projects (wdb w)) \<and> p_id p = k_project k \<and> p_schema p = sd_schema c)"
proof -
  from New_served [of E X cfg] assms(2) obtain conn where
    x: "exchange (served_by E X (trim_right CHR ''/'' (cf_url (sd_cfg c))) out decode dial line) (sd_cfg c) (s, w) = (Inr conn, (s', w'))"
    and c: "sd_cfg c = cfg\<lparr>cf_url := url\<rparr>" "checkSchemaVersion (cn_version conn) = Inr ()" "sd_schema c = cn_schema conn"
      "sh_dsn sh = cn_dsn conn" "sh_expires sh = cn_expires conn" unfolding url_def by blast
  have l: "fresh_login E (cf_key cfg) (srv_tenancy s) w w' (sd_schema c) (sh_dsn sh) (sh_expires sh)"
    using exchange_fresh [OF x assms(3,4)] c by simp
  from exchange_served [OF x assms(3)] c(1) obtain pid kid w1 where v: "keys_Verify E (trim_space (cf_key cfg)) w = (Inr (pid, kid), w1)"
    and e: "Exchange E (srv_tenancy s) pid w1 = (Inr conn, w')" by auto
  from v obtain k :: key_row where k: "k \<in> set (api_keys (wdb w))" "k_project k = pid"
    "Verify E (trim_space (cf_key cfg)) (k_hash k) = Inr ()"
    by (auto simp: keys_Verify_Inr dest: select_one_Some)
  from keys_Verify_frame [OF v] have f: "projects (wdb w1) = projects (wdb w)" "migration_log (wdb w1) = migration_log (wdb w)" by auto
  from Exchange_login [OF e assms(4)] obtain p where
    p: "p \<in> set (projects (wdb w))" "p_id p = pid" "p_schema p = sd_schema c" using f(1) c(3) by (auto dest!: select_one_Some)
  from c(2) have "cn_version conn \<noteq> []" "SchemaVersion \<le> cn_version conn" by (simp_all add: checkSchemaVersion_ok)
  with Exchange_version [OF e] f(2) obtain m where
    m: "m \<in> set (migration_log (wdb w))" "m_project m = pid" "m_state m = ''applied''" "SchemaVersion \<le> m_version m" by auto
  from l k p m show ?thesis by blast
qed


section \<open>Witnesses\<close>

text \<open>A project with the first tenant migration applied, and a token bucket that always allows.\<close>

definition ready_world :: world where
  "ready_world = world_of (demo_db\<lparr>
     migration_log := [\<lparr>m_id = 1, m_project = 7, m_version = SchemaVersion, m_source = [], m_checksum = [],
       m_state = ''applied'', m_error = None, m_started = 0, m_completed = Some 0\<rparr>],
     pg := \<lparr>pg_roles = [''p_demo'' \<mapsto> demo_role], pg_schemas = [(''p_demo'', ''p_demo'')], pg_tables = (\<lambda>_ _. None),
       pg_usage = (\<lambda>_. False)\<rparr>\<rparr>)"

definition lenient :: "(int, unit) bucket" where
  "lenient = \<lparr>bk_new = (\<lambda>_ _. ()), bk_allow = (\<lambda>l _. (True, l))\<rparr>"

lemma demo_ttl: "sint (ts_ttl (srv_tenancy demo_server)) = 3600000000000"
proof -
  have "srv_tenancy demo_server = tenancy_NewService (srv_projects demo_server) demo_config"
    by (simp add: demo_server_def NewServer_def Let_def)
  moreover have "sint (dur_mul 3600 second) = 3600000000000" "\<not> dur_mul 3600 second \<le>s 0" by code_simp+
  ultimately show ?thesis by (simp add: tenancy_NewService_def demo_config_def)
qed

lemma demo_password: "Decrypt (sv_cipher (ts_projects (srv_tenancy demo_server))) ''pw'' = Inr ''pw''"
proof -
  have "srv_tenancy demo_server = tenancy_NewService (srv_projects demo_server) demo_config"
    by (simp add: demo_server_def NewServer_def Let_def)
  moreover have "sv_cipher (srv_projects demo_server) = Noop" 
    by (simp add: demo_server_def NewServer_def Let_def buildCipher_def demo_config_def WithCipher_def NewServiceWithAuth_def)
  moreover have "Decrypt Noop ''pw'' = Inr ''pw''" by code_simp
  ultimately show ?thesis by (simp add: tenancy_NewService_def Let_def)
qed

lemma ready_exchange:
  assumes "projects (wdb w) = [demo_project]" "migration_log (wdb w) = migration_log (wdb ready_world)"
    "ephemeral_roles (wdb w) = []" "pg (wdb w) = pg (wdb ready_world)"
  shows "\<exists>c w'. Exchange demo_env (srv_tenancy demo_server) 7 w = (Inr c, w') \<and> cn_version c = SchemaVersion \<and> cn_expires c = 3601000000000"
proof -
  have l: "length (raw_url_encode (replicate 9 (char_of (rtick w + 7)))) = 12" by (simp add: length_raw_url)
  obtain s where s: "raw_url_encode (replicate 9 (char_of (rtick w + 7))) = s" by simp
  have ne: "s \<noteq> ''1''" using l s by auto
  show ?thesis using assms l ne
    by (simp add: Exchange_def GetCredentials_def LatestAppliedVersion_def Mint_def ephemeralRoleName_def randomSecret_def
        rand_read_def Let_def roleNameMax_def mint_tx_def insert_ephemeral_def in_tx_def query_def sql_def exec_def ddl_simps
        trunc_def ready_world_def demo_db_def world_of_def empty_db_def demo_project_def demo_role_def demo_env_def
        select_one_def order_desc_def time_add_def s demo_password demo_ttl)
qed

lemma lenient_allows: "\<exists>l'. Allow lenient now key l = (True, l')"
  by (simp add: Allow_def lenient_def Let_def)

text \<open>A key issued in this world, and the client that connects with it.\<close>

lemma ready_connect:
  "\<exists>key w cn sh s' w' out decode. New (served_by demo_env (X\<lparr>x_bucket := lenient\<rparr>) ''http://localhost:8080'' out decode (\<lambda>_. None) (\<lambda>_. []))
      \<lparr>cf_url = [], cf_key = key\<rparr> (demo_server, w) = (Inr (cn, sh), (s', w')) \<and>
     (\<forall>c x. decode (out (200, Inr (PConnection c))) = Inr x \<longrightarrow> x = c) \<and> sh_expires sh = 3601000000000"
proof -
  obtain k :: issued_key and w where i: "keys_Issue demo_env 7 ''ci'' ready_world = (Inr k, w)"
    by (auto simp: ready_world_def keys_Issue_def Generate_def GenerateWithPrefix_def Hash_def insert_key_def sql_def
      rand_read_def Let_def demo_defs demo_db_def demo_project_def)
  have "fst (keys_Verify demo_env (ik_plaintext k) w) = Inr (7, ak_id (ik_key k))"
    by (rule keys_Issue_verifies [OF i demo_idkey_length demo_rand_length _ refl demo_flt refl])
      (simp add: ready_world_def world_of_def demo_db_def empty_db_def)
  then obtain w1 where v: "keys_Verify demo_env (ik_plaintext k) w = (Inr (7, ak_id (ik_key k)), w1)"
    by (cases "keys_Verify demo_env (ik_plaintext k) w") auto
  from keys_Issue_frame [OF i] keys_Verify_frame [OF v] obtain ks where f: "wdb w1 = (wdb ready_world)\<lparr>api_keys := ks\<rparr>" by auto
  obtain conn w' where x: "Exchange demo_env (srv_tenancy demo_server) 7 w1 = (Inr conn, w')"
    "cn_version conn = SchemaVersion" "cn_expires conn = 3601000000000"
    using ready_exchange [of w1] f by (auto simp: ready_world_def world_of_def demo_db_def empty_db_def)
  define r where "r = sdk_request ''POST'' ''/v1/connection'' (''Bearer '' @ ik_plaintext k) None"
  have b: "ExtractBearer r = Inr (ik_plaintext k)" by (rule issued_bearer [OF i]) (simp add: r_def sdk_request_def)
  have look: "lookup_route demo_server r = Some (ApiKey, Connection)" by (simp add: r_def lookup_connection)
  obtain l where l: "Allow lenient (go_now demo_env) (BearerKey r) (srv_limiter demo_server) = (True, l)"
    using lenient_allows by blast
  have r: "Router demo_env (X\<lparr>x_bucket := lenient\<rparr>) r demo_server w =
      ((200, Inr (PConnection conn)), demo_server\<lparr>srv_limiter := l\<rparr>, w')"
    by (simp add: Router_def look RateLimit_def l APIKeyAuth_def b v Connection_h_def x(1) reply_map_def)
  have t: "trim_right CHR ''/'' ''http://localhost:8080'' = ''http://localhost:8080''" by code_simp
  define out where "out = (\<lambda>rep :: payload reply. if rep = (200, Inr (PConnection conn)) then ''yes'' else [])"
  define decode where "decode = (\<lambda>s :: string. if s = ''yes'' then Inr conn else Inl ''no'')"
  have "ik_plaintext k \<noteq> []" using keys_Issue_plaintext [OF i] by (auto simp: KeyPrefix_def)
  moreover have "checkSchemaVersion SchemaVersion = Inr ()" by code_simp
  ultimately have "\<exists>cn sh s'. New (served_by demo_env (X\<lparr>x_bucket := lenient\<rparr>) ''http://localhost:8080'' out decode (\<lambda>_. None) (\<lambda>_. []))
      \<lparr>cf_url = [], cf_key = ik_plaintext k\<rparr> (demo_server, w) = (Inr (cn, sh), (s', w')) \<and> sh_expires sh = 3601000000000"
    using r by (simp add: New_def exchange_def served_by_def t x out_def decode_def r_def)
  moreover have "\<forall>c x. decode (out (200, Inr (PConnection c))) = Inr x \<longrightarrow> x = c" by (auto simp: out_def decode_def)
  ultimately show ?thesis by blast
qed

lemma connect_spec_witness:
  "\<forall>X. \<exists>key w c sh s' w' out decode. New (served_by demo_env (X\<lparr>x_bucket := lenient\<rparr>) ''http://localhost:8080'' out decode (\<lambda>_. None) (\<lambda>_. []))
      \<lparr>cf_url = [], cf_key = key\<rparr> (demo_server, w) = (Inr (c, sh), (s', w')) \<and>
     fresh_login demo_env key (srv_tenancy demo_server) w w' (sd_schema c) (sh_dsn sh) (sh_expires sh)"
proof
  fix X :: "unit srv_env"
  obtain key w c sh s' w' out decode where n: "New (served_by demo_env (X\<lparr>x_bucket := lenient\<rparr>) ''http://localhost:8080'' out decode (\<lambda>_. None) (\<lambda>_. []))
      \<lparr>cf_url = [], cf_key = key\<rparr> (demo_server, w) = (Inr (c, sh), (s', w'))"
    and d: "\<forall>c x. decode (out (200, Inr (PConnection c))) = Inr x \<longrightarrow> x = c" using ready_connect by blast
  have t: "trim_right CHR ''/'' ''http://localhost:8080'' = ''http://localhost:8080''" by code_simp
  from connect_spec [of demo_env "X\<lparr>x_bucket := lenient\<rparr>" "\<lparr>cf_url = [], cf_key = key\<rparr>", OF _ d demo_rand_length] n
  show "\<exists>key w c sh s' w' out decode. New (served_by demo_env (X\<lparr>x_bucket := lenient\<rparr>) ''http://localhost:8080'' out decode (\<lambda>_. None) (\<lambda>_. []))
      \<lparr>cf_url = [], cf_key = key\<rparr> (demo_server, w) = (Inr (c, sh), (s', w')) \<and>
     fresh_login demo_env key (srv_tenancy demo_server) w w' (sd_schema c) (sh_dsn sh) (sh_expires sh)"
    by (simp only: sdk_config.simps simp_thms if_True t) blast
qed

text \<open>The control plane is down when the login is to be refreshed: the second attempt starts half a minute before its end.\<close>

definition down :: "unit transport" where
  "down = \<lparr>tp_new = (\<lambda>_. Some ''down''), tp_do = (\<lambda>_ _ _ _ s. (Inl ''down'', s)), tp_status = (\<lambda>_. []),
     tp_conn = (\<lambda>_. Inl ''down''), tp_open = (\<lambda>_. None), tp_ping = (\<lambda>_ s. (None, s))\<rparr>"

definition demo_rounds :: "round list" where
  "demo_rounds = [\<lparr>rd_now = 1000000000, rd_wait = Elapsed, rd_retry = Elapsed\<rparr>,
     \<lparr>rd_now = 3541000000000, rd_wait = Elapsed, rd_retry = Elapsed\<rparr>]"


end
