(* ===== verification/Sdk_Table.thy ===== *)
theory Sdk_Table
  imports Sdk_Client "HOL-Library.Multiset"
begin

text \<open>
  \<^verbatim>\<open>sdk/go/pwrap/table.go\<close>: the document collections. A Go value handed to an operation is the JSON
  that \<^verbatim>\<open>json.Marshal\<close> makes of it, or the error it gives. The lemmas: what each operation does to the
  documents and to the change log, and when it fails.
\<close>

section \<open>The statements\<close>

fun traverse :: "('a \<Rightarrow> 'e + 'b) \<Rightarrow> 'a list \<Rightarrow> 'e + 'b list" where
  "traverse f [] = Inr []"
| "traverse f (x # xs) = (case f x of Inl e \<Rightarrow> Inl e | Inr y \<Rightarrow>
     (case traverse f xs of Inl e \<Rightarrow> Inl e | Inr ys \<Rightarrow> Inr (y # ys)))"

text \<open>\<^verbatim>\<open>INSERT ... RETURNING id\<close>: of one or of several documents, in their order.\<close>

definition doc_rows :: "(nat \<Rightarrow> uuid) \<Rightarrow> instant \<Rightarrow> string \<Rightarrow> json list \<Rightarrow> doc_row list" where
  "doc_rows new now coll vs =
     map (\<lambda>(k, v). \<lparr>d_coll = coll, d_id = new k, d_data = v, d_created = now, d_updated = now\<rparr>) (enumerate 0 vs)"

definition doc_insert ::
  "(nat \<Rightarrow> uuid) \<Rightarrow> instant \<Rightarrow> string option \<Rightarrow> string \<Rightarrow> json list \<Rightarrow> tenant \<Rightarrow> string + uuid list \<times> tenant" where
  "doc_insert new now user coll js d = (case traverse to_jsonb js of Inl e \<Rightarrow> Inl e | Inr vs \<Rightarrow>
     (let rows = doc_rows new now coll vs; ids = map d_id rows in
      if distinct ids \<and> list_all (\<lambda>i. i \<notin> set (map d_id (tn_docs d))) ids
      then Inr (ids, capture_rows user ''INSERT'' (map (\<lambda>r. (None, Some r)) rows) (d\<lparr>tn_docs := tn_docs d @ rows\<rparr>))
      else Inl (pg_error ''duplicate key value violates unique constraint \"pwrap_documents_pkey\"'' ''23505'')))"

definition doc_hit :: "string \<Rightarrow> uuid \<Rightarrow> doc_row \<Rightarrow> bool" where
  "doc_hit coll i r \<longleftrightarrow> d_coll r = coll \<and> d_id r = i"

definition doc_upd :: "json \<Rightarrow> instant \<Rightarrow> doc_row \<Rightarrow> doc_row" where
  "doc_upd v now r = r\<lparr>d_data := jconcat (d_data r) v, d_updated := now\<rparr>"

definition doc_update ::
  "instant \<Rightarrow> string option \<Rightarrow> string \<Rightarrow> uuid \<Rightarrow> json \<Rightarrow> tenant \<Rightarrow> string + nat \<times> tenant" where
  "doc_update now user coll i p d = (case to_jsonb p of Inl e \<Rightarrow> Inl e | Inr v \<Rightarrow>
     Inr (affected (doc_hit coll i) (tn_docs d),
       capture_rows user ''UPDATE'' (map (\<lambda>r. (Some r, Some (doc_upd v now r))) (filter (doc_hit coll i) (tn_docs d)))
         (d\<lparr>tn_docs := update_where (doc_hit coll i) (doc_upd v now) (tn_docs d)\<rparr>)))"

definition doc_delete :: "string option \<Rightarrow> string \<Rightarrow> uuid \<Rightarrow> tenant \<Rightarrow> string + nat \<times> tenant" where
  "doc_delete user coll i d =
     Inr (affected (doc_hit coll i) (tn_docs d),
       capture_rows user ''DELETE'' (map (\<lambda>r. (Some r, None)) (filter (doc_hit coll i) (tn_docs d)))
         (d\<lparr>tn_docs := filter (\<lambda>r. \<not> doc_hit coll i r) (tn_docs d)\<rparr>))"

definition doc_matches :: "string \<Rightarrow> json \<Rightarrow> doc_row \<Rightarrow> bool" where
  "doc_matches coll f r \<longleftrightarrow> d_coll r = coll \<and> jcontains (d_data r) f"

section \<open>table.go\<close>

record document =
  dc_id :: uuid
  dc_data :: go_map
  dc_created :: instant
  dc_updated :: instant

text \<open>A Go value is its JSON or the error of marshalling it; likewise a map, whose values may not marshal.\<close>

type_synonym go_val = "string + json"
type_synonym go_arg = "string + go_map"

definition scanDoc :: "tenv \<Rightarrow> doc_row \<Rightarrow> string + document" where
  "scanDoc E r = (case unmarshal_map (te_fl E) (d_data r) of Inl e \<Rightarrow> Inl e
     | Inr m \<Rightarrow> Inr \<lparr>dc_id = d_id r, dc_data = m, dc_created = d_created r, dc_updated = d_updated r\<rparr>)"

fun marshal_all :: "nat \<Rightarrow> go_val list \<Rightarrow> goerr + json list" where
  "marshal_all i [] = Inr []"
| "marshal_all i (Inl e # xs) = Inl (Wrap (''pwrap: table: marshal['' @ show_nat i @ '']: '') (Ext e))"
| "marshal_all i (Inr j # xs) = (case marshal_all (Suc i) xs of Inl e \<Rightarrow> Inl e | Inr js \<Rightarrow> Inr (j # js))"

definition sdk_Insert :: "tenv \<Rightarrow> sdk_client \<Rightarrow> string \<Rightarrow> go_val \<Rightarrow> tworld \<Rightarrow> uuid tres" where
  "sdk_Insert E c coll data w = (case data of Inl e \<Rightarrow> (Inl (Ext e), w)
     | Inr payload \<Rightarrow> sdk_run E c (\<lambda>q w.
         t_then (t_sql E (texts [coll] (doc_insert (te_id E (tw_tick w)) (q_now E q w) (q_user q) coll [payload])) w)
           (\<lambda>ids w. (Inr (hd ids), w))) w)"

definition sdk_InsertMany :: "tenv \<Rightarrow> sdk_client \<Rightarrow> string \<Rightarrow> go_val list \<Rightarrow> tworld \<Rightarrow> uuid list tres" where
  "sdk_InsertMany E c coll datas w =
     (if datas = [] then (Inr [], w)
      else case marshal_all 0 datas of Inl e \<Rightarrow> (Inl e, w)
      | Inr payloads \<Rightarrow> sdk_run E c (\<lambda>q w.
          t_sql E (texts [coll] (doc_insert (te_id E (tw_tick w)) (q_now E q w) (q_user q) coll payloads)) w) w)"

definition sdk_Get :: "tenv \<Rightarrow> sdk_client \<Rightarrow> string \<Rightarrow> uuid \<Rightarrow> tworld \<Rightarrow> document tres" where
  "sdk_Get E c coll i w =
     t_then (sdk_run E c (\<lambda>q w.
         t_then (t_sql E (texts [coll] (\<lambda>d. Inr (select_one (doc_hit coll i) (tn_docs d), d))) w) (\<lambda>r w.
           case r of None \<Rightarrow> (Inl (Sentinel ErrDocNotFound), w) | Some r \<Rightarrow> (Inr r, w))) w)
       (\<lambda>r w. case scanDoc E r of Inl e \<Rightarrow> (Inl (Ext e), w) | Inr x \<Rightarrow> (Inr x, w))"

text \<open>\<^verbatim>\<open>filter == nil\<close> is replaced by the empty map.\<close>

fun or_empty :: "go_map \<Rightarrow> go_map" where
  "or_empty None = Some []"
| "or_empty m = m"

definition sdk_Find :: "tenv \<Rightarrow> sdk_client \<Rightarrow> string \<Rightarrow> go_arg \<Rightarrow> int \<Rightarrow> tworld \<Rightarrow> document list tres" where
  "sdk_Find E c coll fa lm w =
     (let lm = (if lm \<le> 0 then 100 else lm) in
      case fa of Inl e \<Rightarrow> (Inl (Ext e), w)
      | Inr m \<Rightarrow> sdk_run E c (\<lambda>q w.
          t_then (t_sql E (texts [coll] (\<lambda>d. case to_jsonb (marshal_map (or_empty m)) of Inl e \<Rightarrow> Inl e
              | Inr f \<Rightarrow> Inr (take (nat lm) (order_desc d_created (filter (doc_matches coll f) (tn_docs d))), d))) w)
            (\<lambda>rows w. case traverse (scanDoc E) rows of Inl e \<Rightarrow> (Inl (Ext e), w) | Inr docs \<Rightarrow> (Inr docs, w))) w)"

definition sdk_Update :: "tenv \<Rightarrow> sdk_client \<Rightarrow> string \<Rightarrow> uuid \<Rightarrow> go_arg \<Rightarrow> tworld \<Rightarrow> unit tres" where
  "sdk_Update E c coll i patch w = (case patch of Inl e \<Rightarrow> (Inl (Ext e), w)
     | Inr m \<Rightarrow> t_then (sdk_run E c (\<lambda>q w.
          t_sql E (texts [coll] (doc_update (q_now E q w) (q_user q) coll i (marshal_map m))) w) w)
        (\<lambda>n w. if n = 0 then (Inl (Sentinel ErrDocNotFound), w) else (Inr (), w)))"

definition sdk_Delete :: "tenv \<Rightarrow> sdk_client \<Rightarrow> string \<Rightarrow> uuid \<Rightarrow> tworld \<Rightarrow> unit tres" where
  "sdk_Delete E c coll i w =
     t_then (sdk_run E c (\<lambda>q w. t_sql E (texts [coll] (doc_delete (q_user q) coll i)) w) w)
       (\<lambda>n w. if n = 0 then (Inl (Sentinel ErrDocNotFound), w) else (Inr (), w))"

definition sdk_Count :: "tenv \<Rightarrow> sdk_client \<Rightarrow> string \<Rightarrow> go_arg \<Rightarrow> tworld \<Rightarrow> int tres" where
  "sdk_Count E c coll fa w = (case fa of Inl e \<Rightarrow> (Inl (Ext e), w)
     | Inr m \<Rightarrow> sdk_run E c (\<lambda>q w.
          t_sql E (texts [coll] (\<lambda>d. case to_jsonb (marshal_map (or_empty m)) of Inl e \<Rightarrow> Inl e
            | Inr f \<Rightarrow> Inr (int (length (filter (doc_matches coll f) (tn_docs d))), d))) w) w)"

section \<open>Lemmas\<close>

lemma traverse_Inr: "traverse f xs = Inr ys \<longleftrightarrow> list_all2 (\<lambda>x y. f x = Inr y) xs ys"
proof
  show "traverse f xs = Inr ys \<Longrightarrow> list_all2 (\<lambda>x y. f x = Inr y) xs ys"
    by (induction xs arbitrary: ys) (auto split: sum.splits)
qed (induction rule: list_all2_induct; simp)

lemma traverse_length: "traverse f xs = Inr ys \<Longrightarrow> length ys = length xs"
  unfolding traverse_Inr by (simp add: list_all2_lengthD)

lemma traverse_set: "traverse f xs = Inr ys \<Longrightarrow> y \<in> set ys \<Longrightarrow> \<exists>x \<in> set xs. f x = Inr y"
  by (induction xs arbitrary: ys) (auto split: sum.splits)

lemma marshal_all_map: "marshal_all i (map Inr js) = Inr js"
  by (induction js arbitrary: i) simp_all

lemma marshal_all_Inr: "marshal_all i xs = Inr js \<Longrightarrow> xs = map Inr js"
  by (induction i xs arbitrary: js rule: marshal_all.induct) (auto split: sum.splits)

subsection \<open>What the triggers write\<close>

lemma log_change_fields [simp]:
  "tn_docs (log_change u t ba d) = tn_docs d" "tn_triggers (log_change u t ba d) = tn_triggers d"
  by (simp_all add: log_change_def)

text \<open>Everything of the tenant but its change log.\<close>

definition unlogged :: "tenant \<Rightarrow> tenant" where
  "unlogged d = d\<lparr>tn_seq := 0, tn_log := []\<rparr>"

lemma unlogged_simps [simp]:
  "unlogged (log_change u t ba d) = unlogged d" "tn_docs (unlogged d) = tn_docs d"
  "tn_triggers (unlogged d) = tn_triggers d"
  "unlogged (d\<lparr>tn_docs := x\<rparr>) = (unlogged d)\<lparr>tn_docs := x\<rparr>"
  by (simp_all add: unlogged_def log_change_def)

lemma unlogged_fold: "(\<And>x d. unlogged (f x d) = unlogged d) \<Longrightarrow> unlogged (fold f xs d) = unlogged d"
  by (induction xs arbitrary: d) simp_all

lemma unlogged_capture [simp]: "unlogged (capture u t ba d) = unlogged d"
  by (simp add: capture_def unlogged_fold)

lemma unlogged_rows [simp]: "unlogged (capture_rows u t bas d) = unlogged d"
  by (simp add: capture_rows_def unlogged_fold)

lemma capture_fields [simp]:
  "tn_docs (capture u t ba d) = tn_docs d" "tn_triggers (capture u t ba d) = tn_triggers d"
  "tn_docs (capture_rows u t bas d) = tn_docs d" "tn_triggers (capture_rows u t bas d) = tn_triggers d"
  by (metis unlogged_simps(2,3) unlogged_capture unlogged_rows)+

text \<open>The log read from its beginning: what its rows on the documents say every document is.\<close>

definition log_apply :: "clog_row \<Rightarrow> (uuid \<Rightarrow> doc_row option) \<Rightarrow> uuid \<Rightarrow> doc_row option" where
  "log_apply l m = (if cl_table l = ''pwrap_documents'' then m(cl_row l := cl_after l) else m)"

definition replay :: "clog_row list \<Rightarrow> uuid \<Rightarrow> doc_row option" where
  "replay ls = fold log_apply ls Map.empty"

definition doc_map :: "doc_row list \<Rightarrow> uuid \<Rightarrow> doc_row option" where
  "doc_map rs = map_of (map (\<lambda>r. (d_id r, r)) rs)"

lemma replay_log_change: "replay (tn_log (log_change u t ba d)) = (replay (tn_log d))(change_id ba := snd ba)"
  by (simp add: replay_def log_change_def log_apply_def)

lemma replay_fold_const:
  "replay (tn_log (fold (\<lambda>_. log_change u t ba) gs d)) =
     (if gs = [] then replay (tn_log d) else (replay (tn_log d))(change_id ba := snd ba))"
proof (induction gs arbitrary: d)
  case (Cons g gs)
  show ?case by (simp add: Cons.IH replay_log_change fun_eq_iff)
qed simp

lemma replay_capture:
  assumes "doc_triggers d \<noteq> []"
  shows "replay (tn_log (capture u t ba d)) = (replay (tn_log d))(change_id ba := snd ba)"
  using assms by (simp add: capture_def replay_fold_const)

lemma doc_triggers_capture [simp]: "doc_triggers (capture u t ba d) = doc_triggers d"
  by (simp add: doc_triggers_def)

lemma replay_capture_rows:
  assumes "doc_triggers d \<noteq> []"
  shows "replay (tn_log (capture_rows u t bas d)) = fold (\<lambda>ba m. m(change_id ba := snd ba)) bas (replay (tn_log d))"
  using assms by (induction bas arbitrary: d) (simp_all add: capture_rows_def replay_capture)

subsection \<open>The documents as a map\<close>

lemma doc_map_id: "doc_map rs i = Some r \<Longrightarrow> d_id r = i \<and> r \<in> set rs"
  by (auto simp: doc_map_def dest!: map_of_SomeD)

lemma doc_map_None: "doc_map rs i = None \<longleftrightarrow> i \<notin> set (map d_id rs)"
  by (force simp: doc_map_def map_of_eq_None_iff image_image)

lemma doc_map_in: "distinct (map d_id rs) \<Longrightarrow> r \<in> set rs \<Longrightarrow> doc_map rs (d_id r) = Some r"
  by (auto simp: doc_map_def o_def intro: map_of_is_SomeI)

lemma doc_map_Cons: "doc_map (r # rs) i = (if d_id r = i then Some r else doc_map rs i)"
  by (simp add: doc_map_def)

lemma filter_hit:
  "distinct (map d_id rs) \<Longrightarrow> filter (doc_hit coll i) rs =
     (case doc_map rs i of None \<Rightarrow> [] | Some r \<Rightarrow> if d_coll r = coll then [r] else [])"
proof (induction rs)
  case (Cons r rs)
  have "filter (doc_hit coll i) rs = []" if "d_id r = i"
    using Cons.prems that by (auto simp: filter_empty_conv doc_hit_def) (metis image_eqI)
  with Cons show ?case by (cases "d_id r = i") (simp_all add: doc_map_Cons doc_hit_def [of _ _ r])
qed (simp add: doc_map_def)

lemma find_filter: "find P xs = (case filter P xs of [] \<Rightarrow> None | x # _ \<Rightarrow> Some x)"
  by (induction xs) auto

lemma select_hit:
  "distinct (map d_id rs) \<Longrightarrow> select_one (doc_hit coll i) rs =
     (case doc_map rs i of None \<Rightarrow> None | Some r \<Rightarrow> if d_coll r = coll then Some r else None)"
  by (simp add: select_one_def find_filter filter_hit split: option.splits)

lemma affected_hit:
  "distinct (map d_id rs) \<Longrightarrow> affected (doc_hit coll i) rs =
     (case doc_map rs i of None \<Rightarrow> 0 | Some r \<Rightarrow> if d_coll r = coll then 1 else 0)"
  by (simp add: affected_def filter_hit split: option.splits)

lemma ids_update: "(\<And>r. d_id (f r) = d_id r) \<Longrightarrow> map d_id (update_where P f rs) = map d_id rs"
  by (simp add: update_where_def)

lemma doc_map_update:
  assumes "\<And>r. d_id (f r) = d_id r" "distinct (map d_id rs)"
  shows "doc_map (update_where (doc_hit coll i) f rs) =
     (case doc_map rs i of None \<Rightarrow> doc_map rs | Some r \<Rightarrow> if d_coll r = coll then (doc_map rs)(i \<mapsto> f r) else doc_map rs)"
  using assms(2)
proof (induction rs)
  case (Cons r rs)
  have "doc_map rs i = None" if "d_id r = i" using Cons.prems that by (simp add: doc_map_None)
  with Cons assms(1) show ?case
    by (auto simp: doc_map_def update_where_def doc_hit_def fun_eq_iff split: option.splits)
qed (simp add: doc_map_def update_where_def)

lemma doc_map_delete:
  assumes "distinct (map d_id rs)"
  shows "doc_map (filter (\<lambda>r. \<not> doc_hit coll i r) rs) =
     (case doc_map rs i of None \<Rightarrow> doc_map rs | Some r \<Rightarrow> if d_coll r = coll then (doc_map rs)(i := None) else doc_map rs)"
  using assms
proof (induction rs)
  case (Cons r rs)
  have "doc_map rs i = None" if "d_id r = i" using Cons.prems that by (simp add: doc_map_None)
  with Cons show ?case
    by (auto simp: doc_map_def doc_hit_def fun_eq_iff split: option.splits)
qed (simp add: doc_map_def)

lemma doc_map_append:
  "distinct (map d_id (rs @ qs)) \<Longrightarrow> doc_map (rs @ qs) = fold (\<lambda>r m. m(d_id r \<mapsto> r)) qs (doc_map rs)"
proof (induction qs arbitrary: rs)
  case (Cons q qs)
  have n: "doc_map rs (d_id q) = None" using Cons.prems by (auto simp: doc_map_None)
  then have "doc_map (rs @ [q]) = (doc_map rs)(d_id q \<mapsto> q)"
    by (auto simp: doc_map_def fun_eq_iff map_add_def split: option.splits)
  with Cons.IH [of "rs @ [q]"] Cons.prems show ?case by simp
qed simp

subsection \<open>The invariant\<close>

text \<open>
  The ids are distinct, the triggers of the documents are there, and the log accounts for every
  document: read from its beginning it yields the table.
\<close>

definition docs_ok :: "tenant \<Rightarrow> bool" where
  "docs_ok d \<longleftrightarrow> distinct (map d_id (tn_docs d)) \<and> doc_triggers d \<noteq> [] \<and> replay (tn_log d) = doc_map (tn_docs d)"

lemma docs_ok_distinct: "docs_ok d \<Longrightarrow> distinct (map d_id (tn_docs d))"
  by (simp add: docs_ok_def)

lemma doc_triggers_docs [simp]: "doc_triggers (d\<lparr>tn_docs := x\<rparr>) = doc_triggers d"
  by (simp add: doc_triggers_def)

lemma docs_ok_change:
  assumes "docs_ok d" "distinct (map d_id rs)"
    "doc_map rs = fold (\<lambda>ba m. m(change_id ba := snd ba)) bas (doc_map (tn_docs d))"
  shows "docs_ok (capture_rows u t bas (d\<lparr>tn_docs := rs\<rparr>))"
  using assms replay_capture_rows [of "d\<lparr>tn_docs := rs\<rparr>" u t bas]
  by (simp add: docs_ok_def doc_triggers_def)

lemma fold_map_comp: "fold f (map g xs) s = fold (\<lambda>x. f (g x)) xs s"
  by (induction xs arbitrary: s) simp_all

lemma fresh_list: "list_all (\<lambda>i. i \<notin> A) xs \<longleftrightarrow> A \<inter> set xs = {}"
  by (auto simp: list_all_iff)

lemma doc_insert_Inr:
  "doc_insert new now u coll js d = Inr (ids, d') \<Longrightarrow> \<exists>vs. traverse to_jsonb js = Inr vs \<and>
     ids = map d_id (doc_rows new now coll vs) \<and> distinct (map d_id (doc_rows new now coll vs)) \<and>
     set (map d_id (tn_docs d)) \<inter> set ids = {} \<and>
     d' = capture_rows u ''INSERT'' (map (\<lambda>r. (None, Some r)) (doc_rows new now coll vs))
        (d\<lparr>tn_docs := tn_docs d @ doc_rows new now coll vs\<rparr>)"
  by (simp add: doc_insert_def Let_def fresh_list del: set_map split: sum.splits if_splits)

lemma doc_insert_ok:
  assumes "doc_insert new now u coll js d = Inr (ids, d')" "docs_ok d"
  shows "docs_ok d'"
proof -
  obtain vs where i: "ids = map d_id (doc_rows new now coll vs)" "distinct (map d_id (doc_rows new now coll vs))"
      "set (map d_id (tn_docs d)) \<inter> set ids = {}"
    and d': "d' = capture_rows u ''INSERT'' (map (\<lambda>r. (None, Some r)) (doc_rows new now coll vs))
        (d\<lparr>tn_docs := tn_docs d @ doc_rows new now coll vs\<rparr>)"
    using doc_insert_Inr [OF assms(1)] by blast
  have "distinct (map d_id (tn_docs d @ doc_rows new now coll vs))"
    using i docs_ok_distinct [OF assms(2)] by (simp del: set_map)
  with doc_map_append [OF this] show ?thesis
    unfolding d' by (intro docs_ok_change assms(2)) (simp_all add: fold_map_comp)
qed

lemma doc_update_ok:
  assumes "doc_update now u coll i p d = Inr (n, d')" "docs_ok d"
  shows "docs_ok d'"
proof -
  obtain v where d': "d' = capture_rows u ''UPDATE''
      (map (\<lambda>r. (Some r, Some (doc_upd v now r))) (filter (doc_hit coll i) (tn_docs d)))
      (d\<lparr>tn_docs := update_where (doc_hit coll i) (doc_upd v now) (tn_docs d)\<rparr>)"
    using assms(1) by (auto simp: doc_update_def split: sum.splits)
  have k: "\<And>r. d_id (doc_upd v now r) = d_id r" by (simp add: doc_upd_def)
  note dist = docs_ok_distinct [OF assms(2)]
  show ?thesis unfolding d'
    by (intro docs_ok_change assms(2))
      (use dist k doc_map_id in \<open>force simp: ids_update doc_map_update filter_hit split: option.splits\<close>)+
qed

lemma doc_delete_ok:
  assumes "doc_delete u coll i d = Inr (n, d')" "docs_ok d"
  shows "docs_ok d'"
proof -
  have d': "d' = capture_rows u ''DELETE'' (map (\<lambda>r. (Some r, None)) (filter (doc_hit coll i) (tn_docs d)))
      (d\<lparr>tn_docs := filter (\<lambda>r. \<not> doc_hit coll i r) (tn_docs d)\<rparr>)"
    using assms(1) by (simp add: doc_delete_def)
  note dist = docs_ok_distinct [OF assms(2)]
  show ?thesis unfolding d'
    by (intro docs_ok_change assms(2))
      (use dist doc_map_id in \<open>force simp: distinct_map_filter doc_map_delete filter_hit split: option.splits\<close>)+
qed

subsection \<open>Failures\<close>

lemma sdk_Insert_atomic: "atomic (sdk_Insert E c coll data)"
  unfolding sdk_Insert_def [abs_def] by (intro step_intros)

lemma sdk_InsertMany_atomic: "atomic (sdk_InsertMany E c coll datas)"
  unfolding sdk_InsertMany_def [abs_def] by (intro step_intros)

lemma texts_same: "texts ss q d = Inr (x, d') \<Longrightarrow> (\<And>x d'. q d = Inr (x, d') \<Longrightarrow> d' = d) \<Longrightarrow> d' = d"
  by (auto simp: texts_def split: if_splits)

lemma sdk_Get_reads: "readonly (sdk_Get E c coll i)"
  unfolding sdk_Get_def [abs_def] by (intro step_intros) (auto elim!: texts_same)

lemma sdk_Find_reads: "readonly (sdk_Find E c coll fa lm)"
  unfolding sdk_Find_def [abs_def] Let_def by (intro step_intros) (auto elim!: texts_same split: sum.splits)

lemma sdk_Count_reads: "readonly (sdk_Count E c coll fa)"
  unfolding sdk_Count_def [abs_def] by (intro step_intros) (auto elim!: texts_same split: sum.splits)

text \<open>An update or a deletion of nothing writes nothing.\<close>

lemma no_hit: "affected (doc_hit coll i) rs = 0 \<Longrightarrow> filter (doc_hit coll i) rs = [] \<and>
    update_where (doc_hit coll i) f rs = rs \<and> filter (\<lambda>r. \<not> doc_hit coll i r) rs = rs"
  by (auto simp: affected_def update_where_def filter_empty_conv intro!: map_idI)

lemma doc_update_none: "doc_update now u coll i p d = Inr (0, d') \<Longrightarrow> d' = d"
  by (auto simp: doc_update_def capture_rows_def no_hit split: sum.splits)

lemma doc_delete_none: "doc_delete u coll i d = Inr (0, d') \<Longrightarrow> d' = d"
  by (auto simp: doc_delete_def capture_rows_def no_hit)

text \<open>The last step of both: no row is an error.\<close>

lemma atomic_none:
  assumes "\<And>q. atomic (fn q)" "\<And>q w w'. fn q w = (Inr 0, w') \<Longrightarrow> tw_db w' = tw_db w"
  shows "atomic (\<lambda>w. t_then (sdk_run E c fn w) (\<lambda>n w. if n = (0 :: nat) then (Inl e0, w) else (Inr (), w)))"
  unfolding atomic_def
proof (intro allI impI)
  fix w e w' assume "t_then (sdk_run E c fn w) (\<lambda>n w. if n = 0 then (Inl e0, w) else (Inr (), w)) = (Inl e, w')"
  then consider "sdk_run E c fn w = (Inl e, w')" | "sdk_run E c fn w = (Inr 0, w')"
    by (auto simp: t_then_Inl split: if_splits)
  then show "tw_db w' = tw_db w"
  proof cases
    case 1
    then show ?thesis using atomicD [OF atomic_run] assms(1) by blast
  next
    case 2
    then show ?thesis using sdk_run_Inr [of E c fn w 0 w'] assms(2) by metis
  qed
qed

lemma sdk_Update_atomic: "atomic (sdk_Update E c coll i patch)"
  unfolding sdk_Update_def [abs_def]
  by (intro step_intros atomic_none) (auto simp: t_sql_Inr texts_Inr dest: doc_update_none)

lemma sdk_Delete_atomic: "atomic (sdk_Delete E c coll i)"
  unfolding sdk_Delete_def [abs_def]
  by (intro step_intros atomic_none) (auto simp: t_sql_Inr texts_Inr dest: doc_delete_none)

subsection \<open>Reading\<close>

lemma sdk_Get_healthy:
  assumes "healthy E w" "pg_text coll" "distinct (map d_id (tn_docs (tw_db w)))"
  shows "(\<exists>r. doc_map (tn_docs (tw_db w)) i = Some r \<and> d_coll r = coll \<and>
        fst (sdk_Get E c coll i w) = map_sum Ext id (scanDoc E r)) \<or>
     (\<forall>r. doc_map (tn_docs (tw_db w)) i = Some r \<longrightarrow> d_coll r \<noteq> coll) \<and>
        (\<exists>e. fst (sdk_Get E c coll i w) = Inl e \<and> errors_is e ErrDocNotFound)"
proof -
  define fn where "fn = (\<lambda>q :: querier. \<lambda>w. t_then (t_sql E (texts [coll] (\<lambda>d. Inr (select_one (doc_hit coll i) (tn_docs d), d))) w)
    (\<lambda>r w. case r of None \<Rightarrow> (Inl (Sentinel ErrDocNotFound), w) | Some r \<Rightarrow> (Inr r, w)))"
  obtain q w1 where w1: "tw_db w1 = tw_db w" "healthy E w1"
    and run: "\<And>r w2. fn q w1 = (r, w2) \<Longrightarrow> tw_tick w1 \<le> tw_tick w2 \<Longrightarrow>
       (case r of Inr x \<Rightarrow> fst (sdk_run E c fn w) = Inr x
        | Inl e \<Rightarrow> (\<exists>e'. fst (sdk_run E c fn w) = Inl e' \<and> errors_is e' = errors_is e))"
    by (rule sdk_run_healthy [OF assms(1), of fn c]) blast
  obtain y w3 where y: "sdk_run E c fn w = (y, w3)" by fastforce
  have g: "sdk_Get E c coll i w = t_then (y, w3) (\<lambda>r w. case scanDoc E r of Inl e \<Rightarrow> (Inl (Ext e), w) | Inr x \<Rightarrow> (Inr x, w))"
    unfolding sdk_Get_def fn_def [symmetric] y ..
  have f: "fn q w1 = (case select_one (doc_hit coll i) (tn_docs (tw_db w)) of
      None \<Rightarrow> (Inl (Sentinel ErrDocNotFound), w1\<lparr>tw_tick := Suc (tw_tick w1)\<rparr>)
    | Some r \<Rightarrow> (Inr r, w1\<lparr>tw_tick := Suc (tw_tick w1)\<rparr>))"
    unfolding fn_def using w1 assms(2) by (simp add: t_sql_healthy texts_def split: option.splits)
  show ?thesis
  proof (cases "select_one (doc_hit coll i) (tn_docs (tw_db w))")
    case None
    with f run y have "\<exists>e. y = Inl e \<and> errors_is e = errors_is (Sentinel ErrDocNotFound)" by simp
    with g None select_hit [OF assms(3), of coll i] show ?thesis by (force split: option.splits if_splits)
  next
    case (Some r)
    with f run y have "y = Inr r" by simp
    with g Some select_hit [OF assms(3), of coll i] show ?thesis
      by (cases "scanDoc E r") (auto split: option.splits if_splits)
  qed
qed

lemma scanDoc_object:
  "d_data r = JObj kvs \<Longrightarrow> scanDoc E r = Inr \<lparr>dc_id = d_id r, dc_data = Some (map (\<lambda>(k, v). (k, go_value (te_fl E) v)) kvs),
     dc_created = d_created r, dc_updated = d_updated r\<rparr>"
  by (simp add: scanDoc_def unmarshal_map_def)

text \<open>What an insertion that succeeds has written.\<close>

lemma sdk_InsertMany_Inr:
  assumes "sdk_InsertMany E c coll datas w = (Inr ids, w')" "datas \<noteq> []"
  obtains js q w1 where "datas = map Inr js" "tw_db w1 = tw_db w" "pg_text coll"
    "doc_insert (te_id E (tw_tick w1)) (q_now E q w1) (q_user q) coll js (tw_db w) = Inr (ids, tw_db w')"
    "if sd_user c = [] then q = Pool_q else q = Tx_q (claims_user (sd_user c)) (tw_tick w)"
proof -
  obtain js where js: "marshal_all 0 datas = Inr js" and r: "sdk_run E c (\<lambda>q w.
      t_sql E (texts [coll] (doc_insert (te_id E (tw_tick w)) (q_now E q w) (q_user q) coll js)) w) w = (Inr ids, w')"
    using assms by (auto simp: sdk_InsertMany_def split: sum.splits)
  from sdk_run_Inr [OF r] obtain q w1 w2 where
    q: "t_sql E (texts [coll] (doc_insert (te_id E (tw_tick w1)) (q_now E q w1) (q_user q) coll js)) w1 = (Inr ids, w2)"
      "tw_db w1 = tw_db w" "tw_db w' = tw_db w2"
      "if sd_user c = [] then q = Pool_q else q = Tx_q (claims_user (sd_user c)) (tw_tick w)" by blast
  from q that marshal_all_Inr [OF js] show thesis by (auto simp: t_sql_Inr texts_Inr)
qed

text \<open>An insertion is a batch of one.\<close>

lemma sdk_Insert_batch:
  "sdk_Insert E c coll (Inr j) w = t_then (sdk_InsertMany E c coll [Inr j] w) (\<lambda>ids w. (Inr (hd ids), w))"
  by (simp add: sdk_Insert_def sdk_InsertMany_def) (rule sdk_run_map)

lemma doc_rows_nth:
  "k < length vs \<Longrightarrow> doc_rows new now coll vs ! k =
     \<lparr>d_coll = coll, d_id = new k, d_data = vs ! k, d_created = now, d_updated = now\<rparr>"
  by (simp add: doc_rows_def nth_enumerate_eq)

lemma length_doc_rows [simp]: "length (doc_rows new now coll vs) = length vs"
  by (simp add: doc_rows_def)

subsection \<open>Every operation keeps the invariant\<close>

lemma sdk_InsertMany_ok:
  assumes "sdk_InsertMany E c coll datas w = (r, w')" "docs_ok (tw_db w)"
  shows "docs_ok (tw_db w')"
proof (cases r)
  case (Inl e)
  with assms atomicD [OF sdk_InsertMany_atomic] show ?thesis by metis
next
  case (Inr ids)
  show ?thesis
  proof (cases "datas = []")
    case True
    with assms show ?thesis by (simp add: sdk_InsertMany_def)
  next
    case False
    from assms(1) Inr have m: "sdk_InsertMany E c coll datas w = (Inr ids, w')" by simp
    show ?thesis by (rule sdk_InsertMany_Inr [OF m False]) (rule doc_insert_ok [OF _ assms(2)])
  qed
qed

lemma sdk_Insert_ok: "sdk_Insert E c coll data w = (r, w') \<Longrightarrow> docs_ok (tw_db w) \<Longrightarrow> docs_ok (tw_db w')"
proof (cases data)
  case (Inr j)
  assume i: "sdk_Insert E c coll data w = (r, w')" "docs_ok (tw_db w)"
  obtain x w1 where x: "sdk_InsertMany E c coll [Inr j] w = (x, w1)" by fastforce
  with i(1) Inr have "w' = w1" by (cases x) (auto simp: sdk_Insert_batch)
  with sdk_InsertMany_ok [OF x i(2)] show ?thesis by simp
qed (simp add: sdk_Insert_def)

lemma sdk_Update_ok:
  assumes "sdk_Update E c coll i patch w = (r, w')" "docs_ok (tw_db w)"
  shows "docs_ok (tw_db w')"
proof (cases r)
  case (Inl e)
  with assms atomicD [OF sdk_Update_atomic] show ?thesis by metis
next
  case (Inr u)
  with assms(1) show ?thesis
    using assms(2) by (auto simp: sdk_Update_def t_then_Inr t_sql_Inr texts_Inr split: sum.splits if_splits
      dest!: sdk_run_Inr dest: doc_update_ok)
qed

lemma sdk_Delete_ok:
  assumes "sdk_Delete E c coll i w = (r, w')" "docs_ok (tw_db w)"
  shows "docs_ok (tw_db w')"
proof (cases r)
  case (Inl e)
  with assms atomicD [OF sdk_Delete_atomic] show ?thesis by metis
next
  case (Inr u)
  with assms(1) show ?thesis
    using assms(2) by (auto simp: sdk_Delete_def t_then_Inr t_sql_Inr texts_Inr split: if_splits
      dest!: sdk_run_Inr dest: doc_delete_ok)
qed

lemma scanDoc_fields: "scanDoc E r = Inr x \<Longrightarrow> dc_id x = d_id r \<and> dc_created x = d_created r"
  by (auto simp: scanDoc_def split: sum.splits)

lemma traverse_scan: "list_all (\<lambda>r. \<exists>kvs. d_data r = JObj kvs) rs \<Longrightarrow> \<exists>docs. traverse (scanDoc E) rs = Inr docs"
  by (induction rs) (auto simp: scanDoc_object)

text \<open>\<^verbatim>\<open>ORDER BY ... DESC LIMIT n\<close>: what is returned, and what is left out.\<close>

lemma order_desc_limit:
  fixes f :: "'r \<Rightarrow> int"
  assumes "rs = take n (order_desc f sel)"
  shows "length rs = min n (length sel) \<and> set rs \<subseteq> set sel \<and> sorted_wrt (\<lambda>a b. f b \<le> f a) rs \<and>
    (\<exists>rest. mset sel = mset rs + mset rest \<and> (\<forall>x \<in> set rest. \<forall>y \<in> set rs. f x \<le> f y))"
proof -
  let ?s = "order_desc f sel"
  have sorted: "sorted_wrt (\<lambda>a b. f b \<le> f a) ?s"
    using sorted_sort_key [of "\<lambda>r. - f r" sel] by (simp add: order_desc_def sorted_wrt_map)
  have split: "?s = rs @ drop n ?s" using assms by simp
  have len: "length ?s = length sel" and set: "set ?s = set sel" and ms: "mset ?s = mset sel"
    by (simp_all add: order_desc_def)
  have "mset sel = mset rs + mset (drop n ?s)" using split ms by (metis mset_append)
  moreover have "sorted_wrt (\<lambda>a b. f b \<le> f a) (rs @ drop n ?s)" using sorted split by simp
  then have "sorted_wrt (\<lambda>a b. f b \<le> f a) rs \<and> (\<forall>y \<in> set rs. \<forall>x \<in> set (drop n ?s). f x \<le> f y)"
    by (simp add: sorted_wrt_append)
  moreover have "set rs \<subseteq> set sel" using assms set set_take_subset by metis
  moreover have "length rs = min n (length sel)" using assms len by simp
  ultimately show ?thesis by blast
qed

section \<open>Properties\<close>


text \<open>
  \<^verbatim>\<open>Find\<close> on a server that answers succeeds for every filter without NUL characters.
  It returns, newest first, the documents that contain the filter (an empty or nil filter: every document that
  is an object), at most \<open>limit\<close> of them (100 when it is not positive), and what it leaves out is no
  newer than what it returns.
\<close>

lemma Find_spec:
  assumes "healthy E w" "pg_text coll" "to_jsonb (marshal_map (or_empty m)) = Inr f"
  defines "sel \<equiv> filter (doc_matches coll f) (tn_docs (tw_db w))"
  shows "\<exists>docs rows rest. fst (sdk_Find E c coll (Inr m) lm w) = Inr docs \<and>
    list_all2 (\<lambda>r x. scanDoc E r = Inr x) rows docs \<and> mset sel = mset rows + mset rest \<and>
    length docs = min (nat (if lm \<le> 0 then 100 else lm)) (length sel) \<and>
    sorted_wrt (\<lambda>x y. dc_created y \<le> dc_created x) docs \<and>
    (\<forall>r \<in> set rest. \<forall>r' \<in> set rows. d_created r \<le> d_created r')"
proof -
  define n where "n = nat (if lm \<le> 0 then 100 else lm)"
  define rows where "rows = take n (order_desc d_created sel)"
  define fn where "fn = (\<lambda>q :: querier. \<lambda>w. t_then (t_sql E (texts [coll] (\<lambda>d. case to_jsonb (marshal_map (or_empty m)) of Inl e \<Rightarrow> Inl e
      | Inr f \<Rightarrow> Inr (take n (order_desc d_created (filter (doc_matches coll f) (tn_docs d))), d))) w)
    (\<lambda>rows w. case traverse (scanDoc E) rows of Inl e \<Rightarrow> (Inl (Ext e), w) | Inr docs \<Rightarrow> (Inr docs, w)))"
  have find: "sdk_Find E c coll (Inr m) lm w = sdk_run E c fn w"
    unfolding sdk_Find_def Let_def fn_def n_def by (simp only: sum.case)
  from order_desc_limit [of rows n d_created sel] rows_def
  obtain rest where lim: "length rows = min n (length sel)" "set rows \<subseteq> set sel"
    "sorted_wrt (\<lambda>a b. d_created b \<le> d_created a) rows" "mset sel = mset rows + mset rest"
    "\<forall>x \<in> set rest. \<forall>y \<in> set rows. d_created x \<le> d_created y" by blast
  obtain kvs0 where "f = JObj kvs0"
    using assms(3) by (cases m) (auto simp: to_jsonb_def split: if_splits)
  then have "list_all (\<lambda>r. \<exists>kvs. d_data r = JObj kvs) rows"
    using lim(2) by (auto simp: list_all_iff sel_def doc_matches_def dest!: jcontains_object)
  then obtain docs where docs: "traverse (scanDoc E) rows = Inr docs" using traverse_scan by blast
  obtain q w1 where w1: "tw_db w1 = tw_db w" "healthy E w1"
    and run: "\<And>r w2. fn q w1 = (r, w2) \<Longrightarrow> tw_tick w1 \<le> tw_tick w2 \<Longrightarrow>
       (case r of Inr x \<Rightarrow> fst (sdk_run E c fn w) = Inr x
        | Inl e \<Rightarrow> (\<exists>e'. fst (sdk_run E c fn w) = Inl e' \<and> errors_is e' = errors_is e))"
    by (rule sdk_run_healthy [OF assms(1), of fn c]) blast
  have "fn q w1 = (Inr docs, w1\<lparr>tw_tick := Suc (tw_tick w1)\<rparr>)"
    unfolding fn_def using w1 assms(2,3) docs by (simp add: t_sql_healthy texts_def rows_def sel_def)
  with run have r: "fst (sdk_Find E c coll (Inr m) lm w) = Inr docs" by (fastforce simp: find)
  have l2: "list_all2 (\<lambda>r x. scanDoc E r = Inr x) rows docs" using docs by (simp add: traverse_Inr)
  then have len: "length docs = length rows" by (simp add: list_all2_lengthD)
  have "dc_created (docs ! k) = d_created (rows ! k)" if "k < length docs" for k
    using l2 that scanDoc_fields by (auto simp: list_all2_conv_all_nth)
  with lim(3) len have "sorted_wrt (\<lambda>x y. dc_created y \<le> dc_created x) docs"
    by (simp add: sorted_wrt_iff_nth_less)
  with r l2 lim len show ?thesis unfolding n_def by metis
qed

lemma t_update_Inr:
  assumes "sdk_run E c (\<lambda>q w. t_sql E (texts [coll] (doc_update (q_now E q w) (q_user q) coll i (marshal_map m))) w) w =
    (Inr n, w1)"
  shows "\<exists>v now. to_jsonb (marshal_map m) = Inr v \<and> n = affected (doc_hit coll i) (tn_docs (tw_db w)) \<and>
    tn_docs (tw_db w1) = update_where (doc_hit coll i) (doc_upd v now) (tn_docs (tw_db w))"
proof -
  obtain q wa wb where "t_sql E (texts [coll] (doc_update (q_now E q wa) (q_user q) coll i (marshal_map m))) wa = (Inr n, wb)"
    "tw_db wa = tw_db w" "tw_db w1 = tw_db wb"
    using sdk_run_Inr [OF assms] by blast
  then show ?thesis by (auto simp: t_sql_Inr texts_Inr doc_update_def split: sum.splits)
qed

lemma doc_upd_data:
  assumes "to_jsonb (marshal_map m) = Inr v"
  shows "(\<forall>kvs ps. m = Some ps \<longrightarrow> d_data old = JObj kvs \<longrightarrow> (\<exists>kvs'. d_data (doc_upd v now old) = JObj kvs' \<and>
       map_of kvs' = map_of kvs ++ map_of (dedup (map (\<lambda>(k, v). (k, jsonb v)) ps)))) \<and>
    (m = None \<longrightarrow> d_data (doc_upd v now old) = JArr (elems (d_data old) @ [JNull]))"
proof (intro conjI allI impI)
  fix kvs ps assume "m = Some ps" "d_data old = JObj kvs"
  then show "\<exists>kvs'. d_data (doc_upd v now old) = JObj kvs' \<and>
    map_of kvs' = map_of kvs ++ map_of (dedup (map (\<lambda>(k, v). (k, jsonb v)) ps))"
    using assms by (auto simp: to_jsonb_def doc_upd_def merge_conv' split: if_splits)
next
  assume "m = None"
  then show "d_data (doc_upd v now old) = JArr (elems (d_data old) @ [JNull])"
    using assms by (cases "d_data old") (auto simp: to_jsonb_def doc_upd_def)
qed

lemma Update_missing:
  assumes "sdk_Update E c coll i (Inr m) w = (r, w')" "docs_ok (tw_db w)"
    and no: "\<forall>old. doc_map (tn_docs (tw_db w)) i = Some old \<longrightarrow> d_coll old \<noteq> coll" and h: "healthy E w" "pg_text coll"
    and v: "to_jsonb (marshal_map m) = Inr v"
  shows "r = Inl (Sentinel ErrDocNotFound) \<and> tw_db w' = tw_db w"
proof -
  let ?fn = "\<lambda>q w. t_sql E (texts [coll] (doc_update (q_now E q w) (q_user q) coll i (marshal_map m))) w"
  have zero: "affected (doc_hit coll i) (tn_docs (tw_db w)) = 0"
    using no by (simp add: affected_hit [OF docs_ok_distinct [OF assms(2)]] split: option.splits)
  obtain q wa where wa: "tw_db wa = tw_db w" "healthy E wa"
    and run: "\<And>r w2. ?fn q wa = (r, w2) \<Longrightarrow> tw_tick wa \<le> tw_tick w2 \<Longrightarrow>
     (case r of Inr x \<Rightarrow> fst (sdk_run E c ?fn w) = Inr x
      | Inl e \<Rightarrow> (\<exists>e'. fst (sdk_run E c ?fn w) = Inl e' \<and> errors_is e' = errors_is e))"
    by (rule sdk_run_healthy [OF h(1), of ?fn c]) blast
  obtain w2 where w2: "?fn q wa = (Inr 0, w2)" "tw_tick wa \<le> tw_tick w2"
    using wa h v zero by (simp add: t_sql_healthy texts_def doc_update_def)
  obtain x w1 where x: "sdk_run E c ?fn w = (x, w1)" by fastforce
  with run [OF w2] have "x = Inr 0" by simp
  with x have "sdk_run E c ?fn w = (Inr 0, w1)" by (simp only:)
  with assms(1) have "r = Inl (Sentinel ErrDocNotFound)" by (simp add: sdk_Update_def)
  with assms(1) atomicD [OF sdk_Update_atomic] show ?thesis by blast
qed

text \<open>
  Property C15. An update that succeeds replaces the one document with that id in the collection by
  the document merged with the patch, stamps it, and changes no other document: of two objects every key has the
  patch's value where the patch has the key and keeps its own otherwise; a nil patch instead makes it an array.
  An update without such a document is \<^verbatim>\<open>ErrNotFound\<close>, whoever runs it.
\<close>

theorem Update_spec:
  assumes "sdk_Update E c coll i (Inr m) w = (r, w')" "docs_ok (tw_db w)"
  shows "(\<forall>u. r = Inr u \<longrightarrow> (\<exists>old new. doc_map (tn_docs (tw_db w)) i = Some old \<and> d_coll old = coll \<and>
        doc_map (tn_docs (tw_db w')) = (doc_map (tn_docs (tw_db w)))(i \<mapsto> new) \<and>
        d_id new = i \<and> d_coll new = coll \<and> d_created new = d_created old \<and>
        (\<forall>kvs ps. m = Some ps \<longrightarrow> d_data old = JObj kvs \<longrightarrow> (\<exists>kvs'. d_data new = JObj kvs' \<and>
           map_of kvs' = map_of kvs ++ map_of (dedup (map (\<lambda>(k, v). (k, jsonb v)) ps)))) \<and>
        (m = None \<longrightarrow> d_data new = JArr (elems (d_data old) @ [JNull])))) \<and>
    ((\<forall>old. doc_map (tn_docs (tw_db w)) i = Some old \<longrightarrow> d_coll old \<noteq> coll) \<longrightarrow> healthy E w \<longrightarrow> pg_text coll \<longrightarrow>
       (\<exists>v. to_jsonb (marshal_map m) = Inr v) \<longrightarrow> r = Inl (Sentinel ErrDocNotFound) \<and> tw_db w' = tw_db w)"
proof -
  note dist = docs_ok_distinct [OF assms(2)]
  have first: "\<exists>old new. doc_map (tn_docs (tw_db w)) i = Some old \<and> d_coll old = coll \<and>
        doc_map (tn_docs (tw_db w')) = (doc_map (tn_docs (tw_db w)))(i \<mapsto> new) \<and>
        d_id new = i \<and> d_coll new = coll \<and> d_created new = d_created old \<and>
        (\<forall>kvs ps. m = Some ps \<longrightarrow> d_data old = JObj kvs \<longrightarrow> (\<exists>kvs'. d_data new = JObj kvs' \<and>
           map_of kvs' = map_of kvs ++ map_of (dedup (map (\<lambda>(k, v). (k, jsonb v)) ps)))) \<and>
        (m = None \<longrightarrow> d_data new = JArr (elems (d_data old) @ [JNull]))" if "r = Inr u" for u
  proof -
    obtain x w1 where x: "sdk_run E c (\<lambda>q w. t_sql E (texts [coll] (doc_update (q_now E q w) (q_user q) coll i
      (marshal_map m))) w) w = (x, w1)" by fastforce
    with assms(1) that obtain n where n: "x = Inr n" "n \<noteq> 0" "w' = w1"
      by (cases x) (auto simp: sdk_Update_def split: if_splits)
    from t_update_Inr [OF x [unfolded n(1)], folded n(3)] obtain v now where v: "to_jsonb (marshal_map m) = Inr v"
      "n = affected (doc_hit coll i) (tn_docs (tw_db w))"
      "tn_docs (tw_db w') = update_where (doc_hit coll i) (doc_upd v now) (tn_docs (tw_db w))"
      by (elim exE conjE) (rule that)
    from v(2) n(2) obtain old where old: "doc_map (tn_docs (tw_db w)) i = Some old" "d_coll old = coll"
      by (auto simp: affected_hit [OF dist] split: option.splits if_splits)
    let ?new = "doc_upd v now old"
    have k: "\<And>r. d_id (doc_upd v now r) = d_id r" by (simp add: doc_upd_def)
    have map: "doc_map (tn_docs (tw_db w')) = (doc_map (tn_docs (tw_db w)))(i \<mapsto> ?new)"
      unfolding v(3) using doc_map_update [OF k dist, of coll i] old by simp
    have new: "d_id ?new = i" "d_coll ?new = coll" "d_created ?new = d_created old"
      using doc_map_id [OF old(1)] old(2) by (simp_all add: doc_upd_def)
    show ?thesis by (intro exI [of _ old] exI [of _ ?new] conjI old map new doc_upd_data [OF v(1)])
  qed
  from first Update_missing [OF assms] show ?thesis by blast
qed

text \<open>
  A deletion that succeeds removes the one document with that id in the collection and no
  other, and from then on \<^verbatim>\<open>Get\<close> of the id is \<^verbatim>\<open>ErrNotFound\<close> in every collection, for every client.
\<close>

lemma deleted_document_gone:
  assumes "sdk_Delete E c coll i w = (Inr u, w')" "docs_ok (tw_db w)" "healthy E w'" "pg_text coll'"
  shows "(\<exists>old. doc_map (tn_docs (tw_db w)) i = Some old \<and> d_coll old = coll) \<and>
    doc_map (tn_docs (tw_db w')) = (doc_map (tn_docs (tw_db w)))(i := None) \<and>
    (\<exists>e. fst (sdk_Get E c' coll' i w') = Inl e \<and> errors_is e ErrDocNotFound)"
proof -
  note dist = docs_ok_distinct [OF assms(2)]
  obtain n where run: "sdk_run E c (\<lambda>q w. t_sql E (texts [coll] (doc_delete (q_user q) coll i)) w) w = (Inr n, w')" "n \<noteq> 0"
    using assms(1) by (auto simp: sdk_Delete_def t_then_Inr split: if_splits)
  then have del: "n = affected (doc_hit coll i) (tn_docs (tw_db w))"
      "tn_docs (tw_db w') = filter (\<lambda>r. \<not> doc_hit coll i r) (tn_docs (tw_db w))"
    by (auto dest!: sdk_run_Inr simp: t_sql_Inr texts_Inr doc_delete_def)
  from del(1) run(2) obtain old where old: "doc_map (tn_docs (tw_db w)) i = Some old" "d_coll old = coll"
    by (auto simp: affected_hit [OF dist] split: option.splits if_splits)
  have map: "doc_map (tn_docs (tw_db w')) = (doc_map (tn_docs (tw_db w)))(i := None)"
    using doc_map_delete [OF dist, of coll i] old by (simp add: del(2))
  have "distinct (map d_id (tn_docs (tw_db w')))" using dist by (simp add: del(2) distinct_map_filter)
  from sdk_Get_healthy [OF assms(3,4) this, of i c'] map old show ?thesis by simp
qed

section \<open>A concrete tenant\<close>

definition demo_client :: "string \<Rightarrow> sdk_client" where
  "demo_client u = \<lparr>sd_cfg = \<lparr>cf_url = ''http://c'', cf_key = ''pwk_k''\<rparr>, sd_schema = ''p_demo'', sd_user = u, sd_root = (u = [])\<rparr>"

definition demo_tenv :: tenv where
  "demo_tenv = \<lparr>te_flt = (\<lambda>_. None), te_id = (\<lambda>n k. word_of_nat (100 * n + k)), te_clock = int, te_fl = id, te_fl32 = id\<rparr>"

definition demo_tenant :: tenant where
  "demo_tenant = \<lparr>tn_owner = ''p_demo'', tn_tables = [''pwrap_documents'', ''notes''],
     tn_triggers = [(''pwrap_documents_capture'', ''pwrap_documents'')], tn_docs = [], tn_log = [], tn_seq = 0,
     tn_jobs = [], tn_job_seq = 0, tn_embs = [], tn_geo = [], tn_views = [], tn_matviews = []\<rparr>"

definition demo_tworld :: tworld where
  "demo_tworld = \<lparr>tw_db = demo_tenant, tw_tick = 0\<rparr>"

text \<open>Two documents inserted by one user.\<close>

definition demo_docs :: tworld where
  "demo_docs = snd (sdk_InsertMany demo_tenv (demo_client ''ann'') ''todo'' [Inr (JObj [(''a'', JStr ''x'')]),
     Inr (JObj [(''a'', JStr ''y''), (''done'', JBool True)])] demo_tworld)"

lemma demo_docs_ok: "docs_ok demo_tenant"
  by (simp add: docs_ok_def demo_tenant_def doc_triggers_def replay_def doc_map_def)

lemma demo_answers: "healthy demo_tenv w"
  by (simp add: healthy_def demo_tenv_def)

lemma demo_inserted: "sdk_InsertMany demo_tenv (demo_client ''ann'') ''todo''
    (map (\<lambda>kvs. Inr (JObj kvs)) [[(''a'', JStr ''x'')], [(''a'', JStr ''y''), (''done'', JBool True)]]) demo_tworld =
  (Inr [200, 201], demo_docs)"
  unfolding demo_docs_def prod_eq_iff by (simp only: fst_conv snd_conv list.map) code_simp

lemma demo_docs_docs_ok: "docs_ok (tw_db demo_docs)"
  by (rule sdk_InsertMany_ok [OF demo_inserted]) (simp add: demo_tworld_def demo_docs_ok)


lemma Update_spec_witness:
  "fst (sdk_Update demo_tenv (demo_client ''bob'') ''todo'' 200 (Inr (Some [(''b'', JNull)])) demo_docs) = Inr () \<and>
   (\<exists>new. doc_map (tn_docs (tw_db (snd (sdk_Update demo_tenv (demo_client ''bob'') ''todo'' 200
      (Inr (Some [(''b'', JNull)])) demo_docs)))) 200 = Some new \<and> d_coll new = ''todo'')"
proof -
  let ?u = "sdk_Update demo_tenv (demo_client ''bob'') ''todo'' 200 (Inr (Some [(''b'', JNull)])) demo_docs"
  have u: "fst ?u = Inr ()" unfolding demo_docs_def by code_simp
  then have "?u = (Inr (), snd ?u)" by (metis prod.collapse)
  from Update_spec [OF this demo_docs_docs_ok] u show ?thesis by auto
qed

end
