(* ===== verification/Sdk_Matview.thy ===== *)
theory Sdk_Matview
  imports Sdk_Table
begin

text \<open>
  \<^verbatim>\<open>sdk/go/pwrap/matview.go\<close>: the registry of materialized views. A session has a role of the
  catalogue of theory Postgres; what a query text does is a parameter. The lemmas: who may refresh a registered view,
  when the registry and the views agree, and what a lost query leaves behind.
\<close>

section \<open>Statements on views\<close>

text \<open>
  \<open>ps_query\<close> is the error of analysing a query text, \<open>ps_rows\<close> that of running it, \<open>ps_unique\<close>
  whether a view has a unique index, \<open>ps_sha\<close> the hex SHA-256 of a text.
\<close>

record pg_session =
  ps_role :: string
  ps_cat :: pg
  ps_query :: "string \<Rightarrow> string option"
  ps_rows :: "string \<Rightarrow> string option"
  ps_unique :: "string \<Rightarrow> bool"
  ps_sha :: "string \<Rightarrow> string"

text \<open>Whether the session has the privileges of a role: its own, or one it was granted.\<close>

definition can_act :: "pg_session \<Rightarrow> string \<Rightarrow> bool" where
  "can_act S r \<longleftrightarrow> ps_role S = r \<or>
     (case pg_roles (ps_cat S) (ps_role S) of None \<Rightarrow> False | Some i \<Rightarrow> r \<in> set (ri_member_of i))"

definition find_view :: "string \<Rightarrow> tenant \<Rightarrow> view_row option" where
  "find_view name d = find (\<lambda>v. vw_name v = name) (tn_views d)"

definition upd_view :: "string \<Rightarrow> (view_row \<Rightarrow> view_row) \<Rightarrow> tenant \<Rightarrow> tenant" where
  "upd_view name f d = d\<lparr>tn_views := update_where (\<lambda>v. vw_name v = name) f (tn_views d)\<rparr>"

definition not_a_view :: "string \<Rightarrow> string" where
  "not_a_view name = pg_error (quoteIdent name @ '' is not a materialized view'') ''42809''"

definition no_relation :: "string \<Rightarrow> string" where
  "no_relation name = pg_error (''relation '' @ quoteIdent name @ '' does not exist'') ''42P01''"

definition must_own :: "string \<Rightarrow> string" where
  "must_own name = pg_error (''must be owner of materialized view '' @ name) ''42501''"

text \<open>
  \<^verbatim>\<open>CREATE MATERIALIZED VIEW IF NOT EXISTS\<close>: the query is analysed first; a relation with the name,
  of any kind, makes it a notice. The owner of a view or of its schema may drop it.
\<close>

definition create_view :: "pg_session \<Rightarrow> string \<Rightarrow> string \<Rightarrow> tenant \<Rightarrow> string + unit \<times> tenant" where
  "create_view S name q d = (case ps_query S q of Some e \<Rightarrow> Inl e
     | None \<Rightarrow> if \<not> can_act S (tn_owner d) then Inl (pg_error ''permission denied for schema'' ''42501'')
         else if find_view name d \<noteq> None \<or> name \<in> set (tn_tables d) then Inr ((), d)
         else Inr ((), d\<lparr>tn_views := tn_views d @ [\<lparr>vw_name = name, vw_query = q, vw_owner = ps_role S, vw_populated = False\<rparr>]\<rparr>))"

definition drop_view :: "pg_session \<Rightarrow> string \<Rightarrow> tenant \<Rightarrow> string + unit \<times> tenant" where
  "drop_view S name d = (if name \<in> set (tn_tables d) then Inl (not_a_view name)
     else case find_view name d of None \<Rightarrow> Inr ((), d)
     | Some v \<Rightarrow> if can_act S (vw_owner v) \<or> can_act S (tn_owner d)
         then Inr ((), d\<lparr>tn_views := filter (\<lambda>v. vw_name v \<noteq> name) (tn_views d)\<rparr>) else Inl (must_own name))"

definition own_view :: "pg_session \<Rightarrow> string \<Rightarrow> tenant \<Rightarrow> string + view_row" where
  "own_view S name d = (if name \<in> set (tn_tables d) then Inl (not_a_view name)
     else case find_view name d of None \<Rightarrow> Inl (no_relation name)
     | Some v \<Rightarrow> if can_act S (vw_owner v) then Inr v else Inl (must_own name))"

definition alter_owner :: "pg_session \<Rightarrow> string \<Rightarrow> string \<Rightarrow> tenant \<Rightarrow> string + unit \<times> tenant" where
  "alter_owner S name r d = (case own_view S name d of Inl e \<Rightarrow> Inl e
     | Inr v \<Rightarrow> if vw_owner v = r \<or> can_act S r then Inr ((), upd_view name (\<lambda>v. v\<lparr>vw_owner := r\<rparr>) d)
         else Inl (pg_error (''must be able to SET ROLE '' @ quoteIdent r) ''42501''))"

definition refresh_view :: "pg_session \<Rightarrow> bool \<Rightarrow> string \<Rightarrow> tenant \<Rightarrow> string + unit \<times> tenant" where
  "refresh_view S concurrent name d = (case own_view S name d of Inl e \<Rightarrow> Inl e
     | Inr v \<Rightarrow> if concurrent \<and> (\<not> vw_populated v \<or> \<not> ps_unique S name)
         then Inl (pg_error ''cannot refresh materialized view concurrently'' ''55000'')
         else case ps_rows S (vw_query v) of Some e \<Rightarrow> Inl e
         | None \<Rightarrow> Inr ((), upd_view name (\<lambda>v. v\<lparr>vw_populated := True\<rparr>) d))"

section \<open>matview.go\<close>

text \<open>The loop is over runes: one outside ASCII is refused like its first byte. The message is given without the rune.\<close>

fun sdk_chars :: "nat \<Rightarrow> string \<Rightarrow> unit result" where
  "sdk_chars i [] = Inr ()"
| "sdk_chars i (r # s) =
     (if \<not> ident_char r then Inl (Msg (''pwrap: matview: invalid char at pos '' @ show_nat i)) else sdk_chars (Suc i) s)"

definition sdk_validateIdent :: "string \<Rightarrow> unit result" where
  "sdk_validateIdent s = (if s = [] \<or> 63 < length s then Inl (Msg ''pwrap: matview: name must be 1..63 chars'')
     else sdk_chars 0 s)"

definition select_mv :: "string \<Rightarrow> tenant \<Rightarrow> matview_row option" where
  "select_mv name d = find (\<lambda>m. mv_name m = name) (tn_matviews d)"

definition upsert_mv :: "string \<Rightarrow> string \<Rightarrow> string \<Rightarrow> instant \<Rightarrow> tenant \<Rightarrow> string + unit \<times> tenant" where
  "upsert_mv name defn checksum now d = Inr ((),
     (if select_mv name d = None
      then d\<lparr>tn_matviews := tn_matviews d @ [\<lparr>mv_name = name, mv_definition = defn, mv_checksum = checksum,
             mv_last_refresh = None, mv_last_error = None, mv_enabled = True, mv_created = now, mv_updated = now\<rparr>]\<rparr>
      else d\<lparr>tn_matviews := update_where (\<lambda>m. mv_name m = name)
             (\<lambda>m. m\<lparr>mv_definition := defn, mv_checksum := checksum, mv_updated := now\<rparr>) (tn_matviews d)\<rparr>))"

definition chownToTenant :: "tenv \<Rightarrow> pg_session \<Rightarrow> string \<Rightarrow> tworld \<Rightarrow> unit tres" where
  "chownToTenant E S name w =
     t_then (t_wrap ''pwrap: matview: resolve schema owner: '' (t_query E tn_owner w)) (\<lambda>owner w.
       t_wrap ''pwrap: matview: set owner: '' (t_sql E (alter_owner S name owner) w))"

text \<open>Any error of the first query, not only \<^verbatim>\<open>pgx.ErrNoRows\<close>, means \<^verbatim>\<open>needsCreate\<close>.\<close>

definition Register :: "tenv \<Rightarrow> pg_session \<Rightarrow> string \<Rightarrow> string \<Rightarrow> tworld \<Rightarrow> unit tres" where
  "Register E S name defn w = (case sdk_validateIdent name of Inl e \<Rightarrow> (Inl e, w)
   | Inr _ \<Rightarrow> (let defn = trim_space defn in
      if defn = [] then (Inl (Msg ''pwrap: matview: definition is empty''), w)
      else let checksum = ps_sha S defn; (r, w) = t_query E (select_mv name) w;
               existing = (case r of Inr (Some m) \<Rightarrow> Some (mv_checksum m) | _ \<Rightarrow> None) in
        if existing = Some checksum then (Inr (), w)
        else t_then (if existing = None then (Inr (), w)
            else t_wrap ''pwrap: matview: drop stale: '' (t_sql E (drop_view S name) w)) (\<lambda>_ w.
          t_then (t_wrap ''pwrap: matview: create: '' (t_sql E (create_view S name defn) w)) (\<lambda>_ w.
            t_then (chownToTenant E S name w) (\<lambda>_ w.
              t_wrap ''pwrap: matview: registry: ''
                (t_sql E (texts [defn] (upsert_mv name defn checksum (te_clock E (tw_tick w)))) w))))))"

text \<open>The registry is updated whether the refresh succeeded or not; whether that update succeeds is ignored.\<close>

definition mv_refresh :: "tenv \<Rightarrow> pg_session \<Rightarrow> bool \<Rightarrow> string \<Rightarrow> tworld \<Rightarrow> unit tres" where
  "mv_refresh E S concurrent name w = (case sdk_validateIdent name of Inl e \<Rightarrow> (Inl e, w)
   | Inr _ \<Rightarrow> (let (r, w) = t_sql E (refresh_view S concurrent name) w;
        errMsg = (case r of Inl e \<Rightarrow> Some (err_text e) | Inr _ \<Rightarrow> None); now = te_clock E (tw_tick w);
        (_, w) = t_sql E (texts (case errMsg of None \<Rightarrow> [] | Some s \<Rightarrow> [s]) (\<lambda>d. Inr ((), d\<lparr>tn_matviews :=
          update_where (\<lambda>m. mv_name m = name) (\<lambda>m. m\<lparr>mv_last_refresh := (if errMsg = None then Some now else mv_last_refresh m),
            mv_last_error := errMsg, mv_updated := now\<rparr>) (tn_matviews d)\<rparr>))) w
      in case r of Inl e \<Rightarrow> (Inl (Wrap ''pwrap: matview refresh: '' e), w) | Inr _ \<Rightarrow> (Inr (), w)))"

definition Refresh :: "tenv \<Rightarrow> pg_session \<Rightarrow> string \<Rightarrow> tworld \<Rightarrow> unit tres" where
  "Refresh E S = mv_refresh E S False"

definition RefreshConcurrent :: "tenv \<Rightarrow> pg_session \<Rightarrow> string \<Rightarrow> tworld \<Rightarrow> unit tres" where
  "RefreshConcurrent E S = mv_refresh E S True"

definition mv_Drop :: "tenv \<Rightarrow> pg_session \<Rightarrow> string \<Rightarrow> tworld \<Rightarrow> unit tres" where
  "mv_Drop E S name w = (case sdk_validateIdent name of Inl e \<Rightarrow> (Inl e, w)
   | Inr _ \<Rightarrow> t_then (t_sql E (drop_view S name) w) (\<lambda>_ w.
       t_sql E (\<lambda>d. Inr ((), d\<lparr>tn_matviews := filter (\<lambda>m. mv_name m \<noteq> name) (tn_matviews d)\<rparr>)) w))"

text \<open>The result of \<^verbatim>\<open>Info\<close> is the row, its \<^verbatim>\<open>LastError\<close> empty for NULL.\<close>

definition mv_Info :: "tenv \<Rightarrow> string \<Rightarrow> tworld \<Rightarrow> matview_row tres" where
  "mv_Info E name w = t_then (t_sql E (texts [name] (\<lambda>d. Inr (select_mv name d, d))) w) (\<lambda>m w.
     case m of None \<Rightarrow> (Inl (Sentinel ErrNoRows), w)
     | Some m \<Rightarrow> (Inr (m\<lparr>mv_last_error := Some (case mv_last_error m of None \<Rightarrow> [] | Some e \<Rightarrow> e)\<rparr>), w))"

section \<open>Lemmas\<close>

lemma sdk_chars_ok: "sdk_chars i s = Inr () \<longleftrightarrow> (\<forall>c \<in> set s. ident_char c)"
  by (induction s arbitrary: i) auto

lemma sdk_validateIdent_ok:
  "sdk_validateIdent s = Inr () \<longleftrightarrow> s \<noteq> [] \<and> length s \<le> 63 \<and> (\<forall>c \<in> set s. ident_char c)"
  by (auto simp: sdk_validateIdent_def sdk_chars_ok)

text \<open>The check of the SDK and the one of the control plane accept the same names; such a name is quoted as it is.\<close>

lemma sdk_validateIdent_same: "sdk_validateIdent s = Inr () \<longleftrightarrow> validateIdent s = Inr ()"
  by (simp add: sdk_validateIdent_ok validateIdent_ok)

lemma find_update_where:
  "(\<And>r. k (f r) = k r) \<Longrightarrow> find (\<lambda>r. k r = n) (update_where (\<lambda>r. k r = m) f rs) =
     map_option (\<lambda>r. if n = m then f r else r) (find (\<lambda>r. k r = n) rs)"
  by (induction rs) (auto simp: update_where_def)

lemma find_filter_other: "find (\<lambda>r. k r = n) (filter (\<lambda>r. k r \<noteq> m) rs) = (if n = m then None else find (\<lambda>r. k r = n) rs)"
  by (induction rs) auto

lemma find_append: "find P (xs @ ys) = (case find P xs of None \<Rightarrow> find P ys | Some x \<Rightarrow> Some x)"
  by (induction xs) auto

text \<open>
  The registry and the views agree: per name there is a view if and only if there is a row, with the same
  query; the checksum is that of the query, the view belongs to the owner of the schema, and no table has its name.
\<close>

definition view_matches :: "pg_session \<Rightarrow> string \<Rightarrow> view_row \<Rightarrow> matview_row \<Rightarrow> bool" where
  "view_matches S ow v m \<longleftrightarrow> vw_owner v = ow \<and> vw_query v = mv_definition m \<and> mv_checksum m = ps_sha S (mv_definition m)"

definition registry_ok :: "pg_session \<Rightarrow> tenant \<Rightarrow> bool" where
  "registry_ok S d \<longleftrightarrow> (\<forall>n. case find_view n d of None \<Rightarrow> select_mv n d = None
     | Some v \<Rightarrow> n \<notin> set (tn_tables d) \<and> (\<exists>m. select_mv n d = Some m \<and> view_matches S (tn_owner d) v m))"

lemma registry_okE:
  assumes "registry_ok S d"
  obtains "find_view n d = None" "select_mv n d = None"
  | v m where "find_view n d = Some v" "select_mv n d = Some m" "view_matches S (tn_owner d) v m" "n \<notin> set (tn_tables d)"
  using spec [OF assms [unfolded registry_ok_def], of n] by (auto split: option.splits)

lemma select_upsert:
  "upsert_mv name defn ck now d = Inr (u, d') \<Longrightarrow> tn_views d' = tn_views d \<and> tn_tables d' = tn_tables d \<and>
     tn_owner d' = tn_owner d \<and> (\<forall>n. n \<noteq> name \<longrightarrow> select_mv n d' = select_mv n d) \<and>
     (\<exists>m. select_mv name d' = Some m \<and> mv_definition m = defn \<and> mv_checksum m = ck)"
  by (cases "select_mv name d")
    (auto simp: upsert_mv_def select_mv_def find_append find_update_where option.map_ident split: option.splits)

text \<open>A session that may act as the schema's owner replaces the view, whatever its owner is.\<close>

lemma drop_view_owner:
  "can_act S (tn_owner d) \<Longrightarrow> name \<notin> set (tn_tables d) \<Longrightarrow>
     drop_view S name d = Inr ((), d\<lparr>tn_views := filter (\<lambda>v. vw_name v \<noteq> name) (tn_views d)\<rparr>)"
  by (auto simp: drop_view_def find_view_def find_None_iff intro!: filter_True split: option.splits)

lemma find_view_drop: "find_view n (d\<lparr>tn_views := filter (\<lambda>v. vw_name v \<noteq> name) (tn_views d)\<rparr>) =
    (if n = name then None else find_view n d)"
  by (simp add: find_view_def find_filter_other)

lemma create_then_own:
  assumes "can_act S (tn_owner d)" "name \<notin> set (tn_tables d)" "find_view name d = None" "ps_query S q = None"
  shows "\<exists>d1 d2. create_view S name q d = Inr ((), d1) \<and> tn_owner d1 = tn_owner d \<and>
    alter_owner S name (tn_owner d) d1 = Inr ((), d2) \<and> tn_owner d2 = tn_owner d \<and> tn_tables d2 = tn_tables d \<and>
    tn_matviews d2 = tn_matviews d \<and> (\<forall>n. n \<noteq> name \<longrightarrow> find_view n d2 = find_view n d) \<and>
    find_view name d2 = Some \<lparr>vw_name = name, vw_query = q, vw_owner = tn_owner d, vw_populated = False\<rparr>"
proof -
  let ?v = "\<lparr>vw_name = name, vw_query = q, vw_owner = ps_role S, vw_populated = False\<rparr>"
  let ?d1 = "d\<lparr>tn_views := tn_views d @ [?v]\<rparr>"
  let ?d2 = "upd_view name (\<lambda>v. v\<lparr>vw_owner := tn_owner d\<rparr>) ?d1"
  have v: "find_view name ?d1 = Some ?v" using assms(3) by (simp add: find_view_def find_append)
  have "create_view S name q d = Inr ((), ?d1)" using assms by (simp add: create_view_def)
  moreover have "alter_owner S name (tn_owner d) ?d1 = Inr ((), ?d2)"
    using assms v by (simp add: alter_owner_def own_view_def can_act_def)
  moreover have "find_view n ?d2 = (if n = name then Some (?v\<lparr>vw_owner := tn_owner d\<rparr>) else find_view n d)" for n
    using v by (simp add: find_view_def upd_view_def find_update_where find_append split: option.splits)
  ultimately show ?thesis
    by (intro exI [of _ ?d1] exI [of _ ?d2]) (simp add: upd_view_def)
qed

text \<open>The last three steps, from a schema that has no view of the name.\<close>

definition reg_create :: "tenv \<Rightarrow> pg_session \<Rightarrow> string \<Rightarrow> string \<Rightarrow> tworld \<Rightarrow> unit tres" where
  "reg_create E S name defn w = t_then (t_wrap ''pwrap: matview: create: '' (t_sql E (create_view S name defn) w)) (\<lambda>_ w.
     t_then (chownToTenant E S name w) (\<lambda>_ w. t_wrap ''pwrap: matview: registry: ''
       (t_sql E (texts [defn] (upsert_mv name defn (ps_sha S defn) (te_clock E (tw_tick w)))) w)))"

lemma reg_create_ok:
  assumes "healthy E w" "can_act S (tn_owner (tw_db w))" "name \<notin> set (tn_tables (tw_db w))"
    and "find_view name (tw_db w) = None" "ps_query S defn = None" "pg_text defn"
  obtains w' where "reg_create E S name defn w = (Inr (), w')" "healthy E w'"
    "tn_owner (tw_db w') = tn_owner (tw_db w)" "tn_tables (tw_db w') = tn_tables (tw_db w)"
    "\<forall>n. n \<noteq> name \<longrightarrow> find_view n (tw_db w') = find_view n (tw_db w) \<and> select_mv n (tw_db w') = select_mv n (tw_db w)"
    "find_view name (tw_db w') = Some \<lparr>vw_name = name, vw_query = defn, vw_owner = tn_owner (tw_db w), vw_populated = False\<rparr>"
    "\<exists>m. select_mv name (tw_db w') = Some m \<and> mv_definition m = defn \<and> mv_checksum m = ps_sha S defn"
proof -
  let ?tick = "\<lambda>k. w\<lparr>tw_tick := k + tw_tick w\<rparr>"
  from create_then_own [OF assms(2-5)] obtain d1 d2 where
    c: "create_view S name defn (tw_db w) = Inr ((), d1)" "tn_owner d1 = tn_owner (tw_db w)"
    and a: "alter_owner S name (tn_owner (tw_db w)) d1 = Inr ((), d2)" "tn_owner d2 = tn_owner (tw_db w)"
      "tn_tables d2 = tn_tables (tw_db w)" "tn_matviews d2 = tn_matviews (tw_db w)"
      "\<forall>n. n \<noteq> name \<longrightarrow> find_view n d2 = find_view n (tw_db w)"
      "find_view name d2 = Some \<lparr>vw_name = name, vw_query = defn, vw_owner = tn_owner (tw_db w), vw_populated = False\<rparr>"
    by blast
  define w1 where "w1 = w\<lparr>tw_tick := Suc (tw_tick w), tw_db := d1\<rparr>"
  define w2 where "w2 = w1\<lparr>tw_tick := Suc (tw_tick w1)\<rparr>"
  define w3 where "w3 = w2\<lparr>tw_tick := Suc (tw_tick w2), tw_db := d2\<rparr>"
  define now where "now = te_clock E (tw_tick w3)"
  obtain d4 where d4: "upsert_mv name defn (ps_sha S defn) now d2 = Inr ((), d4)" by (simp add: upsert_mv_def)
  define w4 where "w4 = w3\<lparr>tw_tick := Suc (tw_tick w3), tw_db := d4\<rparr>"
  have h: "healthy E w1" "healthy E w2" "healthy E w3" "healthy E w4"
    using assms(1) by (auto simp: healthy_def w1_def w2_def w3_def w4_def)
  have s1: "t_sql E (create_view S name defn) w = (Inr (), w1)"
    using assms(1) c by (simp add: t_sql_healthy w1_def)
  have s2: "t_query E tn_owner w1 = (Inr (tn_owner (tw_db w)), w2)"
    using h(1) c by (simp add: t_query_healthy w2_def) (simp add: w1_def)
  have s3: "t_sql E (alter_owner S name (tn_owner (tw_db w))) w2 = (Inr (), w3)"
    using h(2) a(1) by (simp add: t_sql_healthy w3_def w2_def w1_def)
  have s4: "t_sql E (texts [defn] (upsert_mv name defn (ps_sha S defn) now)) w3 = (Inr (), w4)"
    using h(3) d4 assms(6) by (simp add: t_sql_healthy texts_def w4_def w3_def)
  have run: "reg_create E S name defn w = (Inr (), w4)"
    by (simp add: reg_create_def chownToTenant_def s1 s2 s3 t_wrap_def flip: now_def) (simp add: s4)
  have db: "tw_db w4 = d4" by (simp add: w4_def)
  note up = select_upsert [OF d4]
  have "select_mv n d2 = select_mv n (tw_db w)" for n by (simp add: select_mv_def a(4))
  moreover have "find_view n d4 = find_view n d2" for n using up by (simp add: find_view_def)
  ultimately show thesis using that [OF run h(4)] up a(2,3,5,6) by (simp add: db)
qed

lemma Register_unfold:
  assumes "sdk_validateIdent name = Inr ()" "trim_space defn \<noteq> []" "healthy E w"
  shows "Register E S name defn w = (let w1 = w\<lparr>tw_tick := Suc (tw_tick w)\<rparr>;
      existing = map_option mv_checksum (select_mv name (tw_db w)) in
    if existing = Some (ps_sha S (trim_space defn)) then (Inr (), w1)
    else t_then (if existing = None then (Inr (), w1)
      else t_wrap ''pwrap: matview: drop stale: '' (t_sql E (drop_view S name) w1))
        (\<lambda>_. reg_create E S name (trim_space defn)))"
  using assms by (simp add: Register_def Let_def t_query_healthy reg_create_def [abs_def] split: option.splits)

text \<open>Registering establishes the agreement of the registry, the query and the owner, and touches no other view.\<close>

lemma Register_ok:
  assumes "healthy E w" "registry_ok S (tw_db w)" "can_act S (tn_owner (tw_db w))" "sdk_validateIdent name = Inr ()"
    and "name \<notin> set (tn_tables (tw_db w))" "trim_space defn \<noteq> []" "pg_text (trim_space defn)"
    and "ps_query S (trim_space defn) = None"
    and coll: "\<forall>m. select_mv name (tw_db w) = Some m \<longrightarrow> mv_checksum m = ps_sha S (trim_space defn) \<longrightarrow>
      mv_definition m = trim_space defn"
  shows "\<exists>w'. Register E S name defn w = (Inr (), w') \<and> healthy E w' \<and> registry_ok S (tw_db w') \<and>
    tn_owner (tw_db w') = tn_owner (tw_db w) \<and>
    (\<exists>v. find_view name (tw_db w') = Some v \<and> vw_query v = trim_space defn \<and> vw_owner v = tn_owner (tw_db w)) \<and>
    (\<forall>n. n \<noteq> name \<longrightarrow> find_view n (tw_db w') = find_view n (tw_db w))"
proof -
  let ?defn = "trim_space defn"
  let ?w1 = "w\<lparr>tw_tick := Suc (tw_tick w)\<rparr>"
  have h1: "healthy E ?w1" using assms(1) by (auto intro: healthy_later)
  have create: ?thesis
    if w2: "healthy E w2" "tn_owner (tw_db w2) = tn_owner (tw_db w)" "tn_tables (tw_db w2) = tn_tables (tw_db w)"
      "find_view name (tw_db w2) = None"
      "\<forall>n. n \<noteq> name \<longrightarrow> find_view n (tw_db w2) = find_view n (tw_db w) \<and> select_mv n (tw_db w2) = select_mv n (tw_db w)"
      and reg: "Register E S name defn w = reg_create E S name ?defn w2" for w2
  proof (rule reg_create_ok [OF w2(1), of S name ?defn])
    fix w' assume r: "reg_create E S name ?defn w2 = (Inr (), w')" "healthy E w'"
      "tn_owner (tw_db w') = tn_owner (tw_db w2)" "tn_tables (tw_db w') = tn_tables (tw_db w2)"
      "\<forall>n. n \<noteq> name \<longrightarrow> find_view n (tw_db w') = find_view n (tw_db w2) \<and> select_mv n (tw_db w') = select_mv n (tw_db w2)"
      "find_view name (tw_db w') = Some \<lparr>vw_name = name, vw_query = ?defn, vw_owner = tn_owner (tw_db w2), vw_populated = False\<rparr>"
      "\<exists>m. select_mv name (tw_db w') = Some m \<and> mv_definition m = ?defn \<and> mv_checksum m = ps_sha S ?defn"
    have "registry_ok S (tw_db w')" unfolding registry_ok_def
    proof
      fix n show "case find_view n (tw_db w') of None \<Rightarrow> select_mv n (tw_db w') = None
         | Some v \<Rightarrow> n \<notin> set (tn_tables (tw_db w')) \<and>
             (\<exists>m. select_mv n (tw_db w') = Some m \<and> view_matches S (tn_owner (tw_db w')) v m)"
      proof (cases "n = name")
        case True
        with r w2 assms(5) show ?thesis by (auto simp: view_matches_def)
      next
        case False
        with r(3-5) w2(2,3,5) spec [OF assms(2) [unfolded registry_ok_def], of n] show ?thesis
          by (simp split: option.splits)
      qed
    qed
    with r w2 reg show ?thesis by auto
  qed (use w2 assms in simp_all)
  show ?thesis
  proof (cases "select_mv name (tw_db w)")
    case None
    then have "find_view name (tw_db w) = None" by (cases rule: registry_okE [OF assms(2), of name]) simp_all
    with None show ?thesis
      by (intro create [of ?w1]) (use h1 assms in \<open>simp_all add: Register_unfold\<close>)
  next
    case (Some m)
    then obtain v where v: "find_view name (tw_db w) = Some v" "view_matches S (tn_owner (tw_db w)) v m"
      by (cases rule: registry_okE [OF assms(2), of name]) simp_all
    show ?thesis
    proof (cases "mv_checksum m = ps_sha S ?defn")
      case True
      with Some coll v assms h1 show ?thesis
        by (intro exI [of _ ?w1]) (simp add: Register_unfold view_matches_def)
    next
      case False
      let ?d2 = "(tw_db w)\<lparr>tn_views := filter (\<lambda>v. vw_name v \<noteq> name) (tn_views (tw_db w))\<rparr>"
      let ?w2 = "w\<lparr>tw_tick := Suc (Suc (tw_tick w)), tw_db := ?d2\<rparr>"
      have "t_sql E (drop_view S name) ?w1 = (Inr (), ?w2)"
        using h1 drop_view_owner [OF assms(3,5)] by (simp add: t_sql_healthy)
      with Some False assms have "Register E S name defn w = reg_create E S name ?defn ?w2"
        by (simp add: Register_unfold t_wrap_def)
      then show ?thesis
        by (intro create [of ?w2]) (use assms(1) in \<open>simp_all add: find_view_drop select_mv_def healthy_def\<close>)
    qed
  qed
qed

text \<open>Whoever may act as the owner refreshes the view.\<close>

lemma refresh_ok:
  assumes "healthy E w" "find_view name (tw_db w) = Some v" "can_act S (vw_owner v)" "name \<notin> set (tn_tables (tw_db w))"
    and "sdk_validateIdent name = Inr ()" "ps_rows S (vw_query v) = None"
  shows "\<exists>w'. Refresh E S name w = (Inr (), w') \<and> find_view name (tw_db w') = Some (v\<lparr>vw_populated := True\<rparr>) \<and>
    (\<forall>m. select_mv name (tw_db w) = Some m \<longrightarrow> (\<exists>t. select_mv name (tw_db w') =
       Some (m\<lparr>mv_last_refresh := Some t, mv_last_error := None, mv_updated := t\<rparr>)))"
proof -
  let ?d1 = "upd_view name (\<lambda>v. v\<lparr>vw_populated := True\<rparr>) (tw_db w)"
  let ?w1 = "w\<lparr>tw_tick := Suc (tw_tick w), tw_db := ?d1\<rparr>"
  have s: "t_sql E (refresh_view S False name) w = (Inr (), ?w1)"
    using assms by (simp add: t_sql_healthy refresh_view_def own_view_def)
  have h: "healthy E ?w1" using assms(1) by (simp add: healthy_def)
  show ?thesis
    using assms(2,5) h by (simp add: Refresh_def mv_refresh_def s t_sql_healthy texts_def find_view_def upd_view_def
        select_mv_def find_update_where Let_def) auto
qed

text \<open>Whoever may not gets the server's refusal, and the registry records it.\<close>

lemma refresh_refused:
  assumes "healthy E w" "find_view name (tw_db w) = Some v" "\<not> can_act S (vw_owner v)" "name \<notin> set (tn_tables (tw_db w))"
    and "sdk_validateIdent name = Inr ()" "pg_text (must_own name)"
  shows "\<exists>w'. Refresh E S name w = (Inl (Wrap ''pwrap: matview refresh: '' (Ext (must_own name))), w') \<and>
    find_view name (tw_db w') = Some v \<and>
    (\<forall>m. select_mv name (tw_db w) = Some m \<longrightarrow> (\<exists>t. select_mv name (tw_db w') =
       Some (m\<lparr>mv_last_error := Some (must_own name), mv_updated := t\<rparr>)))"
proof -
  have s: "t_sql E (refresh_view S False name) w = (Inl (Ext (must_own name)), w\<lparr>tw_tick := Suc (tw_tick w)\<rparr>)"
    using assms by (simp add: t_sql_healthy refresh_view_def own_view_def)
  have h: "healthy E (w\<lparr>tw_tick := Suc (tw_tick w)\<rparr>)" using assms(1) by (simp add: healthy_def)
  show ?thesis
    using assms(2,5,6) h by (simp add: Refresh_def mv_refresh_def s t_sql_healthy texts_def find_view_def
        select_mv_def find_update_where Let_def) auto
qed

section \<open>Properties of views\<close>

text \<open>
  A view registered by one of the project's credentials is refreshed by any other: after
  \<^verbatim>\<open>Register\<close> the view has the given query and belongs to the owner of the schema, the registry and the
  views agree and no other view has changed; and then \<^verbatim>\<open>Refresh\<close> by any session that inherits the owner
  succeeds and is recorded, even when the credential that registered the view is gone.
\<close>

lemma registered_view_refreshes:
  assumes "healthy E w" "registry_ok S (tw_db w)" "can_act S (tn_owner (tw_db w))" "sdk_validateIdent name = Inr ()"
    and "name \<notin> set (tn_tables (tw_db w))" "trim_space defn \<noteq> []" "pg_text (trim_space defn)"
    and "ps_query S (trim_space defn) = None"
    and "\<forall>m. select_mv name (tw_db w) = Some m \<longrightarrow> mv_checksum m = ps_sha S (trim_space defn) \<longrightarrow>
      mv_definition m = trim_space defn"
    and "can_act S' (tn_owner (tw_db w))" "ps_rows S' (trim_space defn) = None"
  shows "\<exists>w1 w2 v m t. Register E S name defn w = (Inr (), w1) \<and> registry_ok S (tw_db w1) \<and>
    (\<forall>n. n \<noteq> name \<longrightarrow> find_view n (tw_db w1) = find_view n (tw_db w)) \<and>
    find_view name (tw_db w1) = Some v \<and> vw_query v = trim_space defn \<and> vw_owner v = tn_owner (tw_db w) \<and>
    Refresh E S' name w1 = (Inr (), w2) \<and> find_view name (tw_db w2) = Some (v\<lparr>vw_populated := True\<rparr>) \<and>
    select_mv name (tw_db w2) = Some m \<and> mv_definition m = trim_space defn \<and> mv_last_refresh m = Some t \<and>
    mv_last_error m = None"
proof -
  from Register_ok [OF assms(1-9)] obtain w1 v where r: "Register E S name defn w = (Inr (), w1)" "healthy E w1"
      "registry_ok S (tw_db w1)" "tn_owner (tw_db w1) = tn_owner (tw_db w)"
      "\<forall>n. n \<noteq> name \<longrightarrow> find_view n (tw_db w1) = find_view n (tw_db w)"
    and v: "find_view name (tw_db w1) = Some v" "vw_query v = trim_space defn" "vw_owner v = tn_owner (tw_db w)" by blast
  from spec [OF r(3) [unfolded registry_ok_def], of name] v obtain m where
    m: "name \<notin> set (tn_tables (tw_db w1))" "select_mv name (tw_db w1) = Some m" "mv_definition m = trim_space defn"
    by (auto simp: view_matches_def)
  have "\<exists>w2. Refresh E S' name w1 = (Inr (), w2) \<and> find_view name (tw_db w2) = Some (v\<lparr>vw_populated := True\<rparr>) \<and>
    (\<forall>m. select_mv name (tw_db w1) = Some m \<longrightarrow> (\<exists>t. select_mv name (tw_db w2) =
       Some (m\<lparr>mv_last_refresh := Some t, mv_last_error := None, mv_updated := t\<rparr>)))"
    by (rule refresh_ok [OF r(2) v(1) _ m(1) assms(4)]) (use v assms(10,11) in simp_all)
  then obtain w2 t where w2: "Refresh E S' name w1 = (Inr (), w2)" "find_view name (tw_db w2) = Some (v\<lparr>vw_populated := True\<rparr>)"
      "select_mv name (tw_db w2) = Some (m\<lparr>mv_last_refresh := Some t, mv_last_error := None, mv_updated := t\<rparr>)"
    using m(2) by blast
  show ?thesis
    by (rule exI [of _ w1], rule exI [of _ w2], rule exI [of _ v],
        rule exI [of _ "m\<lparr>mv_last_refresh := Some t, mv_last_error := None, mv_updated := t\<rparr>"], rule exI [of _ t])
      (use r v w2 m in simp)
qed

text \<open>
  When the query for the registered checksum fails, whatever the reason, \<^verbatim>\<open>Register\<close>
  goes on as for a new view: it reports success although an existing view keeps its old query, and records the
  new definition, so that later calls with it do nothing.
\<close>

lemma Register_lost_query_drifts:
  assumes "te_flt E (tw_tick w) \<noteq> None" "healthy E (w\<lparr>tw_tick := Suc (tw_tick w)\<rparr>)" "registry_ok S (tw_db w)"
    and "can_act S (tn_owner (tw_db w))" "sdk_validateIdent name = Inr ()" "trim_space defn \<noteq> []"
    and "pg_text (trim_space defn)" "ps_query S (trim_space defn) = None"
    and "find_view name (tw_db w) = Some v" "vw_query v \<noteq> trim_space defn"
  shows "\<exists>w1 v' m. Register E S name defn w = (Inr (), w1) \<and> find_view name (tw_db w1) = Some v' \<and>
    vw_query v' = vw_query v \<and> select_mv name (tw_db w1) = Some m \<and> mv_definition m = trim_space defn \<and>
    \<not> registry_ok S (tw_db w1) \<and>
    (\<forall>w2. tw_db w2 = tw_db w1 \<longrightarrow> healthy E w2 \<longrightarrow>
       Register E S name defn w2 = (Inr (), w2\<lparr>tw_tick := Suc (tw_tick w2)\<rparr>))"
proof -
  let ?defn = "trim_space defn"
  obtain m where m: "select_mv name (tw_db w) = Some m" "view_matches S (tn_owner (tw_db w)) v m" "name \<notin> set (tn_tables (tw_db w))"
    using assms(9) by (cases rule: registry_okE [OF assms(3), of name]) simp_all
  have ow: "vw_owner v = tn_owner (tw_db w)" using m(2) by (simp add: view_matches_def)
  define d1 where "d1 = upd_view name (\<lambda>v. v\<lparr>vw_owner := tn_owner (tw_db w)\<rparr>) (tw_db w)"
  define w1 where "w1 = w\<lparr>tw_tick := Suc (tw_tick w)\<rparr>"
  define w2 where "w2 = w1\<lparr>tw_tick := Suc (tw_tick w1)\<rparr>"
  define w3 where "w3 = w2\<lparr>tw_tick := Suc (tw_tick w2)\<rparr>"
  define w4 where "w4 = w3\<lparr>tw_tick := Suc (tw_tick w3), tw_db := d1\<rparr>"
  define now where "now = te_clock E (tw_tick w4)"
  obtain d5 where d5: "upsert_mv name ?defn (ps_sha S ?defn) now d1 = Inr ((), d5)" by (simp add: upsert_mv_def)
  define w5 where "w5 = w4\<lparr>tw_tick := Suc (tw_tick w4), tw_db := d5\<rparr>"
  have h: "healthy E w1" "healthy E w2" "healthy E w3" "healthy E w4"
    using assms(2) by (auto simp: healthy_def w1_def w2_def w3_def w4_def)
  have s1: "t_query E (select_mv name) w = (Inl (Ext (the (te_flt E (tw_tick w)))), w1)"
    using assms(1) by (auto simp: t_query_def t_sql_def w1_def)
  have s2: "t_sql E (create_view S name ?defn) w1 = (Inr (), w2)"
    using h(1) assms(4,8,9) by (simp add: t_sql_healthy create_view_def w2_def w1_def)
  have s3: "t_query E tn_owner w2 = (Inr (tn_owner (tw_db w)), w3)"
    using h(2) by (simp add: t_query_healthy w3_def) (simp add: w2_def w1_def)
  have s4: "t_sql E (alter_owner S name (tn_owner (tw_db w))) w3 = (Inr (), w4)"
    using h(3) assms(4,9) m(3) ow
    by (simp add: t_sql_healthy alter_owner_def own_view_def w4_def d1_def w3_def w2_def w1_def)
  have s5: "t_sql E (texts [?defn] (upsert_mv name ?defn (ps_sha S ?defn) now)) w4 = (Inr (), w5)"
    using h(4) d5 assms(7) by (simp add: t_sql_healthy texts_def w5_def w4_def)
  have reg: "Register E S name defn w = (Inr (), w5)"
    using assms(5,6) by (simp add: Register_def Let_def s1 s2 chownToTenant_def s3 s4 t_wrap_def flip: now_def) (simp add: s5)
  note up = select_upsert [OF d5]
  obtain m' where m': "select_mv name d5 = Some m'" "mv_definition m' = ?defn" "mv_checksum m' = ps_sha S ?defn"
    using up by blast
  have "find_view name d5 = find_view name d1" using up by (simp add: find_view_def)
  also have "\<dots> = Some (v\<lparr>vw_owner := tn_owner (tw_db w)\<rparr>)"
    using assms(9) by (simp add: d1_def upd_view_def find_view_def find_update_where)
  finally have v': "find_view name d5 = Some (v\<lparr>vw_owner := tn_owner (tw_db w)\<rparr>)" .
  have "\<not> registry_ok S d5"
  proof
    assume "registry_ok S d5"
    then show False
      by (cases rule: registry_okE [of S d5 name]) (use v' m' assms(10) in \<open>auto simp: view_matches_def\<close>)
  qed
  moreover have "Register E S name defn w' = (Inr (), w'\<lparr>tw_tick := Suc (tw_tick w')\<rparr>)"
    if "tw_db w' = d5" "healthy E w'" for w'
    using that m' assms(5,6) by (simp add: Register_unfold Let_def)
  ultimately show ?thesis
    by (intro exI [of _ w5] exI [of _ "v\<lparr>vw_owner := tn_owner (tw_db w)\<rparr>"] exI [of _ m'])
      (simp add: reg v' m' w5_def)
qed

section \<open>A concrete schema\<close>

text \<open>Two credentials of a project, both members of the tenant's role.\<close>

definition demo_pg :: pg where
  "demo_pg = \<lparr>pg_roles = (\<lambda>r. if r = ''eph_1'' \<or> r = ''eph_2'' then Some \<lparr>ri_login = True, ri_password = None,
     ri_valid_until = None, ri_member_of = [''p_demo''], ri_settings = []\<rparr> else None), pg_schemas = [], pg_tables = (\<lambda>_ _. None),
     pg_usage = (\<lambda>_. False)\<rparr>"

definition demo_session :: "string \<Rightarrow> pg_session" where
  "demo_session r = \<lparr>ps_role = r, ps_cat = demo_pg, ps_query = (\<lambda>_. None), ps_rows = (\<lambda>_. None),
     ps_unique = (\<lambda>_. False), ps_sha = id\<rparr>"

lemma demo_can_act: "can_act (demo_session ''eph_1'') (tn_owner demo_tenant)" "can_act (demo_session ''eph_2'') (tn_owner demo_tenant)"
  by code_simp+

lemma demo_facts: "tw_db demo_tworld = demo_tenant" "select_mv n demo_tenant = None" "ps_query (demo_session r) q = None"
    "ps_rows (demo_session r) q = None"
  by (simp_all add: demo_tworld_def demo_tenant_def select_mv_def demo_session_def)

end
