(* ===== verification/Sdk_Capture.thy ===== *)
theory Sdk_Capture
  imports Sdk_Matview
begin

text \<open>
  \<^verbatim>\<open>sdk/go/pwrap/changecapture.go\<close>: attaching and removing the capture trigger of a table; and the
  change log over any run of clients: it stays complete, and attributes every change to the client's user.
\<close>

section \<open>changecapture.go\<close>

text \<open>
  \<^verbatim>\<open>DROP TRIGGER IF EXISTS\<close>: without the trigger or the table, a notice. Postgres cuts the names.
\<close>

definition drop_trigger :: "string \<Rightarrow> string \<Rightarrow> tenant \<Rightarrow> string + unit \<times> tenant" where
  "drop_trigger g t d = Inr ((), d\<lparr>tn_triggers := removeAll (trunc g, trunc t) (tn_triggers d)\<rparr>)"

definition create_trigger :: "string \<Rightarrow> string \<Rightarrow> tenant \<Rightarrow> string + unit \<times> tenant" where
  "create_trigger g t d =
     (if trunc t \<notin> set (tn_tables d) then Inl (no_relation t)
      else if (trunc g, trunc t) \<in> set (tn_triggers d)
      then Inl (pg_error (''trigger '' @ quoteIdent g @ '' for relation '' @ quoteIdent t @ '' already exists'') ''42710'')
      else Inr ((), d\<lparr>tn_triggers := tn_triggers d @ [(trunc g, trunc t)]\<rparr>))"

definition wrap_r :: "string \<Rightarrow> 'a result \<Rightarrow> 'a result" where
  "wrap_r s r = (case r of Inl e \<Rightarrow> Inl (Wrap s e) | Inr x \<Rightarrow> Inr x)"

definition capture_trigger :: "string \<Rightarrow> string" where
  "capture_trigger table = ''pwrap_capture_'' @ table"

definition EnableChangeCapture :: "tenv \<Rightarrow> string \<Rightarrow> tworld \<Rightarrow> unit tres" where
  "EnableChangeCapture E table w = (case wrap_r ''pwrap: change capture: '' (sdk_validateIdent table) of
      Inl e \<Rightarrow> (Inl e, w)
    | Inr _ \<Rightarrow> (let trig = capture_trigger table in
        case wrap_r ''pwrap: change capture: trigger name: '' (sdk_validateIdent trig) of
          Inl e \<Rightarrow> (Inl e, w)
        | Inr _ \<Rightarrow> t_then (t_wrap ''pwrap: change capture: drop existing: '' (t_sql E (drop_trigger trig table) w)) (\<lambda>_ w.
            t_wrap ''pwrap: change capture: '' (t_sql E (create_trigger trig table) w))))"

definition DisableChangeCapture :: "tenv \<Rightarrow> string \<Rightarrow> tworld \<Rightarrow> unit tres" where
  "DisableChangeCapture E table w = (case wrap_r ''pwrap: change capture: '' (sdk_validateIdent table) of
      Inl e \<Rightarrow> (Inl e, w)
    | Inr _ \<Rightarrow> t_sql E (drop_trigger (capture_trigger table) table) w)"

section \<open>Lemmas\<close>

lemma trunc_short: "length s \<le> 63 \<Longrightarrow> trunc s = s"
  by (simp add: trunc_def)

text \<open>No trigger of the SDK has the name of the one the baseline attaches to the documents.\<close>

lemma baseline_trigger: "trunc (capture_trigger t) \<noteq> ''pwrap_documents_capture''"
  by (simp add: trunc_def capture_trigger_def)

definition has_baseline :: "tenant \<Rightarrow> bool" where
  "has_baseline d \<longleftrightarrow> (''pwrap_documents_capture'', ''pwrap_documents'') \<in> set (tn_triggers d)"

lemma baseline_triggers: "has_baseline d \<Longrightarrow> doc_triggers d \<noteq> []"
  by (force simp: has_baseline_def doc_triggers_def filter_empty_conv)

text \<open>The two operations change nothing but triggers, and keep the baseline's.\<close>

lemma capture_keeps:
  "EnableChangeCapture E t w = (r, w') \<Longrightarrow> \<exists>g. tw_db w' = (tw_db w)\<lparr>tn_triggers := g\<rparr> \<and>
     (has_baseline (tw_db w) \<longrightarrow> has_baseline (tw_db w'))"
  "DisableChangeCapture E t w = (r, w') \<Longrightarrow> \<exists>g. tw_db w' = (tw_db w)\<lparr>tn_triggers := g\<rparr> \<and>
     (has_baseline (tw_db w) \<longrightarrow> has_baseline (tw_db w'))"
proof -
  have upd: "\<exists>g. d = d\<lparr>tn_triggers := g\<rparr>" for d :: tenant by (rule exI [of _ "tn_triggers d"]) simp
  show "EnableChangeCapture E t w = (r, w') \<Longrightarrow> \<exists>g. tw_db w' = (tw_db w)\<lparr>tn_triggers := g\<rparr> \<and>
     (has_baseline (tw_db w) \<longrightarrow> has_baseline (tw_db w'))"
    using upd [of "tw_db w"] baseline_trigger [of t]
    by (cases r) (auto simp: EnableChangeCapture_def Let_def t_elims t_sql_Inr t_sql_Inl drop_trigger_def create_trigger_def
        has_baseline_def split: sum.splits if_splits)
  show "DisableChangeCapture E t w = (r, w') \<Longrightarrow> \<exists>g. tw_db w' = (tw_db w)\<lparr>tn_triggers := g\<rparr> \<and>
     (has_baseline (tw_db w) \<longrightarrow> has_baseline (tw_db w'))"
    using upd [of "tw_db w"] baseline_trigger [of t]
    by (cases r) (auto simp: DisableChangeCapture_def t_sql_Inr t_sql_Inl drop_trigger_def has_baseline_def
        split: sum.splits)
qed

subsection \<open>What the log says\<close>

definition wrote :: "string option \<Rightarrow> tenant \<Rightarrow> tenant \<Rightarrow> bool" where
  "wrote u d d' \<longleftrightarrow> tn_triggers d' = tn_triggers d \<and> (\<exists>ls. tn_log d' = tn_log d @ ls \<and> (\<forall>l \<in> set ls. cl_user l = u))"

lemma wrote_refl: "tn_log d' = tn_log d \<Longrightarrow> tn_triggers d' = tn_triggers d \<Longrightarrow> wrote u d d'"
  by (simp add: wrote_def)

lemma wrote_trans: "wrote u d d' \<Longrightarrow> wrote u d' d'' \<Longrightarrow> wrote u d d''"
  by (fastforce simp: wrote_def)

lemma wrote_fold: "(\<And>x d. wrote u d (f x d)) \<Longrightarrow> wrote u d (fold f xs d)"
  by (induction xs arbitrary: d) (auto intro: wrote_refl wrote_trans)

lemma wrote_rows: "wrote u d (capture_rows u t bas d)"
  unfolding capture_rows_def capture_def
  by (intro wrote_fold) (auto simp: wrote_def log_change_def)

lemma wrote_docs: "wrote u (d\<lparr>tn_docs := x\<rparr>) d' \<Longrightarrow> wrote u d d'"
  by (simp add: wrote_def)

lemma doc_insert_wrote: "doc_insert new now u coll js d = Inr (ids, d') \<Longrightarrow> wrote u d d'"
  by (auto dest!: doc_insert_Inr intro: wrote_rows wrote_docs)

lemma doc_update_wrote: "doc_update now u coll i p d = Inr (n, d') \<Longrightarrow> wrote u d d'"
  by (auto simp: doc_update_def intro: wrote_rows wrote_docs split: sum.splits)

lemma doc_delete_wrote: "doc_delete u coll i d = Inr (n, d') \<Longrightarrow> wrote u d d'"
  by (auto simp: doc_delete_def intro: wrote_rows wrote_docs)

subsection \<open>Operations and runs\<close>

text \<open>An operation of a client, and what it leaves (its result is not of interest here).\<close>

datatype table_op = OpInsert string go_val | OpInsertMany string "go_val list" | OpUpdate string uuid go_arg
  | OpDelete string uuid | OpGet string uuid | OpFind string go_arg int | OpCount string go_arg

fun do_op :: "tenv \<Rightarrow> sdk_client \<Rightarrow> table_op \<Rightarrow> tworld \<Rightarrow> tworld" where
  "do_op E c (OpInsert coll x) w = snd (sdk_Insert E c coll x w)"
| "do_op E c (OpInsertMany coll xs) w = snd (sdk_InsertMany E c coll xs w)"
| "do_op E c (OpUpdate coll i p) w = snd (sdk_Update E c coll i p w)"
| "do_op E c (OpDelete coll i) w = snd (sdk_Delete E c coll i w)"
| "do_op E c (OpGet coll i) w = snd (sdk_Get E c coll i w)"
| "do_op E c (OpFind coll f n) w = snd (sdk_Find E c coll f n w)"
| "do_op E c (OpCount coll f) w = snd (sdk_Count E c coll f w)"

lemma reads_snd: "readonly f \<Longrightarrow> tw_db (snd (f w)) = tw_db w"
  by (metis prod.collapse readonlyD)

lemma do_op_ok: "docs_ok (tw_db w) \<Longrightarrow> docs_ok (tw_db (do_op E c p w))"
  by (cases p) (simp_all add: reads_snd sdk_Get_reads sdk_Find_reads sdk_Count_reads
      sdk_Insert_ok [OF prod.collapse [symmetric]] sdk_InsertMany_ok [OF prod.collapse [symmetric]]
      sdk_Update_ok [OF prod.collapse [symmetric]] sdk_Delete_ok [OF prod.collapse [symmetric]])

text \<open>The user of a client: that of its claims.\<close>

definition op_user :: "sdk_client \<Rightarrow> string option" where
  "op_user c = (if sd_user c = [] then None else claims_user (sd_user c))"

text \<open>An atomic operation that runs one statement writes what the statement writes.\<close>

lemma run_wrote:
  assumes "sdk_run E c (\<lambda>q w. t_sql E (texts ss (Q q w)) w) w = (Inr x, w')"
    and "\<And>q w d x d'. Q q w d = Inr (x, d') \<Longrightarrow> wrote (q_user q) d d'"
  shows "wrote (op_user c) (tw_db w) (tw_db w')"
proof -
  obtain q w1 w2 where q: "t_sql E (texts ss (Q q w1)) w1 = (Inr x, w2)" "tw_db w1 = tw_db w" "tw_db w' = tw_db w2"
    "if sd_user c = [] then q = Pool_q else q = Tx_q (claims_user (sd_user c)) (tw_tick w)"
    using sdk_run_Inr [OF assms(1)] by blast
  from q(4) have "q_user q = op_user c" by (auto simp: op_user_def split: if_splits)
  with q(1-3) assms(2) [of q w1] show ?thesis by (auto simp: t_sql_Inr texts_Inr)
qed

lemma atomic_wrote: "atomic f \<Longrightarrow> f w = (Inl e, w') \<Longrightarrow> wrote u (tw_db w) (tw_db w')"
  by (simp add: atomic_def wrote_refl)

lemma insert_many_wrote: "wrote (op_user c) (tw_db w) (tw_db (snd (sdk_InsertMany E c coll xs w)))"
proof -
  obtain r w' where r: "sdk_InsertMany E c coll xs w = (r, w')" by fastforce
  show ?thesis
  proof (cases r)
    case (Inl e)
    with r show ?thesis using atomic_wrote [OF sdk_InsertMany_atomic] by simp
  next
    case (Inr ids)
    with r show ?thesis
      by (auto simp: sdk_InsertMany_def wrote_refl split: sum.splits if_splits
        elim!: run_wrote intro: doc_insert_wrote)
  qed
qed

lemma update_wrote: "wrote (op_user c) (tw_db w) (tw_db (snd (sdk_Update E c coll i p w)))"
proof -
  obtain r w' where r: "sdk_Update E c coll i p w = (r, w')" by fastforce
  show ?thesis
  proof (cases r)
    case (Inl e)
    with r show ?thesis using atomic_wrote [OF sdk_Update_atomic] by simp
  next
    case (Inr u)
    with r show ?thesis
      by (auto simp: sdk_Update_def t_then_Inr split: sum.splits if_splits elim!: run_wrote intro: doc_update_wrote)
  qed
qed

lemma delete_wrote: "wrote (op_user c) (tw_db w) (tw_db (snd (sdk_Delete E c coll i w)))"
proof -
  obtain r w' where r: "sdk_Delete E c coll i w = (r, w')" by fastforce
  show ?thesis
  proof (cases r)
    case (Inl e)
    with r show ?thesis using atomic_wrote [OF sdk_Delete_atomic] by simp
  next
    case (Inr u)
    with r show ?thesis
      by (auto simp: sdk_Delete_def t_then_Inr split: if_splits elim!: run_wrote intro: doc_delete_wrote)
  qed
qed

lemma insert_wrote: "wrote (op_user c) (tw_db w) (tw_db (snd (sdk_Insert E c coll x w)))"
proof (cases x)
  case (Inr j)
  obtain r w' where r: "sdk_InsertMany E c coll [Inr j] w = (r, w')" by fastforce
  then have "snd (sdk_Insert E c coll x w) = w'" by (cases r) (simp_all add: Inr sdk_Insert_batch)
  with insert_many_wrote [of c w E coll "[Inr j]"] r show ?thesis by simp
qed (simp add: sdk_Insert_def wrote_refl)

lemma do_op_wrote: "wrote (op_user c) (tw_db w) (tw_db (do_op E c p w))"
  by (cases p) (simp_all add: insert_wrote insert_many_wrote update_wrote delete_wrote wrote_refl
      reads_snd sdk_Get_reads sdk_Find_reads sdk_Count_reads)

text \<open>
  A tenant's database over time: operations of any clients on any collection, capture switched on and off,
  and statements that touch other tables, whose changes may be logged too.
\<close>

inductive tenant_step :: "tenv \<Rightarrow> tworld \<Rightarrow> tworld \<Rightarrow> bool" for E where
  op_step: "tenant_step E w (do_op E c p w)"
| enable_step: "tenant_step E w (snd (EnableChangeCapture E t w))"
| disable_step: "tenant_step E w (snd (DisableChangeCapture E t w))"
| other_step: "tn_docs d = tn_docs (tw_db w) \<Longrightarrow> tn_triggers d = tn_triggers (tw_db w) \<Longrightarrow>
    tn_log d = tn_log (tw_db w) @ ls \<Longrightarrow> list_all (\<lambda>l. cl_table l \<noteq> ''pwrap_documents'') ls \<Longrightarrow> tenant_step E w (w\<lparr>tw_db := d, tw_tick := n\<rparr>)"

inductive_cases tenant_stepE: "tenant_step E w w'"

lemma triggers_docs_ok: "docs_ok d \<Longrightarrow> has_baseline (d\<lparr>tn_triggers := g\<rparr>) \<Longrightarrow> docs_ok (d\<lparr>tn_triggers := g\<rparr>)"
  using baseline_triggers [of "d\<lparr>tn_triggers := g\<rparr>"] by (simp add: docs_ok_def)

lemma do_op_baseline: "has_baseline (tw_db w) \<Longrightarrow> has_baseline (tw_db (do_op E c p w))"
  using do_op_wrote [of c w E p] by (simp add: wrote_def has_baseline_def)

lemma log_apply_other: "cl_table l \<noteq> ''pwrap_documents'' \<Longrightarrow> log_apply l m = m"
  unfolding log_apply_def by (rule if_not_P)

lemma replay_others:
  assumes "list_all (\<lambda>l. cl_table l \<noteq> ''pwrap_documents'') ls"
  shows "replay (ks @ ls) = replay ks"
proof -
  have "fold log_apply ls m = m" for m
    using assms by (induction ls arbitrary: m) (simp_all add: log_apply_other)
  then show ?thesis by (simp add: replay_def)
qed

lemma tenant_step_ok:
  assumes "tenant_step E w w'" "docs_ok (tw_db w)" "has_baseline (tw_db w)"
  shows "docs_ok (tw_db w') \<and> has_baseline (tw_db w') \<and> (\<exists>ls. tn_log (tw_db w') = tn_log (tw_db w) @ ls)"
  using assms(1)
proof (cases rule: tenant_step.cases)
  case (op_step c p)
  with assms(2,3) do_op_ok do_op_baseline do_op_wrote show ?thesis by (fastforce simp: wrote_def)
next
  case (enable_step t)
  then obtain r where "EnableChangeCapture E t w = (r, w')" by (metis prod.collapse)
  from capture_keeps(1) [OF this] assms(2,3) triggers_docs_ok show ?thesis by fastforce
next
  case (disable_step t)
  then obtain r where "DisableChangeCapture E t w = (r, w')" by (metis prod.collapse)
  from capture_keeps(2) [OF this] assms(2,3) triggers_docs_ok show ?thesis by fastforce
next
  case (other_step d ls n)
  with assms(2,3) show ?thesis by (simp add: docs_ok_def has_baseline_def doc_triggers_def replay_others)
qed

text \<open>One row of the log for each change and each trigger of the documents.\<close>

lemma log_length_fold:
  "length (tn_log (fold (\<lambda>_. log_change u t ba) gs d)) = length (tn_log d) + length gs"
  by (induction gs arbitrary: d) (simp_all add: log_change_def)

lemma log_length: "length (tn_log (capture_rows u t bas d)) = length (tn_log d) + length bas * length (doc_triggers d)"
proof (induction bas arbitrary: d)
  case (Cons ba bas)
  have "capture_rows u t (ba # bas) d = capture_rows u t bas (capture u t ba d)" by (simp add: capture_rows_def)
  moreover have "length (tn_log (capture u t ba d)) = length (tn_log d) + length (doc_triggers d)"
    by (simp add: capture_def log_length_fold)
  ultimately show ?case by (simp add: Cons.IH)
qed (simp add: capture_rows_def)

section \<open>Properties\<close>

text \<open>
  Property C11. From a migrated tenant on, whatever clients do to its collections, with whatever
  failures, and whichever tables' capture is switched on or off, the change log is complete: it only grows, and
  read from its beginning it yields exactly the documents of the table, whose ids stay distinct.
\<close>

theorem change_log_complete:
  assumes "rtranclp (tenant_step E) w w'" "docs_ok (tw_db w)" "has_baseline (tw_db w)"
  shows "replay (tn_log (tw_db w')) = doc_map (tn_docs (tw_db w')) \<and> distinct (map d_id (tn_docs (tw_db w'))) \<and>
    (\<exists>ls. tn_log (tw_db w') = tn_log (tw_db w) @ ls)"
proof -
  have "docs_ok (tw_db w') \<and> has_baseline (tw_db w') \<and> (\<exists>ls. tn_log (tw_db w') = tn_log (tw_db w) @ ls)"
    using assms
  proof (induction rule: rtranclp_induct)
    case (step w1 w2)
    then show ?case using tenant_step_ok [of E w1 w2] by fastforce
  qed simp
  then show ?thesis by (simp add: docs_ok_def)
qed

text \<open>
  Every change an operation of a client logs carries the client's user as the server reads
  it from the claims (cleaned to valid UTF-8, none for a text with NUL), and none for a client without a user.
\<close>

lemma changes_attributed:
  "\<exists>ls. tn_log (tw_db (do_op E c p w)) = tn_log (tw_db w) @ ls \<and>
     (\<forall>l \<in> set ls. cl_user l = (if sd_user c = [] \<or> CHR 0x00 \<in> set (sd_user c) then None
        else Some (utf8_clean (sd_user c))))"
  using do_op_wrote [of c w E p] by (auto simp: wrote_def op_user_def claims_user_def split: if_splits)

text \<open>
  Switching capture on for a table leaves exactly one capture trigger of the SDK on it,
  however often it is done, and switching it off removes exactly that one. On \<^verbatim>\<open>pwrap_documents\<close>,
  which the baseline captures already, switching on makes every insert log each document twice.
\<close>

lemma EnableChangeCapture_spec:
  assumes "EnableChangeCapture E t w = (Inr (), w1)"
  defines "g \<equiv> (capture_trigger t, t)"
  shows "t \<in> set (tn_tables (tw_db w)) \<and> tn_triggers (tw_db w1) = removeAll g (tn_triggers (tw_db w)) @ [g] \<and>
    (\<forall>w2. DisableChangeCapture E t w1 = (Inr (), w2) \<longrightarrow> tn_triggers (tw_db w2) = removeAll g (tn_triggers (tw_db w))) \<and>
    (t = ''pwrap_documents'' \<longrightarrow> has_baseline (tw_db w) \<longrightarrow> (\<forall>E' c coll js ids w2.
       sdk_InsertMany E' c coll (map Inr js) w1 = (Inr ids, w2) \<longrightarrow>
         length (tn_log (tw_db w1)) + 2 * length js \<le> length (tn_log (tw_db w2))))"
proof -
  from assms(1) have v: "sdk_validateIdent t = Inr ()" "sdk_validateIdent (fst g) = Inr ()"
    by (auto simp: EnableChangeCapture_def Let_def wrap_r_def g_def split: sum.splits)
  then have tr: "trunc t = t" "trunc (capture_trigger t) = capture_trigger t"
    using trunc_short by (simp_all add: sdk_validateIdent_ok g_def)
  from assms(1) v have en: "t \<in> set (tn_tables (tw_db w))" "tn_triggers (tw_db w1) = removeAll g (tn_triggers (tw_db w)) @ [g]"
    by (auto simp: EnableChangeCapture_def Let_def wrap_r_def g_def t_then_Inr t_wrap_Inr t_sql_Inr drop_trigger_def
        create_trigger_def tr split: if_splits)
  have dis: "tn_triggers (tw_db w2) = removeAll g (tn_triggers (tw_db w))" if "DisableChangeCapture E t w1 = (Inr (), w2)" for w2
    using that v en(2) by (auto simp: DisableChangeCapture_def wrap_r_def g_def t_sql_Inr drop_trigger_def tr)
  have twice: "length (tn_log (tw_db w1)) + 2 * length js \<le> length (tn_log (tw_db w2))"
    if docs: "t = ''pwrap_documents''" "has_baseline (tw_db w)" and ins: "sdk_InsertMany E' c coll (map Inr js) w1 = (Inr ids, w2)"
    for E' c coll js ids w2
  proof (cases "js = []")
    case False
    let ?b = "(''pwrap_documents_capture'', ''pwrap_documents'')"
    have "?b \<in> set (removeAll g (tn_triggers (tw_db w)))" using docs(2) by (simp add: has_baseline_def g_def capture_trigger_def)
    then obtain xs ys where "removeAll g (tn_triggers (tw_db w)) = xs @ ?b # ys" by (meson split_list)
    then have two: "2 \<le> length (doc_triggers (tw_db w1))" using en(2) docs(1) by (simp add: doc_triggers_def g_def)
    have ne: "map Inr js \<noteq> ([] :: go_val list)" using False by simp
    show ?thesis
    proof (rule sdk_InsertMany_Inr [OF ins ne])
      fix js' q wa assume js': "map Inr js = (map Inr js' :: go_val list)"
        and di: "doc_insert (te_id E' (tw_tick wa)) (q_now E' q wa) (q_user q) coll js' (tw_db w1) = Inr (ids, tw_db w2)"
      from js' have "length js' = length js" by (metis length_map)
      with doc_insert_Inr [OF di] two show ?thesis
        by (auto simp: log_length mult.commute dest!: traverse_length)
    qed
  qed (use ins in \<open>simp add: sdk_InsertMany_def\<close>)
  from en dis twice show ?thesis by blast
qed

text \<open>After two documents: capture of the notes on, a document gone, capture off again.\<close>

definition demo_run :: tworld where
  "demo_run = snd (DisableChangeCapture demo_tenv ''notes''
     (do_op demo_tenv (demo_client ''bob'') (OpDelete ''todo'' 200) (snd (EnableChangeCapture demo_tenv ''notes'' demo_docs))))"

lemma change_log_complete_witness:
  "rtranclp (tenant_step demo_tenv) demo_tworld demo_run \<and> length (tn_log (tw_db demo_run)) = 3 \<and>
   replay (tn_log (tw_db demo_run)) = doc_map (tn_docs (tw_db demo_run))"
proof -
  let ?on = "snd (EnableChangeCapture demo_tenv ''notes'' demo_docs)"
  let ?del = "do_op demo_tenv (demo_client ''bob'') (OpDelete ''todo'' 200) ?on"
  have "tenant_step demo_tenv demo_tworld demo_docs"
    using op_step [of demo_tenv demo_tworld "demo_client ''ann''" "OpInsertMany ''todo'' [Inr (JObj [(''a'', JStr ''x'')]),
       Inr (JObj [(''a'', JStr ''y''), (''done'', JBool True)])]"] by (simp add: demo_docs_def)
  moreover have "tenant_step demo_tenv demo_docs ?on" by (rule enable_step)
  moreover have "tenant_step demo_tenv ?on ?del" by (rule op_step)
  moreover have "tenant_step demo_tenv ?del demo_run" unfolding demo_run_def by (rule disable_step)
  ultimately have run: "rtranclp (tenant_step demo_tenv) demo_tworld demo_run"
    by (meson converse_rtranclp_into_rtranclp rtranclp.rtrancl_refl)
  have "has_baseline demo_tenant" by code_simp
  with change_log_complete [OF run] have "replay (tn_log (tw_db demo_run)) = doc_map (tn_docs (tw_db demo_run))"
    by (simp add: demo_facts demo_docs_ok)
  moreover have "length (tn_log (tw_db demo_run)) = 3" unfolding demo_run_def demo_docs_def by code_simp
  ultimately show ?thesis using run by blast
qed

end
