(* ===== verification/Sdk_Policy.thy ===== *)
theory Sdk_Policy
  imports Sdk_Table
begin

text \<open>
  Row level security on the documents, with the policy of \<^verbatim>\<open>conformance/go/main.go\<close> and of
  \<^verbatim>\<open>examples/rls-notes/rls.sql\<close>: a document belongs to the user its \<^verbatim>\<open>user_id\<close> names, and the user of
  a session is the one \<^verbatim>\<open>Client.run\<close> puts into \<^verbatim>\<open>request.jwt.claims\<close>. The statements of
  \<^verbatim>\<open>table.go\<close> under it, and the operations that send them. The lemmas: what others do makes no difference to
  what a user is answered.
\<close>

section \<open>The policy\<close>

text \<open>\<open>data->>k\<close>: NULL for a missing or null value; \<open>tx\<close> is the text of a value that is no string.\<close>

definition field_text :: "(json \<Rightarrow> string) \<Rightarrow> string \<Rightarrow> json \<Rightarrow> string option" where
  "field_text tx k j = (case j of
      JObj kvs \<Rightarrow> (case map_of kvs k of None \<Rightarrow> None | Some JNull \<Rightarrow> None | Some (JStr s) \<Rightarrow> Some s | Some v \<Rightarrow> Some (tx v))
    | _ \<Rightarrow> None)"

text \<open>
  Without claims the setting is NULL or empty, and so is the comparison: no row qualifies. The claims of a user with a NUL
  character are no \<^verbatim>\<open>jsonb\<close>: the policy fails where it is evaluated.
\<close>

definition owned :: "(json \<Rightarrow> string) \<Rightarrow> querier \<Rightarrow> doc_row \<Rightarrow> bool" where
  "owned tx q r \<longleftrightarrow> q_user q \<noteq> None \<and> field_text tx ''user_id'' (d_data r) = q_user q"

fun bad_claims :: "querier \<Rightarrow> bool" where
  "bad_claims (Tx_q None _) = True"
| "bad_claims _ = False"

definition claims_error :: string where
  "claims_error = pg_error ''unsupported Unicode escape sequence'' ''22P05''"

definition policy_error :: string where
  "policy_error = pg_error ''new row violates row-level security policy for table \"pwrap_documents\"'' ''42501''"

text \<open>The rows a statement on a collection sees.\<close>

definition p_rows :: "(json \<Rightarrow> string) \<Rightarrow> querier \<Rightarrow> string \<Rightarrow> tenant \<Rightarrow> string + doc_row list" where
  "p_rows tx q coll d = (if bad_claims q \<and> list_ex (\<lambda>r. d_coll r = coll) (tn_docs d) then Inl claims_error
     else Inr (filter (owned tx q) (tn_docs d)))"

definition p_insert ::
  "(json \<Rightarrow> string) \<Rightarrow> (nat \<Rightarrow> uuid) \<Rightarrow> instant \<Rightarrow> querier \<Rightarrow> string \<Rightarrow> json list \<Rightarrow> tenant \<Rightarrow> string + uuid list \<times> tenant" where
  "p_insert tx new now q coll js d = (case traverse to_jsonb js of Inl e \<Rightarrow> Inl e | Inr vs \<Rightarrow>
     if bad_claims q then Inl claims_error
     else if \<not> list_all (owned tx q) (doc_rows new now coll vs) then Inl policy_error
     else doc_insert new now (q_user q) coll js d)"

definition p_update ::
  "(json \<Rightarrow> string) \<Rightarrow> instant \<Rightarrow> querier \<Rightarrow> string \<Rightarrow> uuid \<Rightarrow> json \<Rightarrow> tenant \<Rightarrow> string + nat \<times> tenant" where
  "p_update tx now q coll i p d = (case to_jsonb p of Inl e \<Rightarrow> Inl e | Inr v \<Rightarrow> (case p_rows tx q coll d of Inl e \<Rightarrow> Inl e
     | Inr rows \<Rightarrow>
        if \<not> list_all (\<lambda>r. owned tx q (doc_upd v now r)) (filter (doc_hit coll i) rows) then Inl policy_error
        else let hit = (\<lambda>r. doc_hit coll i r \<and> owned tx q r) in Inr (affected hit (tn_docs d),
          capture_rows (q_user q) ''UPDATE'' (map (\<lambda>r. (Some r, Some (doc_upd v now r))) (filter hit (tn_docs d)))
            (d\<lparr>tn_docs := update_where hit (doc_upd v now) (tn_docs d)\<rparr>))))"

definition p_delete :: "(json \<Rightarrow> string) \<Rightarrow> querier \<Rightarrow> string \<Rightarrow> uuid \<Rightarrow> tenant \<Rightarrow> string + nat \<times> tenant" where
  "p_delete tx q coll i d = (case p_rows tx q coll d of Inl e \<Rightarrow> Inl e | Inr _ \<Rightarrow>
     (let hit = (\<lambda>r. doc_hit coll i r \<and> owned tx q r) in Inr (affected hit (tn_docs d),
        capture_rows (q_user q) ''DELETE'' (map (\<lambda>r. (Some r, None)) (filter hit (tn_docs d)))
          (d\<lparr>tn_docs := filter (\<lambda>r. \<not> hit r) (tn_docs d)\<rparr>))))"

section \<open>The operations\<close>

definition policy_Insert :: "tenv \<Rightarrow> (json \<Rightarrow> string) \<Rightarrow> sdk_client \<Rightarrow> string \<Rightarrow> go_val \<Rightarrow> tworld \<Rightarrow> uuid tres" where
  "policy_Insert E tx c coll data w = (case data of Inl e \<Rightarrow> (Inl (Ext e), w)
     | Inr payload \<Rightarrow> sdk_run E c (\<lambda>q w.
         t_then (t_sql E (texts [coll] (p_insert tx (te_id E (tw_tick w)) (q_now E q w) q coll [payload])) w)
           (\<lambda>ids w. (Inr (hd ids), w))) w)"

definition policy_InsertMany :: "tenv \<Rightarrow> (json \<Rightarrow> string) \<Rightarrow> sdk_client \<Rightarrow> string \<Rightarrow> go_val list \<Rightarrow> tworld \<Rightarrow> uuid list tres" where
  "policy_InsertMany E tx c coll datas w =
     (if datas = [] then (Inr [], w)
      else case marshal_all 0 datas of Inl e \<Rightarrow> (Inl e, w)
      | Inr payloads \<Rightarrow> sdk_run E c (\<lambda>q w.
          t_sql E (texts [coll] (p_insert tx (te_id E (tw_tick w)) (q_now E q w) q coll payloads)) w) w)"

definition policy_Get :: "tenv \<Rightarrow> (json \<Rightarrow> string) \<Rightarrow> sdk_client \<Rightarrow> string \<Rightarrow> uuid \<Rightarrow> tworld \<Rightarrow> document tres" where
  "policy_Get E tx c coll i w =
     t_then (sdk_run E c (\<lambda>q w.
         t_then (t_sql E (texts [coll] (\<lambda>d. case p_rows tx q coll d of Inl e \<Rightarrow> Inl e
             | Inr rows \<Rightarrow> Inr (select_one (doc_hit coll i) rows, d))) w) (\<lambda>r w.
           case r of None \<Rightarrow> (Inl (Sentinel ErrDocNotFound), w) | Some r \<Rightarrow> (Inr r, w))) w)
       (\<lambda>r w. case scanDoc E r of Inl e \<Rightarrow> (Inl (Ext e), w) | Inr x \<Rightarrow> (Inr x, w))"

definition policy_Find :: "tenv \<Rightarrow> (json \<Rightarrow> string) \<Rightarrow> sdk_client \<Rightarrow> string \<Rightarrow> go_arg \<Rightarrow> int \<Rightarrow> tworld \<Rightarrow> document list tres" where
  "policy_Find E tx c coll fa lm w =
     (let lm = (if lm \<le> 0 then 100 else lm) in
      case fa of Inl e \<Rightarrow> (Inl (Ext e), w)
      | Inr m \<Rightarrow> sdk_run E c (\<lambda>q w.
          t_then (t_sql E (texts [coll] (\<lambda>d. case to_jsonb (marshal_map (or_empty m)) of Inl e \<Rightarrow> Inl e
              | Inr f \<Rightarrow> (case p_rows tx q coll d of Inl e \<Rightarrow> Inl e
                | Inr rows \<Rightarrow> Inr (take (nat lm) (order_desc d_created (filter (doc_matches coll f) rows)), d)))) w)
            (\<lambda>rows w. case traverse (scanDoc E) rows of Inl e \<Rightarrow> (Inl (Ext e), w) | Inr docs \<Rightarrow> (Inr docs, w))) w)"

definition policy_Update :: "tenv \<Rightarrow> (json \<Rightarrow> string) \<Rightarrow> sdk_client \<Rightarrow> string \<Rightarrow> uuid \<Rightarrow> go_arg \<Rightarrow> tworld \<Rightarrow> unit tres" where
  "policy_Update E tx c coll i patch w = (case patch of Inl e \<Rightarrow> (Inl (Ext e), w)
     | Inr m \<Rightarrow> t_then (sdk_run E c (\<lambda>q w.
          t_sql E (texts [coll] (p_update tx (q_now E q w) q coll i (marshal_map m))) w) w)
        (\<lambda>n w. if n = 0 then (Inl (Sentinel ErrDocNotFound), w) else (Inr (), w)))"

definition policy_Delete :: "tenv \<Rightarrow> (json \<Rightarrow> string) \<Rightarrow> sdk_client \<Rightarrow> string \<Rightarrow> uuid \<Rightarrow> tworld \<Rightarrow> unit tres" where
  "policy_Delete E tx c coll i w =
     t_then (sdk_run E c (\<lambda>q w. t_sql E (texts [coll] (p_delete tx q coll i)) w) w)
       (\<lambda>n w. if n = 0 then (Inl (Sentinel ErrDocNotFound), w) else (Inr (), w))"

definition policy_Count :: "tenv \<Rightarrow> (json \<Rightarrow> string) \<Rightarrow> sdk_client \<Rightarrow> string \<Rightarrow> go_arg \<Rightarrow> tworld \<Rightarrow> int tres" where
  "policy_Count E tx c coll fa w = (case fa of Inl e \<Rightarrow> (Inl (Ext e), w)
     | Inr m \<Rightarrow> sdk_run E c (\<lambda>q w.
          t_sql E (texts [coll] (\<lambda>d. case to_jsonb (marshal_map (or_empty m)) of Inl e \<Rightarrow> Inl e
            | Inr f \<Rightarrow> (case p_rows tx q coll d of Inl e \<Rightarrow> Inl e
              | Inr rows \<Rightarrow> Inr (int (length (filter (doc_matches coll f) rows)), d)))) w) w)"

text \<open>Any operation, with what it answers.\<close>

datatype doc_op = Op_Insert go_val | Op_InsertMany "go_val list" | Op_Get uuid | Op_Find go_arg int | Op_Update uuid go_arg | Op_Delete uuid | Op_Count go_arg

datatype doc_answer = An_Id uuid | An_Ids "uuid list" | An_Doc document | An_Docs "document list" | An_Done | An_Count int

definition answer :: "('a \<Rightarrow> doc_answer) \<Rightarrow> 'a tres \<Rightarrow> doc_answer tres" where
  "answer f r = t_then r (\<lambda>x w. (Inr (f x), w))"

fun policy_op :: "tenv \<Rightarrow> (json \<Rightarrow> string) \<Rightarrow> sdk_client \<times> string \<times> doc_op \<Rightarrow> tworld \<Rightarrow> doc_answer tres" where
  "policy_op E tx (c, coll, Op_Insert x) w = answer An_Id (policy_Insert E tx c coll x w)"
| "policy_op E tx (c, coll, Op_InsertMany xs) w = answer An_Ids (policy_InsertMany E tx c coll xs w)"
| "policy_op E tx (c, coll, Op_Get i) w = answer An_Doc (policy_Get E tx c coll i w)"
| "policy_op E tx (c, coll, Op_Find f n) w = answer An_Docs (policy_Find E tx c coll f n w)"
| "policy_op E tx (c, coll, Op_Update i p) w = answer (\<lambda>_. An_Done) (policy_Update E tx c coll i p w)"
| "policy_op E tx (c, coll, Op_Delete i) w = answer (\<lambda>_. An_Done) (policy_Delete E tx c coll i w)"
| "policy_op E tx (c, coll, Op_Count f) w = answer An_Count (policy_Count E tx c coll f w)"

fun inserts :: "doc_op \<Rightarrow> bool" where
  "inserts (Op_Insert x) = True"
| "inserts (Op_InsertMany xs) = True"
| "inserts _ = False"

definition policy_run :: "tenv \<Rightarrow> (json \<Rightarrow> string) \<Rightarrow> (sdk_client \<times> string \<times> doc_op) list \<Rightarrow> tworld \<Rightarrow> tworld" where
  "policy_run E tx ops w = fold (\<lambda>x w. snd (policy_op E tx x w)) ops w"

section \<open>What a user sees\<close>

text \<open>The user in a client's claims, and the documents that are a user's.\<close>

definition user_of :: "sdk_client \<Rightarrow> string option" where
  "user_of c = (if sd_user c = [] then None else claims_user (sd_user c))"

definition view :: "(json \<Rightarrow> string) \<Rightarrow> string \<Rightarrow> tenant \<Rightarrow> doc_row list" where
  "view tx u d = filter (\<lambda>r. field_text tx ''user_id'' (d_data r) = Some u) (tn_docs d)"

lemma view_docs: "tn_docs d' = tn_docs d \<Longrightarrow> view tx u d' = view tx u d"
  by (simp add: view_def)

lemma owned_other: "owned tx q r \<Longrightarrow> q_user q \<noteq> Some u \<Longrightarrow> field_text tx ''user_id'' (d_data r) \<noteq> Some u"
  by (auto simp: owned_def)

lemma owned_view: "q_user q = Some u \<Longrightarrow> filter (owned tx q) (tn_docs d) = view tx u d"
  by (simp add: owned_def [abs_def] view_def)

subsection \<open>Others leave it alone\<close>

lemma p_insert_view:
  assumes "p_insert tx new now q coll js d = Inr (x, d')" "q_user q \<noteq> Some u"
  shows "view tx u d' = view tx u d"
proof -
  from assms(1) obtain vs where v: "traverse to_jsonb js = Inr vs" "list_all (owned tx q) (doc_rows new now coll vs)"
    and i: "doc_insert new now (q_user q) coll js d = Inr (x, d')"
    by (auto simp: p_insert_def split: sum.splits if_splits)
  from doc_insert_Inr [OF i] v(1) have "tn_docs d' = tn_docs d @ doc_rows new now coll vs" by auto
  with v(2) owned_other assms(2) show ?thesis
    by (fastforce simp: view_def list_all_iff filter_empty_conv)
qed

lemma view_update:
  assumes "\<And>r. r \<in> set rs \<Longrightarrow> hit r \<Longrightarrow> \<not> P r \<and> \<not> P (f r)"
  shows "filter P (update_where hit f rs) = filter P rs"
  using assms by (induction rs) (auto simp: update_where_def)

lemma p_update_view:
  assumes "p_update tx now q coll i p d = Inr (x, d')" "q_user q \<noteq> Some u"
  shows "view tx u d' = view tx u d"
proof -
  let ?hit = "\<lambda>r. doc_hit coll i r \<and> owned tx q r"
  from assms(1) obtain v where c: "list_all (\<lambda>r. owned tx q (doc_upd v now r)) (filter (doc_hit coll i) (filter (owned tx q) (tn_docs d)))"
    and d': "tn_docs d' = update_where ?hit (doc_upd v now) (tn_docs d)"
    by (auto simp: p_update_def p_rows_def Let_def split: sum.splits if_splits)
  show ?thesis unfolding view_def d'
    by (rule view_update) (use c owned_other assms(2) in \<open>auto simp: list_all_iff\<close>)
qed

lemma p_delete_view:
  assumes "p_delete tx q coll i d = Inr (x, d')" "q_user q \<noteq> Some u"
  shows "view tx u d' = view tx u d"
proof -
  from assms(1) have "tn_docs d' = filter (\<lambda>r. \<not> (doc_hit coll i r \<and> owned tx q r)) (tn_docs d)"
    by (auto simp: p_delete_def Let_def split: sum.splits)
  then show ?thesis unfolding view_def
    using owned_other [where u = u, OF _ assms(2)] by (auto intro!: filter_cong)
qed

lemma run_view:
  assumes "\<And>q w1 x w2. fn q w1 = (Inr x, w2) \<Longrightarrow> q_user q = user_of c \<Longrightarrow> V (tw_db w2) = V (tw_db w1)" "\<And>q. atomic (fn q)"
  shows "V (tw_db (snd (sdk_run E c fn w))) = V (tw_db w)"
proof -
  have "atomic (sdk_run E c fn)" by (rule atomic_run [OF assms(2)])
  then show ?thesis
  proof (rule atomic_holds)
    fix x w' assume "sdk_run E c fn w = (Inr x, w')"
    from sdk_run_Inr [OF this] obtain q w1 w2 where fn: "fn q w1 = (Inr x, w2)" "tw_db w1 = tw_db w" "tw_db w' = tw_db w2"
      and q: "if sd_user c = [] then q = Pool_q else q = Tx_q (claims_user (sd_user c)) (tw_tick w)" by blast
    from q have "q_user q = user_of c" by (auto simp: user_of_def split: if_splits)
    with fn assms(1) [of q w1 x w2] show "V (tw_db w') = V (tw_db w)" by simp
  qed simp
qed

lemma answer_db [simp]: "tw_db (snd (answer f r)) = tw_db (snd r)"
  by (auto simp: answer_def t_then_def split: prod.splits sum.splits)

lemma then_ret_db: "(\<And>x w. tw_db (snd (g x w)) = tw_db w) \<Longrightarrow> tw_db (snd (t_then r g)) = tw_db (snd r)"
  by (auto simp: t_then_def split: prod.splits sum.splits)

lemma confinement:
  assumes "user_of c \<noteq> Some u"
  shows "view tx u (tw_db (snd (policy_op E tx (c, coll, op) w))) = view tx u (tw_db w)"
proof (cases op)
  case (Op_Insert x)
  show ?thesis
  proof (cases x)
    case (Inr p)
    show ?thesis unfolding Op_Insert Inr policy_op.simps answer_db policy_Insert_def sum.case
      by (rule run_view) (use assms in \<open>auto simp: t_then_Inr t_sql_Inr texts_Inr intro: p_insert_view step_intros\<close>)
  qed (simp add: Op_Insert policy_Insert_def)
next
  case (Op_InsertMany xs)
  show ?thesis
  proof (cases "marshal_all 0 xs")
    case (Inr ps)
    show ?thesis
    proof (cases "xs = []")
      case False
      then show ?thesis unfolding Op_InsertMany policy_op.simps answer_db policy_InsertMany_def Inr sum.case if_False
        by (simp, intro run_view) (use assms in \<open>auto simp: t_sql_Inr texts_Inr intro: p_insert_view step_intros\<close>)
    qed (simp add: Op_InsertMany policy_InsertMany_def)
  qed (simp add: Op_InsertMany policy_InsertMany_def)
next
  case (Op_Update i p)
  show ?thesis
  proof (cases p)
    case (Inr m)
    have d: "tw_db (snd (policy_Update E tx c coll i p w)) = tw_db (snd (sdk_run E c (\<lambda>q w.
        t_sql E (texts [coll] (p_update tx (q_now E q w) q coll i (marshal_map m))) w) w))"
      unfolding policy_Update_def Inr sum.case by (rule then_ret_db) simp
    show ?thesis unfolding Op_Update policy_op.simps answer_db d
      by (rule run_view) (use assms in \<open>auto simp: t_sql_Inr texts_Inr intro: p_update_view step_intros\<close>)
  qed (simp add: Op_Update policy_Update_def)
next
  case (Op_Delete i)
  have d: "tw_db (snd (policy_Delete E tx c coll i w)) =
      tw_db (snd (sdk_run E c (\<lambda>q w. t_sql E (texts [coll] (p_delete tx q coll i)) w) w))"
    unfolding policy_Delete_def by (rule then_ret_db) simp
  show ?thesis unfolding Op_Delete policy_op.simps answer_db d
    by (rule run_view) (use assms in \<open>auto simp: t_sql_Inr texts_Inr intro: p_delete_view step_intros\<close>)
next
  case (Op_Get i)
  have "readonly (policy_Get E tx c coll i)"
    unfolding policy_Get_def [abs_def] by (intro step_intros) (auto elim!: texts_same split: sum.splits)
  then show ?thesis unfolding Op_Get by (simp add: readonlyD [OF _ prod.collapse [symmetric]] view_def)
next
  case (Op_Find f n)
  have "readonly (policy_Find E tx c coll f n)"
    unfolding policy_Find_def [abs_def] Let_def by (intro step_intros) (auto elim!: texts_same split: sum.splits)
  then show ?thesis unfolding Op_Find by (simp add: readonlyD [OF _ prod.collapse [symmetric]] view_def)
next
  case (Op_Count f)
  have "readonly (policy_Count E tx c coll f)"
    unfolding policy_Count_def [abs_def] by (intro step_intros) (auto elim!: texts_same split: sum.splits)
  then show ?thesis unfolding Op_Count by (simp add: readonlyD [OF _ prod.collapse [symmetric]] view_def)
qed

lemma confinement_run:
  "\<forall>(c, coll, op) \<in> set ops. user_of c \<noteq> Some u \<Longrightarrow> view tx u (tw_db (policy_run E tx ops w)) = view tx u (tw_db w)"
  by (induction ops arbitrary: w) (auto simp: policy_run_def confinement)


subsection \<open>Its answers depend on nothing else\<close>

text \<open>The same answer after as many round trips.\<close>

definition same :: "'a tres \<Rightarrow> 'a tres \<Rightarrow> bool" where
  "same r1 r2 \<longleftrightarrow> fst r1 = fst r2 \<and> tw_tick (snd r1) = tw_tick (snd r2)"

named_theorems same_intros "how equal answers compose"

lemma same_ret [same_intros]: "tw_tick w1 = tw_tick w2 \<Longrightarrow> same (r, w1) (r, w2)"
  by (simp add: same_def)

lemma same_sql [same_intros]:
  assumes "tw_tick w1 = tw_tick w2" "map_sum id fst (q1 (tw_db w1)) = map_sum id fst (q2 (tw_db w2))"
  shows "same (t_sql E q1 w1) (t_sql E q2 w2)"
  using assms by (cases "q1 (tw_db w1)"; cases "q2 (tw_db w2)") (auto simp: same_def t_sql_def split: option.splits)

lemma same_then [same_intros]:
  assumes "same r1 r2" "\<And>x v1 v2. tw_tick v1 = tw_tick v2 \<Longrightarrow> same (f x v1) (f x v2)"
  shows "same (t_then r1 f) (t_then r2 f)"
proof -
  obtain y v1 v2 where y: "r1 = (y, v1)" "r2 = (y, v2)" "tw_tick v1 = tw_tick v2"
    using assms(1) by (cases r1; cases r2) (simp add: same_def)
  show ?thesis
  proof (cases y)
    case (Inr x)
    show ?thesis using assms(2) [OF y(3), of x] unfolding y Inr by simp
  qed (simp add: y same_def)
qed

lemma same_wrap [same_intros]: "same r1 r2 \<Longrightarrow> same (t_wrap s r1) (t_wrap s r2)"
  by (cases r1; cases r2; cases "fst r1") (auto simp: same_def t_wrap_def)

lemma same_sum [same_intros]:
  assumes "\<And>e. same (f e w1) (f e w2)" "\<And>x. same (g x w1) (g x w2)"
  shows "same (case s of Inl e \<Rightarrow> f e w1 | Inr x \<Rightarrow> g x w1) (case s of Inl e \<Rightarrow> f e w2 | Inr x \<Rightarrow> g x w2)"
  using assms by (cases s) simp_all

lemma same_option [same_intros]:
  assumes "same (f w1) (f w2)" "\<And>x. same (g x w1) (g x w2)"
  shows "same (case r of None \<Rightarrow> f w1 | Some x \<Rightarrow> g x w1) (case r of None \<Rightarrow> f w2 | Some x \<Rightarrow> g x w2)"
  using assms by (cases r) simp_all

lemma same_if [same_intros]:
  assumes "same (f w1) (f w2)" "same (g w1) (g w2)"
  shows "same (if b then f w1 else g w1) (if b then f w2 else g w2)"
  using assms by simp

lemma same_query: "tw_tick w1 = tw_tick w2 \<Longrightarrow> same (t_query E (\<lambda>_. ()) w1) (t_query E (\<lambda>_. ()) w2)"
  by (simp add: t_query_def same_sql)

lemma t_query_unit: "t_query E (\<lambda>_. ()) w = (r, w') \<Longrightarrow> tw_db w' = tw_db w"
  by (cases r) (auto simp: t_query_Inr t_query_Inl)

text \<open>An operation for a user runs its body in a transaction that begins at the same round trip.\<close>

lemma same_run:
  assumes "sd_user c \<noteq> []" "tw_tick w1 = tw_tick w2"
    "\<And>q v1 v2. q = Tx_q (claims_user (sd_user c)) (Suc (tw_tick w1)) \<or> q = Tx_q (claims_user (sd_user c)) (tw_tick w1) \<Longrightarrow>
       tw_tick v1 = tw_tick v2 \<Longrightarrow> tw_db v1 = tw_db w1 \<Longrightarrow> tw_db v2 = tw_db w2 \<Longrightarrow> same (fn q v1) (fn q v2)"
  shows "same (sdk_run E c fn w1) (sdk_run E c fn w2)"
proof -
  define q where "q = Tx_q (claims_user (sd_user c)) (tw_tick w1)"
  have run: "sdk_run E c fn w = t_tx E (\<lambda>w1. t_then (t_wrap ''pwrap: set_config: '' (t_query E (\<lambda>_. ()) w1)) (\<lambda>_ w2.
        t_wrap ''pwrap: body: '' (fn q w2))) w" if "tw_tick w = tw_tick w1" for w
    using assms(1) that by (simp add: sdk_run_def q_def)
  have fn: "same (fn q v1) (fn q v2)" if "tw_tick v1 = tw_tick v2" "tw_db v1 = tw_db w1" "tw_db v2 = tw_db w2" for v1 v2
    using assms(3) that by (simp add: q_def)
  show ?thesis unfolding run [OF refl] run [OF assms(2) [symmetric]]
  proof (cases "te_flt E (tw_tick w1)")
    case None
    let ?w1 = "w1\<lparr>tw_tick := Suc (tw_tick w1)\<rparr>" and ?w2 = "w2\<lparr>tw_tick := Suc (tw_tick w2)\<rparr>"
    define body where "body = (\<lambda>w. t_then (t_wrap ''pwrap: set_config: '' (t_query E (\<lambda>_. ()) w)) (\<lambda>_ w2.
        t_wrap ''pwrap: body: '' (fn q w2)))"
    have b: "same (body ?w1) (body ?w2)"
    proof (cases "te_flt E (Suc (tw_tick w1))")
      case None
      with assms(2) fn [of "w1\<lparr>tw_tick := Suc (Suc (tw_tick w1))\<rparr>" "w2\<lparr>tw_tick := Suc (Suc (tw_tick w2))\<rparr>"]
      show ?thesis unfolding body_def by (simp add: t_query_def t_sql_def t_wrap_def [of "''pwrap: set_config: ''"] same_wrap)
    qed (use assms(2) in \<open>simp add: body_def t_query_def t_sql_def t_wrap_def same_def\<close>)
    obtain r1 v1 r2 v2 where v: "body ?w1 = (r1, v1)" "body ?w2 = (r2, v2)" by fastforce
    with b have e: "r1 = r2" "tw_tick v1 = tw_tick v2" by (simp_all add: same_def)
    show "same (t_tx E (\<lambda>w1. t_then (t_wrap ''pwrap: set_config: '' (t_query E (\<lambda>_. ()) w1)) (\<lambda>_ w2.
        t_wrap ''pwrap: body: '' (fn q w2))) w1) (t_tx E (\<lambda>w1. t_then (t_wrap ''pwrap: set_config: '' (t_query E (\<lambda>_. ()) w1)) (\<lambda>_ w2.
        t_wrap ''pwrap: body: '' (fn q w2))) w2)"
      unfolding body_def [symmetric]
      using None assms(2) v e by (cases r1) (auto simp: t_tx_def t_query_def t_sql_def same_def split: option.splits)
  qed (use assms(2) in \<open>simp add: t_tx_def t_query_def t_sql_def same_def\<close>)
qed

text \<open>The statements of a user on two contents of the tables with the same view.\<close>

lemma p_rows_view: "p_rows tx (Tx_q (Some u) b) coll d = Inr (view tx u d)"
  by (simp add: p_rows_def owned_view)

lemma affected_view:
  "affected (\<lambda>r. doc_hit coll i r \<and> owned tx (Tx_q (Some u) b) r) (tn_docs d) = affected (doc_hit coll i) (view tx u d)"
  by (simp add: affected_def view_def owned_def conj_commute)

lemma p_update_same:
  assumes "view tx u d1 = view tx u d2"
  shows "map_sum id fst (texts ss (p_update tx now (Tx_q (Some u) b) coll i p) d1) =
    map_sum id fst (texts ss (p_update tx now (Tx_q (Some u) b) coll i p) d2)"
  using assms by (simp add: texts_def p_update_def p_rows_view affected_view Let_def split: sum.split)

lemma p_delete_same:
  assumes "view tx u d1 = view tx u d2"
  shows "map_sum id fst (texts ss (p_delete tx (Tx_q (Some u) b) coll i) d1) =
    map_sum id fst (texts ss (p_delete tx (Tx_q (Some u) b) coll i) d2)"
  using assms by (simp add: texts_def p_delete_def p_rows_view affected_view Let_def)

lemma same_answer [same_intros]: "same r1 r2 \<Longrightarrow> same (answer f r1) (answer f r2)"
  unfolding answer_def by (intro same_intros)

lemma view_decides:
  assumes "user_of c = Some u" "view tx u (tw_db w1) = view tx u (tw_db w2)" "tw_tick w1 = tw_tick w2" "\<not> inserts op"
  shows "same (policy_op E tx (c, coll, op) w1) (policy_op E tx (c, coll, op) w2)"
proof -
  from assms(1) have u: "sd_user c \<noteq> []" "claims_user (sd_user c) = Some u"
    by (auto simp: user_of_def split: if_splits)
  note run = same_run [OF u(1) assms(3), unfolded u(2)]
  show ?thesis
  proof (cases op)
    case (Op_Get i)
    show ?thesis unfolding Op_Get policy_op.simps policy_Get_def
      by (intro same_intros run)
        (use assms(2) in \<open>auto simp: texts_def p_rows_view split: sum.split\<close>)
  next
    case (Op_Find f n)
    show ?thesis unfolding Op_Find policy_op.simps policy_Find_def Let_def
      by (intro same_intros run assms(3))
        (use assms(2) in \<open>auto simp: texts_def p_rows_view split: sum.split\<close>)
  next
    case (Op_Count f)
    show ?thesis unfolding Op_Count policy_op.simps policy_Count_def
      by (intro same_intros run assms(3))
        (use assms(2) in \<open>auto simp: texts_def p_rows_view split: sum.split\<close>)
  next
    case (Op_Update i p)
    show ?thesis unfolding Op_Update policy_op.simps policy_Update_def
      by (intro same_intros run assms(3))
        (use assms(2) in \<open>auto intro: p_update_same\<close>)
  next
    case (Op_Delete i)
    show ?thesis unfolding Op_Delete policy_op.simps policy_Delete_def
      by (intro same_intros run)
        (use assms(2) in \<open>auto intro: p_delete_same\<close>)
  qed (use assms(4) in simp_all)
qed

section \<open>Properties\<close>

text \<open>
  Property C16. Users of one project are isolated by the policy: whatever others did in between - other users, or clients
  without a user, inserting, updating or deleting in any collection, with or without success - a user's find, get, count,
  update or delete answers exactly what it would have answered had none of that happened.
\<close>

theorem users_isolated:
  assumes "user_of c = Some u" "\<forall>(c', coll', op') \<in> set ops. user_of c' \<noteq> Some u" "\<not> inserts op"
  shows "fst (policy_op E tx (c, coll, op) ((policy_run E tx ops w)\<lparr>tw_tick := n\<rparr>)) =
    fst (policy_op E tx (c, coll, op) (w\<lparr>tw_tick := n\<rparr>))"
proof -
  have "same (policy_op E tx (c, coll, op) ((policy_run E tx ops w)\<lparr>tw_tick := n\<rparr>)) (policy_op E tx (c, coll, op) (w\<lparr>tw_tick := n\<rparr>))"
    using confinement_run [OF assms(2), of tx E w] by (intro view_decides [OF assms(1)]) (simp_all add: assms(3))
  then show ?thesis by (simp add: same_def)
qed

section \<open>Witnesses\<close>

definition demo_note :: "string \<Rightarrow> go_val" where
  "demo_note u = Inr (JObj [(''user_id'', JStr u)])"

definition demo_notes :: tworld where
  "demo_notes = snd (policy_Insert demo_tenv (\<lambda>_. []) (demo_client ''alice'') ''notes'' (demo_note ''alice'') demo_tworld)"

text \<open>Alice has a note; Bob adds one of his own and tries to add one in her name; she still counts one.\<close>

lemma users_isolated_witness:
  "\<exists>later. later = policy_run demo_tenv (\<lambda>_. []) [(demo_client ''bob'', ''notes'', Op_Insert (demo_note ''bob'')),
      (demo_client ''bob'', ''notes'', Op_Insert (demo_note ''alice''))] demo_notes \<and>
    length (tn_docs (tw_db later)) = 2 \<and>
    fst (policy_op demo_tenv (\<lambda>_. []) (demo_client ''alice'', ''notes'', Op_Count (Inr None)) (later\<lparr>tw_tick := 50\<rparr>)) = Inr (An_Count 1)"
proof -
  let ?ops = "[(demo_client ''bob'', ''notes'', Op_Insert (demo_note ''bob'')), (demo_client ''bob'', ''notes'', Op_Insert (demo_note ''alice''))]"
  have n: "length (tn_docs (tw_db (policy_run demo_tenv (\<lambda>_. []) ?ops demo_notes))) = 2"
    unfolding demo_notes_def by code_simp
  have a: "fst (policy_op demo_tenv (\<lambda>_. []) (demo_client ''alice'', ''notes'', Op_Count (Inr None)) (demo_notes\<lparr>tw_tick := 50\<rparr>)) = Inr (An_Count 1)"
    unfolding demo_notes_def by code_simp
  have u: "user_of (demo_client ''alice'') = Some ''alice''" "\<forall>(c', coll', op') \<in> set ?ops. user_of c' \<noteq> Some ''alice''" by code_simp+
  have "\<not> inserts (Op_Count (Inr None))" by simp
  from users_isolated [OF u this, where E = demo_tenv and tx = "\<lambda>_. []" and coll = "''notes''" and w = demo_notes and n = 50] a n show ?thesis by simp
qed

end
