(* ===== verification/Sdk_Queue.thy ===== *)
theory Sdk_Queue
  imports Sdk_Table
begin

text \<open>
  \<^verbatim>\<open>sdk/go/pwrap/queue.go\<close>: jobs inserted into River's table, and the counts by state. The table's
  own checks are River's and a parameter. The lemmas: the counts are those of the table, and an accepted job is
  counted as available.
\<close>

section \<open>queue.go\<close>

text \<open>\<open>er_args\<close> is \<open>None\<close> for a nil \<^verbatim>\<open>Args\<close>.\<close>

record enqueue_request =
  er_kind :: string
  er_args :: "go_val option"
  er_queue :: string
  er_priority :: int
  er_max_attempts :: int

definition job_insert ::
  "(job_row \<Rightarrow> string option) \<Rightarrow> string \<Rightarrow> json \<Rightarrow> string \<Rightarrow> int \<Rightarrow> int \<Rightarrow> tenant \<Rightarrow> string + nat \<times> tenant" where
  "job_insert chk kind args queue priority maxAttempts d = (case to_jsonb args of Inl e \<Rightarrow> Inl e | Inr a \<Rightarrow>
     (let j = \<lparr>jb_id = Suc (tn_job_seq d), jb_kind = kind, jb_args = a, jb_queue = queue, jb_priority = priority,
        jb_attempts = maxAttempts, jb_state = ''available''\<rparr> in
      case chk j of Some e \<Rightarrow> Inl e
      | None \<Rightarrow> Inr (jb_id j, d\<lparr>tn_job_seq := Suc (tn_job_seq d), tn_jobs := tn_jobs d @ [j]\<rparr>)))"

definition Enqueue :: "tenv \<Rightarrow> (job_row \<Rightarrow> string option) \<Rightarrow> enqueue_request \<Rightarrow> tworld \<Rightarrow> nat tres" where
  "Enqueue E chk req w =
     (if er_kind req = [] then (Inl (Msg ''pwrap: queue: Kind is required''), w)
      else case (case er_args req of None \<Rightarrow> Inr (JObj []) | Some a \<Rightarrow> a) of
        Inl e \<Rightarrow> (Inl (Wrap ''pwrap: queue: marshal args: '' (Ext e)), w)
      | Inr argsJSON \<Rightarrow>
          (let queue = (if er_queue req = [] then ''default'' else er_queue req);
               priority = (if er_priority req = 0 then 1 else er_priority req);
               maxAttempts = (if er_max_attempts req = 0 then 25 else er_max_attempts req) in
           t_wrap ''pwrap: queue: enqueue: ''
             (t_sql E (texts [er_kind req, queue] (job_insert chk (er_kind req) argsJSON queue priority maxAttempts)) w)))"

record queue_stats =
  qs_available :: int
  qs_running :: int
  qs_scheduled :: int
  qs_completed :: int
  qs_discarded :: int
  qs_retryable :: int

definition zero_stats :: queue_stats where
  "zero_stats = \<lparr>qs_available = 0, qs_running = 0, qs_scheduled = 0, qs_completed = 0, qs_discarded = 0, qs_retryable = 0\<rparr>"

text \<open>\<^verbatim>\<open>SELECT state, COUNT(*) ... GROUP BY state\<close>, in some order of the states, and the loop over its rows.\<close>

definition state_counts :: "tenant \<Rightarrow> (string \<times> int) list" where
  "state_counts d = map (\<lambda>s. (s, int (length (filter (\<lambda>j. jb_state j = s) (tn_jobs d))))) (remdups (map jb_state (tn_jobs d)))"

definition stats_row :: "string \<times> int \<Rightarrow> queue_stats \<Rightarrow> queue_stats" where
  "stats_row r s = (let (state, n) = r in
     if state = ''available'' then s\<lparr>qs_available := n\<rparr>
     else if state = ''running'' then s\<lparr>qs_running := n\<rparr>
     else if state = ''scheduled'' then s\<lparr>qs_scheduled := n\<rparr>
     else if state = ''completed'' then s\<lparr>qs_completed := n\<rparr>
     else if state = ''discarded'' then s\<lparr>qs_discarded := n\<rparr>
     else if state = ''retryable'' then s\<lparr>qs_retryable := n\<rparr> else s)"

definition queue_Stats :: "tenv \<Rightarrow> tworld \<Rightarrow> queue_stats tres" where
  "queue_Stats E w = t_then (t_query E state_counts w) (\<lambda>rows w. (Inr (fold stats_row rows zero_stats), w))"

section \<open>Lemmas\<close>

definition in_state :: "string \<Rightarrow> tenant \<Rightarrow> int" where
  "in_state s d = int (length (filter (\<lambda>j. jb_state j = s) (tn_jobs d)))"

lemma stats_row_fields:
  "qs_available (stats_row (s, n) q) = (if s = ''available'' then n else qs_available q)"
  "qs_running (stats_row (s, n) q) = (if s = ''running'' then n else qs_running q)"
  "qs_scheduled (stats_row (s, n) q) = (if s = ''scheduled'' then n else qs_scheduled q)"
  "qs_completed (stats_row (s, n) q) = (if s = ''completed'' then n else qs_completed q)"
  "qs_discarded (stats_row (s, n) q) = (if s = ''discarded'' then n else qs_discarded q)"
  "qs_retryable (stats_row (s, n) q) = (if s = ''retryable'' then n else qs_retryable q)"
  by (simp_all add: stats_row_def)

text \<open>A field the loop sets in the row of its state holds the count of the state, also when there is no such row.\<close>

lemma fold_field:
  assumes "\<And>s n q. f (stats_row (s, n) q) = (if s = st then n else f q)" "distinct ss"
  shows "f (fold stats_row (map (\<lambda>s. (s, c s)) ss) q) = (if st \<in> set ss then c st else f q)"
  using assms(2) by (induction ss arbitrary: q) (auto simp: assms(1))

lemma counts_field:
  assumes "\<And>s n q. f (stats_row (s, n) q) = (if s = st then n else f q)" "f zero_stats = 0"
  shows "f (fold stats_row (state_counts d) zero_stats) = in_state st d"
proof -
  have "in_state st d = 0" if "st \<notin> jb_state ` set (tn_jobs d)"
    using that by (auto simp: in_state_def filter_empty_conv)
  then show ?thesis
    unfolding state_counts_def fold_field [OF assms(1) distinct_remdups] by (auto simp: in_state_def assms(2))
qed

section \<open>What the operations do\<close>

text \<open>
  \<^verbatim>\<open>Stats\<close> on a server that answers is the number of jobs in each of its states, zero
  where there is none; a job that \<^verbatim>\<open>Enqueue\<close> accepts gets a new id, the defaults for what is left out, and
  is one more available job, and one that is refused changes nothing.
\<close>

lemma Enqueue_Stats:
  assumes "Enqueue E chk req w = (r, w')" "healthy E w'"
  defines "st \<equiv> (\<lambda>s. int (length (filter (\<lambda>j. jb_state j = s) (tn_jobs (tw_db w')))))"
  shows "fst (queue_Stats E w') = Inr \<lparr>qs_available = st ''available'', qs_running = st ''running'',
      qs_scheduled = st ''scheduled'', qs_completed = st ''completed'', qs_discarded = st ''discarded'',
      qs_retryable = st ''retryable''\<rparr> \<and>
    (case r of Inl e \<Rightarrow> tw_db w' = tw_db w
     | Inr i \<Rightarrow> er_kind req \<noteq> [] \<and> (\<exists>j. tn_jobs (tw_db w') = tn_jobs (tw_db w) @ [j] \<and> jb_id j = i \<and>
         i = Suc (tn_job_seq (tw_db w)) \<and> tn_job_seq (tw_db w') = i \<and> jb_kind j = er_kind req \<and>
         jb_queue j = (if er_queue req = [] then ''default'' else er_queue req) \<and>
         jb_priority j = (if er_priority req = 0 then 1 else er_priority req) \<and>
         jb_attempts j = (if er_max_attempts req = 0 then 25 else er_max_attempts req) \<and>
         (er_args req = None \<longrightarrow> jb_args j = JObj []) \<and> jb_state j = ''available'' \<and> chk j = None))"
proof -
  let ?q = "fold stats_row (state_counts (tw_db w')) zero_stats"
  have st: "st s = in_state s (tw_db w')" for s by (simp add: st_def in_state_def)
  have z: "qs_available zero_stats = 0" "qs_running zero_stats = 0" "qs_scheduled zero_stats = 0"
    "qs_completed zero_stats = 0" "qs_discarded zero_stats = 0" "qs_retryable zero_stats = 0"
    by (simp_all add: zero_stats_def)
  have fields: "qs_available ?q = st ''available''" "qs_running ?q = st ''running''" "qs_scheduled ?q = st ''scheduled''"
    "qs_completed ?q = st ''completed''" "qs_discarded ?q = st ''discarded''" "qs_retryable ?q = st ''retryable''"
    unfolding st by (intro counts_field stats_row_fields z)+
  have "fst (queue_Stats E w') = Inr ?q" using assms(2) by (simp add: queue_Stats_def t_query_healthy)
  also have "?q = \<lparr>qs_available = st ''available'', qs_running = st ''running'', qs_scheduled = st ''scheduled'',
      qs_completed = st ''completed'', qs_discarded = st ''discarded'', qs_retryable = st ''retryable''\<rparr>"
    using fields by (cases ?q) simp
  finally show ?thesis
    using assms(1) by (cases r; cases "er_args req") (auto simp: Enqueue_def Let_def t_wrap_Inr t_wrap_Inl t_sql_Inr t_sql_Inl texts_Inr
        job_insert_def to_jsonb_def dedup_def split: sum.splits option.splits if_splits)
qed

end
