(* ===== verification/Sdk_Vector.thy ===== *)
theory Sdk_Vector
  imports Sdk_Table
begin

text \<open>
  \<^verbatim>\<open>sdk/go/pwrap/vector.go\<close>: the embedding collections. The text of a float, pgvector's reading of
  a vector, its distance, and the rows its index scan delivers are parameters. The lemmas: the table is a map from
  collection and document to vector and metadata, and what a search returns.
\<close>

section \<open>Statements\<close>

text \<open>
  \<open>pv_format\<close> is \<^verbatim>\<open>strconv.FormatFloat(x, 'f', -1, 32)\<close>, \<open>pv_parse\<close> the cast to
  \<^verbatim>\<open>vector\<close>, \<open>pv_dist\<close> the operator \<^verbatim>\<open><=>\<close>, \<open>pv_scan\<close> the rows that the scan for a query
  delivers: an approximate index may miss some.
\<close>

record pgvector =
  pv_format :: "rat \<Rightarrow> string"
  pv_parse :: "string \<Rightarrow> string + rat list"
  pv_dist :: "rat list \<Rightarrow> rat list \<Rightarrow> rat"
  pv_scan :: "rat list \<Rightarrow> emb_row list \<Rightarrow> emb_row list"

definition VectorDim :: nat where "VectorDim = 1536"

text \<open>The column's type: a vector of another length is refused.\<close>

definition to_vector :: "pgvector \<Rightarrow> string \<Rightarrow> string + rat list" where
  "to_vector P s = (case pv_parse P s of Inl e \<Rightarrow> Inl e
     | Inr v \<Rightarrow> if length v = 1536 then Inr v
         else Inl (pg_error (''expected 1536 dimensions, not '' @ show_nat (length v)) ''22000''))"

text \<open>
  \<^verbatim>\<open>INSERT ... ON CONFLICT (collection, doc_id) DO UPDATE\<close>, row by row; a row the statement has
  written already is not updated a second time. Every row takes an id, used or not.
\<close>

definition emb_hit :: "string \<Rightarrow> string \<Rightarrow> emb_row \<Rightarrow> bool" where
  "emb_hit coll doc r \<longleftrightarrow> em_coll r = coll \<and> em_doc r = doc"

definition emb_put :: "uuid \<Rightarrow> instant \<Rightarrow> string \<Rightarrow> string \<times> rat list \<times> json \<Rightarrow> emb_row list \<Rightarrow> string + emb_row list" where
  "emb_put new now coll x es = (let (doc, vec, meta) = x in
     if list_ex (emb_hit coll doc) es
     then Inr (update_where (emb_hit coll doc) (\<lambda>r. r\<lparr>em_vec := vec, em_meta := meta, em_created := now\<rparr>) es)
     else if new \<in> set (map em_id es)
     then Inl (pg_error ''duplicate key value violates unique constraint \"pwrap_embeddings_pkey\"'' ''23505'')
     else Inr (es @ [\<lparr>em_coll = coll, em_id = new, em_doc = doc, em_vec = vec, em_meta = meta, em_created = now\<rparr>]))"

fun emb_put_all :: "(nat \<Rightarrow> uuid) \<Rightarrow> instant \<Rightarrow> string \<Rightarrow> nat \<Rightarrow> (string \<times> rat list \<times> json) list \<Rightarrow> emb_row list \<Rightarrow>
    string + emb_row list" where
  "emb_put_all new now coll k [] es = Inr es"
| "emb_put_all new now coll k (x # xs) es = (case emb_put (new k) now coll x es of Inl e \<Rightarrow> Inl e
     | Inr es \<Rightarrow> emb_put_all new now coll (Suc k) xs es)"

definition emb_value :: "pgvector \<Rightarrow> string \<times> string \<times> json \<Rightarrow> string + string \<times> rat list \<times> json" where
  "emb_value P x = (let (doc, emb, meta) = x in case to_vector P emb of Inl e \<Rightarrow> Inl e
     | Inr v \<Rightarrow> (case to_jsonb meta of Inl e \<Rightarrow> Inl e | Inr m \<Rightarrow> Inr (doc, v, m)))"

definition emb_upsert ::
  "pgvector \<Rightarrow> (nat \<Rightarrow> uuid) \<Rightarrow> instant \<Rightarrow> string \<Rightarrow> (string \<times> string \<times> json) list \<Rightarrow> tenant \<Rightarrow> string + unit \<times> tenant" where
  "emb_upsert P new now coll xs d = (case traverse (emb_value P) xs of Inl e \<Rightarrow> Inl e | Inr rows \<Rightarrow>
     if \<not> distinct (map fst rows)
     then Inl (pg_error ''ON CONFLICT DO UPDATE command cannot affect row a second time'' ''21000'')
     else case emb_put_all new now coll 0 rows (tn_embs d) of Inl e \<Rightarrow> Inl e
     | Inr es \<Rightarrow> Inr ((), d\<lparr>tn_embs := es\<rparr>))"

text \<open>\<^verbatim>\<open>WHERE collection = $2 ORDER BY embedding <=> $1 LIMIT $3\<close> on the rows of the scan.\<close>

definition emb_search :: "pgvector \<Rightarrow> string \<Rightarrow> string \<Rightarrow> nat \<Rightarrow> tenant \<Rightarrow> string + (emb_row \<times> rat) list \<times> tenant" where
  "emb_search P q coll k d = (case to_vector P q of Inl e \<Rightarrow> Inl e
     | Inr v \<Rightarrow> Inr (map (\<lambda>r. (r, pv_dist P (em_vec r) v)) (take k (sort_key (\<lambda>r. pv_dist P (em_vec r) v)
         (filter (\<lambda>r. em_coll r = coll) (pv_scan P v (tn_embs d))))), d))"

section \<open>vector.go\<close>

record match_rec =
  mt_doc :: string
  mt_meta :: go_map
  mt_distance :: rat

record vector_record =
  vr_doc :: string
  vr_embedding :: "rat list"
  vr_meta :: go_arg

definition formatVector :: "pgvector \<Rightarrow> rat list \<Rightarrow> string" where
  "formatVector P v = ''['' @ join '','' (map (pv_format P) v) @ '']''"

definition orEmptyMap :: "go_arg \<Rightarrow> go_arg" where
  "orEmptyMap m = (if m = Inr None then Inr (Some []) else m)"

definition dim_error :: "string \<Rightarrow> nat \<Rightarrow> goerr" where
  "dim_error pre n = Msg (pre @ ''expected dim '' @ show_nat VectorDim @ '', got '' @ show_nat n)"

fun vector_rows :: "pgvector \<Rightarrow> nat \<Rightarrow> vector_record list \<Rightarrow> goerr + (string \<times> string \<times> json) list" where
  "vector_rows P i [] = Inr []"
| "vector_rows P i (r # rs) =
     (if length (vr_embedding r) \<noteq> VectorDim
      then Inl (dim_error (''pwrap: vector: record '' @ show_nat i @ '': '') (length (vr_embedding r)))
      else case orEmptyMap (vr_meta r) of Inl e \<Rightarrow> Inl (Ext e)
      | Inr m \<Rightarrow> (case vector_rows P (Suc i) rs of Inl e \<Rightarrow> Inl e
          | Inr xs \<Rightarrow> Inr ((vr_doc r, formatVector P (vr_embedding r), marshal_map m) # xs)))"

definition UpsertMany :: "tenv \<Rightarrow> pgvector \<Rightarrow> sdk_client \<Rightarrow> string \<Rightarrow> vector_record list \<Rightarrow> tworld \<Rightarrow> unit tres" where
  "UpsertMany E P c coll records w =
     (if records = [] then (Inr (), w)
      else case vector_rows P 0 records of Inl e \<Rightarrow> (Inl e, w)
      | Inr xs \<Rightarrow> sdk_run E c (\<lambda>q w.
          t_sql E (texts (coll # map fst xs) (emb_upsert P (te_id E (tw_tick w)) (q_now E q w) coll xs)) w) w)"

text \<open>\<^verbatim>\<open>Upsert\<close>, \<^verbatim>\<open>Delete\<close> and \<^verbatim>\<open>Search\<close> use the pool, whatever the client's user.\<close>

definition Upsert :: "tenv \<Rightarrow> pgvector \<Rightarrow> string \<Rightarrow> string \<Rightarrow> rat list \<Rightarrow> go_arg \<Rightarrow> tworld \<Rightarrow> unit tres" where
  "Upsert E P coll docID embedding meta w =
     (if length embedding \<noteq> VectorDim then (Inl (dim_error ''pwrap: vector: '' (length embedding)), w)
      else case orEmptyMap meta of Inl e \<Rightarrow> (Inl (Ext e), w)
      | Inr m \<Rightarrow> t_wrap ''pwrap: vector: upsert: '' (t_sql E (texts [coll, docID]
          (emb_upsert P (te_id E (tw_tick w)) (te_clock E (tw_tick w)) coll [(docID, formatVector P embedding, marshal_map m)])) w))"

definition vector_Delete :: "tenv \<Rightarrow> string \<Rightarrow> string \<Rightarrow> tworld \<Rightarrow> unit tres" where
  "vector_Delete E coll docID w =
     t_then (t_sql E (texts [coll, docID] (\<lambda>d. Inr (affected (emb_hit coll docID) (tn_embs d),
         d\<lparr>tn_embs := filter (\<lambda>r. \<not> emb_hit coll docID r) (tn_embs d)\<rparr>))) w)
       (\<lambda>n w. if n = 0 then (Inl (Sentinel ErrDocNotFound), w) else (Inr (), w))"

definition scan_match :: "tenv \<Rightarrow> emb_row \<times> rat \<Rightarrow> string + match_rec" where
  "scan_match E x = (let (r, dist) = x in case unmarshal_map (te_fl E) (em_meta r) of Inl e \<Rightarrow> Inl e
     | Inr m \<Rightarrow> Inr \<lparr>mt_doc = em_doc r, mt_meta = m, mt_distance = te_fl32 E dist\<rparr>)"

definition vector_Search :: "tenv \<Rightarrow> pgvector \<Rightarrow> string \<Rightarrow> rat list \<Rightarrow> int \<Rightarrow> tworld \<Rightarrow> match_rec list tres" where
  "vector_Search E P coll qv k w =
     (if length qv \<noteq> VectorDim then (Inl (dim_error ''pwrap: vector: '' (length qv)), w)
      else let k = (if k \<le> 0 then 10 else k) in
        t_then (t_wrap ''pwrap: vector: search: ''
            (t_sql E (texts [coll] (emb_search P (formatVector P qv) coll (nat k))) w))
          (\<lambda>rows w. case traverse (scan_match E) rows of Inl e \<Rightarrow> (Inl (Ext e), w) | Inr ms \<Rightarrow> (Inr ms, w)))"

section \<open>Lemmas\<close>

text \<open>The table as a map, and what its columns admit.\<close>

fun is_JObj :: "json \<Rightarrow> bool" where
  "is_JObj (JObj _) = True"
| "is_JObj _ = False"

definition emb_map :: "emb_row list \<Rightarrow> string \<times> string \<Rightarrow> (rat list \<times> json) option" where
  "emb_map es = map_of (map (\<lambda>r. ((em_coll r, em_doc r), (em_vec r, em_meta r))) es)"

definition embs_ok :: "emb_row list \<Rightarrow> bool" where
  "embs_ok es \<longleftrightarrow> distinct (map (\<lambda>r. (em_coll r, em_doc r)) es) \<and> distinct (map em_id es) \<and>
     list_all (\<lambda>r. length (em_vec r) = 1536 \<and> wf_json (em_meta r) \<and> is_JObj (em_meta r)) es"

lemma emb_map_update:
  "emb_map (update_where (emb_hit coll doc) (\<lambda>r. r\<lparr>em_vec := v, em_meta := m, em_created := t\<rparr>) es) =
     (if list_ex (emb_hit coll doc) es then (emb_map es)((coll, doc) \<mapsto> (v, m)) else emb_map es)"
  by (induction es) (auto simp: emb_map_def update_where_def emb_hit_def fun_eq_iff list_ex_iff)

lemma emb_map_append:
  "\<not> list_ex (emb_hit coll doc) es \<Longrightarrow>
     emb_map (es @ [\<lparr>em_coll = coll, em_id = i, em_doc = doc, em_vec = v, em_meta = m, em_created = t\<rparr>]) =
       (emb_map es)((coll, doc) \<mapsto> (v, m))"
  by (induction es) (auto simp: emb_map_def emb_hit_def fun_eq_iff list_ex_iff)

lemma emb_put_map: "emb_put new now coll (doc, v, m) es = Inr es' \<Longrightarrow> emb_map es' = (emb_map es)((coll, doc) \<mapsto> (v, m))"
  by (auto simp: emb_put_def emb_map_update emb_map_append split: if_splits)

lemma emb_put_ok:
  assumes "emb_put new now coll (doc, v, m) es = Inr es'" "embs_ok es" "length v = 1536" "wf_json m" "is_JObj m"
  shows "embs_ok es'"
proof (cases "list_ex (emb_hit coll doc) es")
  case True
  let ?f = "\<lambda>r :: emb_row. r\<lparr>em_vec := v, em_meta := m, em_created := now\<rparr>"
  let ?u = "update_where (emb_hit coll doc) ?f es"
  have "es' = ?u" using assms(1) True by (simp add: emb_put_def)
  moreover have "map (\<lambda>r. (em_coll r, em_doc r)) ?u = map (\<lambda>r. (em_coll r, em_doc r)) es" "map em_id ?u = map em_id es"
    by (simp_all add: update_where_def)
  moreover have "list_all (\<lambda>r. length (em_vec r) = 1536 \<and> wf_json (em_meta r) \<and> is_JObj (em_meta r)) ?u"
    using assms(2-) by (auto simp: embs_ok_def update_where_def list_all_iff)
  ultimately show ?thesis using assms(2) by (simp add: embs_ok_def)
next
  case False
  with assms show ?thesis by (auto simp: emb_put_def embs_ok_def emb_hit_def list_ex_iff split: if_splits)
qed

text \<open>A batch is its rows in their order.\<close>

definition put_key :: "string \<Rightarrow> string \<times> 'v \<Rightarrow> (string \<times> string \<Rightarrow> 'v option) \<Rightarrow> string \<times> string \<Rightarrow> 'v option" where
  "put_key coll x f = f((coll, fst x) \<mapsto> snd x)"

lemma emb_put_all_map:
  "emb_put_all new now coll k rows es = Inr es' \<Longrightarrow> emb_map es' = fold (put_key coll) rows (emb_map es)"
  by (induction rows arbitrary: k es) (auto simp: put_key_def dest: emb_put_map split: sum.splits)

lemma emb_put_all_ok:
  "emb_put_all new now coll k rows es = Inr es' \<Longrightarrow> embs_ok es \<Longrightarrow>
     list_all (\<lambda>(doc, v, m). length v = 1536 \<and> wf_json m \<and> is_JObj m) rows \<Longrightarrow> embs_ok es'"
  by (induction rows arbitrary: k es) (auto dest: emb_put_ok split: sum.splits)

lemma to_jsonb_typed: "to_jsonb j = Inr v \<Longrightarrow> wf_json v \<and> (is_JObj j \<longrightarrow> is_JObj v)"
  using jsonb_wf [of j] by (cases j) (auto simp: to_jsonb_def simp del: wf_json.simps split: if_splits)

lemma emb_value_Inr: "emb_value P (doc, emb, meta) = Inr y \<Longrightarrow> \<exists>v m. y = (doc, v, m) \<and> pv_parse P emb = Inr v \<and>
    length v = 1536 \<and> to_jsonb meta = Inr m \<and> wf_json m \<and> (is_JObj meta \<longrightarrow> is_JObj m)"
  by (auto simp: emb_value_def to_vector_def split: sum.splits if_splits dest: to_jsonb_typed)

lemma emb_upsert_Inr:
  assumes "emb_upsert P new now coll xs d = Inr (u, d')"
  shows "\<exists>rows es. list_all2 (\<lambda>x y. emb_value P x = Inr y) xs rows \<and> distinct (map fst rows) \<and>
    emb_put_all new now coll 0 rows (tn_embs d) = Inr es \<and> d' = d\<lparr>tn_embs := es\<rparr>"
  using assms by (auto simp: emb_upsert_def traverse_Inr split: sum.splits if_splits)

lemma emb_upsert_ok:
  assumes "emb_upsert P new now coll xs d = Inr (u, d')" "embs_ok (tn_embs d)" "list_all (\<lambda>x. is_JObj (snd (snd x))) xs"
  shows "embs_ok (tn_embs d')"
proof -
  obtain rows es where r: "list_all2 (\<lambda>x y. emb_value P x = Inr y) xs rows"
    "emb_put_all new now coll 0 rows (tn_embs d) = Inr es" "d' = d\<lparr>tn_embs := es\<rparr>"
    using emb_upsert_Inr [OF assms(1)] by blast
  have "list_all (\<lambda>(doc, v, m). length v = 1536 \<and> wf_json m \<and> is_JObj m) rows"
    using r(1) assms(3) by (induction rule: list_all2_induct) (auto dest!: emb_value_Inr)
  with emb_put_all_ok [OF r(2) assms(2)] r(3) show ?thesis by simp
qed

lemma orEmptyMap_object: "orEmptyMap a = Inr m \<Longrightarrow> is_JObj (marshal_map m)"
  by (cases a; cases m) (auto simp: orEmptyMap_def split: if_splits option.splits)

lemma vector_rows_Inr:
  "vector_rows P i rs = Inr xs \<Longrightarrow> list_all2 (\<lambda>r x. length (vr_embedding r) = VectorDim \<and>
     (\<exists>m. orEmptyMap (vr_meta r) = Inr m \<and> x = (vr_doc r, formatVector P (vr_embedding r), marshal_map m))) rs xs"
  by (induction rs arbitrary: i xs) (auto split: if_splits sum.splits)

lemma vector_rows_objects: "vector_rows P i rs = Inr xs \<Longrightarrow> list_all (\<lambda>x. is_JObj (snd (snd x))) xs"
  by (induction rs arbitrary: i xs) (auto split: if_splits sum.splits dest: orEmptyMap_object)

lemma UpsertMany_run:
  assumes "UpsertMany E P c coll records w = (Inr (), w')" "records \<noteq> []"
  obtains xs new now where "vector_rows P 0 records = Inr xs"
    "emb_upsert P new now coll xs (tw_db w) = Inr ((), tw_db w')"
proof -
  obtain xs where xs: "vector_rows P 0 records = Inr xs" and r: "sdk_run E c (\<lambda>q w. t_sql E (texts (coll # map fst xs)
      (emb_upsert P (te_id E (tw_tick w)) (q_now E q w) coll xs)) w) w = (Inr (), w')"
    using assms by (auto simp: UpsertMany_def split: sum.splits)
  from sdk_run_Inr [OF r] that [OF xs] show thesis by (auto simp: t_sql_Inr texts_Inr)
qed

lemma UpsertMany_atomic: "atomic (UpsertMany E P c coll records)"
  unfolding UpsertMany_def [abs_def] by (intro step_intros)

lemma Upsert_atomic: "atomic (Upsert E P coll docID v m)"
  unfolding Upsert_def [abs_def] by (intro step_intros)

lemma list_all2_in: "list_all2 Q xs ys \<Longrightarrow> x \<in> set xs \<Longrightarrow> \<exists>y \<in> set ys. Q x y"
  by (induction rule: list_all2_induct) auto

lemma fold_put_other: "\<forall>x \<in> set rows. (coll, fst x) \<noteq> key \<Longrightarrow> fold (put_key coll) rows f key = f key"
  by (induction rows arbitrary: f) (auto simp: put_key_def)

lemma fold_put_row: "distinct (map fst rows) \<Longrightarrow> x \<in> set rows \<Longrightarrow> fold (put_key coll) rows f (coll, fst x) = Some (snd x)"
proof (induction rows arbitrary: f)
  case (Cons y rows)
  show ?case
  proof (cases "x = y")
    case True
    then have "\<forall>z \<in> set rows. (coll, fst z) \<noteq> (coll, fst x)" using Cons.prems(1) by auto (metis fst_conv image_eqI)
    from fold_put_other [OF this, of "put_key coll y f"] True show ?thesis by (simp add: put_key_def [of coll y])
  qed (use Cons in simp)
qed simp

text \<open>Of the nearest first, at most \<open>n\<close>: what is left out is no nearer.\<close>

lemma take_sort_key:
  fixes f :: "'r \<Rightarrow> 'k :: linorder"
  assumes "rs = take n (sort_key f sel)"
  shows "length rs = min n (length sel) \<and> set rs \<subseteq> set sel \<and> sorted (map f rs) \<and>
    (\<exists>rest. mset sel = mset rs + mset rest \<and> (\<forall>x \<in> set rest. \<forall>y \<in> set rs. f y \<le> f x))"
proof -
  let ?s = "sort_key f sel"
  have split: "?s = rs @ drop n ?s" using assms by simp
  have "mset sel = mset rs + mset (drop n ?s)" using split by (metis mset_append mset_sort)
  moreover have "sorted (map f (rs @ drop n ?s))" using sorted_sort_key [of f sel] split by simp
  then have "sorted (map f rs) \<and> (\<forall>y \<in> set rs. \<forall>x \<in> set (drop n ?s). f y \<le> f x)"
    by (simp add: sorted_append)
  moreover have "set rs \<subseteq> set sel" using assms by (metis set_sort set_take_subset)
  moreover have "length rs = min n (length sel)" using assms by simp
  ultimately show ?thesis by blast
qed

section \<open>Properties\<close>

text \<open>
  Property C13. Whatever the operations of a vector collection are given and however they end, the table
  stays well typed: one row for a collection and document, distinct ids, every embedding of the 1536 dimensions of the
  column, every metadata a JSON object with distinct keys.
\<close>

theorem vector_table_typed:
  assumes "embs_ok (tn_embs (tw_db w))"
  shows "embs_ok (tn_embs (tw_db (snd (UpsertMany E P c coll records w)))) \<and>
    embs_ok (tn_embs (tw_db (snd (Upsert E P coll docID v meta w)))) \<and>
    embs_ok (tn_embs (tw_db (snd (vector_Delete E coll docID w))))"
proof (intro conjI)
  show "embs_ok (tn_embs (tw_db (snd (UpsertMany E P c coll records w))))"
  proof (rule atomic_holds [where Q = "\<lambda>d. embs_ok (tn_embs d)", OF UpsertMany_atomic assms])
    fix u w' assume m: "UpsertMany E P c coll records w = (Inr u, w')"
    show "embs_ok (tn_embs (tw_db w'))"
    proof (cases "records = []")
      case True
      with m assms show ?thesis by (simp add: UpsertMany_def)
    next
      case False
      from m have "UpsertMany E P c coll records w = (Inr (), w')" by simp
      then show ?thesis
      proof (rule UpsertMany_run [OF _ False])
        fix xs new now assume x: "vector_rows P 0 records = Inr xs" "emb_upsert P new now coll xs (tw_db w) = Inr ((), tw_db w')"
        show ?thesis by (rule emb_upsert_ok [OF x(2) assms vector_rows_objects [OF x(1)]])
      qed
    qed
  qed
  show "embs_ok (tn_embs (tw_db (snd (Upsert E P coll docID v meta w))))"
  proof (rule atomic_holds [where Q = "\<lambda>d. embs_ok (tn_embs d)", OF Upsert_atomic assms])
    fix u w' assume "Upsert E P coll docID v meta w = (Inr u, w')"
    then show "embs_ok (tn_embs (tw_db w'))"
      by (auto simp: Upsert_def t_wrap_Inr t_sql_Inr texts_Inr dest!: orEmptyMap_object
        intro!: emb_upsert_ok [OF _ assms] split: sum.splits if_splits)
  qed
  have "embs_ok (filter Q es)" if "embs_ok es" for Q es
    using that by (auto simp: embs_ok_def list_all_iff intro: distinct_map_filter)
  with assms show "embs_ok (tn_embs (tw_db (snd (vector_Delete E coll docID w))))"
    by (auto simp: vector_Delete_def t_then_def t_sql_def texts_def split: option.splits sum.splits prod.splits if_splits)
qed

lemma vector_rows_short:
  assumes "\<exists>x \<in> set records. length (vr_embedding x) \<noteq> VectorDim"
  shows "\<exists>e. vector_rows P i records = Inl e"
proof (cases "vector_rows P i records")
  case (Inr xs)
  from vector_rows_Inr [OF this] assms show ?thesis by (auto simp: list_all2_conv_all_nth in_set_conv_nth)
qed simp

lemma UpsertMany_short:
  assumes "UpsertMany E P c coll records w = (r, w')" "\<exists>x \<in> set records. length (vr_embedding x) \<noteq> VectorDim"
  shows "(\<exists>e. r = Inl e) \<and> w' = w"
proof -
  from assms(2) have "records \<noteq> []" by auto
  moreover obtain e where "vector_rows P 0 records = Inl e" using vector_rows_short [OF assms(2)] by blast
  ultimately show ?thesis using assms(1) by (auto simp: UpsertMany_def)
qed

lemma upsert_rows_map:
  assumes "vector_rows P 0 records = Inr xs" "emb_upsert P new now coll xs t = Inr ((), t')"
  obtains rows where "distinct (map fst rows)" "map vr_doc records = map fst rows"
    "emb_map (tn_embs t') = fold (put_key coll) rows (emb_map (tn_embs t))"
    "list_all2 (\<lambda>x y. \<exists>v m a. y = (vr_doc x, v, m) \<and> length (vr_embedding x) = VectorDim \<and>
       pv_parse P (formatVector P (vr_embedding x)) = Inr v \<and> orEmptyMap (vr_meta x) = Inr a \<and>
       to_jsonb (marshal_map a) = Inr m) records rows"
proof -
  note l1 = vector_rows_Inr [OF assms(1)]
  obtain rows es where l2: "list_all2 (\<lambda>x y. emb_value P x = Inr y) xs rows" and dist: "distinct (map fst rows)"
    and put: "emb_put_all new now coll 0 rows (tn_embs t) = Inr es" "t' = t\<lparr>tn_embs := es\<rparr>"
    using emb_upsert_Inr [OF assms(2)] by blast
  have l3: "list_all2 (\<lambda>x y. \<exists>v m a. y = (vr_doc x, v, m) \<and> length (vr_embedding x) = VectorDim \<and>
     pv_parse P (formatVector P (vr_embedding x)) = Inr v \<and> orEmptyMap (vr_meta x) = Inr a \<and>
     to_jsonb (marshal_map a) = Inr m) records rows"
    by (rule list_all2_trans [OF _ l1 l2]) (auto dest!: emb_value_Inr)
  then have "map vr_doc records = map fst rows" by (induction rule: list_all2_induct) auto
  then show thesis using that [OF dist _ _ l3] emb_put_all_map [OF put(1)] put(2) by simp
qed

lemma upsert_rows_written:
  assumes "vector_rows P 0 records = Inr xs" "emb_upsert P new now coll xs t = Inr ((), t')"
  shows "distinct (map vr_doc records) \<and>
    (\<forall>x \<in> set records. \<exists>v m a. length (vr_embedding x) = VectorDim \<and>
       pv_parse P (formatVector P (vr_embedding x)) = Inr v \<and> orEmptyMap (vr_meta x) = Inr a \<and>
       to_jsonb (marshal_map a) = Inr m \<and> emb_map (tn_embs t') (coll, vr_doc x) = Some (v, m)) \<and>
    (\<forall>key. key \<notin> Pair coll ` vr_doc ` set records \<longrightarrow> emb_map (tn_embs t') key = emb_map (tn_embs t) key)"
proof -
  obtain rows where dist: "distinct (map fst rows)" and docs: "map vr_doc records = map fst rows"
    and map: "emb_map (tn_embs t') = fold (put_key coll) rows (emb_map (tn_embs t))"
    and l: "list_all2 (\<lambda>x y. \<exists>v m a. y = (vr_doc x, v, m) \<and> length (vr_embedding x) = VectorDim \<and>
       pv_parse P (formatVector P (vr_embedding x)) = Inr v \<and> orEmptyMap (vr_meta x) = Inr a \<and>
       to_jsonb (marshal_map a) = Inr m) records rows"
    by (rule upsert_rows_map [OF assms])
  have "\<exists>v m a. length (vr_embedding x) = VectorDim \<and> pv_parse P (formatVector P (vr_embedding x)) = Inr v \<and>
     orEmptyMap (vr_meta x) = Inr a \<and> to_jsonb (marshal_map a) = Inr m \<and>
     emb_map (tn_embs t') (coll, vr_doc x) = Some (v, m)" if x: "x \<in> set records" for x
  proof -
    from list_all2_in [OF l x] obtain v m a where y: "(vr_doc x, v, m) \<in> set rows" "length (vr_embedding x) = VectorDim"
      "pv_parse P (formatVector P (vr_embedding x)) = Inr v" "orEmptyMap (vr_meta x) = Inr a"
      "to_jsonb (marshal_map a) = Inr m" by blast
    from fold_put_row [OF dist y(1)] y(2-) show ?thesis unfolding map by auto
  qed
  moreover have "emb_map (tn_embs t') key = emb_map (tn_embs t) key"
    if key: "key \<notin> Pair coll ` vr_doc ` set records" for key
    unfolding map
  proof (rule fold_put_other, intro ballI notI)
    fix y assume "y \<in> set rows" "(coll, fst y) = key"
    then have "key \<in> Pair coll ` set (map fst rows)" by auto
    with key docs show False by (metis set_map)
  qed
  ultimately show ?thesis using dist docs by metis
qed


text \<open>
  A search of a well-typed table on a server that answers succeeds: at most \<open>k\<close> matches
  (10 when it is not positive) of the collection, nearest first, each with its distance; they are among the rows the
  scan delivers, none that it leaves out is nearer, and when the scan delivers every row of the table no row of the
  collection is nearer.
\<close>

lemma Search_spec:
  assumes "embs_ok (tn_embs (tw_db w))" "healthy E w" "pg_text coll" "length qv = VectorDim"
    and "pv_parse P (formatVector P qv) = Inr v" "length v = 1536"
    and "\<And>es. set (pv_scan P v es) \<subseteq> set es"
  defines "sel \<equiv> filter (\<lambda>r. em_coll r = coll) (pv_scan P v (tn_embs (tw_db w)))"
  shows "\<exists>rows rest ms. fst (vector_Search E P coll qv k w) = Inr ms \<and>
    list_all2 (\<lambda>r m. mt_doc m = em_doc r \<and> mt_distance m = te_fl32 E (pv_dist P (em_vec r) v)) rows ms \<and>
    length ms = min (nat (if k \<le> 0 then 10 else k)) (length sel) \<and> mset sel = mset rows + mset rest \<and>
    sorted (map (\<lambda>r. pv_dist P (em_vec r) v) rows) \<and>
    (\<forall>r' \<in> set rest. \<forall>r \<in> set rows. pv_dist P (em_vec r) v \<le> pv_dist P (em_vec r') v) \<and>
    (mset (pv_scan P v (tn_embs (tw_db w))) = mset (tn_embs (tw_db w)) \<longrightarrow>
      mset (filter (\<lambda>r. em_coll r = coll) (tn_embs (tw_db w))) = mset rows + mset rest)"
proof -
  let ?f = "\<lambda>r. pv_dist P (em_vec r) v"
  define n where "n = nat (if k \<le> 0 then 10 else k)"
  define rows where "rows = take n (sort_key ?f sel)"
  from take_sort_key [of rows n ?f sel] rows_def obtain rest where lim: "length rows = min n (length sel)"
    "set rows \<subseteq> set sel" "sorted (map ?f rows)" "mset sel = mset rows + mset rest"
    "\<forall>x \<in> set rest. \<forall>y \<in> set rows. ?f y \<le> ?f x" by blast
  have obj: "\<exists>kvs. em_meta r = JObj kvs" if "r \<in> set rows" for r
  proof -
    have "r \<in> set (tn_embs (tw_db w))" using that lim(2) assms(7) by (auto simp: sel_def)
    with assms(1) have "is_JObj (em_meta r)" by (simp add: embs_ok_def list_all_iff)
    then show ?thesis by (cases "em_meta r") simp_all
  qed
  have "\<exists>ms. traverse (scan_match E) (map (\<lambda>r. (r, ?f r)) rs) = Inr ms \<and>
      list_all2 (\<lambda>r m. mt_doc m = em_doc r \<and> mt_distance m = te_fl32 E (?f r)) rs ms" if "set rs \<subseteq> set rows" for rs
    using that
  proof (induction rs)
    case (Cons r rs)
    then obtain kvs where "em_meta r = JObj kvs" using obj by auto
    with Cons show ?case by (auto simp: scan_match_def unmarshal_map_def)
  qed simp
  then obtain ms where ms: "traverse (scan_match E) (map (\<lambda>r. (r, ?f r)) rows) = Inr ms"
      "list_all2 (\<lambda>r m. mt_doc m = em_doc r \<and> mt_distance m = te_fl32 E (?f r)) rows ms" by blast
  have "emb_search P (formatVector P qv) coll n (tw_db w) = Inr (map (\<lambda>r. (r, ?f r)) rows, tw_db w)"
    using assms(5,6) by (simp add: emb_search_def to_vector_def rows_def sel_def)
  then have res: "fst (vector_Search E P coll qv k w) = Inr ms"
    using assms(2-4) ms(1) by (simp add: vector_Search_def t_sql_healthy texts_def t_wrap_def flip: n_def)
  have "mset (filter (\<lambda>r. em_coll r = coll) (tn_embs (tw_db w))) = mset rows + mset rest"
    if "mset (pv_scan P v (tn_embs (tw_db w))) = mset (tn_embs (tw_db w))"
    using lim(4) arg_cong [OF that, of "filter_mset (\<lambda>r. em_coll r = coll)"] by (simp add: sel_def)
  with res ms(2) lim list_all2_lengthD [OF ms(2)] show ?thesis
    unfolding n_def by (intro exI [of _ rows] exI [of _ rest] exI [of _ ms]) simp
qed

section \<open>A concrete table\<close>

definition demo_vec :: "rat list" where
  "demo_vec = replicate 1536 0"

definition demo_pgvector :: pgvector where
  "demo_pgvector = \<lparr>pv_format = (\<lambda>_. ''0''), pv_parse = (\<lambda>_. Inr demo_vec), pv_dist = (\<lambda>_ _. 0), pv_scan = (\<lambda>_ es. es)\<rparr>"

definition demo_record :: vector_record where
  "demo_record = \<lparr>vr_doc = ''a'', vr_embedding = demo_vec, vr_meta = Inr None\<rparr>"

definition demo_embs :: tworld where
  "demo_embs = snd (UpsertMany demo_tenv demo_pgvector (demo_client []) ''notes'' [demo_record] demo_tworld)"

lemma demo_upsert: "UpsertMany demo_tenv demo_pgvector (demo_client []) ''notes'' [demo_record] demo_tworld = (Inr (), demo_embs)"
proof -
  have "pg_text ''notes''" "pg_text ''a''" by code_simp+
  then have "fst (UpsertMany demo_tenv demo_pgvector (demo_client []) ''notes'' [demo_record] demo_tworld) = Inr ()"
    by (simp add: UpsertMany_def demo_record_def VectorDim_def demo_vec_def orEmptyMap_def sdk_run_def demo_client_def
        t_sql_healthy demo_answers texts_def emb_upsert_def emb_value_def to_vector_def demo_pgvector_def to_jsonb_def
        emb_put_def demo_tworld_def demo_tenant_def dedup_def)
  then show ?thesis by (simp add: demo_embs_def prod_eq_iff)
qed

lemma demo_embs_rows: "tn_embs (tw_db demo_embs) = [\<lparr>em_coll = ''notes'', em_id = te_id demo_tenv 0 0, em_doc = ''a'',
    em_vec = demo_vec, em_meta = JObj [], em_created = 0\<rparr>]"
proof -
  have "pg_text ''notes''" "pg_text ''a''" by code_simp+
  then show ?thesis
    by (simp add: demo_embs_def UpsertMany_def demo_record_def VectorDim_def demo_vec_def orEmptyMap_def sdk_run_def demo_client_def
        t_sql_healthy demo_answers texts_def emb_upsert_def emb_value_def to_vector_def demo_pgvector_def to_jsonb_def
        emb_put_def demo_tworld_def demo_tenant_def dedup_def) (simp add: demo_tenv_def)
qed


lemma vector_table_typed_witness:
  "embs_ok (tn_embs (tw_db demo_embs)) \<and> length (tn_embs (tw_db demo_embs)) = 1"
proof -
  have "embs_ok (tn_embs (tw_db demo_tworld))" by (simp add: demo_tworld_def demo_tenant_def embs_ok_def)
  from vector_table_typed [OF this, of demo_tenv demo_pgvector "demo_client []" "''notes''" "[demo_record]"]
  have "embs_ok (tn_embs (tw_db demo_embs))" by (simp add: demo_embs_def)
  then show ?thesis by (simp add: demo_embs_rows)
qed

end
