(* ===== verification/Sdk_Geo.thy ===== *)
theory Sdk_Geo
  imports Sdk_Vector
begin

text \<open>
  \<^verbatim>\<open>sdk/go/pwrap/geo.go\<close>: the feature collections. PostGIS is a parameter: how it reads and renders a
  geometry, and its distances and predicates. The lemmas: what an insert stores and what the three queries return.
\<close>

section \<open>Statements\<close>

text \<open>
  \<open>gis_point\<close> is \<^verbatim>\<open>ST_MakePoint\<close> in SRID 4326, \<open>gis_in\<close> and \<open>gis_out\<close> read and render
  GeoJSON, \<open>gis_distance\<close> is \<^verbatim>\<open>ST_Distance\<close> on the spheroid and \<open>gis_knn\<close> the operator
  \<^verbatim>\<open><->\<close> (NULL for an empty geometry), \<open>gis_dwithin\<close> and \<open>gis_overlaps\<close> the predicates.
\<close>

record postgis =
  gis_point :: "rat \<Rightarrow> rat \<Rightarrow> geometry"
  gis_in :: "string \<Rightarrow> string + geometry"
  gis_out :: "geometry \<Rightarrow> json"
  gis_distance :: "geometry \<Rightarrow> geometry \<Rightarrow> rat option"
  gis_knn :: "geometry \<Rightarrow> geometry \<Rightarrow> rat option"
  gis_dwithin :: "geometry \<Rightarrow> geometry \<Rightarrow> rat \<Rightarrow> bool"
  gis_overlaps :: "geometry \<Rightarrow> rat \<Rightarrow> rat \<Rightarrow> rat \<Rightarrow> rat \<Rightarrow> bool"

definition geo_rows :: "(nat \<Rightarrow> uuid) \<Rightarrow> instant \<Rightarrow> string \<Rightarrow> (geometry \<times> json) list \<Rightarrow> geo_row list" where
  "geo_rows new now coll xs = map (\<lambda>(k, g, m). \<lparr>ge_coll = coll, ge_id = new k, ge_geom = g, ge_meta = m,
     ge_created = now, ge_updated = now\<rparr>) (enumerate 0 xs)"

definition geo_value :: "(string + geometry) \<times> json \<Rightarrow> string + geometry \<times> json" where
  "geo_value x = (case fst x of Inl e \<Rightarrow> Inl e
     | Inr g \<Rightarrow> (case to_jsonb (snd x) of Inl e \<Rightarrow> Inl e | Inr m \<Rightarrow> Inr (g, m)))"

definition geo_insert ::
  "(nat \<Rightarrow> uuid) \<Rightarrow> instant \<Rightarrow> string \<Rightarrow> ((string + geometry) \<times> json) list \<Rightarrow> tenant \<Rightarrow> string + uuid list \<times> tenant" where
  "geo_insert new now coll xs d = (case traverse geo_value xs of Inl e \<Rightarrow> Inl e | Inr vs \<Rightarrow>
     (let rows = geo_rows new now coll vs; ids = map ge_id rows in
      if distinct ids \<and> list_all (\<lambda>i. i \<notin> set (map ge_id (tn_geo d))) ids
      then Inr (ids, d\<lparr>tn_geo := tn_geo d @ rows\<rparr>)
      else Inl (pg_error ''duplicate key value violates unique constraint \"pwrap_geo_pkey\"'' ''23505'')))"

definition geo_hit :: "string \<Rightarrow> uuid \<Rightarrow> geo_row \<Rightarrow> bool" where
  "geo_hit coll i r \<longleftrightarrow> ge_coll r = coll \<and> ge_id r = i"

text \<open>\<^verbatim>\<open>ORDER BY f\<close>: NULL comes last.\<close>

definition nulls_last :: "('r \<Rightarrow> rat option) \<Rightarrow> 'r list \<Rightarrow> 'r list" where
  "nulls_last f rs = sort_key (\<lambda>r. the (f r)) (filter (\<lambda>r. f r \<noteq> None) rs) @ filter (\<lambda>r. f r = None) rs"

section \<open>geo.go\<close>

record feature =
  ft_id :: uuid
  ft_geometry :: go_map
  ft_metadata :: go_map
  ft_created :: instant
  ft_updated :: instant
  ft_distance :: rat

record geo_point =
  gp_lng :: rat
  gp_lat :: rat
  gp_metadata :: go_arg

fun point_rows :: "postgis \<Rightarrow> geo_point list \<Rightarrow> goerr + ((string + geometry) \<times> json) list" where
  "point_rows G [] = Inr []"
| "point_rows G (p # ps) = (case orEmptyMap (gp_metadata p) of Inl e \<Rightarrow> Inl (Ext e)
     | Inr m \<Rightarrow> (case point_rows G ps of Inl e \<Rightarrow> Inl e
         | Inr xs \<Rightarrow> Inr ((Inr (gis_point G (gp_lng p) (gp_lat p)), marshal_map m) # xs)))"

definition InsertPointMany :: "tenv \<Rightarrow> postgis \<Rightarrow> sdk_client \<Rightarrow> string \<Rightarrow> geo_point list \<Rightarrow> tworld \<Rightarrow> uuid list tres" where
  "InsertPointMany E G c coll points w =
     (if points = [] then (Inr [], w)
      else case point_rows G points of Inl e \<Rightarrow> (Inl e, w)
      | Inr xs \<Rightarrow> sdk_run E c (\<lambda>q w. t_sql E (texts [coll] (geo_insert (te_id E (tw_tick w)) (q_now E q w) coll xs)) w) w)"

definition InsertPoint :: "tenv \<Rightarrow> postgis \<Rightarrow> sdk_client \<Rightarrow> string \<Rightarrow> rat \<Rightarrow> rat \<Rightarrow> go_arg \<Rightarrow> tworld \<Rightarrow> uuid tres" where
  "InsertPoint E G c coll lng lat metadata w = (case orEmptyMap metadata of Inl e \<Rightarrow> (Inl (Ext e), w)
     | Inr m \<Rightarrow> sdk_run E c (\<lambda>q w. t_then (t_sql E (texts [coll] (geo_insert (te_id E (tw_tick w)) (q_now E q w) coll
           [(Inr (gis_point G lng lat), marshal_map m)])) w) (\<lambda>ids w. (Inr (hd ids), w))) w)"

definition geo_Insert :: "tenv \<Rightarrow> postgis \<Rightarrow> sdk_client \<Rightarrow> string \<Rightarrow> string \<Rightarrow> go_arg \<Rightarrow> tworld \<Rightarrow> uuid tres" where
  "geo_Insert E G c coll geoJSON metadata w = (case orEmptyMap metadata of Inl e \<Rightarrow> (Inl (Ext e), w)
     | Inr m \<Rightarrow> sdk_run E c (\<lambda>q w. t_then (t_sql E (texts [coll, geoJSON] (geo_insert (te_id E (tw_tick w)) (q_now E q w) coll
           [(gis_in G geoJSON, marshal_map m)])) w) (\<lambda>ids w. (Inr (hd ids), w))) w)"

definition scan_feature :: "tenv \<Rightarrow> postgis \<Rightarrow> bool \<Rightarrow> geo_row \<times> rat \<Rightarrow> goerr + feature" where
  "scan_feature E G withDistance x = (case unmarshal_map (te_fl E) (gis_out G (ge_geom (fst x))) of
      Inl e \<Rightarrow> Inl (Wrap ''pwrap: geo: decode geometry: '' (Ext e))
    | Inr g \<Rightarrow> (case unmarshal_map (te_fl E) (ge_meta (fst x)) of
        Inl e \<Rightarrow> Inl (Wrap ''pwrap: geo: decode metadata: '' (Ext e))
      | Inr m \<Rightarrow> Inr \<lparr>ft_id = ge_id (fst x), ft_geometry = g, ft_metadata = m, ft_created = ge_created (fst x),
          ft_updated = ge_updated (fst x), ft_distance = (if withDistance then snd x else 0)\<rparr>))"

definition geo_Get :: "tenv \<Rightarrow> postgis \<Rightarrow> sdk_client \<Rightarrow> string \<Rightarrow> uuid \<Rightarrow> tworld \<Rightarrow> feature tres" where
  "geo_Get E G c coll i w =
     t_then (sdk_run E c (\<lambda>q w.
         t_then (t_sql E (texts [coll] (\<lambda>d. Inr (select_one (geo_hit coll i) (tn_geo d), d))) w) (\<lambda>r w.
           case r of None \<Rightarrow> (Inl (Sentinel ErrDocNotFound), w) | Some r \<Rightarrow> (Inr r, w))) w)
       (\<lambda>r w. case scan_feature E G False (r, 0) of Inl e \<Rightarrow> (Inl e, w) | Inr x \<Rightarrow> (Inr x, w))"

definition geo_Delete :: "tenv \<Rightarrow> sdk_client \<Rightarrow> string \<Rightarrow> uuid \<Rightarrow> tworld \<Rightarrow> unit tres" where
  "geo_Delete E c coll i w =
     t_then (sdk_run E c (\<lambda>q w. t_sql E (texts [coll] (\<lambda>d. Inr (affected (geo_hit coll i) (tn_geo d),
         d\<lparr>tn_geo := filter (\<lambda>r. \<not> geo_hit coll i r) (tn_geo d)\<rparr>))) w) w)
       (\<lambda>n w. if n = 0 then (Inl (Sentinel ErrDocNotFound), w) else (Inr (), w))"

text \<open>The rows of a query come with a distance; \<^verbatim>\<open>Scan\<close> refuses NULL for it.\<close>

definition scanFeatures ::
  "tenv \<Rightarrow> postgis \<Rightarrow> sdk_client \<Rightarrow> string \<Rightarrow> (tenant \<Rightarrow> (geo_row \<times> rat option) list) \<Rightarrow> bool \<Rightarrow> tworld \<Rightarrow> feature list tres" where
  "scanFeatures E G c coll q0 withDistance w =
     sdk_run E c (\<lambda>q w. t_then (t_sql E (texts [coll] (\<lambda>d. Inr (q0 d, d))) w) (\<lambda>rows w.
       case traverse (\<lambda>(r, dist). case dist of None \<Rightarrow> Inl (Ext ''cannot scan NULL into *float64'')
           | Some x \<Rightarrow> scan_feature E G withDistance (r, x)) rows of
         Inl e \<Rightarrow> (Inl e, w) | Inr fs \<Rightarrow> (Inr fs, w))) w"

definition radius_rows :: "postgis \<Rightarrow> string \<Rightarrow> geometry \<Rightarrow> rat \<Rightarrow> nat \<Rightarrow> tenant \<Rightarrow> (geo_row \<times> rat option) list" where
  "radius_rows G coll p meters n d = map (\<lambda>r. (r, gis_distance G (ge_geom r) p))
     (take n (nulls_last (\<lambda>r. gis_distance G (ge_geom r) p)
        (filter (\<lambda>r. ge_coll r = coll \<and> gis_dwithin G (ge_geom r) p meters) (tn_geo d))))"

definition WithinRadius ::
  "tenv \<Rightarrow> postgis \<Rightarrow> sdk_client \<Rightarrow> string \<Rightarrow> rat \<Rightarrow> rat \<Rightarrow> rat \<Rightarrow> int \<Rightarrow> tworld \<Rightarrow> feature list tres" where
  "WithinRadius E G c coll lng lat meters lm w =
     (let lm = (if lm \<le> 0 then 100 else lm) in
      scanFeatures E G c coll (radius_rows G coll (gis_point G lng lat) meters (nat lm)) True w)"

definition bbox_rows :: "postgis \<Rightarrow> string \<Rightarrow> rat \<Rightarrow> rat \<Rightarrow> rat \<Rightarrow> rat \<Rightarrow> nat \<Rightarrow> tenant \<Rightarrow> (geo_row \<times> rat option) list" where
  "bbox_rows G coll x1 y1 x2 y2 n d = map (\<lambda>r. (r, Some 0))
     (take n (filter (\<lambda>r. ge_coll r = coll \<and> gis_overlaps G (ge_geom r) x1 y1 x2 y2) (tn_geo d)))"

definition WithinBBox ::
  "tenv \<Rightarrow> postgis \<Rightarrow> sdk_client \<Rightarrow> string \<Rightarrow> rat \<Rightarrow> rat \<Rightarrow> rat \<Rightarrow> rat \<Rightarrow> int \<Rightarrow> tworld \<Rightarrow> feature list tres" where
  "WithinBBox E G c coll minLng minLat maxLng maxLat lm w =
     (let lm = (if lm \<le> 0 then 100 else lm) in
      scanFeatures E G c coll (bbox_rows G coll minLng minLat maxLng maxLat (nat lm)) False w)"

definition nearest_rows :: "postgis \<Rightarrow> string \<Rightarrow> geometry \<Rightarrow> nat \<Rightarrow> tenant \<Rightarrow> (geo_row \<times> rat option) list" where
  "nearest_rows G coll p k d = map (\<lambda>r. (r, gis_distance G (ge_geom r) p))
     (take k (nulls_last (\<lambda>r. gis_knn G (ge_geom r) p) (filter (\<lambda>r. ge_coll r = coll) (tn_geo d))))"

definition Nearest :: "tenv \<Rightarrow> postgis \<Rightarrow> sdk_client \<Rightarrow> string \<Rightarrow> rat \<Rightarrow> rat \<Rightarrow> int \<Rightarrow> tworld \<Rightarrow> feature list tres" where
  "Nearest E G c coll lng lat k w =
     (let k = (if k \<le> 0 then 10 else k) in scanFeatures E G c coll (nearest_rows G coll (gis_point G lng lat) (nat k)) True w)"

definition geo_Count :: "tenv \<Rightarrow> sdk_client \<Rightarrow> string \<Rightarrow> tworld \<Rightarrow> int tres" where
  "geo_Count E c coll w = sdk_run E c (\<lambda>q w. t_sql E (texts [coll] (\<lambda>d.
     Inr (int (length (filter (\<lambda>r. ge_coll r = coll) (tn_geo d))), d))) w) w"

section \<open>Lemmas\<close>

lemma sdk_run_answer:
  assumes "healthy E w"
    and "\<And>q w1. tw_db w1 = tw_db w \<Longrightarrow> healthy E w1 \<Longrightarrow> \<exists>w2. fn q w1 = (Inr x, w2) \<and> tw_tick w1 \<le> tw_tick w2"
  shows "fst (sdk_run E c fn w) = Inr x"
proof -
  obtain q w1 where w1: "tw_db w1 = tw_db w" "healthy E w1"
    and run: "\<And>r w2. fn q w1 = (r, w2) \<Longrightarrow> tw_tick w1 \<le> tw_tick w2 \<Longrightarrow>
       (case r of Inr x \<Rightarrow> fst (sdk_run E c fn w) = Inr x
        | Inl e \<Rightarrow> (\<exists>e'. fst (sdk_run E c fn w) = Inl e' \<and> errors_is e' = errors_is e))"
    by (rule sdk_run_healthy [OF assms(1), of fn c]) blast
  from assms(2) [OF w1] obtain w2 where "fn q w1 = (Inr x, w2)" "tw_tick w1 \<le> tw_tick w2" by blast
  from run [OF this] show ?thesis by simp
qed

lemma InsertPointMany_atomic: "atomic (InsertPointMany E G c coll points)"
  unfolding InsertPointMany_def [abs_def] by (intro step_intros)

lemma scanFeatures_reads: "readonly (scanFeatures E G c coll q0 wd)"
  unfolding scanFeatures_def [abs_def] by (intro step_intros) (auto elim!: texts_same)

text \<open>A row whose geometry and metadata are objects is decoded.\<close>

definition decodes :: "postgis \<Rightarrow> geo_row \<Rightarrow> bool" where
  "decodes G r \<longleftrightarrow> is_JObj (gis_out G (ge_geom r)) \<and> is_JObj (ge_meta r)"

lemma scan_feature_ok:
  assumes "decodes G r"
  shows "\<exists>f. scan_feature E G wd (r, x) = Inr f \<and> ft_id f = ge_id r \<and> ft_distance f = (if wd then x else 0) \<and>
    unmarshal_map (te_fl E) (gis_out G (ge_geom r)) = Inr (ft_geometry f)"
proof -
  obtain g m where "gis_out G (ge_geom r) = JObj g" "ge_meta r = JObj m"
    using assms by (cases "gis_out G (ge_geom r)"; cases "ge_meta r") (simp_all add: decodes_def)
  then show ?thesis by (simp add: scan_feature_def unmarshal_map_def)
qed

lemma scanFeatures_ok:
  assumes "healthy E w" "pg_text coll" "q0 (tw_db w) = map (\<lambda>r. (r, f r)) rows"
    and "\<forall>r \<in> set rows. decodes G r \<and> f r \<noteq> None"
  shows "\<exists>fs. fst (scanFeatures E G c coll q0 True w) = Inr fs \<and>
    list_all2 (\<lambda>r x. ft_id x = ge_id r \<and> Some (ft_distance x) = f r) rows fs"
proof -
  let ?scan = "\<lambda>(r, dist). case dist of None \<Rightarrow> Inl (Ext ''cannot scan NULL into *float64'')
      | Some x \<Rightarrow> scan_feature E G True (r, x)"
  have "\<exists>fs. traverse ?scan (map (\<lambda>r. (r, f r)) rs) = Inr fs \<and>
      list_all2 (\<lambda>r x. ft_id x = ge_id r \<and> Some (ft_distance x) = f r) rs fs" if "set rs \<subseteq> set rows" for rs
    using that
  proof (induction rs)
    case (Cons r rs)
    then obtain d where d: "f r = Some d" "decodes G r" using assms(4) by auto
    with Cons scan_feature_ok [OF d(2), of E True d] show ?case by fastforce
  qed simp
  then obtain fs where fs: "traverse ?scan (map (\<lambda>r. (r, f r)) rows) = Inr fs"
      "list_all2 (\<lambda>r x. ft_id x = ge_id r \<and> Some (ft_distance x) = f r) rows fs" by blast
  have "fst (scanFeatures E G c coll q0 True w) = Inr fs"
    unfolding scanFeatures_def
  proof (rule sdk_run_answer [OF assms(1)])
    fix q w1 assume "tw_db w1 = tw_db w" "healthy E w1"
    then show "\<exists>w2. t_then (t_sql E (texts [coll] (\<lambda>d. Inr (q0 d, d))) w1)
        (\<lambda>rows w. case traverse ?scan rows of Inl e \<Rightarrow> (Inl e, w) | Inr fs \<Rightarrow> (Inr fs, w)) = (Inr fs, w2) \<and> tw_tick w1 \<le> tw_tick w2"
      using assms(2,3) fs(1) by (simp add: t_sql_healthy texts_def)
  qed
  with fs(2) show ?thesis by blast
qed

lemma nulls_last_all: "\<forall>r \<in> set rs. f r \<noteq> None \<Longrightarrow> nulls_last f rs = sort_key (\<lambda>r. the (f r)) rs"
  by (simp add: nulls_last_def filter_True filter_empty_conv)

section \<open>What a search returns\<close>

text \<open>
  \<^verbatim>\<open>WithinRadius\<close> on a server that answers returns the features of the collection within
  the radius, nearest first, each with its distance, at most \<open>limit\<close> of them (100 when it is not
  positive); what the limit leaves out is no nearer.
\<close>

lemma WithinRadius_spec:
  fixes lng lat meters :: rat
  assumes "healthy E w" "pg_text coll" "list_all (decodes G) (tn_geo (tw_db w))"
    and "\<And>g p m. gis_dwithin G g p m \<Longrightarrow> gis_distance G g p \<noteq> None"
  defines "away \<equiv> (\<lambda>r. gis_distance G (ge_geom r) (gis_point G lng lat))"
    and "sel \<equiv> filter (\<lambda>r. ge_coll r = coll \<and> gis_dwithin G (ge_geom r) (gis_point G lng lat) meters) (tn_geo (tw_db w))"
  shows "\<exists>rows rest fs. fst (WithinRadius E G c coll lng lat meters lm w) = Inr fs \<and>
    list_all2 (\<lambda>r f. ft_id f = ge_id r \<and> Some (ft_distance f) = away r) rows fs \<and>
    length fs = min (nat (if lm \<le> 0 then 100 else lm)) (length sel) \<and> mset sel = mset rows + mset rest \<and>
    sorted (map ft_distance fs) \<and> (\<forall>r' \<in> set rest. \<forall>r \<in> set rows. the (away r) \<le> the (away r'))"
proof -
  define n where "n = nat (if lm \<le> 0 then 100 else lm)"
  define rows where "rows = take n (sort_key (\<lambda>r. the (away r)) sel)"
  from take_sort_key [of rows n "\<lambda>r. the (away r)" sel] rows_def obtain rest where lim: "length rows = min n (length sel)"
    "set rows \<subseteq> set sel" "sorted (map (\<lambda>r. the (away r)) rows)" "mset sel = mset rows + mset rest"
    "\<forall>x \<in> set rest. \<forall>y \<in> set rows. the (away y) \<le> the (away x)" by blast
  have some: "\<forall>r \<in> set sel. away r \<noteq> None" using assms(4) by (auto simp: sel_def away_def)
  have "radius_rows G coll (gis_point G lng lat) meters n (tw_db w) = map (\<lambda>r. (r, away r)) rows"
    using nulls_last_all [OF some] by (simp add: radius_rows_def rows_def away_def sel_def)
  moreover have "\<forall>r \<in> set rows. decodes G r \<and> away r \<noteq> None"
    using some lim(2) assms(3) by (auto simp: list_all_iff sel_def)
  ultimately obtain fs where fs: "fst (scanFeatures E G c coll (radius_rows G coll (gis_point G lng lat) meters n) True w) = Inr fs"
      "list_all2 (\<lambda>r f. ft_id f = ge_id r \<and> Some (ft_distance f) = away r) rows fs"
    using scanFeatures_ok [OF assms(1,2)] by blast
  have "map ft_distance fs = map (\<lambda>r. the (away r)) rows"
    using fs(2) by (induction rule: list_all2_induct) (auto, metis option.sel)
  with fs lim list_all2_lengthD [OF fs(2)] show ?thesis
    by (intro exI [of _ rows] exI [of _ rest] exI [of _ fs]) (simp add: WithinRadius_def n_def)
qed

end
