(* ===== verification/Conf_Scenarios.thy ===== *)
theory Conf_Scenarios
  imports Sdk_Policy Sdk_Queue Sdk_Geo Sdk_Matview
begin

text \<open>
  \<^verbatim>\<open>conformance/go/main.go\<close>, the scenarios: what each does with its client on the schema of its project.
  PostGIS, pgvector, River's checks, the sessions' privileges and the text of values are parameters. The lemmas: on a
  server that answers, from the empty schema of a new project, every scenario passes.
\<close>

section \<open>Steps\<close>

record conf_data =
  cd_env :: tenv
  cd_gis :: postgis
  cd_vec :: pgvector
  cd_jobs :: "job_row \<Rightarrow> string option"
  cd_text :: "json \<Rightarrow> string"
  cd_show :: "json option \<Rightarrow> string"
  cd_float :: "rat \<Rightarrow> string"
  cd_sin :: "rat \<Rightarrow> nat \<Rightarrow> rat"

text \<open>An expectation of the scenario, and a loop that returns at its first error.\<close>

definition require :: "bool \<Rightarrow> string \<Rightarrow> (tworld \<Rightarrow> unit tres) \<Rightarrow> tworld \<Rightarrow> unit tres" where
  "require b msg k w = (if b then k w else (Inl (Msg msg), w))"

fun each :: "('x \<Rightarrow> tworld \<Rightarrow> unit tres) \<Rightarrow> 'x list \<Rightarrow> tworld \<Rightarrow> unit tres" where
  "each f [] w = (Inr (), w)"
| "each f (x # xs) w = t_then (f x w) (\<lambda>_ w. each f xs w)"

text \<open>An index into a map that may be nil, and the verb \<^verbatim>\<open>%v\<close> on what it gives.\<close>

definition map_index :: "go_map \<Rightarrow> string \<Rightarrow> json option" where
  "map_index m k = (case m of None \<Rightarrow> None | Some kvs \<Rightarrow> map_of kvs k)"

definition sprint :: "conf_data \<Rightarrow> json option \<Rightarrow> string" where
  "sprint D v = (case v of Some (JStr s) \<Rightarrow> s | _ \<Rightarrow> cd_show D v)"

abbreviation obj :: "(string \<times> json) list \<Rightarrow> go_arg" where "obj kvs \<equiv> Inr (Some kvs)"

section \<open>Documents\<close>

definition tableCRUD :: "conf_data \<Rightarrow> sdk_client \<Rightarrow> tworld \<Rightarrow> unit tres" where
  "tableCRUD D c w = (let E = cd_env D in
     t_then (t_wrap ''insert: '' (sdk_Insert E c ''notes'' (Inr (JObj [(''tags'', JArr [JStr ''a'']), (''title'', JStr ''hello'')])) w)) (\<lambda>i.
     \<lambda>w. t_then (t_wrap ''get: '' (sdk_Get E c ''notes'' i w)) (\<lambda>got.
     require (map_index (dc_data got) ''title'' = Some (JStr ''hello''))
       (''title = '' @ sprint D (map_index (dc_data got) ''title'') @ '', want hello'')
     (\<lambda>w. t_then (t_wrap ''find: '' (sdk_Find E c ''notes'' (obj [(''tags'', JArr [JStr ''a''])]) 10 w)) (\<lambda>rows.
     require (length rows = 1) (''find returned '' @ show_nat (length rows) @ '' rows, want 1'')
     (\<lambda>w. t_then (t_wrap ''update: '' (sdk_Update E c ''notes'' i (obj [(''pinned'', JBool True)]) w)) (\<lambda>_.
     \<lambda>w. t_then (t_wrap ''get after update: '' (sdk_Get E c ''notes'' i w)) (\<lambda>got.
     require (map_index (dc_data got) ''pinned'' = Some (JBool True))
       (''pinned = '' @ sprint D (map_index (dc_data got) ''pinned'') @ '', want true'')
     (\<lambda>w. t_then (t_wrap ''count: '' (sdk_Count E c ''notes'' (obj [(''title'', JStr ''hello'')]) w)) (\<lambda>n.
     require (n = 1) (''count = '' @ show_int n @ '', want 1'')
     (\<lambda>w. t_then (t_wrap ''delete: '' (sdk_Delete E c ''notes'' i w)) (\<lambda>_.
     \<lambda>w. case sdk_Delete E c ''notes'' i w of (Inr _, w) \<Rightarrow> (Inl (Msg ''second delete succeeded, want an error''), w)
       | (Inl _, w) \<Rightarrow> (Inr (), w)))))))))))))"

text \<open>The identifiers are indexed without a check in the loop; there are three of them by then.\<close>

definition tableBatch :: "conf_data \<Rightarrow> sdk_client \<Rightarrow> tworld \<Rightarrow> unit tres" where
  "tableBatch D c w = (let E = cd_env D in
     t_then (t_wrap ''insert_many: '' (sdk_InsertMany E c ''notes''
       (map (\<lambda>t. Inr (JObj [(''title'', JStr t)])) [''a'', ''b'', ''c'']) w)) (\<lambda>ids.
     require (length ids = 3) (''got '' @ show_nat (length ids) @ '' ids, want 3'')
     (each (\<lambda>(i, want) w. t_then (t_wrap (''get '' @ show_nat i @ '': '') (sdk_Get E c ''notes'' (ids ! i) w)) (\<lambda>got.
        require (map_index (dc_data got) ''title'' = Some (JStr want))
          (''ids['' @ show_nat i @ ''] has title '' @ sprint D (map_index (dc_data got) ''title'') @ '', want '' @ go_quote want @
            '' '' @ em_dash @ '' order not preserved'') (\<lambda>w. (Inr (), w))))
       [(0, ''a''), (1, ''b''), (2, ''c'')])))"

section \<open>Embeddings\<close>

definition fakeEmbedding :: "conf_data \<Rightarrow> rat \<Rightarrow> rat list" where
  "fakeEmbedding D seed = map (cd_sin D seed) [0..<VectorDim]"

text \<open>The first pair of neighbours whose distances descend.\<close>

fun descent :: "match_rec list \<Rightarrow> (rat \<times> rat) option" where
  "descent (a # b # ms) = (if mt_distance b < mt_distance a then Some (mt_distance a, mt_distance b) else descent (b # ms))"
| "descent _ = None"

definition vectorUpsertSearch :: "conf_data \<Rightarrow> tworld \<Rightarrow> unit tres" where
  "vectorUpsertSearch D w = (let E = cd_env D; P = cd_vec D in
     t_then (each (\<lambda>(i, seed) w. t_wrap (''upsert '' @ i @ '': '')
         (Upsert E P ''notes'' i (fakeEmbedding D seed) (obj [(''name'', JStr i)]) w)) [(''a'', 0), (''b'', 10), (''c'', 20)] w) (\<lambda>_.
     \<lambda>w. t_then (t_wrap ''search: '' (vector_Search E P ''notes'' (fakeEmbedding D (1/100)) 3 w)) (\<lambda>ms.
     require (length ms = 3) (''got '' @ show_nat (length ms) @ '' matches, want 3'')
     (require (mt_doc (ms ! 0) = ''a'') (''nearest = '' @ mt_doc (ms ! 0) @ '', want a'')
     (\<lambda>w. case descent ms of
          Some (x, y) \<Rightarrow> (Inl (Msg (''distances not ascending: '' @ cd_float D x @ '' then '' @ cd_float D y)), w)
        | None \<Rightarrow> (Inr (), w))))))"

definition vectorDimValidation :: "conf_data \<Rightarrow> tworld \<Rightarrow> unit tres" where
  "vectorDimValidation D w = (case Upsert (cd_env D) (cd_vec D) ''notes'' ''short'' [1/10, 2/10] (Inr None) w of
       (Inr _, w) \<Rightarrow> (Inl (Msg ''upsert with 2 dimensions succeeded, want a validation error''), w)
     | (Inl _, w) \<Rightarrow> (Inr (), w))"

section \<open>Jobs and places\<close>

definition queueEnqueueStats :: "conf_data \<Rightarrow> tworld \<Rightarrow> unit tres" where
  "queueEnqueueStats D w = (let E = cd_env D in
     t_then (t_wrap ''enqueue: '' (Enqueue E (cd_jobs D) \<lparr>er_kind = ''embed'', er_args = Some (Inr (JObj [(''doc_id'', JStr ''x'')])),
         er_queue = [], er_priority = 0, er_max_attempts = 0\<rparr> w)) (\<lambda>i.
     require (0 < i) (''job id = '' @ show_nat i @ '', want positive'')
     (\<lambda>w. t_then (t_wrap ''stats: '' (queue_Stats E w)) (\<lambda>s.
     require (1 \<le> qs_available s) (''available = '' @ show_int (qs_available s) @ '', want >= 1'') (\<lambda>w. (Inr (), w))))))"

definition landmarks :: "(rat \<times> rat \<times> string) list" where
  "landmarks = [(22945/10000, 488584/10000, ''Eiffel''), (23499/10000, 488530/10000, ''Notre-Dame''),
     (- 739857/10000, 407484/10000, ''Empire State'')]"

definition geoRadiusNearest :: "conf_data \<Rightarrow> sdk_client \<Rightarrow> tworld \<Rightarrow> unit tres" where
  "geoRadiusNearest D c w = (let E = cd_env D; G = cd_gis D; lng = 23522/10000; lat = 488566/10000 in
     t_then (each (\<lambda>(x, y, name) w. t_then (t_wrap (''insert '' @ name @ '': '')
         (InsertPoint E G c ''places'' x y (obj [(''name'', JStr name)]) w)) (\<lambda>_ w. (Inr (), w))) landmarks w) (\<lambda>_.
     \<lambda>w. t_then (t_wrap ''within_radius: '' (WithinRadius E G c ''places'' lng lat 5000 100 w)) (\<lambda>near.
     let names = sort (map (\<lambda>f. sprint D (map_index (ft_metadata f) ''name'')) near) in
     require (join '','' names = ''Eiffel,Notre-Dame'')
       (''within 5km of Paris = ['' @ join '' '' names @ ''], want [Eiffel Notre-Dame]'')
     (\<lambda>w. t_then (t_wrap ''nearest: '' (Nearest E G c ''places'' lng lat 1 w)) (\<lambda>nearest.
     require (length nearest = 1) (''nearest returned '' @ show_nat (length nearest) @ '', want 1'')
     (let n = sprint D (map_index (ft_metadata (nearest ! 0)) ''name'') in
     require (n = ''Eiffel'' \<or> n = ''Notre-Dame'') (''nearest to Paris = '' @ go_quote n @ '', want a Paris landmark'')
     (\<lambda>w. (Inr (), w))))))))"

section \<open>Views\<close>

definition countQuery :: string where
  "countQuery = ''SELECT count(*) AS n FROM pwrap_documents''"

definition matviewRegisterRefresh :: "conf_data \<Rightarrow> pg_session \<Rightarrow> sdk_client \<Rightarrow> tworld \<Rightarrow> unit tres" where
  "matviewRegisterRefresh D S c w = (let E = cd_env D in
     t_then (t_wrap ''insert: '' (sdk_Insert E c ''posts'' (Inr (JObj [(''topic'', JStr ''go'')])) w)) (\<lambda>_.
     \<lambda>w. t_then (t_wrap ''register: '' (Register E S ''conf_counts'' countQuery w)) (\<lambda>_.
     \<lambda>w. t_then (t_wrap ''refresh: '' (Refresh E S ''conf_counts'' w)) (\<lambda>_.
     \<lambda>w. t_then (t_wrap ''info: '' (mv_Info E ''conf_counts'' w)) (\<lambda>info.
     require (mv_last_refresh info \<noteq> None) ''last_refresh_at is nil after refresh'' (\<lambda>w. (Inr (), w)))))))"

text \<open>The two halves of the scenario with two credentials: one session registers, another refreshes.\<close>

definition matviewFirst :: "conf_data \<Rightarrow> pg_session \<Rightarrow> tworld \<Rightarrow> unit tres" where
  "matviewFirst D S w = (let E = cd_env D in
     t_then (t_wrap ''register: '' (Register E S ''conf_shared'' countQuery w)) (\<lambda>_.
     \<lambda>w. t_wrap ''first refresh: '' (Refresh E S ''conf_shared'' w)))"

definition matviewSecond :: "conf_data \<Rightarrow> pg_session \<Rightarrow> tworld \<Rightarrow> unit tres" where
  "matviewSecond D S w = (let E = cd_env D in
     t_then (t_wrap ''refresh from a second credential: '' (Refresh E S ''conf_shared'' w)) (\<lambda>_.
     \<lambda>w. t_then (t_wrap ''info: '' (mv_Info E ''conf_shared'' w)) (\<lambda>info.
     require (mv_last_error info = Some []) (''last_error = '' @ go_quote (case mv_last_error info of None \<Rightarrow> [] | Some e \<Rightarrow> e) @
       '', want empty'') (\<lambda>w. (Inr (), w)))))"

section \<open>Users\<close>

definition rlsWithUser :: "conf_data \<Rightarrow> sdk_client \<Rightarrow> tworld \<Rightarrow> unit tres" where
  "rlsWithUser D c w = (let E = cd_env D; tx = cd_text D; alice = WithUser ''alice'' c; bob = WithUser ''bob'' c in
     t_then (each (\<lambda>(c, u, n, err) w. t_then (t_wrap err (policy_Insert E tx c ''notes''
         (Inr (JObj [(''n'', JNum n), (''user_id'', JStr u)])) w)) (\<lambda>_ w. (Inr (), w)))
       [(alice, ''alice'', 1, ''alice insert: ''), (alice, ''alice'', 2, ''alice insert 2: ''), (bob, ''bob'', 99, ''bob insert: '')] w) (\<lambda>_.
     each (\<lambda>(name, c, want) w. t_then (t_wrap (name @ '' find: '') (policy_Find E tx c ''notes'' (Inr None) 100 w)) (\<lambda>rows.
         require (length rows = want) (name @ '' saw '' @ show_nat (length rows) @ '' rows, want '' @ show_nat want)
         (\<lambda>w. (Inr (), w))))
       [(''alice'', alice, 2), (''bob'', bob, 1), (''unscoped'', c, 0)]))"

section \<open>Lemmas\<close>

lemma pool_run: "sd_user c = [] \<Longrightarrow> sdk_run E c fn w = fn Pool_q w"
  by (simp add: sdk_run_def)

lemma names_text: "pg_text ''notes''" "pg_text ''posts''" "pg_text ''places''" "pg_text ''embed''" "pg_text ''default''"
  "pg_text ''a''" "pg_text ''b''" "pg_text ''c''" "pg_text ''conf_counts''" "pg_text ''conf_shared''" "pg_text countQuery"
  unfolding countQuery_def by code_simp+

lemma require_True: "require True m k = k"
  by (simp add: require_def fun_eq_iff)

lemmas step_simps = t_sql_def texts_def t_wrap_def require_def names_text pool_run

lemmas json_simps = to_jsonb_def dedup_def unmarshal_map_def map_index_def scanDoc_def

lemma tableCRUD_passes:
  assumes "healthy (cd_env D) w" "sd_user c = []" "tn_docs (tw_db w) = []"
  shows "fst (tableCRUD D c w) = Inr ()"
proof -
  have flt: "tw_tick w \<le> n \<Longrightarrow> te_flt (cd_env D) n = None" for n using assms(1) by (simp add: healthy_def)
  show ?thesis
    unfolding tableCRUD_def Let_def
    using assms(2,3) flt
    by (simp add: step_simps json_simps sdk_Insert_def doc_insert_def doc_rows_def enumerate_eq_zip sdk_Get_def select_one_def doc_hit_def
        sdk_Find_def doc_matches_def order_desc_def sdk_Update_def doc_update_def affected_def update_where_def doc_upd_def
        sdk_Count_def sdk_Delete_def doc_delete_def Let_def)
qed

text \<open>\<^verbatim>\<open>gen_random_uuid()\<close> repeats none of the identifiers of a scenario.\<close>

definition fresh_ids :: "tenv \<Rightarrow> tworld \<Rightarrow> bool" where
  "fresh_ids E w \<longleftrightarrow> inj_on (\<lambda>(n, k). te_id E n k) ({tw_tick w ..< tw_tick w + 20} \<times> {..< 3})"

lemma fresh_ids_neq:
  assumes "fresh_ids E w" "tw_tick w \<le> n" "n < tw_tick w + 20" "tw_tick w \<le> n'" "n' < tw_tick w + 20" "k < 3" "k' < 3"
  shows "te_id E n k = te_id E n' k' \<longleftrightarrow> n = n' \<and> k = k'"
  using inj_onD [OF assms(1) [unfolded fresh_ids_def], of "(n, k)" "(n', k')"] assms(2-) by auto

lemma tableBatch_passes:
  assumes "healthy (cd_env D) w" "sd_user c = []" "tn_docs (tw_db w) = []" "fresh_ids (cd_env D) w"
  shows "fst (tableBatch D c w) = Inr ()"
proof -
  have flt: "tw_tick w \<le> n \<Longrightarrow> te_flt (cd_env D) n = None" for n using assms(1) by (simp add: healthy_def)
  show ?thesis
    unfolding tableBatch_def Let_def
    using assms(2,3) flt fresh_ids_neq [OF assms(4)]
    by (simp add: step_simps json_simps sdk_InsertMany_def doc_insert_def doc_rows_def enumerate_eq_zip upt_rec sdk_Get_def select_one_def doc_hit_def
        Let_def)
qed

lemma vectorDimValidation_passes: "fst (vectorDimValidation D w) = Inr ()"
  by (simp add: vectorDimValidation_def Upsert_def VectorDim_def)

lemma queueEnqueueStats_passes:
  assumes "healthy (cd_env D) w" "tn_jobs (tw_db w) = []" "\<forall>j. jb_kind j = ''embed'' \<longrightarrow> jb_priority j = 1 \<longrightarrow> cd_jobs D j = None"
  shows "fst (queueEnqueueStats D w) = Inr ()"
proof -
  have flt: "tw_tick w \<le> n \<Longrightarrow> te_flt (cd_env D) n = None" for n using assms(1) by (simp add: healthy_def)
  show ?thesis
    unfolding queueEnqueueStats_def Let_def
    using assms(2,3) flt
    by (simp add: step_simps json_simps Enqueue_def job_insert_def queue_Stats_def t_query_def state_counts_def stats_row_def zero_stats_def Let_def)
qed

text \<open>Everything else of the schema is as it was before a capture.\<close>

lemma unlogged_fields: "tn_owner (unlogged d) = tn_owner d" "tn_tables (unlogged d) = tn_tables d"
  "tn_views (unlogged d) = tn_views d" "tn_matviews (unlogged d) = tn_matviews d"
  by (simp_all add: unlogged_def)

lemma capture_views: "tn_owner (capture_rows u t b d) = tn_owner d" "tn_tables (capture_rows u t b d) = tn_tables d"
  "tn_views (capture_rows u t b d) = tn_views d" "tn_matviews (capture_rows u t b d) = tn_matviews d"
  using unlogged_fields [of "capture_rows u t b d"] unlogged_fields [of d] unlogged_rows [of u t b d] by simp_all

lemma names_ident: "sdk_validateIdent ''conf_counts'' = Inr ()" "sdk_validateIdent ''conf_shared'' = Inr ()"
  "trim_space countQuery = countQuery" "countQuery \<noteq> []"
  unfolding countQuery_def by code_simp+

text \<open>What a session must be able to do for the scenarios with views.\<close>

definition may_view :: "pg_session \<Rightarrow> tenant \<Rightarrow> string \<Rightarrow> bool" where
  "may_view S d name \<longleftrightarrow> name \<notin> set (tn_tables d) \<and> can_act S (tn_owner d) \<and>
     ps_query S countQuery = None \<and> ps_rows S countQuery = None"

lemmas view_simps = Register_def Refresh_def mv_refresh_def t_query_def select_mv_def create_view_def find_view_def chownToTenant_def
  alter_owner_def own_view_def refresh_view_def upd_view_def update_where_def upsert_mv_def mv_Info_def names_ident

lemma own_role: "can_act S (ps_role S)"
  by (simp add: can_act_def)

lemma matviewRegisterRefresh_passes:
  assumes "healthy (cd_env D) w" "sd_user c = []" "tn_docs (tw_db w) = []" "tn_views (tw_db w) = []" "tn_matviews (tw_db w) = []"
    "may_view S (tw_db w) ''conf_counts''"
  shows "fst (matviewRegisterRefresh D S c w) = Inr ()"
proof -
  have flt: "tw_tick w \<le> n \<Longrightarrow> te_flt (cd_env D) n = None" for n using assms(1) by (simp add: healthy_def)
  show ?thesis
    unfolding matviewRegisterRefresh_def Let_def
    using assms(2-6) flt
    by (simp add: step_simps json_simps sdk_Insert_def doc_insert_def doc_rows_def enumerate_eq_zip view_simps capture_views may_view_def own_role Let_def)
qed

lemma matview_across_passes:
  assumes "healthy (cd_env D) w" "tn_views (tw_db w) = []" "tn_matviews (tw_db w) = []"
    "may_view S (tw_db w) ''conf_shared''" "may_view S' (tw_db w) ''conf_shared''"
  shows "fst (matviewFirst D S w) = Inr () \<and> fst (matviewSecond D S' (snd (matviewFirst D S w))) = Inr ()"
proof -
  have flt: "tw_tick w \<le> n \<Longrightarrow> te_flt (cd_env D) n = None" for n using assms(1) by (simp add: healthy_def)
  show ?thesis
    unfolding matviewFirst_def matviewSecond_def Let_def
    using assms(2-5) flt
    by (simp add: step_simps view_simps may_view_def own_role Let_def)
qed

lemma rlsWithUser_passes:
  assumes "healthy (cd_env D) w" "sd_user c = []" "tn_docs (tw_db w) = []" "fresh_ids (cd_env D) w"
  shows "fst (rlsWithUser D c w) = Inr ()"
proof -
  have flt: "tw_tick w \<le> n \<Longrightarrow> te_flt (cd_env D) n = None" for n using assms(1) by (simp add: healthy_def)
  have users: "claims_user ''alice'' = Some ''alice''" "claims_user ''bob'' = Some ''bob''" by code_simp+
  show ?thesis
    unfolding rlsWithUser_def Let_def
    using assms(2,3) flt fresh_ids_neq [OF assms(4)]
    by (simp add: step_simps json_simps WithUser_def policy_Insert_def policy_Find_def sdk_run_def t_tx_def t_query_def users
        p_insert_def p_rows_def owned_def field_text_def doc_insert_def doc_rows_def enumerate_eq_zip doc_matches_def order_desc_def Let_def)
qed

subsection \<open>Embeddings and places\<close>

text \<open>
  pgvector reads back what \<^verbatim>\<open>formatVector\<close> writes, the scan delivers every row (in any order), the embedding
  with the nearest seed is the nearest one, and rounding to \<^verbatim>\<open>float32\<close> keeps the order.
\<close>

definition vectors_ok :: "conf_data \<Rightarrow> bool" where
  "vectors_ok D \<longleftrightarrow> (let P = cd_vec D; v = fakeEmbedding D; q = v (1/100) in
     (\<forall>s \<in> {0, 10, 20, 1/100}. pv_parse P (formatVector P (v s)) = Inr (v s)) \<and>
     (\<forall>rs. mset (pv_scan P q rs) = mset rs) \<and>
     pv_dist P (v 0) q < pv_dist P (v 10) q \<and> pv_dist P (v 0) q < pv_dist P (v 20) q \<and> mono (te_fl32 (cd_env D)))"

lemma fake_dim: "length (fakeEmbedding D s) = 1536"
  by (simp add: fakeEmbedding_def VectorDim_def)

lemma descent_sorted: "sorted (map mt_distance ms) \<Longrightarrow> descent ms = None"
  by (induction ms rule: descent.induct) auto

lemma sorted_mono: "mono (g :: rat \<Rightarrow> rat) \<Longrightarrow> sorted xs \<Longrightarrow> sorted (map g xs)"
  by (induction xs) (auto dest: monoD)

lemma sorted_hd:
  assumes "mset xs = mset ys" "a \<in> set ys" "\<forall>y \<in> set ys. y \<noteq> a \<longrightarrow> f a < (f y :: rat)"
  shows "\<exists>rest. sort_key f xs = a # rest"
proof -
  have s: "set (sort_key f xs) = set ys" using assms(1) by (metis set_sort set_mset_mset)
  with assms(2) obtain x rest where x: "sort_key f xs = x # rest" by (cases "sort_key f xs") auto
  have "f x \<le> f a" using sorted_sort_key [of f xs] s assms(2) unfolding x by auto
  moreover have "x \<in> set ys" using s x by auto
  ultimately have "x = a" using assms(3) by force
  with x show ?thesis by blast
qed

lemma scan_matches:
  assumes "\<forall>r \<in> set rs. \<exists>kvs. em_meta r = JObj kvs"
  shows "\<exists>ms. traverse (scan_match E) (map (\<lambda>r. (r, f r)) rs) = Inr ms \<and> map mt_doc ms = map em_doc rs \<and>
    map mt_distance ms = map (\<lambda>r. te_fl32 E (f r)) rs"
  using assms by (induction rs) (auto simp: scan_match_def unmarshal_map_def)

lemma vectorUpsertSearch_passes:
  assumes "healthy (cd_env D) w" "tn_embs (tw_db w) = []" "fresh_ids (cd_env D) w" "vectors_ok D"
  shows "fst (vectorUpsertSearch D w) = Inr ()"
proof -
  let ?E = "cd_env D" and ?P = "cd_vec D" and ?v = "fakeEmbedding D"
  let ?q = "?v (1/100)"
  have flt: "tw_tick w \<le> n \<Longrightarrow> te_flt ?E n = None" for n using assms(1) by (simp add: healthy_def)
  have parse: "pv_parse ?P (formatVector ?P (?v 0)) = Inr (?v 0)" "pv_parse ?P (formatVector ?P (?v 10)) = Inr (?v 10)"
    "pv_parse ?P (formatVector ?P (?v 20)) = Inr (?v 20)" "pv_parse ?P (formatVector ?P ?q) = Inr ?q"
    and scan: "\<And>rs. mset (pv_scan ?P ?q rs) = mset rs" and m: "mono (te_fl32 ?E)"
    and near: "pv_dist ?P (?v 0) ?q < pv_dist ?P (?v 10) ?q" "pv_dist ?P (?v 0) ?q < pv_dist ?P (?v 20) ?q"
    using assms(4) by (simp_all add: vectors_ok_def Let_def)
  define ups where "ups = each (\<lambda>(i, seed) w. t_wrap (''upsert '' @ i @ '': '')
    (Upsert ?E ?P ''notes'' i (?v seed) (obj [(''name'', JStr i)]) w)) [(''a'', 0), (''b'', 10), (''c'', 20)] w"
  let ?row = "\<lambda>n i s. \<lparr>em_coll = ''notes'', em_id = te_id ?E n 0, em_doc = i, em_vec = ?v s,
    em_meta = JObj [(''name'', JStr i)], em_created = te_clock ?E n\<rparr>"
  let ?rows = "[?row (tw_tick w) ''a'' 0, ?row (Suc (tw_tick w)) ''b'' 10, ?row (Suc (Suc (tw_tick w))) ''c'' 20]"
  let ?w3 = "w\<lparr>tw_tick := Suc (Suc (Suc (tw_tick w))), tw_db := (tw_db w)\<lparr>tn_embs := ?rows\<rparr>\<rparr>"
  have ups: "ups = (Inr (), ?w3)"
    unfolding ups_def using assms(2) flt fresh_ids_neq [OF assms(3)] parse
    by (simp add: step_simps json_simps Upsert_def VectorDim_def fake_dim orEmptyMap_def emb_upsert_def emb_value_def to_vector_def
        emb_put_def emb_hit_def list_ex_iff)
  define f where "f = (\<lambda>r :: emb_row. pv_dist ?P (em_vec r) ?q)"
  define found where "found = filter (\<lambda>r. em_coll r = ''notes'') (pv_scan ?P ?q ?rows)"
  have fm: "mset found = mset ?rows" using scan [of ?rows] by (simp add: found_def mset_filter)
  obtain rest where srt: "sort_key f found = ?row (tw_tick w) ''a'' 0 # rest"
    using sorted_hd [OF fm, of "?row (tw_tick w) ''a'' 0" f] near by (auto simp: f_def)
  have len: "length (sort_key f found) = 3" using mset_eq_length [OF fm] by simp
  have "set (sort_key f found) = set ?rows" using fm by (metis set_sort set_mset_mset)
  then obtain ms where ms: "traverse (scan_match ?E) (map (\<lambda>r. (r, f r)) (sort_key f found)) = Inr ms"
    "map mt_doc ms = map em_doc (sort_key f found)" "map mt_distance ms = map (\<lambda>r. te_fl32 ?E (f r)) (sort_key f found)"
    using scan_matches [of "sort_key f found" ?E f] by auto
  have "sorted (map (te_fl32 ?E) (map f (sort_key f found)))"
    by (rule sorted_mono [OF m sorted_sort_key])
  then have asc: "descent ms = None" using ms(3) by (intro descent_sorted) (simp add: comp_def)
  have "length ms = 3" using ms(2) len by (metis length_map)
  moreover have "mt_doc (ms ! 0) = ''a''" using ms(2) \<open>length ms = 3\<close> unfolding srt by (cases ms) auto
  moreover have "vector_Search ?E ?P ''notes'' ?q 3 ?w3 = (Inr ms, ?w3\<lparr>tw_tick := Suc (Suc (Suc (Suc (tw_tick w))))\<rparr>)"
    using flt parse(4) ms(1) [unfolded f_def] len
    by (simp add: vector_Search_def VectorDim_def fake_dim step_simps emb_search_def to_vector_def found_def [symmetric])
  ultimately show ?thesis using asc
    unfolding vectorUpsertSearch_def Let_def ups [unfolded ups_def] by (simp add: require_def t_wrap_def)
qed

text \<open>
  PostGIS tells Paris from New York: the landmarks within five kilometres of the point, and a nearest one; their
  distances are no NULL and their geometries render as objects.
\<close>

definition places_ok :: "postgis \<Rightarrow> bool" where
  "places_ok G \<longleftrightarrow> (let p = gis_point G (23522/10000) (488566/10000); pos = (\<lambda>(x, y, n). gis_point G x y) in
     list_all (\<lambda>l. is_JObj (gis_out G (pos l)) \<and> gis_distance G (pos l) p \<noteq> None \<and> gis_knn G (pos l) p \<noteq> None \<and>
       (gis_dwithin G (pos l) p 5000 \<longleftrightarrow> snd (snd l) \<noteq> ''Empire State'')) landmarks \<and>
     the (gis_knn G (pos (landmarks ! 0)) p) < the (gis_knn G (pos (landmarks ! 2)) p))"

lemma sort_names: "sort [''Eiffel'', ''Notre-Dame''] = [''Eiffel'', ''Notre-Dame'']" "sort [''Notre-Dame'', ''Eiffel''] = [''Eiffel'', ''Notre-Dame'']"
  by code_simp+

lemma geoRadiusNearest_passes:
  assumes "healthy (cd_env D) w" "sd_user c = []" "tn_geo (tw_db w) = []" "fresh_ids (cd_env D) w" "places_ok (cd_gis D)"
  shows "fst (geoRadiusNearest D c w) = Inr ()"
proof -
  let ?E = "cd_env D" and ?G = "cd_gis D"
  have flt: "tw_tick w \<le> n \<Longrightarrow> te_flt ?E n = None" for n using assms(1) by (simp add: healthy_def)
  define p where "p = gis_point ?G (23522/10000) (488566/10000)"
  define e where "e = gis_point ?G (22945/10000) (488584/10000)"
  define n where "n = gis_point ?G (23499/10000) (488530/10000)"
  define y where "y = gis_point ?G (- 739857/10000) (407484/10000)"
  obtain je jn jy de dn dy ke kn ky where out: "gis_out ?G e = JObj je" "gis_out ?G n = JObj jn" "gis_out ?G y = JObj jy"
    and dist: "gis_distance ?G e p = Some de" "gis_distance ?G n p = Some dn" "gis_distance ?G y p = Some dy"
    and knn: "gis_knn ?G e p = Some ke" "gis_knn ?G n p = Some kn" "gis_knn ?G y p = Some ky" "ke < ky"
    and wi: "gis_dwithin ?G e p 5000" "gis_dwithin ?G n p 5000" "\<not> gis_dwithin ?G y p 5000"
    using assms(5) unfolding p_def e_def n_def y_def
    by (auto simp: places_ok_def landmarks_def Let_def elim!: is_JObj.elims)
  let ?row = "\<lambda>k g i. \<lparr>ge_coll = ''places'', ge_id = te_id ?E k 0, ge_geom = g, ge_meta = JObj [(''name'', JStr i)],
    ge_created = te_clock ?E k, ge_updated = te_clock ?E k\<rparr>"
  let ?rows = "[?row (tw_tick w) e ''Eiffel'', ?row (Suc (tw_tick w)) n ''Notre-Dame'', ?row (Suc (Suc (tw_tick w))) y ''Empire State'']"
  let ?w3 = "w\<lparr>tw_tick := Suc (Suc (Suc (tw_tick w))), tw_db := (tw_db w)\<lparr>tn_geo := ?rows\<rparr>\<rparr>"
  have ins: "each (\<lambda>(x, y, name) w. t_then (t_wrap (''insert '' @ name @ '': '')
      (InsertPoint ?E ?G c ''places'' x y (obj [(''name'', JStr name)]) w)) (\<lambda>_ w. (Inr (), w))) landmarks w = (Inr (), ?w3)"
    using assms(2,3) flt fresh_ids_neq [OF assms(4)]
    by (simp add: landmarks_def step_simps json_simps InsertPoint_def orEmptyMap_def geo_insert_def geo_value_def geo_rows_def
        enumerate_eq_zip Let_def e_def n_def y_def)
  show ?thesis
    unfolding geoRadiusNearest_def Let_def ins
    using assms(2) flt out dist knn wi
    by (simp add: step_simps json_simps WithinRadius_def scanFeatures_def radius_rows_def nulls_last_def scan_feature_def
        Nearest_def nearest_rows_def sprint_def sort_names p_def Let_def split: if_splits)
qed

section \<open>Properties\<close>

text \<open>The schema of a new project after its migrations.\<close>

definition new_schema :: "tenant \<Rightarrow> bool" where
  "new_schema d \<longleftrightarrow> tn_docs d = [] \<and> tn_jobs d = [] \<and> tn_embs d = [] \<and> tn_geo d = [] \<and> tn_views d = [] \<and> tn_matviews d = []"


section \<open>Witnesses\<close>

text \<open>An embedding of one repeated number, read back from its first character; a place is near or far.\<close>

definition demo_gis :: postgis where
  "demo_gis = \<lparr>gis_point = (\<lambda>x y. if x < 0 then ''far'' else ''near''), gis_in = (\<lambda>_. Inl ''22023''), gis_out = (\<lambda>_. JObj []),
     gis_distance = (\<lambda>g p. Some (if g = p then 0 else 5000000)), gis_knn = (\<lambda>g p. Some (if g = p then 0 else 5000000)),
     gis_dwithin = (\<lambda>g p m. g = p), gis_overlaps = (\<lambda>_ _ _ _ _. True)\<rparr>"

definition demo_vectors :: pgvector where
  "demo_vectors = \<lparr>pv_format = (\<lambda>x. if x = 0 then ''a'' else if x = 10 then ''b'' else if x = 20 then ''c'' else ''q''),
     pv_parse = (\<lambda>s. Inr (replicate VectorDim (if s ! 1 = CHR ''a'' then 0 else if s ! 1 = CHR ''b'' then 10
       else if s ! 1 = CHR ''c'' then 20 else 1/100))),
     pv_dist = (\<lambda>v q. \<bar>hd v - hd q\<bar>), pv_scan = (\<lambda>_ rs. rs)\<rparr>"

definition demo_conf :: conf_data where
  "demo_conf = \<lparr>cd_env = demo_tenv, cd_gis = demo_gis, cd_vec = demo_vectors, cd_jobs = (\<lambda>_. None), cd_text = (\<lambda>_. []),
     cd_show = (\<lambda>_. []), cd_float = (\<lambda>_. []), cd_sin = (\<lambda>x _. x)\<rparr>"

lemma demo_vectors_ok: "vectors_ok demo_conf"
proof -
  have f: "fakeEmbedding demo_conf x = x # replicate 1535 x" for x
    using replicate_Suc [of 1535 x] by (simp add: fakeEmbedding_def demo_conf_def VectorDim_def map_replicate_const)
  have "replicate VectorDim x = x # replicate 1535 x" for x :: rat
    using replicate_Suc [of 1535 x] by (simp add: VectorDim_def)
  moreover have "(join sep ([c] # xs) @ ys) ! 0 = c" for sep c xs and ys :: string
    by (cases xs) simp_all
  ultimately show ?thesis
    by (simp add: vectors_ok_def f) (simp add: demo_conf_def demo_vectors_def demo_tenv_def formatVector_def mono_def Let_def)
qed

lemma demo_places_ok: "places_ok (cd_gis demo_conf)"
  by (simp add: places_ok_def landmarks_def demo_conf_def demo_gis_def)

lemma demo_fresh: "fresh_ids (cd_env demo_conf) demo_tworld"
proof -
  have "(word_of_nat (100 * n + k) :: uuid) = word_of_nat (100 * n' + k') \<longleftrightarrow> n = n' \<and> k = k'"
    if "n < 20" "n' < 20" "k < 3" "k' < 3" for n n' k k'
  proof -
    have u: "unat (word_of_nat m :: uuid) = m" if "m < 3000" for m
      by (rule of_nat_inverse [OF refl]) (use that in simp)
    have "unat (word_of_nat (100 * n + k) :: uuid) = 100 * n + k" "unat (word_of_nat (100 * n' + k') :: uuid) = 100 * n' + k'"
      by (rule u, use that in simp)+
    then have "(word_of_nat (100 * n + k) :: uuid) = word_of_nat (100 * n' + k') \<longleftrightarrow> 100 * n + k = 100 * n' + k'"
      by metis
    moreover have "n = (100 * n + k) div 100" "n' = (100 * n' + k') div 100" using that by simp_all
    ultimately show ?thesis by (metis add_left_cancel)
  qed
  then show ?thesis
    by (auto simp: fresh_ids_def inj_on_def demo_conf_def demo_tenv_def demo_tworld_def)
qed


end
