(* ===== verification/Sdk_Subscribe.thy ===== *)
theory Sdk_Subscribe
  imports Sdk_Client Realtime
begin

text \<open>
  \<^verbatim>\<open>sdk/go/pwrap/subscribe.go\<close>: the URL of the WebSocket, one connection, and the loop that
  reconnects. What a connection does is a script: how dialling ends, the first frame, the reads. The lemmas: the server
  reads from the URL what the subscription was given, which events are delivered, the pauses between connections, and
  what ends the loop.
\<close>

section \<open>The URL\<close>

text \<open>
  The parts of a parsed URL: \<open>gu_auth\<close> the user information and host as \<^verbatim>\<open>String\<close> renders them,
  \<open>gu_query\<close> the parsed query with its values, \<open>gu_frag\<close> the fragment with its number sign, if any.
\<close>

record go_url =
  gu_scheme :: string
  gu_auth :: string
  gu_path :: string
  gu_query :: "(string \<times> string list) list"
  gu_frag :: string

text \<open>\<^verbatim>\<open>Values.Set\<close> and \<^verbatim>\<open>Values.Encode\<close>, sorted by key.\<close>

definition values_set :: "string \<Rightarrow> string \<Rightarrow> (string \<times> string list) list \<Rightarrow> (string \<times> string list) list" where
  "values_set k v q = AList.update k [v] q"

definition query_pairs :: "(string \<times> string list) list \<Rightarrow> (string \<times> string) list" where
  "query_pairs q = concat (map (\<lambda>k. map (Pair k) (case map_of q k of None \<Rightarrow> [] | Some vs \<Rightarrow> vs))
     (sort (remdups (map fst q))))"

definition encode_pair :: "string \<times> string \<Rightarrow> string" where
  "encode_pair p = escape EncodeQueryComponent (fst p) @ ''='' @ escape EncodeQueryComponent (snd p)"

definition values_Encode :: "(string \<times> string list) list \<Rightarrow> string" where
  "values_Encode q = join ''&'' (map encode_pair (query_pairs q))"

definition url_String :: "go_url \<Rightarrow> string" where
  "url_String u = gu_scheme u @ ''://'' @ gu_auth u @ gu_path u @
     (let raw = values_Encode (gu_query u) in if raw = [] then [] else ''?'' @ raw) @ gu_frag u"

record subscribe_opts =
  so_table :: string
  so_user_id :: string

text \<open>\<open>parse\<close> is \<^verbatim>\<open>url.Parse\<close>.\<close>

definition buildURL :: "(string \<Rightarrow> string + go_url) \<Rightarrow> sdk_config \<Rightarrow> subscribe_opts \<Rightarrow> goerr + go_url" where
  "buildURL parse cfg opts = (case parse (trim_right CHR ''/'' (cf_url cfg)) of Inl e \<Rightarrow> Inl (Ext e)
   | Inr u \<Rightarrow> (let ws = (if gu_scheme u = ''http'' then Some ''ws'' else if gu_scheme u = ''https'' then Some ''wss'' else None) in
      case ws of None \<Rightarrow> Inl (Msg (''pwrap: unsupported scheme '' @ go_quote (gu_scheme u)))
      | Some s \<Rightarrow> (let q = values_set ''api_key'' (cf_key cfg) (gu_query u);
            q = (if so_table opts = [] then q else values_set ''table'' (so_table opts) q);
            q = (if so_user_id opts = [] then q else values_set ''user_id'' (so_user_id opts) q)
          in Inr (u\<lparr>gu_scheme := s, gu_path := ''/v1/subscribe'', gu_query := q\<rparr>))))"

text \<open>
  How the server reads a query (\<^verbatim>\<open>url.ParseQuery\<close>, \<^verbatim>\<open>Values.Get\<close>), on well-formed escapes.
\<close>

fun unescape_query :: "string \<Rightarrow> string" where
  "unescape_query [] = []"
| "unescape_query (c # s) =
     (if c = CHR ''+'' then CHR '' '' # unescape_query s
      else if c = CHR ''%'' then (case s of h # l # t \<Rightarrow> char_of (16 * unhex h + unhex l) # unescape_query t | _ \<Rightarrow> [])
      else c # unescape_query s)"

definition parse_pair :: "string \<Rightarrow> string \<times> string" where
  "parse_pair s = (unescape_query (takeWhile (\<lambda>c. c \<noteq> CHR ''='') s),
     unescape_query (drop 1 (dropWhile (\<lambda>c. c \<noteq> CHR ''='') s)))"

definition query_get :: "string \<Rightarrow> string \<Rightarrow> string" where
  "query_get raw k = (case map_of (map parse_pair (filter (\<lambda>s. s \<noteq> []) (split_on CHR ''&'' raw))) k of
     None \<Rightarrow> [] | Some v \<Rightarrow> v)"

section \<open>One connection\<close>

text \<open>
  \<^verbatim>\<open>permanentErr\<close> marks the errors after which there is no reconnection.
\<close>

datatype sub_error = PermanentErr goerr | OtherErr goerr

fun isPermanent :: "sub_error \<Rightarrow> bool" where
  "isPermanent (PermanentErr e) = True"
| "isPermanent (OtherErr e) = False"

fun sub_err :: "sub_error \<Rightarrow> goerr" where
  "sub_err (PermanentErr e) = e"
| "sub_err (OtherErr e) = e"

text \<open>
  A read: a frame, and whether it is sent to the channel or the context is done first; or an error, with the close
  status it carries (-1 if none).
\<close>

datatype ws_read = Frame change_event bool | Broken int string

definition StatusPolicyViolation :: int where "StatusPolicyViolation = 1008"

text \<open>
  The state a subscription shares: what it has sent to its channel, whether the greeting has been seen, the error, and
  whether the channel is closed.
\<close>

record subscription =
  su_events :: "change_event list"
  su_hello :: bool
  su_err :: "goerr option"
  su_closed :: bool

text \<open>
  A connection: the error of dialling, the error of the first frame, the reads after it. \<open>Running\<close> says that
  the script ends before the connection does.
\<close>

record attempt =
  at_dial :: "string option"
  at_hello :: "string option"
  at_reads :: "ws_read list"

datatype outcome = Running | Ended "sub_error option"

fun read_loop :: "ws_read list \<Rightarrow> subscription \<Rightarrow> outcome \<times> subscription" where
  "read_loop [] s = (Running, s)"
| "read_loop (Broken st e # rs) s =
     (Ended (Some (if st = StatusPolicyViolation then PermanentErr (Ext e) else OtherErr (Ext e))), s)"
| "read_loop (Frame ev sent # rs) s =
     (if sent then read_loop rs (s\<lparr>su_events := su_events s @ [ev]\<rparr>) else (Ended None, s))"

definition sub_runOnce :: "(goerr + go_url) \<Rightarrow> attempt \<Rightarrow> subscription \<Rightarrow> outcome \<times> subscription" where
  "sub_runOnce url a s = (case url of Inl e \<Rightarrow> (Ended (Some (PermanentErr e)), s)
     | Inr u \<Rightarrow> (case at_dial a of Some e \<Rightarrow> (Ended (Some (OtherErr (Ext e))), s)
         | None \<Rightarrow> (case at_hello a of Some e \<Rightarrow> (Ended (Some (OtherErr (Ext e))), s)
             | None \<Rightarrow> read_loop (at_reads a) (s\<lparr>su_hello := True\<rparr>))))"

section \<open>The loop\<close>

text \<open>
  A round: whether the context is done at its head, the connection, and how the pause after it ends. The loop gives the
  pauses it made; the channel is closed exactly when it returns.
\<close>

record sub_round =
  sr_cancelled :: bool
  sr_attempt :: attempt
  sr_pause :: pause

definition setErr :: "goerr \<Rightarrow> subscription \<Rightarrow> subscription" where
  "setErr e s = (if su_err s = None then s\<lparr>su_err := Some e\<rparr> else s)"

definition next_backoff :: "duration \<Rightarrow> duration" where
  "next_backoff b = (let b = b * 2 in if sint (30 * second) < sint b then 30 * second else b)"

fun sub_runLoop :: "(goerr + go_url) \<Rightarrow> duration \<Rightarrow> sub_round list \<Rightarrow> subscription \<Rightarrow> duration list \<times> subscription" where
  "sub_runLoop url backoff [] s = ([], s)"
| "sub_runLoop url backoff (r # rs) s =
     (if sr_cancelled r then ([], s\<lparr>su_closed := True\<rparr>)
      else case sub_runOnce url (sr_attempt r) s of
        (Running, s) \<Rightarrow> ([], s)
      | (Ended None, s) \<Rightarrow> ([], s\<lparr>su_closed := True\<rparr>)
      | (Ended (Some e), s) \<Rightarrow>
          if isPermanent e then ([], (setErr (sub_err e) s)\<lparr>su_closed := True\<rparr>)
          else if sr_pause r = Cancelled then ([backoff], s\<lparr>su_closed := True\<rparr>)
          else (let (ps, s) = sub_runLoop url (next_backoff backoff) rs s in (backoff # ps, s)))"

definition new_subscription :: subscription where
  "new_subscription = \<lparr>su_events = [], su_hello = False, su_err = None, su_closed = False\<rparr>"

definition sub_run :: "(string \<Rightarrow> string + go_url) \<Rightarrow> sdk_client \<Rightarrow> subscribe_opts \<Rightarrow> sub_round list \<Rightarrow> duration list \<times> subscription" where
  "sub_run parse c opts rs = sub_runLoop (buildURL parse (sd_cfg c) opts) second rs new_subscription"

text \<open>
  \<^verbatim>\<open>Subscribe\<close> waits for the greeting or for its own context (\<open>ctx\<close>: the error of one that is
  done); when both are ready \<open>pick\<close> says which it takes. With the context's error it closes the subscription.
\<close>

definition Subscribe_wait :: "bool \<Rightarrow> string option \<Rightarrow> subscription \<Rightarrow> unit result option" where
  "Subscribe_wait pick ctx s = (if su_hello s \<and> (pick \<or> ctx = None) then Some (Inr ())
     else map_option (\<lambda>e. Inl (Ext e)) ctx)"

section \<open>Lemmas\<close>

subsection \<open>The query\<close>

lemma query_special:
  "c \<in> {CHR ''%'', CHR ''+'', CHR ''&'', CHR ''=''} \<Longrightarrow> \<not> unreserved c \<and> shouldEscape EncodeQueryComponent c"
  by (elim insertE emptyE; hypsubst) code_simp+

lemma escape_char_free: "c \<in> set (escape_char EncodeQueryComponent x) \<Longrightarrow> c \<noteq> CHR ''&'' \<and> c \<noteq> CHR ''=''"
  using upperhex_unreserved [OF nibbles(1), of x] upperhex_unreserved [OF nibbles(2), of x] query_special [of c]
  unfolding escape_char_def by (cases "x = CHR '' ''"; cases "shouldEscape EncodeQueryComponent x") auto

lemma escape_query_free: "CHR ''&'' \<notin> set (escape EncodeQueryComponent s)" "CHR ''='' \<notin> set (escape EncodeQueryComponent s)"
  using escape_char_free by (fastforce simp: escape_def)+

lemma unescape_query_char: "unescape_query (escape_char EncodeQueryComponent c @ s) = c # unescape_query s"
proof (cases "c = CHR '' ''")
  case False
  have "\<not> shouldEscape EncodeQueryComponent c \<Longrightarrow> c \<noteq> CHR ''%'' \<and> c \<noteq> CHR ''+''"
    using query_special [of c] by blast
  with False show ?thesis by (auto simp: escape_char_def unhex_upperhex nibbles)
qed (simp add: escape_char_def)

lemma unescape_query_escape: "unescape_query (escape EncodeQueryComponent s) = s"
  by (induction s) (simp_all add: escape_Cons unescape_query_char, simp add: escape_def)

lemma parse_encode_pair: "parse_pair (encode_pair p) = p"
proof -
  let ?k = "escape EncodeQueryComponent (fst p)" and ?v = "escape EncodeQueryComponent (snd p)"
  have "takeWhile (\<lambda>c. c \<noteq> CHR ''='') (?k @ CHR ''='' # ?v) = ?k" "dropWhile (\<lambda>c. c \<noteq> CHR ''='') (?k @ CHR ''='' # ?v) = CHR ''='' # ?v"
    using takeWhile_stop [of ?k "\<lambda>c. c \<noteq> CHR ''=''" "CHR ''=''" ?v] escape_query_free(2) [of "fst p"] by metis+
  then show ?thesis by (simp add: parse_pair_def encode_pair_def unescape_query_escape)
qed

lemma encode_pair_free: "CHR ''&'' \<notin> set (encode_pair p)" "encode_pair p \<noteq> []"
  using escape_query_free(1) by (simp_all add: encode_pair_def)

text \<open>The server reads the pairs that were encoded.\<close>

lemma parse_encode:
  "map parse_pair (filter (\<lambda>s. s \<noteq> []) (split_on CHR ''&'' (values_Encode q))) = query_pairs q"
proof (cases "query_pairs q = []")
  case False
  then have "split_on CHR ''&'' (values_Encode q) = map encode_pair (query_pairs q)"
    unfolding values_Encode_def by (intro split_join) (auto simp: encode_pair_free)
  then show ?thesis by (simp add: encode_pair_free filter_True parse_encode_pair comp_def)
qed (simp add: values_Encode_def)

lemma map_of_pairs:
  "distinct ks \<Longrightarrow> map_of (concat (map (\<lambda>k. map (Pair k) (f k)) ks)) k =
     (if k \<in> set ks \<and> f k \<noteq> [] then Some (hd (f k)) else None)"
proof (induction ks)
  case (Cons j ks)
  have "map_of (map (Pair j) vs) k = (if k = j \<and> vs \<noteq> [] then Some (hd vs) else None)" for vs :: "'b list"
    by (induction vs) auto
  with Cons show ?case by (auto simp: map_add_def split: option.splits)
qed simp

lemma query_get_encode:
  "query_get (values_Encode q) k = (case map_of q k of None \<Rightarrow> [] | Some vs \<Rightarrow> if vs = [] then [] else hd vs)"
proof -
  have "map_of (query_pairs q) k = (case map_of q k of None \<Rightarrow> None | Some vs \<Rightarrow> if vs = [] then None else Some (hd vs))"
    using map_of_eq_None_iff [of q k] unfolding query_pairs_def
    by (subst map_of_pairs) (auto split: option.splits)
  then show ?thesis by (simp add: query_get_def parse_encode split: option.splits)
qed

lemma map_of_set: "map_of (values_set k v q) j = (if j = k then Some [v] else map_of q j)"
  by (simp add: values_set_def update_conv')

subsection \<open>The pauses\<close>

lemma runLoop_first:
  "fst (sub_runLoop url b (r # rs) s) \<in> {[], [b]} \<or>
     (\<exists>t. fst (sub_runLoop url b (r # rs) s) = b # fst (sub_runLoop url (next_backoff b) rs t))"
  by (auto simp: Let_def split: outcome.splits option.splits prod.splits)
    ((metis fst_conv)+)?

lemma runLoop_pauses:
  "fst (sub_runLoop url b rs s) = map (\<lambda>k. (next_backoff ^^ k) b) [0..<length (fst (sub_runLoop url b rs s))] \<and>
     length (fst (sub_runLoop url b rs s)) \<le> length rs"
proof (induction rs arbitrary: b s)
  case (Cons r rs)
  have shift: "b # map (\<lambda>k. (next_backoff ^^ k) (next_backoff b)) [0..<n] = map (\<lambda>k. (next_backoff ^^ k) b) [0..<Suc n]" for n
    by (simp add: upt_conv_Cons map_Suc_upt [symmetric] funpow_swap1 del: upt_Suc)
  from runLoop_first [of url b r rs s] consider "fst (sub_runLoop url b (r # rs) s) \<in> {[], [b]}"
    | t where "fst (sub_runLoop url b (r # rs) s) = b # fst (sub_runLoop url (next_backoff b) rs t)" by blast
  then show ?case
  proof cases
    case 2
    with Cons.IH [of "next_backoff b" t] shift show ?thesis by (metis Suc_le_mono length_Cons)
  qed auto
qed simp

lemma backoff_steps:
  "next_backoff second = 2 * second" "next_backoff (2 * second) = 4 * second" "next_backoff (4 * second) = 8 * second"
  "next_backoff (8 * second) = 16 * second" "next_backoff (16 * second) = 30 * second" "next_backoff (30 * second) = 30 * second"
  by code_simp+

lemma backoff_value: "sint ((next_backoff ^^ k) second) = min (2 ^ k) 30 * 1000000000"
proof (cases "k < 5")
  case True
  then consider "k = 0" | "k = 1" | "k = 2" | "k = 3" | "k = 4" by linarith
  then show ?thesis by cases (simp_all add: eval_nat_numeral backoff_steps [simplified])
next
  case False
  have "(next_backoff ^^ (5 + j)) second = 30 * second" for j
  proof (induction j)
    case 0
    have "(5 :: nat) = Suc (Suc (Suc (Suc (Suc 0))))" by simp
    then show ?case by (simp only: funpow.simps comp_apply id_apply add_0_right backoff_steps)
  next
    case (Suc j)
    then show ?case by (simp only: add_Suc_right funpow.simps comp_apply backoff_steps)
  qed
  from this [of "k - 5"] False have "(next_backoff ^^ k) second = 30 * second" by simp
  moreover have "(2 :: int) ^ 5 \<le> 2 ^ k" using False by (intro power_increasing) simp_all
  moreover have "sint (30 * second) = 30000000000" by code_simp
  ultimately show ?thesis by simp
qed

subsection \<open>What ends the loop\<close>

text \<open>A connection that never dials leaves everything as it was and is no permanent error.\<close>

lemma runOnce_undialled:
  "at_dial a = Some e \<Longrightarrow> sub_runOnce (Inr u) a s = (Ended (Some (OtherErr (Ext e))), s)"
  by (simp add: sub_runOnce_def)

lemma runLoop_undialled:
  "list_all (\<lambda>r. \<not> sr_cancelled r \<and> sr_pause r = Elapsed \<and> at_dial (sr_attempt r) \<noteq> None) rs \<Longrightarrow>
     length (fst (sub_runLoop (Inr u) b rs s)) = length rs \<and> snd (sub_runLoop (Inr u) b rs s) = s"
proof (induction rs arbitrary: b)
  case (Cons r rs)
  then obtain e where "at_dial (sr_attempt r) = Some e" by auto
  from runOnce_undialled [OF this] Cons show ?case by (simp add: Let_def split_beta)
qed simp

lemma read_loop_keeps:
  "read_loop rs s = (x, s') \<Longrightarrow> su_err s' = su_err s \<and> su_closed s' = su_closed s \<and>
     (\<forall>e. x = Ended (Some (PermanentErr e)) \<longrightarrow> (\<exists>m. e = Ext m \<and> Broken StatusPolicyViolation m \<in> set rs))"
  by (induction rs s rule: read_loop.induct) (fastforce split: if_splits)+

lemma runOnce_keeps:
  "sub_runOnce url a s = (x, s') \<Longrightarrow> su_err s' = su_err s \<and> su_closed s' = su_closed s \<and>
     (\<forall>e. x = Ended (Some (PermanentErr e)) \<longrightarrow>
        url = Inl e \<or> (\<exists>m. e = Ext m \<and> Broken StatusPolicyViolation m \<in> set (at_reads a)))"
  by (auto simp: sub_runOnce_def split: sum.splits option.splits dest: read_loop_keeps)

text \<open>The error is that of a URL that cannot be built or of a close with status 1008, and it closes the channel.\<close>

lemma runLoop_error:
  assumes "snd (sub_runLoop url b rs s) = s'" "su_err s = None" "su_err s' = Some e"
  shows "su_closed s' \<and> (url = Inl e \<or> (\<exists>r \<in> set rs. \<exists>m. e = Ext m \<and>
    Broken StatusPolicyViolation m \<in> set (at_reads (sr_attempt r))))"
  using assms
proof (induction rs arbitrary: b s)
  case (Cons r rs)
  obtain x s1 where o: "sub_runOnce url (sr_attempt r) s = (x, s1)" by fastforce
  note k = runOnce_keeps [OF o]
  show ?case
  proof (cases x)
    case Running
    with Cons.prems o k show ?thesis by (auto split: if_splits)
  next
    case (Ended y)
    show ?thesis
    proof (cases y)
      case None
      with Ended Cons.prems o k show ?thesis by (auto split: if_splits)
    next
      case (Some z)
      show ?thesis
      proof (cases z)
        case (PermanentErr e')
        with Ended Some Cons.prems o k show ?thesis by (auto simp: setErr_def split: if_splits)
      next
        case (OtherErr e')
        with Ended Some Cons.prems o k Cons.IH [of "next_backoff b" s1] show ?thesis
          by (auto simp: split_beta Let_def split: if_splits)
      qed
    qed
  qed
qed simp

section \<open>Properties\<close>

text \<open>
  Property C38. A subscription never hammers the server, whatever happens to its connections: the first pause before a
  new connection is one second, each later one twice the last, and none is over thirty seconds; there is at most one
  per connection. The count is over all connections made: one that succeeded does not start it again.
\<close>

theorem reconnect_pauses:
  "length (fst (sub_run parse c opts rs)) \<le> length rs \<and>
   map sint (fst (sub_run parse c opts rs)) =
     map (\<lambda>k. min (2 ^ k) 30 * 1000000000) [0..<length (fst (sub_run parse c opts rs))]"
proof -
  have "map sint (map (\<lambda>k. (next_backoff ^^ k) second) [0..<n]) = map (\<lambda>k. min (2 ^ k) 30 * 1000000000) [0..<n]" for n
    by (simp add: backoff_value)
  with runLoop_pauses [of "buildURL parse (sd_cfg c) opts" second rs new_subscription] show ?thesis
    unfolding sub_run_def by metis
qed

lemma buildURL_query:
  assumes "buildURL parse cfg opts = Inr u" "parse (trim_right CHR ''/'' (cf_url cfg)) = Inr v" "gu_query v = []"
  defines "get \<equiv> query_get (values_Encode (gu_query u))"
  shows "get ''api_key'' = cf_key cfg \<and> get ''table'' = so_table opts \<and> get ''user_id'' = so_user_id opts"
proof -
  have "gu_query u = (let q = values_set ''api_key'' (cf_key cfg) [];
      q = (if so_table opts = [] then q else values_set ''table'' (so_table opts) q)
    in if so_user_id opts = [] then q else values_set ''user_id'' (so_user_id opts) q)"
    using assms(1-3) by (auto simp: buildURL_def Let_def split: option.splits if_splits)
  then show ?thesis unfolding get_def query_get_encode by (simp add: Let_def map_of_set)
qed

lemma query_bearer: "rq_auth r = [] \<Longrightarrow> bearerOrQuery r = rq_query r ''api_key''"
  by (simp add: bearerOrQuery_def ExtractBearer_def)

text \<open>
  Property C20. What the server reads from the URL a subscription dials is what the subscription was given, whatever
  bytes they hold: the connection is opened with the client's API key, and shows only the changes of the table and of
  the user asked for, in the schema of the live project the key belongs to.
\<close>

theorem subscribe_request:
  assumes "parse (trim_right CHR ''/'' (cf_url cfg)) = Inr v" "gu_query v = []" "buildURL parse cfg opts = Inr u"
    and "rq_auth r = []" "rq_query r = query_get (values_Encode (gu_query u))"
    and "subscribe_h E accept i r h w = (Subscribed f, h', w')"
  shows "gu_scheme u \<in> {''ws'', ''wss''} \<and> gu_path u = ''/v1/subscribe'' \<and>
    f_table f = so_table opts \<and> f_user_id f = so_user_id opts \<and>
    (\<exists>k p. k \<in> set (api_keys (wdb w)) \<and> k_revoked k = None \<and> Verify E (cf_key cfg) (k_hash k) = Inr () \<and>
      p \<in> set (projects (wdb w)) \<and> p_id p = k_project k \<and> p_deleted p = None \<and> f_schema f = p_schema p)"
proof -
  have "gu_scheme u \<in> {''ws'', ''wss''} \<and> gu_path u = ''/v1/subscribe''"
    using assms(1,3) by (auto simp: buildURL_def Let_def split: option.splits if_splits)
  with buildURL_query [OF assms(3,1,2)] query_bearer [OF assms(4)] subscribe_h_Subscribed [OF assms(6)] assms(5)
  show ?thesis by fastforce
qed

text \<open>
  Property C39. A subscription with a key the server refuses never ends by itself: every connection fails to dial, which
  counts as transient, so that after any number of refusals the channel is open, there is no error to read, and
  \<^verbatim>\<open>Subscribe\<close> has not returned; it does so only when its context ends. A dial fails when the
  server does not upgrade (\<^verbatim>\<open>websocket.Dial\<close>).
\<close>

theorem rejected_key_retries:
  assumes "parse (trim_right CHR ''/'' (cf_url (sd_cfg c))) = Inr v" "gu_query v = []"
    and "buildURL parse (sd_cfg c) opts = Inr u"
    and "rq_auth r = []" "rq_query r = query_get (values_Encode (gu_query u))"
    and dial: "list_all2 (\<lambda>a (h, w). \<not> sr_cancelled a \<and> sr_pause a = Elapsed \<and>
      (\<forall>st msg. fst (subscribe_h E True i r h w) = Refused st msg \<longrightarrow> at_dial (sr_attempt a) \<noteq> None)) rs ws"
    and refused: "\<forall>(h, w) \<in> set ws. \<forall>k \<in> set (api_keys (wdb w)).
      k_revoked k = None \<longrightarrow> Verify E (cf_key (sd_cfg c)) (k_hash k) \<noteq> Inr ()"
  shows "\<exists>ps. sub_run parse c opts rs = (ps, new_subscription) \<and> length ps = length rs \<and>
    su_err new_subscription = None \<and> \<not> su_closed new_subscription \<and>
    (\<forall>pick ctx. Subscribe_wait pick ctx new_subscription = map_option (\<lambda>e. Inl (Ext e)) ctx)"
proof -
  have "\<exists>st msg. fst (subscribe_h E True i r h w) = Refused st msg" if "(h, w) \<in> set ws" for h w
  proof (cases "fst (subscribe_h E True i r h w)")
    case (Subscribed f)
    then obtain h' w' where "subscribe_h E True i r h w = (Subscribed f, h', w')" by (metis prod.collapse)
    from subscribe_h_Subscribed [OF this] buildURL_query [OF assms(3,1,2)] query_bearer [OF assms(4)] assms(5) refused that
    show ?thesis by fastforce
  next
    case NotUpgraded
    then show ?thesis by (auto simp: subscribe_h_def Let_def split: if_splits prod.splits sum.splits)
  qed simp
  with dial have "list_all (\<lambda>a. \<not> sr_cancelled a \<and> sr_pause a = Elapsed \<and> at_dial (sr_attempt a) \<noteq> None) rs"
  proof (induction rule: list_all2_induct)
    case (Cons a rs x ws)
    obtain h w where x: "x = (h, w)" by fastforce
    from Cons.prems [of h w] Cons.hyps(1) have "\<not> sr_cancelled a \<and> sr_pause a = Elapsed \<and> at_dial (sr_attempt a) \<noteq> None"
      unfolding x by auto
    with Cons show ?case by simp
  qed simp
  from runLoop_undialled [OF this, of u second new_subscription] assms(3) show ?thesis
    by (intro exI [of _ "fst (sub_run parse c opts rs)"])
      (auto simp: sub_run_def Subscribe_wait_def new_subscription_def intro: prod_eqI)
qed

section \<open>Witnesses\<close>

definition demo_url :: "string \<Rightarrow> string + go_url" where
  "demo_url s = Inr \<lparr>gu_scheme = ''http'', gu_auth = ''localhost:8080'', gu_path = [], gu_query = [], gu_frag = []\<rparr>"

definition demo_subscriber :: "string \<Rightarrow> sdk_client" where
  "demo_subscriber key = \<lparr>sd_cfg = \<lparr>cf_url = ''http://localhost:8080/'', cf_key = key\<rparr>,
     sd_schema = ''p_demo'', sd_user = [], sd_root = True\<rparr>"

definition demo_opts :: subscribe_opts where
  "demo_opts = \<lparr>so_table = ''pwrap_documents'', so_user_id = ''a&b=c d''\<rparr>"

definition demo_ws_request :: "string \<Rightarrow> request" where
  "demo_ws_request key = demo_request\<lparr>rq_auth := [], rq_query := query_get (values_Encode (gu_query
     (projr (buildURL demo_url (sd_cfg (demo_subscriber key)) demo_opts))))\<rparr>"

lemma demo_buildURL: "\<exists>u. buildURL demo_url (sd_cfg (demo_subscriber key)) demo_opts = Inr u \<and>
    rq_query (demo_ws_request key) = query_get (values_Encode (gu_query u)) \<and> rq_auth (demo_ws_request key) = []"
  by (simp add: demo_ws_request_def buildURL_def demo_url_def Let_def)

lemma rejected_key_retries_witness:
  "\<exists>ps. sub_run demo_url (demo_subscriber ''pwk_gone'') demo_opts (replicate 9 \<lparr>sr_cancelled = False,
       sr_attempt = \<lparr>at_dial = Some ''401'', at_hello = None, at_reads = []\<rparr>, sr_pause = Elapsed\<rparr>) = (ps, new_subscription) \<and>
     length ps = 9"
proof -
  obtain u where u: "buildURL demo_url (sd_cfg (demo_subscriber ''pwk_gone'')) demo_opts = Inr u"
    "rq_query (demo_ws_request ''pwk_gone'') = query_get (values_Encode (gu_query u))" "rq_auth (demo_ws_request ''pwk_gone'') = []"
    using demo_buildURL by blast
  have v: "demo_url (trim_right CHR ''/'' (cf_url (sd_cfg (demo_subscriber ''pwk_gone'')))) =
      Inr \<lparr>gu_scheme = ''http'', gu_auth = ''localhost:8080'', gu_path = [], gu_query = [], gu_frag = []\<rparr>"
    by (simp add: demo_url_def)
  let ?rs = "replicate 9 \<lparr>sr_cancelled = False,
       sr_attempt = \<lparr>at_dial = Some ''401'', at_hello = None, at_reads = []\<rparr>, sr_pause = Elapsed\<rparr>"
  let ?ws = "replicate 9 (NewHub, world_of empty_db)"
  have d: "list_all2 (\<lambda>a (h, w). \<not> sr_cancelled a \<and> sr_pause a = Elapsed \<and>
      (\<forall>st msg. fst (subscribe_h demo_env True 5 (demo_ws_request ''pwk_gone'') h w) = Refused st msg \<longrightarrow>
         at_dial (sr_attempt a) \<noteq> None)) ?rs ?ws"
    by (simp add: list_all2_conv_all_nth)
  have "\<forall>(h, w) \<in> set ?ws. \<forall>k \<in> set (api_keys (wdb w)). k_revoked k = None \<longrightarrow>
      Verify demo_env (cf_key (sd_cfg (demo_subscriber ''pwk_gone''))) (k_hash k) \<noteq> Inr ()"
    by (simp add: world_of_def empty_db_def)
  from rejected_key_retries [OF v _ u(1) u(3) u(2) d this] show ?thesis by auto
qed

lemma subscribe_request_witness:
  "\<exists>r w f h' w'. subscribe_h demo_env True 5 r NewHub w = (Subscribed f, h', w') \<and>
     f_table f = ''pwrap_documents'' \<and> f_user_id f = ''a&b=c d''"
proof -
  obtain k :: issued_key and w1 where i: "keys_Issue demo_env 7 ''ci'' (world_of demo_db) = (Inr k, w1)"
    and v: "fst (keys_Verify demo_env (ik_plaintext k) w1) = Inr (7, ak_id (ik_key k))"
    using demo_key_verifies by blast
  from v obtain w2 where v2: "keys_Verify demo_env (ik_plaintext k) w1 = (Inr (7, ak_id (ik_key k)), w2)"
    by (cases "keys_Verify demo_env (ik_plaintext k) w1") auto
  from keys_Issue_frame [OF i] have "projects (wdb w1) = [demo_project]" by (auto simp: world_of_def demo_db_def)
  with keys_Verify_frame [OF v2] have "projects (wdb w2) = [demo_project]" by auto
  then have g: "projects_Get demo_env 7 w2 = (Inr (project_columns demo_project), w2\<lparr>tick := Suc (tick w2)\<rparr>)"
    by (simp add: projects_Get_Inr select_one_def demo_project_def)
  have ne: "ik_plaintext k \<noteq> []" using keys_Issue_plaintext [OF i] by (auto simp: KeyPrefix_def)
  let ?c = "sd_cfg (demo_subscriber (ik_plaintext k))" and ?r = "demo_ws_request (ik_plaintext k)"
  obtain u where u: "buildURL demo_url ?c demo_opts = Inr u"
    "rq_query ?r = query_get (values_Encode (gu_query u))" "rq_auth ?r = []" using demo_buildURL by blast
  have v: "demo_url (trim_right CHR ''/'' (cf_url ?c)) =
      Inr \<lparr>gu_scheme = ''http'', gu_auth = ''localhost:8080'', gu_path = [], gu_query = [], gu_frag = []\<rparr>"
    by (simp add: demo_url_def)
  have key: "bearerOrQuery ?r = ik_plaintext k"
    using query_bearer [OF u(3)] u(2) buildURL_query [OF u(1) v] by (simp add: demo_subscriber_def)
  obtain f h' w' where s: "subscribe_h demo_env True 5 ?r NewHub w1 = (Subscribed f, h', w')"
    by (simp add: subscribe_h_def key ne v2 g Let_def)
  have "f_table f = ''pwrap_documents'' \<and> f_user_id f = ''a&b=c d''"
    using subscribe_request [OF v _ u(1) u(3) u(2) s] by (simp add: demo_opts_def)
  with s show ?thesis by blast
qed

end
