(* ===== verification/Conformance.thy ===== *)
theory Conformance
  imports Conf_Scenarios Sdk_Subscribe
begin

text \<open>
  \<^verbatim>\<open>conformance/go/main.go\<close>, the runner: the projects it makes for its scenarios through the control plane, the
  clients it connects, and the report. The HTTP transport, JSON, the schema a pool is connected to and what a subscription
  delivers are parameters. The lemmas: what each step asks the control plane for, so that every project is deleted again.
\<close>

section \<open>The control plane\<close>

datatype conf_event = Change string | Closed "goerr option" | Timeout

text \<open>
  \<open>cv_unique\<close> is a project's name with its random suffix, \<open>cv_name\<close> the body \<^verbatim>\<open>{"name": n}\<close>,
  \<open>cv_project\<close> and \<open>cv_key\<close> the decoders of the two replies that are read (a missing field is zero),
  \<open>cv_id\<close> the text of an id. \<open>cv_schema\<close> is the content of the schema and \<open>cv_session\<close> the session behind a
  DSN; \<open>cv_subscribe\<close> the error of \<^verbatim>\<open>Subscribe\<close>, \<open>cv_event\<close> what the select on its channel gives
  after an insertion. \<open>cv_lower\<close> is \<^verbatim>\<open>strings.ToLower\<close> beyond ASCII, \<open>cv_report\<close> the error of writing
  the report.
\<close>

record 's conf_net =
  cv_url :: string
  cv_token :: string
  cv_http :: "'s transport"
  cv_unique :: "string \<Rightarrow> string"
  cv_name :: "string \<Rightarrow> string"
  cv_project :: "string \<Rightarrow> string + uuid"
  cv_key :: "string \<Rightarrow> string + string"
  cv_id :: "uuid \<Rightarrow> string"
  cv_rest_body :: "string \<Rightarrow> int \<Rightarrow> string"
  cv_rest :: "string \<Rightarrow> string + rest_token"
  cv_schema :: "string \<Rightarrow> tworld"
  cv_session :: "string \<Rightarrow> pg_session"
  cv_data :: conf_data
  cv_subscribe :: "sdk_client \<Rightarrow> subscribe_opts \<Rightarrow> goerr option"
  cv_event :: conf_event
  cv_lower :: "string \<Rightarrow> string"
  cv_report :: "(string \<times> string) list \<Rightarrow> string option"

text \<open>The result is what was decoded, nothing when there was nothing to decode into or to decode.\<close>

definition adminDo :: "'s conf_net \<Rightarrow> string \<Rightarrow> string \<Rightarrow> string option \<Rightarrow> (string \<Rightarrow> string + 'a) option \<Rightarrow> 's \<Rightarrow>
    (goerr + 'a option) \<times> 's" where
  "adminDo V method path body out s =
     (case tp_new (cv_http V) (cv_url V @ path) of Some e \<Rightarrow> (Inl (Ext e), s)
      | None \<Rightarrow> (case tp_do (cv_http V) method (cv_url V @ path) (''Bearer '' @ cv_token V) body s of
          (Inl e, s) \<Rightarrow> (Inl (Ext e), s)
        | (Inr (status, b), s) \<Rightarrow>
            if 400 \<le> status
            then (Inl (Msg (method @ '' '' @ path @ '': '' @ tp_status (cv_http V) status @ '' '' @ trim_space b)), s)
            else (case out of None \<Rightarrow> (Inr None, s)
              | Some dec \<Rightarrow> if status = 204 then (Inr None, s)
                  else (case dec b of Inl e \<Rightarrow> (Inl (Ext e), s) | Inr x \<Rightarrow> (Inr (Some x), s)))))"

definition wrap :: "string \<Rightarrow> (goerr + 'a) \<times> 's \<Rightarrow> (goerr + 'a) \<times> 's" where
  "wrap msg r = (case r of (Inl e, s) \<Rightarrow> (Inl (Wrap msg e), s) | (Inr x, s) \<Rightarrow> (Inr x, s))"

definition andThen :: "(goerr + 'a) \<times> 's \<Rightarrow> ('a \<Rightarrow> 's \<Rightarrow> (goerr + 'b) \<times> 's) \<Rightarrow> (goerr + 'b) \<times> 's" where
  "andThen r f = (case r of (Inl e, s) \<Rightarrow> (Inl e, s) | (Inr x, s) \<Rightarrow> f x s)"

definition createProject :: "'s conf_net \<Rightarrow> string \<Rightarrow> 's \<Rightarrow> (goerr + uuid) \<times> 's" where
  "createProject V name s = wrap ''create project: ''
     (andThen (adminDo V ''POST'' ''/v1/projects'' (Some (cv_name V (cv_unique V name))) (Some (cv_project V)) s)
       (\<lambda>out s. (Inr (case out of None \<Rightarrow> 0 | Some i \<Rightarrow> i), s)))"

definition deleteProject :: "'s conf_net \<Rightarrow> uuid \<Rightarrow> 's \<Rightarrow> (goerr + unit) \<times> 's" where
  "deleteProject V i s = andThen (adminDo V ''DELETE'' (''/v1/projects/'' @ cv_id V i) None (None :: (string \<Rightarrow> string + unit) option) s)
     (\<lambda>_ s. (Inr (), s))"

definition applyMigrations :: "'s conf_net \<Rightarrow> uuid \<Rightarrow> 's \<Rightarrow> (goerr + unit) \<times> 's" where
  "applyMigrations V i s = wrap ''apply migrations: ''
     (andThen (adminDo V ''POST'' (''/v1/projects/'' @ cv_id V i @ ''/migrations'') None (None :: (string \<Rightarrow> string + unit) option) s)
       (\<lambda>_ s. (Inr (), s)))"

definition issueKey :: "'s conf_net \<Rightarrow> uuid \<Rightarrow> 's \<Rightarrow> (goerr + string) \<times> 's" where
  "issueKey V i s = wrap ''issue key: ''
     (andThen (adminDo V ''POST'' (''/v1/projects/'' @ cv_id V i @ ''/keys'') (Some (cv_name V ''conformance'')) (Some (cv_key V)) s)
       (\<lambda>out s. (Inr (case out of None \<Rightarrow> [] | Some k \<Rightarrow> k), s)))"

definition applySQL :: "'s conf_net \<Rightarrow> uuid \<Rightarrow> string \<Rightarrow> 's \<Rightarrow> (goerr + unit) \<times> 's" where
  "applySQL V i body s =
     (let url = cv_url V @ ''/v1/projects/'' @ cv_id V i @ ''/sql'' in
      case tp_new (cv_http V) url of Some e \<Rightarrow> (Inl (Ext e), s)
      | None \<Rightarrow> (case tp_do (cv_http V) ''POST'' url (''Bearer '' @ cv_token V) (Some body) s of
          (Inl e, s) \<Rightarrow> (Inl (Ext e), s)
        | (Inr (status, b), s) \<Rightarrow>
            if 400 \<le> status then (Inl (Msg (tp_status (cv_http V) status @ '': '' @ trim_space b)), s) else (Inr (), s)))"

section \<open>Projects and clients\<close>

text \<open>The deferred deletion of a project; its error is ignored.\<close>

definition cleanup :: "'s conf_net \<Rightarrow> uuid \<Rightarrow> 'a \<times> 's \<Rightarrow> 'a \<times> 's" where
  "cleanup V i r = (case r of (x, s) \<Rightarrow> (x, snd (deleteProject V i s)))"

definition connect :: "'s conf_net \<Rightarrow> string \<Rightarrow> 's \<Rightarrow> (goerr + sdk_client \<times> shared) \<times> 's" where
  "connect V key s = New (cv_http V) \<lparr>cf_url = cv_url V, cf_key = key\<rparr> s"

text \<open>The client with the project that its \<^verbatim>\<open>cleanup\<close> deletes. Closing the client sends nothing.\<close>

definition newProjectClient :: "'s conf_net \<Rightarrow> string \<Rightarrow> 's \<Rightarrow> (goerr + (sdk_client \<times> shared) \<times> uuid) \<times> 's" where
  "newProjectClient V name s = andThen (createProject V name s) (\<lambda>i s.
     case applyMigrations V i s of (Inl e, s) \<Rightarrow> cleanup V i (Inl e, s)
     | (Inr _, s) \<Rightarrow> (case issueKey V i s of (Inl e, s) \<Rightarrow> cleanup V i (Inl e, s)
       | (Inr key, s) \<Rightarrow> (case connect V key s of (Inl e, s) \<Rightarrow> cleanup V i (Inl (Wrap ''connect: '' e), s)
         | (Inr c, s) \<Rightarrow> (Inr (c, i), s))))"

definition with_project_client ::
  "'s conf_net \<Rightarrow> string \<Rightarrow> (sdk_client \<times> shared \<Rightarrow> 's \<Rightarrow> (goerr + unit) \<times> 's) \<Rightarrow> 's \<Rightarrow> (goerr + unit) \<times> 's" where
  "with_project_client V name body s =
     andThen (newProjectClient V name s) (\<lambda>(c, i) s. cleanup V i (body c s))"

text \<open>A scenario that works on the schema only.\<close>

definition on_schema :: "'s conf_net \<Rightarrow> (sdk_client \<Rightarrow> tworld \<Rightarrow> unit tres) \<Rightarrow> sdk_client \<times> shared \<Rightarrow> 's \<Rightarrow> (goerr + unit) \<times> 's" where
  "on_schema V f x s = (fst (f (fst x) (cv_schema V (sh_dsn (snd x)))), s)"

definition scenarioMatviewRegisterRefresh :: "'s conf_net \<Rightarrow> 's \<Rightarrow> (goerr + unit) \<times> 's" where
  "scenarioMatviewRegisterRefresh V = with_project_client V ''conf-matview'' (\<lambda>x.
     on_schema V (matviewRegisterRefresh (cv_data V) (cv_session V (sh_dsn (snd x)))) x)"

definition restToken :: "'s conf_net \<Rightarrow> sdk_client \<times> shared \<Rightarrow> 's \<Rightarrow> (goerr + unit) \<times> 's" where
  "restToken V x s =
     andThen (wrap ''issue: '' (IssueRestToken (cv_http V) (cv_rest_body V) (cv_rest V) (fst x) ''someone'' 60 s)) (\<lambda>tok s.
       (if \<not> has_prefix ''ey'' (rt_token tok) then Inl (Msg (''token '' @ go_quote (rt_token tok) @ '' does not look like a JWT''))
        else if rt_url tok = [] then Inl (Msg ''empty url'')
        else if \<not> has_prefix ''p_'' (rt_role tok) then Inl (Msg (''role = '' @ go_quote (rt_role tok) @ '', want a p_ tenant role''))
        else Inr (), s))"

text \<open>\<^verbatim>\<open>strings.EqualFold(op, "INSERT")\<close>: the long s, U+017F, folds like an S.\<close>

fun fold_long_s :: "string \<Rightarrow> string" where
  "fold_long_s (c # d # s) = (if c = CHR 0xC5 \<and> d = CHR 0xBF then CHR ''s'' # fold_long_s s else ascii_lower c # fold_long_s (d # s))"
| "fold_long_s [c] = [ascii_lower c]"
| "fold_long_s [] = []"

definition realtimeSubscribe :: "'s conf_net \<Rightarrow> sdk_client \<times> shared \<Rightarrow> 's \<Rightarrow> (goerr + unit) \<times> 's" where
  "realtimeSubscribe V x s =
     (case cv_subscribe V (fst x) \<lparr>so_table = ''pwrap_documents'', so_user_id = []\<rparr> of
        Some e \<Rightarrow> (Inl (Wrap ''subscribe: '' e), s)
      | None \<Rightarrow> (case fst (sdk_Insert (cd_env (cv_data V)) (fst x) ''live'' (Inr (JObj [(''marker'', JStr ''realtime'')]))
            (cv_schema V (sh_dsn (snd x)))) of
          Inl e \<Rightarrow> (Inl (Wrap ''insert: '' e), s)
        | Inr _ \<Rightarrow> (case cv_event V of
            Closed err \<Rightarrow> (Inl (case err of Some e \<Rightarrow> Wrap ''event channel closed before an event arrived: '' e
                | None \<Rightarrow> Msg ''event channel closed before an event arrived: %!w(<nil>)''), s)
          | Change op \<Rightarrow> (if fold_long_s op = ''insert'' then Inr () else Inl (Msg (''op = '' @ go_quote op @ '', want INSERT'')), s)
          | Timeout \<Rightarrow> (Inl (Msg ''timed out waiting for the change event''), s))))"

definition scenarioSchemaVersionGuard :: "'s conf_net \<Rightarrow> 's \<Rightarrow> (goerr + unit) \<times> 's" where
  "scenarioSchemaVersionGuard V s = andThen (createProject V ''conf-unmigrated'' s) (\<lambda>i s.
     cleanup V i (andThen (issueKey V i s) (\<lambda>key s.
       case connect V key s of
         (Inr _, s) \<Rightarrow> (Inl (Msg ''connected to an unmigrated project, want an error''), s)
       | (Inl e, s) \<Rightarrow>
           (if str_contains ''migration'' (to_lower (cv_lower V) (err_text e)) then Inr ()
            else Inl (Msg (''error '' @ go_quote (err_text e) @ '' does not mention migrations'')), s))))"

text \<open>\<open>rlsPolicySQL\<close> is the text of the policy of theory Sdk\_Policy.\<close>

definition scenarioRLSWithUser :: "'s conf_net \<Rightarrow> string \<Rightarrow> 's \<Rightarrow> (goerr + unit) \<times> 's" where
  "scenarioRLSWithUser V rlsPolicySQL s = andThen (createProject V ''conf-rls'' s) (\<lambda>i s.
     cleanup V i (andThen (applyMigrations V i s) (\<lambda>_ s.
       andThen (wrap ''apply rls: '' (applySQL V i rlsPolicySQL s)) (\<lambda>_ s.
       andThen (issueKey V i s) (\<lambda>key s.
       andThen (wrap ''connect: '' (connect V key s)) (\<lambda>x. on_schema V (rlsWithUser (cv_data V)) x))))))"

definition scenarioMatviewRefreshAcrossCredentials :: "'s conf_net \<Rightarrow> 's \<Rightarrow> (goerr + unit) \<times> 's" where
  "scenarioMatviewRefreshAcrossCredentials V s = andThen (createProject V ''conf-matview-cred'' s) (\<lambda>i s.
     cleanup V i (andThen (applyMigrations V i s) (\<lambda>_ s.
       andThen (issueKey V i s) (\<lambda>key s.
       andThen (wrap ''connect first: '' (connect V key s)) (\<lambda>(c, sh) s.
         case matviewFirst (cv_data V) (cv_session V (sh_dsn sh)) (cv_schema V (sh_dsn sh)) of
           (Inl e, _) \<Rightarrow> (Inl e, s)
         | (Inr _, w) \<Rightarrow> andThen (wrap ''connect second: '' (connect V key s)) (\<lambda>(c, sh) s.
             (fst (matviewSecond (cv_data V) (cv_session V (sh_dsn sh)) w), s)))))))"

section \<open>The run\<close>

definition scenarios :: "'s conf_net \<Rightarrow> string \<Rightarrow> (string \<times> ('s \<Rightarrow> (goerr + unit) \<times> 's)) list" where
  "scenarios V rlsPolicySQL = (let D = cv_data V in
    [(''table_crud'', with_project_client V ''conf-table-crud'' (on_schema V (tableCRUD D))),
     (''table_batch'', with_project_client V ''conf-table-batch'' (on_schema V (tableBatch D))),
     (''vector_upsert_search'', with_project_client V ''conf-vector'' (on_schema V (\<lambda>_. vectorUpsertSearch D))),
     (''vector_dim_validation'', with_project_client V ''conf-vector-dim'' (on_schema V (\<lambda>_. vectorDimValidation D))),
     (''queue_enqueue_stats'', with_project_client V ''conf-queue'' (on_schema V (\<lambda>_. queueEnqueueStats D))),
     (''geo_radius_nearest'', with_project_client V ''conf-geo'' (on_schema V (geoRadiusNearest D))),
     (''rest_token'', with_project_client V ''conf-rest-token'' (restToken V)),
     (''schema_version_guard'', scenarioSchemaVersionGuard V),
     (''rls_with_user'', scenarioRLSWithUser V rlsPolicySQL),
     (''realtime_subscribe'', with_project_client V ''conf-realtime'' (realtimeSubscribe V)),
     (''matview_register_refresh'', scenarioMatviewRegisterRefresh V),
     (''matview_refresh_across_credentials'', scenarioMatviewRefreshAcrossCredentials V)])"

text \<open>The results by scenario, the lines printed, and how many failed.\<close>

fun run_scenarios :: "(string \<times> ('s \<Rightarrow> (goerr + unit) \<times> 's)) list \<Rightarrow> 's \<Rightarrow> (string \<times> string) list \<times> string list \<times> nat \<times> 's" where
  "run_scenarios [] s = ([], [], 0, s)"
| "run_scenarios ((i, f) # fs) s = (case f s of (r, s) \<Rightarrow> (case run_scenarios fs s of (results, out, failed, s) \<Rightarrow>
     (case r of Inl e \<Rightarrow> ((i, ''fail: '' @ err_text e) # results, (''FAIL '' @ i @ '': '' @ err_text e) # out, Suc failed, s)
      | Inr _ \<Rightarrow> ((i, ''pass'') # results, (''ok   '' @ i) # out, failed, s))))"

definition conf_run :: "'s conf_net \<Rightarrow> string \<Rightarrow> 's \<Rightarrow> nat \<times> string list \<times> 's" where
  "conf_run V rlsPolicySQL s = (case run_scenarios (scenarios V rlsPolicySQL) s of (results, out, failed, s) \<Rightarrow>
     case cv_report V results of Some e \<Rightarrow> (1, out, s)
     | None \<Rightarrow> (let n = length (scenarios V rlsPolicySQL) in
         (if 0 < failed then 1 else 0, out @ [[], ''go: '' @ show_nat (n - failed) @ ''/'' @ show_nat n @ '' scenarios passed''], s)))"

end
