(* ===== verification/Conf_Tidy.thy ===== *)
theory Conf_Tidy
  imports Conformance
begin

text \<open>
  What the conformance run leaves on the control plane: a transport that records the exchanges, and a calculus of steps
  that create no project, and of scenarios that delete every project they create.
\<close>

section \<open>The exchanges\<close>

type_synonym exchange_log = "(string \<times> string \<times> (string + nat \<times> string)) list"

definition recorded :: "'s transport \<Rightarrow> (exchange_log \<times> 's) transport" where
  "recorded T = \<lparr>tp_new = tp_new T, tp_do = (\<lambda>m u a b (l, s). case tp_do T m u a b s of (r, s) \<Rightarrow> (r, (l @ [(m, u, r)], s))),
     tp_status = tp_status T, tp_conn = tp_conn T, tp_open = tp_open T,
     tp_ping = (\<lambda>d (l, s). case tp_ping T d s of (e, s) \<Rightarrow> (e, (l, s)))\<rparr>"

text \<open>The projects whose creation was answered, in order, and the URLs that were asked to be deleted.\<close>

definition creation :: "'s conf_net \<Rightarrow> string \<times> string \<times> (string + nat \<times> string) \<Rightarrow> uuid list" where
  "creation V x = (case x of (m, u, r) \<Rightarrow> if m = ''POST'' \<and> u = cv_url V @ ''/v1/projects''
     then (case r of Inl _ \<Rightarrow> [] | Inr (st, b) \<Rightarrow> if 400 \<le> st then [] else if st = 204 then [0]
         else (case cv_project V b of Inl _ \<Rightarrow> [] | Inr i \<Rightarrow> [i])) else [])"

definition creations :: "'s conf_net \<Rightarrow> exchange_log \<Rightarrow> uuid list" where
  "creations V l = concat (map (creation V) l)"

definition deletions :: "exchange_log \<Rightarrow> string list" where
  "deletions l = map (\<lambda>(m, u, r). u) (filter (\<lambda>(m, u, r). m = ''DELETE'') l)"

definition project_url :: "'s conf_net \<Rightarrow> uuid \<Rightarrow> string" where
  "project_url V i = cv_url V @ ''/v1/projects/'' @ cv_id V i"

lemma log_append [simp]:
  "creations V (l @ k) = creations V l @ creations V k" "deletions (l @ k) = deletions l @ deletions k"
  "creations V [] = []" "deletions [] = []"
  by (simp_all add: creations_def deletions_def)

section \<open>Quiet steps\<close>

definition quiet :: "'s conf_net \<Rightarrow> (exchange_log \<times> 't \<Rightarrow> 'a \<times> exchange_log \<times> 't) \<Rightarrow> bool" where
  "quiet V f \<longleftrightarrow> (\<forall>l s r l' s'. f (l, s) = (r, (l', s')) \<longrightarrow> (\<exists>k. l' = l @ k \<and> creations V k = [] \<and> deletions k = []))"

named_theorems quiet_intros "steps that neither create nor delete a project"

lemma quiet_ret [quiet_intros]: "quiet V (\<lambda>s. (x, s))"
  by (simp add: quiet_def)

lemma quiet_wrap [quiet_intros]: "quiet V f \<Longrightarrow> quiet V (\<lambda>s. wrap m (f s))"
  unfolding quiet_def wrap_def by (fastforce split: prod.splits sum.splits)

lemma quiet_then [quiet_intros]:
  assumes "quiet V f" "\<And>x. quiet V (g x)"
  shows "quiet V (\<lambda>s. andThen (f s) g)"
  unfolding quiet_def
proof (intro allI impI)
  fix l s r l' s' assume a: "andThen (f (l, s)) g = (r, (l', s'))"
  obtain y l1 s1 where f: "f (l, s) = (y, (l1, s1))" by (metis prod_cases3)
  with assms(1) obtain k where k: "l1 = l @ k" "creations V k = []" "deletions k = []" unfolding quiet_def by blast
  show "\<exists>k. l' = l @ k \<and> creations V k = [] \<and> deletions k = []"
  proof (cases y)
    case (Inr x)
    with a f have "g x (l1, s1) = (r, (l', s'))" by (simp add: andThen_def)
    with assms(2) [of x] obtain k' where "l' = l1 @ k'" "creations V k' = []" "deletions k' = []" unfolding quiet_def by blast
    with k show ?thesis by (intro exI [of _ "k @ k'"]) simp
  qed (use a f k in \<open>auto simp: andThen_def\<close>)
qed

lemma quiet_pair [quiet_intros]: "(\<And>a b. quiet V (f a b)) \<Longrightarrow> quiet V (case x of (a, b) \<Rightarrow> f a b)"
  by (cases x) simp

text \<open>A request is quiet unless it is a deletion or the creation itself.\<close>

definition plain :: "'s conf_net \<Rightarrow> string \<Rightarrow> string \<Rightarrow> bool" where
  "plain V m u \<longleftrightarrow> m \<noteq> ''DELETE'' \<and> (m = ''POST'' \<longrightarrow> u \<noteq> cv_url V @ ''/v1/projects'')"

lemma plain_entry: "plain V m u \<Longrightarrow> creations V [(m, u, r)] = [] \<and> deletions [(m, u, r)] = []"
  by (auto simp: plain_def creations_def creation_def deletions_def)

lemma plain_urls: "plain V ''POST'' (cv_url V @ ''/v1/projects/'' @ p)" "plain V ''POST'' (b @ ''/v1/connection'')"
  "plain V ''POST'' (b @ ''/v1/rest/token'')"
proof -
  have "b @ ''/v1/connection'' \<noteq> u @ ''/v1/projects''" for b u
  proof
    assume "b @ ''/v1/connection'' = u @ ''/v1/projects''"
    from arg_cong [OF this, of last] show False by simp
  qed
  moreover have "b @ ''/v1/rest/token'' \<noteq> u @ ''/v1/projects''" for b u
  proof
    assume "b @ ''/v1/rest/token'' = u @ ''/v1/projects''"
    from arg_cong [OF this, of last] show False by simp
  qed
  ultimately show "plain V ''POST'' (cv_url V @ ''/v1/projects/'' @ p)" "plain V ''POST'' (b @ ''/v1/connection'')"
    "plain V ''POST'' (b @ ''/v1/rest/token'')" by (simp_all add: plain_def)
qed

lemma adminDo_log:
  assumes "cv_http V = recorded T" "\<forall>u. tp_new T u = None" "adminDo V m p b out (l, s) = (r, (l', s'))"
  shows "\<exists>x. l' = l @ [(m, cv_url V @ p, x)] \<and> (case x of Inl _ \<Rightarrow> \<exists>e. r = Inl e
     | Inr (st, t) \<Rightarrow> if 400 \<le> st then \<exists>e. r = Inl e
         else case out of None \<Rightarrow> r = Inr None | Some dec \<Rightarrow> if st = 204 then r = Inr None
           else case dec t of Inl e \<Rightarrow> r = Inl (Ext e) | Inr y \<Rightarrow> r = Inr (Some y))"
  using assms
  by (auto simp: adminDo_def recorded_def split: prod.splits sum.splits if_splits option.splits)

lemma quiet_admin:
  assumes "cv_http V = recorded T" "\<forall>u. tp_new T u = None" "plain V m (cv_url V @ p)"
  shows "quiet V (adminDo V m p b out)"
  unfolding quiet_def
proof (intro allI impI)
  fix l s r l' s' assume "adminDo V m p b out (l, s) = (r, (l', s'))"
  from adminDo_log [OF assms(1,2) this] plain_entry [OF assms(3)]
  show "\<exists>k. l' = l @ k \<and> creations V k = [] \<and> deletions k = []" by blast
qed

lemma quiet_applySQL:
  assumes "cv_http V = recorded T" "\<forall>u. tp_new T u = None"
  shows "quiet V (applySQL V i b)"
  unfolding quiet_def applySQL_def Let_def assms(1)
  using assms(2) plain_entry [OF plain_urls(1)]
  by (auto simp: recorded_def split: prod.splits sum.splits if_splits)

lemma quiet_connect:
  assumes "cv_http V = recorded T" "\<forall>u. tp_new T u = None"
  shows "quiet V (connect V key)"
  unfolding quiet_def connect_def New_def exchange_def Let_def assms(1)
  using assms(2) plain_entry [OF plain_urls(2)]
  by (auto simp: recorded_def split: prod.splits sum.splits if_splits option.splits)

lemma quiet_rest:
  assumes "cv_http V = recorded T" "\<forall>u. tp_new T u = None"
  shows "quiet V (IssueRestToken (cv_http V) f g c u n)"
  unfolding quiet_def IssueRestToken_def Let_def assms(1)
  using assms(2) plain_entry [OF plain_urls(3)]
  by (auto simp: recorded_def split: prod.splits sum.splits if_splits option.splits)

section \<open>Tidy scenarios\<close>

definition tidy :: "'s conf_net \<Rightarrow> (exchange_log \<times> 't \<Rightarrow> 'a \<times> exchange_log \<times> 't) \<Rightarrow> bool" where
  "tidy V f \<longleftrightarrow> (\<forall>l s r l' s'. f (l, s) = (r, (l', s')) \<longrightarrow>
     (\<exists>k. l' = l @ k \<and> deletions k = map (project_url V) (creations V k)))"

lemma creation_log:
  assumes "cv_http V = recorded T" "\<forall>u. tp_new T u = None" "createProject V name (l, s) = (r, (l', s'))"
  shows "\<exists>k. l' = l @ k \<and> deletions k = [] \<and> creations V k = (case r of Inl _ \<Rightarrow> [] | Inr i \<Rightarrow> [i])"
proof -
  obtain y l1 s1 where d: "adminDo V ''POST'' ''/v1/projects'' (Some (cv_name V (cv_unique V name))) (Some (cv_project V)) (l, s) = (y, (l1, s1))"
    by (metis prod_cases3)
  from adminDo_log [OF assms(1,2) d, unfolded option.case] obtain x where l1: "l1 = l @ [(''POST'', cv_url V @ ''/v1/projects'', x)]"
    and x: "case x of Inl _ \<Rightarrow> \<exists>e. y = Inl e
     | Inr (st, t) \<Rightarrow> if 400 \<le> st then \<exists>e. y = Inl e
         else if st = 204 then y = Inr None else case cv_project V t of Inl e \<Rightarrow> y = Inl (Ext e) | Inr z \<Rightarrow> y = Inr (Some z)"
    by blast
  from assms(3) d have "l' = l1" and r: "r = (case y of Inl e \<Rightarrow> Inl (Wrap ''create project: '' e) | Inr z \<Rightarrow> Inr (case z of None \<Rightarrow> 0 | Some i \<Rightarrow> i))"
    by (cases y; auto simp: createProject_def andThen_def wrap_def)+
  with l1 x show ?thesis
    by (intro exI [of _ "[(''POST'', cv_url V @ ''/v1/projects'', x)]"])
      (auto simp: creations_def creation_def deletions_def split: sum.splits prod.splits if_splits)
qed

lemma cleanup_log:
  assumes "cv_http V = recorded T" "\<forall>u. tp_new T u = None" "cleanup V i (x, (l, s)) = (r, (l', s'))"
  shows "\<exists>k. l' = l @ k \<and> creations V k = [] \<and> deletions k = [project_url V i]"
proof -
  obtain y l1 s1 where d: "adminDo V ''DELETE'' (''/v1/projects/'' @ cv_id V i) None (None :: (string \<Rightarrow> string + unit) option) (l, s) = (y, (l1, s1))"
    by (metis prod_cases3)
  from adminDo_log [OF assms(1,2) d] obtain z where "l1 = l @ [(''DELETE'', cv_url V @ ''/v1/projects/'' @ cv_id V i, z)]" by blast
  moreover from assms(3) d have "l' = l1" by (cases y) (simp_all add: cleanup_def deleteProject_def andThen_def)
  ultimately show ?thesis
    by (intro exI [of _ "[(''DELETE'', cv_url V @ ''/v1/projects/'' @ cv_id V i, z)]"])
      (auto simp: creations_def creation_def deletions_def project_url_def)
qed

lemma tidy_project:
  assumes "cv_http V = recorded T" "\<forall>u. tp_new T u = None" "\<And>i. quiet V (g i)"
  shows "tidy V (\<lambda>s. andThen (createProject V name s) (\<lambda>i s. cleanup V i (g i s)))"
  unfolding tidy_def
proof (intro allI impI)
  fix l s r l' s' assume a: "andThen (createProject V name (l, s)) (\<lambda>i s. cleanup V i (g i s)) = (r, (l', s'))"
  obtain y l1 s1 where c: "createProject V name (l, s) = (y, (l1, s1))" by (metis prod_cases3)
  from creation_log [OF assms(1,2) c] obtain k where
    k: "l1 = l @ k" "deletions k = []" "creations V k = (case y of Inl _ \<Rightarrow> [] | Inr i \<Rightarrow> [i])" by blast
  show "\<exists>k. l' = l @ k \<and> deletions k = map (project_url V) (creations V k)"
  proof (cases y)
    case (Inl e)
    with a c k show ?thesis by (auto simp: andThen_def)
  next
    case (Inr i)
    obtain x l2 s2 where g: "g i (l1, s1) = (x, (l2, s2))" by (metis prod_cases3)
    with assms(3) obtain k2 where k2: "l2 = l1 @ k2" "creations V k2 = []" "deletions k2 = []" unfolding quiet_def by blast
    from a c g Inr have "cleanup V i (x, (l2, s2)) = (r, (l', s'))" by (simp add: andThen_def)
    from cleanup_log [OF assms(1,2) this] obtain k3 where
      "l' = l2 @ k3" "creations V k3 = []" "deletions k3 = [project_url V i]" by blast
    with k k2 Inr show ?thesis by (intro exI [of _ "k @ k2 @ k3"]) simp
  qed
qed

text \<open>A scenario on a new client has this form.\<close>

lemma with_project_client_form:
  "with_project_client V name body = (\<lambda>s. andThen (createProject V name s) (\<lambda>i s. cleanup V i (
     andThen (applyMigrations V i s) (\<lambda>_ s. andThen (issueKey V i s) (\<lambda>key s.
       andThen (wrap ''connect: '' (connect V key s)) body)))))"
  by (rule ext) (auto simp: with_project_client_def newProjectClient_def andThen_def wrap_def cleanup_def split: prod.splits sum.splits)

lemma quiet_steps:
  assumes "cv_http V = recorded T" "\<forall>u. tp_new T u = None"
  shows "quiet V (applyMigrations V i)" "quiet V (issueKey V i)" "quiet V (applySQL V i b)" "quiet V (connect V key)"
    "quiet V (IssueRestToken (cv_http V) f g c u n)"
proof -
  show "quiet V (applyMigrations V i)" unfolding applyMigrations_def [abs_def]
    by (intro quiet_intros quiet_admin [OF assms] plain_urls(1))
  show "quiet V (issueKey V i)" unfolding issueKey_def [abs_def]
    by (intro quiet_intros quiet_admin [OF assms] plain_urls(1))
qed (rule quiet_applySQL [OF assms] quiet_connect [OF assms] quiet_rest [OF assms])+

lemma tidy_client:
  assumes "cv_http V = recorded T" "\<forall>u. tp_new T u = None" "\<And>x. quiet V (body x)"
  shows "tidy V (with_project_client V name body)"
  unfolding with_project_client_form
  by (intro tidy_project [OF assms(1,2)] quiet_intros quiet_steps [OF assms(1,2)] assms(3))

lemma quiet_schema [quiet_intros]: "quiet V (on_schema V f x)"
  by (simp add: quiet_def on_schema_def)

lemma quiet_realtime: "quiet V (realtimeSubscribe V x)"
  by (auto simp: quiet_def realtimeSubscribe_def split: option.splits sum.splits conf_event.splits if_splits)

lemma tidy_guard:
  assumes "cv_http V = recorded T" "\<forall>u. tp_new T u = None"
  shows "tidy V (scenarioSchemaVersionGuard V)"
proof -
  have "quiet V (\<lambda>s. case connect V key s of
         (Inr _, s) \<Rightarrow> (Inl (Msg ''connected to an unmigrated project, want an error''), s)
       | (Inl e, s) \<Rightarrow>
           (if str_contains ''migration'' (to_lower (cv_lower V) (err_text e)) then Inr ()
            else Inl (Msg (''error '' @ go_quote (err_text e) @ '' does not mention migrations'')), s))" for key
    using quiet_steps(4) [OF assms, of key] unfolding quiet_def by (fastforce split: prod.splits sum.splits)
  then show ?thesis unfolding scenarioSchemaVersionGuard_def [abs_def]
    by (intro tidy_project [OF assms] quiet_intros quiet_steps [OF assms])
qed

lemma tidy_across:
  assumes "cv_http V = recorded T" "\<forall>u. tp_new T u = None"
  shows "tidy V (scenarioMatviewRefreshAcrossCredentials V)"
proof -
  have two: "quiet V (\<lambda>s. case matviewFirst D S w of (Inl e, _) \<Rightarrow> (Inl e, s)
         | (Inr _, w) \<Rightarrow> andThen (wrap ''connect second: '' (connect V key s)) (\<lambda>(c, sh) s.
             (fst (matviewSecond D (cv_session V (sh_dsn sh)) w), s)))" for D S w key
  proof (cases "matviewFirst D S w")
    case (Pair r w')
    have "quiet V (\<lambda>s. andThen (wrap ''connect second: '' (connect V key s)) (\<lambda>(c, sh) s.
             (fst (matviewSecond D (cv_session V (sh_dsn sh)) w'), s)))"
      by (intro quiet_intros quiet_steps [OF assms])
    with Pair show ?thesis by (cases r) (simp_all add: quiet_ret)
  qed
  show ?thesis unfolding scenarioMatviewRefreshAcrossCredentials_def [abs_def]
    by (intro tidy_project [OF assms] quiet_intros quiet_steps [OF assms] two)
qed

lemma tidy_run:
  assumes "\<forall>(i, f) \<in> set fs. tidy V f" "run_scenarios fs (l, s) = (results, out, failed, (l', s'))"
  shows "\<exists>k. l' = l @ k \<and> deletions k = map (project_url V) (creations V k)"
  using assms
proof (induction fs arbitrary: l s results out failed)
  case (Cons x fs)
  obtain i f where x: "x = (i, f)" by fastforce
  obtain r l1 s1 where f: "f (l, s) = (r, (l1, s1))" by (metis prod_cases3)
  obtain results1 out1 failed1 where rest: "run_scenarios fs (l1, s1) = (results1, out1, failed1, (l', s'))"
    using Cons.prems(2) x f by (cases r) (auto split: prod.splits)
  have "tidy V f" using Cons.prems(1) x by simp
  with f obtain k where k: "l1 = l @ k" "deletions k = map (project_url V) (creations V k)"
    unfolding tidy_def by blast
  from Cons.IH [OF _ rest] Cons.prems(1) obtain k' where "l' = l1 @ k'" "deletions k' = map (project_url V) (creations V k')" by auto
  with k show ?case by (intro exI [of _ "k @ k'"]) simp
qed simp

lemma scenarios_tidy:
  assumes "cv_http V = recorded T" "\<forall>u. tp_new T u = None"
  shows "\<forall>(i, f) \<in> set (scenarios V policy). tidy V f"
proof -
  have rls: "tidy V (scenarioRLSWithUser V policy)" unfolding scenarioRLSWithUser_def [abs_def]
    by (intro tidy_project [OF assms] quiet_intros quiet_steps [OF assms])
  have rest: "quiet V (restToken V x)" for x unfolding restToken_def [abs_def]
    by (intro quiet_intros quiet_steps [OF assms])
  show ?thesis unfolding scenarios_def Let_def
    by (auto simp: scenarioMatviewRegisterRefresh_def rls tidy_guard [OF assms] tidy_across [OF assms]
        intro!: tidy_client [OF assms] quiet_schema quiet_realtime rest)
qed

section \<open>Properties\<close>

text \<open>
  Property C40. The conformance run cleans up after itself: however its scenarios end, the projects it asked the control
  plane to delete are exactly those whose creation was answered, each once and in the order they were created, so that
  nothing is left of a failed scenario as long as the deletions are granted.
\<close>

theorem conformance_cleans_up:
  assumes "cv_http V = recorded T" "\<forall>u. tp_new T u = None" "conf_run V policy ([], s) = (code, out, (l, s'))"
  shows "deletions l = map (project_url V) (creations V l)"
proof -
  from assms(3) obtain results out' failed where "run_scenarios (scenarios V policy) ([], s) = (results, out', failed, (l, s'))"
    by (auto simp: conf_run_def Let_def split: prod.splits option.splits)
  from tidy_run [OF scenarios_tidy [OF assms(1,2)] this] show ?thesis by auto
qed

section \<open>Witnesses\<close>

text \<open>A control plane that creates every project as number seven and fails at everything else.\<close>

definition demo_http :: "unit transport" where
  "demo_http = \<lparr>tp_new = (\<lambda>_. None), tp_do = (\<lambda>m u a b s. (Inr (if u = ''http://c/v1/projects'' then 201 else 500, []), s)),
     tp_status = (\<lambda>_. []), tp_conn = (\<lambda>_. Inl []), tp_open = (\<lambda>_. None), tp_ping = (\<lambda>_ s. (None, s))\<rparr>"

definition demo_net :: "(exchange_log \<times> unit) conf_net" where
  "demo_net = \<lparr>cv_url = ''http://c'', cv_token = ''pwa_x'', cv_http = recorded demo_http, cv_unique = id, cv_name = id,
     cv_project = (\<lambda>_. Inr 7), cv_key = Inr, cv_id = (\<lambda>_. ''7''), cv_rest_body = (\<lambda>_ _. []), cv_rest = (\<lambda>_. Inl []),
     cv_schema = (\<lambda>_. demo_tworld), cv_session = demo_session, cv_data = demo_conf, cv_subscribe = (\<lambda>_ _. None),
     cv_event = Timeout, cv_lower = id, cv_report = (\<lambda>_. None)\<rparr>"

definition demo_log :: "string \<Rightarrow> exchange_log" where
  "demo_log step = [(''POST'', ''http://c/v1/projects'', Inr (201, [])), (''POST'', ''http://c/v1/projects/7'' @ step, Inr (500, [])),
     (''DELETE'', ''http://c/v1/projects/7'', Inr (500, []))]"

lemmas demo_net_simps = adminDo_def createProject_def applyMigrations_def issueKey_def deleteProject_def cleanup_def andThen_def wrap_def
  demo_net_def demo_http_def recorded_def demo_log_def

lemma demo_scenarios:
  "\<exists>e. with_project_client demo_net name body (l, ()) = (Inl e, (l @ demo_log ''/migrations'', ()))"
  "\<exists>e. scenarioSchemaVersionGuard demo_net (l, ()) = (Inl e, (l @ demo_log ''/keys'', ()))"
  "\<exists>e. scenarioRLSWithUser demo_net p (l, ()) = (Inl e, (l @ demo_log ''/migrations'', ()))"
  "\<exists>e. scenarioMatviewRefreshAcrossCredentials demo_net (l, ()) = (Inl e, (l @ demo_log ''/migrations'', ()))"
  by (simp_all add: with_project_client_def newProjectClient_def scenarioSchemaVersionGuard_def scenarioRLSWithUser_def
      scenarioMatviewRefreshAcrossCredentials_def demo_net_simps)

lemma demo_fails:
  assumes "\<forall>(i, f) \<in> set fs. \<forall>l. \<exists>e step. f (l, ()) = (Inl e, (l @ demo_log step, ()))"
  shows "\<exists>k results out. run_scenarios fs (l, ()) = (results, out, length fs, (l @ k, ())) \<and>
    creations demo_net k = replicate (length fs) 7"
  using assms
proof (induction fs arbitrary: l)
  case (Cons x fs)
  obtain i f where x: "x = (i, f)" by fastforce
  with Cons.prems obtain e step where f: "f (l, ()) = (Inl e, (l @ demo_log step, ()))" by fastforce
  have c: "creations demo_net (demo_log step) = [7]" by (simp add: creations_def creation_def demo_log_def demo_net_def)
  have "\<forall>(i, f) \<in> set fs. \<forall>l. \<exists>e step. f (l, ()) = (Inl e, (l @ demo_log step, ()))" using Cons.prems by simp
  from Cons.IH [OF this, of "l @ demo_log step"] obtain results out k where
    "run_scenarios fs (l @ demo_log step, ()) = (results, out, length fs, ((l @ demo_log step) @ k, ()))"
    "creations demo_net k = replicate (length fs) 7" by blast
  with f x c show ?case by (intro exI [of _ "demo_log step @ k"]) simp
qed simp

lemma demo_report: "cv_report demo_net results = None"
  by (simp add: demo_net_def)

lemma conformance_cleans_up_witness:
  "\<exists>out l. conf_run demo_net [] ([], ()) = (1, out, (l, ())) \<and> creations demo_net l = replicate 12 7 \<and>
     deletions l = replicate 12 ''http://c/v1/projects/7''"
proof -
  have "\<forall>(i, f) \<in> set (scenarios demo_net []). \<forall>l. \<exists>e step. f (l, ()) = (Inl e, (l @ demo_log step, ()))"
    unfolding scenarios_def Let_def scenarioMatviewRegisterRefresh_def using demo_scenarios by simp blast
  moreover have n: "length (scenarios demo_net []) = 12" by (simp add: scenarios_def Let_def)
  ultimately obtain results out l where "run_scenarios (scenarios demo_net []) ([], ()) = (results, out, 12, (l, ()))"
    and c: "creations demo_net l = replicate 12 7" using demo_fails [of "scenarios demo_net []" "[]"] by auto
  then obtain out' where r: "conf_run demo_net [] ([], ()) = (1, out', (l, ()))"
    using demo_report by (simp add: conf_run_def Let_def)
  have "cv_http demo_net = recorded demo_http" "\<forall>u. tp_new demo_http u = None" by (simp_all add: demo_net_def demo_http_def)
  from conformance_cleans_up [OF this r] r c have "deletions l = map (project_url demo_net) (replicate 12 7)" by simp
  with r c show ?thesis by (simp add: project_url_def demo_net_def)
qed

end
