(* ===== verification/Spec2Isabelle.thy ===== *)
theory Spec2Isabelle
  imports Daemon Tracer Cli_Server Sdk_Connect Sdk_Capture Conf_Tidy
begin

text \<open>
  pwrap is a control plane for Postgres: it gives every project a role and a schema of its own, hands out
  API keys for it, and exchanges a key for a short-lived login. This development models the daemon
  \<^verbatim>\<open>pwrapd\<close> (\<^verbatim>\<open>cmd/pwrapd\<close>, \<^verbatim>\<open>internal\<close>), the command line \<^verbatim>\<open>pwrap\<close>
  (\<^verbatim>\<open>cmd/pwrap\<close>) and the Go SDK (\<^verbatim>\<open>sdk/go/pwrap\<close>), which exchanges the key and works on the
  project's schema, as functions on an explicit state, with the theorems that say what they promise.

  The state. A \<open>world\<close> (theory \<open>Database\<close>) holds the tables of
  \<^verbatim>\<open>migrations/controlplane/0001_init.up.sql\<close> as lists of records, the server's catalogue (roles,
  schemas, tenant tables, settings), and two counters: of round trips to the database and of reads of
  randomness. An \<open>env\<close> holds what the code calls and does not define: which round trip fails and how, the
  random bytes, the clocks, argon2, SHA-256, the UUID and JSON parsers, SQL run on a tenant's connection, River.
  A Go function that may fail is a function to \<open>(goerr + 'a) \<times> world\<close>; a statement of SQL is one round
  trip that may fail (\<open>sql\<close>), \<open>in_tx\<close> is a transaction with its rollback, \<open>and_then\<close> the
  return on error. Errors are values: sentinels that \<^verbatim>\<open>errors.Is\<close> finds under any wrapping, library
  errors, messages. Durations are \<^typ>\<open>64 word\<close>, so that their products wrap around as in Go. Strings are lists
  of bytes.

  The SDK works on another state: a \<open>tworld\<close> (theory \<open>Tenant_Data\<close>) is the content of a project's schema, the
  tables of \<^verbatim>\<open>migrations/tenant/0001_init.up.sql\<close> with the triggers on them, and the count of round trips; a
  \<open>tenv\<close> says which of them fail, the ids the server makes and its clock. The client itself (\<open>shared\<close>) is its
  pools by identity, the DSN and the expiry; what it exchanges with the control plane goes through a
  \<open>transport\<close>, which theory \<open>Sdk_Connect\<close> instantiates with \<open>Router\<close>.

  The theories, in the order of their imports:
  \<^item> \<open>Prelude\<close>, \<open>Go_Strings\<close>, \<open>Base64\<close>: errors, durations, the functions of
    \<^verbatim>\<open>strings\<close>, \<^verbatim>\<open>strconv\<close> and \<^verbatim>\<open>encoding/base64\<close> the code uses, with their round trips.
  \<^item> \<open>Database\<close>, \<open>Quoting\<close>, \<open>Postgres\<close>: the tables, the quoting of identifiers and literals, the
    DDL statements with their text and their effect on the catalogue (identifiers cut to 63 bytes, roles that
    cannot be dropped while they own something).
  \<^item> \<open>Http\<close>: requests, replies, the bearer token (\<^verbatim>\<open>internal/auth/bearer.go\<close>).
  \<^item> \<open>Keys\<close>, \<open>Credentials\<close>, \<open>Key_Service\<close>: API keys (\<^verbatim>\<open>controlplane/keys\<close>): generation,
    argon2id encoding, issue, list, revoke, verify, the handlers and \<^verbatim>\<open>auth.APIKeyAuth\<close>. The locale
    \<open>credential_store\<close> states what a store of revocable credentials promises; API keys and admin tokens both
    interpret it.
  \<^item> \<open>Auth\<close>, \<open>Admin_Tokens\<close>: the bootstrap check, the rate limiter with its eviction; scoped admin
    tokens, the scope and audit middlewares, the pruning of the audit log.
  \<^item> \<open>Crypto\<close>: the field cipher (\<^verbatim>\<open>internal/crypto\<close>); the locale \<open>field_cipher\<close> is the contract
    of the Go interface, interpreted by both implementations.
  \<^item> \<open>Authsetup\<close>, \<open>Projects\<close>: the PostgREST roles and the list of exposed schemas; creation and
    removal of projects, credentials, re-encryption.
  \<^item> \<open>Config\<close>, \<open>Dsn\<close>, \<open>Tenancy\<close>: configuration, connection strings, ephemeral logins: mint,
    sweep, exchange.
  \<^item> \<open>Sql_Apply\<close>, \<open>Migrations\<close>, \<open>Branches\<close>, \<open>Rest_Tokens\<close>, \<open>Realtime\<close>: the SQL
    escape hatch, the migration runner and its log, branches with their copies, JWTs for PostgREST, the hub of
    change events and the WebSocket session.
  \<^item> \<open>Frame\<close>: a calculus for what an operation leaves alone, one rule per way steps are composed; with it,
    that no management operation touches the admin tokens or the audit log.
  \<^item> \<open>Server\<close>: \<^verbatim>\<open>NewServer\<close>, the routes with their guards, and \<^verbatim>\<open>Router\<close>, which composes
    all handlers and middlewares.
  \<^item> \<open>Telemetry\<close>, \<open>Tracer\<close>, \<open>Daemon\<close>: the exporters and their shutdown, the pool and its spans;
    start-up, housekeeping and shutdown of the process.
  \<^item> \<open>Neon\<close>: the client of the Neon API.
  \<^item> \<open>Go_Flag\<close>, \<open>Cli\<close>, \<open>Cli_Server\<close>: the package \<^verbatim>\<open>flag\<close>; the commands from their
    arguments to the exit status; the requests they send against the routes of \<open>Server\<close>.
  \<^item> \<open>Tenant_Data\<close>: JSON values with the \<^verbatim>\<open>jsonb\<close> operators and Go's decoding, the tenant tables, the
    capture trigger, sessions and transactions, and the rules for operations that read only or change nothing when they
    fail.
  \<^item> \<open>Sdk_Client\<close>, \<open>Sdk_Connect\<close>: the SDK's client: \<^verbatim>\<open>New\<close>, \<^verbatim>\<open>Close\<close>, the refresh loop,
    \<^verbatim>\<open>run\<close> for a user, REST tokens; and the client against this repository's server.
  \<^item> \<open>Sdk_Table\<close>, \<open>Sdk_Capture\<close>, \<open>Sdk_Matview\<close>, \<open>Sdk_Queue\<close>, \<open>Sdk_Vector\<close>, \<open>Sdk_Geo\<close>: the
    collections of documents, capture on and off, the materialized views and their registry, the job queue, embeddings,
    geometries.
  \<^item> \<open>Sdk_Subscribe\<close>: the subscription's URL as the server reads it, its connections and the loop that
    reconnects.
  \<^item> \<open>Sdk_Policy\<close>: the row level security policy of \<^verbatim>\<open>conformance\<close> and
    \<^verbatim>\<open>examples/rls-notes\<close>, and the operations on documents under it.
  \<^item> \<open>Conf_Scenarios\<close>, \<open>Conformance\<close>, \<open>Conf_Tidy\<close>: \<^verbatim>\<open>conformance/go\<close>: what its scenarios do with
    their client, the projects and clients it makes for them, the report; what the run leaves behind.

  What the theorems show. Safety of the guards: no request reaches a management handler without a credential
  for its path, over the composed router, and every mutating one leaves a row in the audit log. Revocation is
  final for keys and tokens under every later operation, and deleting a project revokes its keys. Issued
  credentials verify (round trips over generation, encoding and the store). Provisioning is all or nothing.
  The migration log is a state machine whose final states are final. A sync makes the child a snapshot of its
  parent (a refinement of the abstract copy), a hub's channel is a bounded queue (a refinement of \<open>fifo\<close>),
  evicting idle limiter entries is invisible (an equivalence). Overflow of durations is stated with the exact
  bound where it first occurs. Theory \<open>Daemon\<close> says what holds once the daemon is up and when the process ends.
  Of the SDK: what a client holds after it connected to this server, and that it renews its login in time; that the
  change log replays to the documents of the table after any sequence of operations and failures, each change under
  its user; that the operations on documents, embeddings, geometries, jobs and views do what their names say (a batch
  upsert refines the update of a map, the embeddings stay well typed); what the server reads from a subscription's URL,
  how often it reconnects and what ends it. Of the command line: a command sends at most one request, to a mounted
  route and with the token of that route's guard, and its exit status and output tell whether it was granted; the
  calculus \<open>behaves\<close> has one rule for each way a command is put together. Of users: under the policy, what others do
  makes no difference to what a user is answered (noninterference, by confinement and by answers that depend on the
  user's own view only). Of the conformance run: on a server that answers its scenarios pass in the schema of every new
  project, and however they end every project it created is deleted again (\<open>quiet\<close> steps, \<open>tidy\<close> scenarios).

  Where a loop depends on the outside it is over a list of what happens: \<open>listen_loop\<close> over the
  notifications of a connection, \<open>session_loop\<close> over the ready cases of its select,
  \<open>housekeeping\<close> over the rounds of the timer. The result then says whether the loop has returned; no fuel
  is used. Concurrency is modelled where the code guards it: operations under the hub's and the limiter's mutex
  are atomic steps, and runs of them are arbitrary sequences. Two requests that interleave between their round
  trips are not modelled, except where a theorem quantifies over all states in between.

  Not modelled. The SDKs in other languages, the examples and the integration harness, which
  only call what is modelled. In the command line: what goes to standard error. In the daemon: logging, the chi
  middlewares for request ids, recovery and timeouts (a request that times out is one whose round trips fail), the
  text of JSON replies, the SQL inside the tenant migrations (a parameter of the runner). \<^verbatim>\<open>float64\<close> is a
  rational where it occurs. In the SDK: policies other than that of theory \<open>Sdk_Policy\<close>, capture on
  other tables than the documents (the triggers are recorded, their log rows are not), what is returned beside an
  error, NaN and infinite numbers, base URLs with an opaque part. The approximate scan of the vector index, PostGIS,
  and the analysis of a view's query are parameters. chi, pgx, argon2, AES-GCM, the JWT library and the WebSocket library are parameters;
  hypotheses such as \<open>aead_ok\<close> or \<open>rand_length\<close> say what the code relies on, and each theorem that has
  one comes with a witness at a concrete instance.
\<close>

end
